(* ===== verification/Prelude.thy ===== *)
theory Prelude
  imports "HOL-Library.Word"
begin

text \<open>
  The prelude of the rabbitstreamer development: the machine types of the code, the
  outcomes a C++ statement can have (a value or a fault), the little-endian layout of
  integers in memory, and the list facts the component theories share.

  The code is compiled for x86-64 Linux by \<open>common.mk\<close> (no \<open>NDEBUG\<close>, so every
  \<open>assert\<close> is live): integers are little-endian in memory, \<open>char\<close> is a byte.
  A statement whose behaviour the C++ standard leaves undefined is not given a made-up
  result: the model stops there with the fault that names the reason.
\<close>

section \<open>Machine types\<close>

type_synonym u8 = "8 word"
type_synonym u16 = "16 word"
type_synonym u32 = "32 word"
type_synonym u64 = "64 word"
type_synonym bytes = "8 word list"

text \<open>A C++ \<open>float\<close> is only ever copied by the code: it is carried as its 32 bits.\<close>

type_synonym float32 = "32 word"

section \<open>Outcomes\<close>

datatype fault =
    Assertion           \<comment> \<open>an \<open>assert\<close> of the code fails: the process aborts\<close>
  | Out_Of_Bounds       \<comment> \<open>a read or write outside the object\<close>
  | Overlapping_Copy    \<comment> \<open>\<open>memcpy\<close> between overlapping regions\<close>
  | Uninitialised       \<comment> \<open>use of an indeterminate pointer or value\<close>
  | Null_Pointer        \<comment> \<open>dereference of a null pointer\<close>
  | Div_By_Zero         \<comment> \<open>integer division by zero\<close>
  | Signed_Overflow     \<comment> \<open>overflow of a signed addition\<close>
  | Bad_Alloc           \<comment> \<open>\<open>new\<close> of a negative size throws, and nothing catches\<close>
  | Use_After_Free      \<comment> \<open>access to an object that has been destroyed\<close>

type_synonym 'a res = "fault + 'a"

named_theorems res_simps "evaluation of fallible computations"
named_theorems wire_simps "reading and writing of the wire format"

definition bindE :: "'a res \<Rightarrow> ('a \<Rightarrow> 'b res) \<Rightarrow> 'b res" where
  "bindE m f = (case m of Inl e \<Rightarrow> Inl e | Inr x \<Rightarrow> f x)"

definition assertE :: "bool \<Rightarrow> unit res" where
  "assertE P = (if P then Inr () else Inl Assertion)"

definition guardE :: "fault \<Rightarrow> bool \<Rightarrow> unit res" where
  "guardE e P = (if P then Inr () else Inl e)"

lemma bindE_Inl [simp, res_simps]: "bindE (Inl e) f = Inl e"
  by (simp add: bindE_def)

lemma bindE_Inr [simp, res_simps]: "bindE (Inr x) f = f x"
  by (simp add: bindE_def)

lemma bindE_assoc: "bindE (bindE m f) g = bindE m (\<lambda>x. bindE (f x) g)"
  by (cases m) auto

lemma bindE_eq_Inr: "bindE m f = Inr y \<longleftrightarrow> (\<exists>x. m = Inr x \<and> f x = Inr y)"
  by (cases m) auto

lemma bindE_eq_Inl: "bindE m f = Inl e \<longleftrightarrow> m = Inl e \<or> (\<exists>x. m = Inr x \<and> f x = Inl e)"
  by (cases m) auto

lemma bindE_cong [fundef_cong]:
  "m = m' \<Longrightarrow> (\<And>x. m' = Inr x \<Longrightarrow> f x = f' x) \<Longrightarrow> bindE m f = bindE m' f'"
  by (cases m') auto

lemma assertE_True [simp, res_simps]: "P \<Longrightarrow> assertE P = Inr ()"
  by (simp add: assertE_def)

lemma assertE_False [simp, res_simps]: "\<not> P \<Longrightarrow> assertE P = Inl Assertion"
  by (simp add: assertE_def)

lemma guardE_True [simp, res_simps]: "P \<Longrightarrow> guardE e P = Inr ()"
  by (simp add: guardE_def)

lemma guardE_False [simp, res_simps]: "\<not> P \<Longrightarrow> guardE e P = Inl e"
  by (simp add: guardE_def)

lemma assertE_eq_Inr: "assertE P = Inr u \<longleftrightarrow> P"
  by (simp add: assertE_def)

lemma guardE_eq_Inr: "guardE e P = Inr u \<longleftrightarrow> P"
  by (simp add: guardE_def)

lemmas res_invert = bindE_eq_Inr assertE_eq_Inr guardE_eq_Inr

text \<open>
  A computation that may also not return: \<open>None\<close> when the fuel of a loop ran out, or when a
  coroutine waits for input that never comes.
\<close>

definition bindO :: "'a res option \<Rightarrow> ('a \<Rightarrow> 'b res option) \<Rightarrow> 'b res option" where
  "bindO r f = (case r of None \<Rightarrow> None | Some (Inl e) \<Rightarrow> Some (Inl e) | Some (Inr x) \<Rightarrow> f x)"

lemma bindO_simps [simp]: "bindO None f = None" "bindO (Some (Inl e)) f = Some (Inl e)" "bindO (Some (Inr x)) f = f x"
  by (simp_all add: bindO_def)

lemma bindO_Inr: "bindO r f = Some (Inr y) \<longleftrightarrow> (\<exists>x. r = Some (Inr x) \<and> f x = Some (Inr y))"
  by (auto simp: bindO_def split: option.splits sum.splits)

section \<open>Signed 32-bit conversion\<close>

text \<open>The value of a number after conversion to the 32-bit \<open>int\<close> of the target.\<close>

definition wrap32 :: "int \<Rightarrow> int" where
  "wrap32 x = (x + 2 ^ 31) mod 2 ^ 32 - 2 ^ 31"

lemma wrap32_id: "- (2 ^ 31) \<le> x \<Longrightarrow> x < 2 ^ 31 \<Longrightarrow> wrap32 x = x"
  by (simp add: wrap32_def)

lemma wrap32_range: "- (2 ^ 31) \<le> wrap32 x \<and> wrap32 x < 2 ^ 31"
  by (simp add: wrap32_def)

lemma wrap32_add_left: "wrap32 (wrap32 x + y) = wrap32 (x + y)"
  unfolding wrap32_def by (simp add: mod_simps algebra_simps)

text \<open>The remainder of C++: it takes the sign of the dividend.\<close>

definition c_rem :: "int \<Rightarrow> int \<Rightarrow> int" where
  "c_rem a b = sgn a * (\<bar>a\<bar> mod \<bar>b\<bar>)"

lemma c_rem_nat: "c_rem (int a) (int b) = int (a mod b)"
  by (cases "a = 0") (simp_all add: c_rem_def zmod_int)

abbreviation int_max :: int where
  "int_max \<equiv> 2147483647"

lemma sint_of_int32:
  assumes "- (2 ^ 31) \<le> x" "x < 2 ^ 31"
  shows "sint (word_of_int x :: u32) = x"
  using assms by (simp add: sint_sbintrunc' signed_take_bit_int_eq_self)

section \<open>Integers in memory\<close>

fun le_bytes :: "nat \<Rightarrow> nat \<Rightarrow> bytes" where
  "le_bytes 0 x = []"
| "le_bytes (Suc n) x = word_of_nat (x mod 256) # le_bytes n (x div 256)"

fun le_val :: "bytes \<Rightarrow> nat" where
  "le_val [] = 0"
| "le_val (b # bs) = unat b + 256 * le_val bs"

definition enc :: "'a::len word \<Rightarrow> bytes" where
  "enc w = le_bytes (LENGTH('a) div 8) (unat w)"

definition dec :: "bytes \<Rightarrow> 'a::len word" where
  "dec bs = word_of_nat (le_val bs)"

lemma length_le_bytes [simp]: "length (le_bytes n x) = n"
  by (induction n arbitrary: x) auto

lemma le_val_le_bytes: "le_val (le_bytes n x) = x mod 256 ^ n"
proof (induction n arbitrary: x)
  case 0
  then show ?case by simp
next
  case (Suc n)
  have "unat (word_of_nat (x mod 256) :: u8) = x mod 256"
    by (simp add: unat_of_nat)
  then show ?case
    using Suc.IH[of "x div 256"] by (simp add: mod_mult2_eq)
qed

lemma le_bytes_le_val: "le_bytes (length bs) (le_val bs) = bs"
proof (induction bs)
  case Nil
  then show ?case by simp
next
  case (Cons b bs)
  have "unat b < 256" using unsigned_less[of b] by simp
  then show ?case using Cons.IH by simp
qed

lemma le_val_bound: "le_val bs < 256 ^ length bs"
proof (induction bs)
  case (Cons b bs)
  have "unat b < 256" using unsigned_less[of b] by simp
  moreover have "Suc (le_val bs) \<le> 256 ^ length bs" using Cons.IH by simp
  then have "256 * Suc (le_val bs) \<le> 256 * 256 ^ length bs" by simp
  ultimately show ?case by simp
qed simp

lemma length_enc: "length (enc (w :: 'a::len word)) = LENGTH('a) div 8"
  by (simp add: enc_def)

lemma length_enc8 [simp, wire_simps]: "length (enc (w :: u8)) = 1"
  and length_enc16 [simp, wire_simps]: "length (enc (w16 :: u16)) = 2"
  and length_enc32 [simp, wire_simps]: "length (enc (w32 :: u32)) = 4"
  and length_enc64 [simp, wire_simps]: "length (enc (w64 :: u64)) = 8"
  by (simp_all add: length_enc)

lemma dec_enc:
  assumes "8 dvd LENGTH('a)"
  shows "dec (enc (w :: 'a::len word)) = w"
proof -
  obtain k where k: "LENGTH('a) = 8 * k" using assms by (auto elim: dvdE)
  have "(256::nat) ^ k = 2 ^ LENGTH('a)"
    by (simp add: k power_mult)
  moreover have "unat w < 2 ^ LENGTH('a)" by (rule unsigned_less)
  ultimately show ?thesis
    by (simp add: dec_def enc_def le_val_le_bytes k)
qed

lemma dec_enc8 [simp, wire_simps]: "dec (enc (w :: u8)) = w"
  and dec_enc16 [simp, wire_simps]: "dec (enc (w16 :: u16)) = w16"
  and dec_enc32 [simp, wire_simps]: "dec (enc (w32 :: u32)) = w32"
  and dec_enc64 [simp, wire_simps]: "dec (enc (w64 :: u64)) = w64"
  by (simp_all add: dec_enc)

lemma enc_dec:
  assumes "LENGTH('a::len) = 8 * length bs"
  shows "enc (dec bs :: 'a word) = bs"
proof -
  have "le_val bs < 2 ^ LENGTH('a)"
    using le_val_bound[of bs] by (simp add: assms power_mult)
  then have "unat (dec bs :: 'a word) = le_val bs"
    by (simp add: dec_def unat_of_nat take_bit_nat_eq_self)
  then show ?thesis
    by (simp add: enc_def assms le_bytes_le_val)
qed

lemma enc8_singleton [wire_simps]: "enc (w :: u8) = [w]"
  by (simp add: enc_def unsigned_less[of w, simplified])

lemma dec_singleton [simp, wire_simps]: "dec [w :: u8] = w"
  using dec_enc8[of w] by (simp add: enc8_singleton)

lemma unat_u8: "unat (w :: u8) < 256"
  using unsigned_less[where 'a = nat, of w] by simp

lemma uint_u8: "uint (w :: u8) < 256"
  using uint_lt2p[of w] by simp

lemma uint_less_nat: "unat w < n \<Longrightarrow> uint w < int n"
  by (metis int_eq_iff_numeral of_nat_less_iff of_nat_unat)

section \<open>Lists\<close>

lemma length_concat_const: "(\<And>x. x \<in> set xs \<Longrightarrow> length (f x) = k) \<Longrightarrow>
    length (concat (map f xs)) = k * length xs"
  by (induction xs) auto

lemma take_append_exact: "length xs = n \<Longrightarrow> take n (xs @ ys) = xs"
  by simp

lemma drop_append_exact: "length xs = n \<Longrightarrow> drop n (xs @ ys) = ys"
  by simp

end
