(* ===== verification/C_String.thy ===== *)
theory C_String
  imports Prelude "HOL-Library.List_Lexorder"
begin

text \<open>
  The C string functions the code compares keys with, \<open>strncmp\<close> and \<open>strncasecmp\<close>
  (\<open><string.h>\<close>), over byte arrays, and the key that decides both: the bytes before the
  first NUL, at most \<open>n\<close> of them, case-folded for \<open>strncasecmp\<close>.

  Every array the code compares is longer than \<open>n\<close>, so no comparison leaves it; a
  missing byte reads as the NUL that would stop the comparison.
\<close>

definition byte_at :: "bytes \<Rightarrow> u8" where
  "byte_at xs = (case xs of [] \<Rightarrow> 0 | x # _ \<Rightarrow> x)"

text \<open>\<open>tolower\<close> in the C locale.\<close>

definition to_lower :: "u8 \<Rightarrow> u8" where
  "to_lower c = (if 65 \<le> c \<and> c \<le> 90 then c + 32 else c)"

fun str_cmp :: "(u8 \<Rightarrow> u8) \<Rightarrow> nat \<Rightarrow> bytes \<Rightarrow> bytes \<Rightarrow> int" where
  "str_cmp f 0 xs ys = 0"
| "str_cmp f (Suc n) xs ys =
     (let a = f (byte_at xs); b = f (byte_at ys)
      in if a \<noteq> b then int (unat a) - int (unat b)
         else if a = 0 then 0
         else str_cmp f n (tl xs) (tl ys))"

definition strncmp :: "nat \<Rightarrow> bytes \<Rightarrow> bytes \<Rightarrow> int" where
  "strncmp n xs ys = str_cmp id n xs ys"

definition strncasecmp :: "nat \<Rightarrow> bytes \<Rightarrow> bytes \<Rightarrow> int" where
  "strncasecmp n xs ys = str_cmp to_lower n xs ys"

definition str_key :: "(u8 \<Rightarrow> u8) \<Rightarrow> nat \<Rightarrow> bytes \<Rightarrow> bytes" where
  "str_key f n xs = map f (takeWhile (\<lambda>c. c \<noteq> 0) (take n xs))"

abbreviation case_key :: "nat \<Rightarrow> bytes \<Rightarrow> bytes" where
  "case_key \<equiv> str_key to_lower"

lemma to_lower_0_iff: "to_lower c = 0 \<longleftrightarrow> c = 0"
proof (cases "65 \<le> c \<and> c \<le> 90")
  case True
  then have "unat (c + 32) = unat c + 32"
    by (simp add: unat_word_ariths word_le_nat_alt)
  then have "c + 32 \<noteq> 0" by (metis add_eq_0_iff_both_eq_0 unat_0 zero_neq_numeral)
  moreover have "c \<noteq> 0" using True by auto
  ultimately show ?thesis by (simp add: to_lower_def)
qed (auto simp: to_lower_def)

lemma str_key_Suc:
  "str_key f (Suc n) xs =
     (if byte_at xs = 0 then [] else f (byte_at xs) # str_key f n (tl xs))"
  by (cases xs) (auto simp: str_key_def byte_at_def)

lemma str_cmp_key:
  assumes f0: "\<And>c. f c = 0 \<longleftrightarrow> c = 0"
  shows "(str_cmp f n xs ys < 0 \<longleftrightarrow> str_key f n xs < str_key f n ys) \<and>
         (str_cmp f n xs ys = 0 \<longleftrightarrow> str_key f n xs = str_key f n ys)"
proof (induction n arbitrary: xs ys)
  case 0
  then show ?case by (simp add: str_key_def)
next
  case (Suc n)
  let ?a = "byte_at xs" and ?b = "byte_at ys"
  consider "f ?a = f ?b" "?a = 0" | "f ?a = f ?b" "?a \<noteq> 0" | "f ?a \<noteq> f ?b" by blast
  then show ?case
  proof cases
    case 1
    then have "?b = 0" using f0 by metis
    with 1 show ?thesis by (simp add: str_key_Suc f0)
  next
    case 2
    then have "?b \<noteq> 0" using f0 by metis
    with 2 Suc.IH[of "tl xs" "tl ys"] show ?thesis
      by (simp add: str_key_Suc f0)
  next
    case 3
    have lt: "int (unat (f ?a)) - int (unat (f ?b)) < 0 \<longleftrightarrow> f ?a < f ?b"
      by (simp add: word_less_def)
    have eq: "int (unat (f ?a)) - int (unat (f ?b)) \<noteq> 0"
      using 3 by (simp add: word_eq_iff_unsigned [where ?'a = int])
    have cmp: "str_cmp f (Suc n) xs ys = int (unat (f ?a)) - int (unat (f ?b))"
      using 3 by (simp add: Let_def)
    consider "?a = 0" "?b \<noteq> 0" | "?a \<noteq> 0" "?b = 0" | "?a \<noteq> 0" "?b \<noteq> 0"
      using 3 by metis
    then show ?thesis
    proof cases
      case 1
      then have "f ?a = 0" "f ?b \<noteq> 0" using f0 by metis+
      then have "f ?a < f ?b" by (simp add: word_gt_0)
      with 1 show ?thesis using lt eq unfolding cmp by (simp only: str_key_Suc) simp
    next
      case 2
      then have "f ?b = 0" using f0 by metis
      then have "\<not> f ?a < f ?b" by simp
      with 2 show ?thesis using lt eq unfolding cmp by (simp only: str_key_Suc) simp
    next
      case c: 3
      with 3 show ?thesis using lt eq unfolding cmp by (simp only: str_key_Suc) simp
    qed
  qed
qed

lemma strncasecmp_less: "strncasecmp n xs ys < 0 \<longleftrightarrow> case_key n xs < case_key n ys"
  and strncasecmp_eq: "strncasecmp n xs ys = 0 \<longleftrightarrow> case_key n xs = case_key n ys"
  using str_cmp_key[of to_lower, OF to_lower_0_iff]
  by (simp_all add: strncasecmp_def)

lemma strncmp_eq: "strncmp n xs ys = 0 \<longleftrightarrow> str_key id n xs = str_key id n ys"
  using str_cmp_key[of id] by (simp add: strncmp_def)

text \<open>A case-sensitive match is a case-insensitive one, not the other way round.\<close>

lemma strncmp_strncasecmp: "strncmp n xs ys = 0 \<Longrightarrow> strncasecmp n xs ys = 0"
  by (simp add: strncmp_eq strncasecmp_eq str_key_def)

section \<open>Formatting\<close>

definition chars :: "string \<Rightarrow> bytes" where
  "chars s = map of_char s"

fun decimal_digits :: "nat \<Rightarrow> bytes" where
  "decimal_digits n = (if n < 10 then [word_of_nat (48 + n)] else decimal_digits (n div 10) @ [word_of_nat (48 + n mod 10)])"

declare decimal_digits.simps [simp del]

text \<open>\<open>%d\<close> of the low 32 bits of an integer.\<close>

definition format_d :: "int \<Rightarrow> bytes" where
  "format_d i = (let i = wrap32 i in if i < 0 then 45 # decimal_digits (nat (- i)) else decimal_digits (nat i))"

text \<open>\<open>%0wd\<close>: zeros in front, behind the sign, up to \<open>w\<close> characters.\<close>

definition format_0d :: "nat \<Rightarrow> int \<Rightarrow> bytes" where
  "format_0d w i = (let i = wrap32 i; sign = (if i < 0 then [45] else []); digits = decimal_digits (nat \<bar>i\<bar>)
     in sign @ replicate (w - length sign - length digits) 48 @ digits)"

text \<open>Hexadecimal digits, in lower case.\<close>

definition hex_digit :: "nat \<Rightarrow> u8" where
  "hex_digit d = (if d < 10 then word_of_nat (48 + d) else word_of_nat (87 + d))"

fun hex_digits :: "nat \<Rightarrow> bytes" where
  "hex_digits n = (if n < 16 then [hex_digit n] else hex_digits (n div 16) @ [hex_digit (n mod 16)])"

declare hex_digits.simps [simp del]

text \<open>\<open>%0wx\<close>: at least \<open>w\<close> digits, more if the number needs them.\<close>

definition format_0x :: "nat \<Rightarrow> nat \<Rightarrow> bytes" where
  "format_0x w n = replicate (w - length (hex_digits n)) 48 @ hex_digits n"

definition format_04x :: "nat \<Rightarrow> bytes" where
  "format_04x n = format_0x 4 n"

lemma length_hex_digits: "0 < k \<Longrightarrow> length (hex_digits n) \<le> k \<longleftrightarrow> n < 16 ^ k"
proof (induction n arbitrary: k rule: hex_digits.induct)
  case (1 n)
  show ?case
  proof (cases "n < 16")
    case True
    moreover have "(16::nat) ^ 1 \<le> 16 ^ k" using 1(2) by (intro power_increasing) auto
    ultimately show ?thesis using 1(2) by (auto simp: hex_digits.simps[of n])
  next
    case False
    obtain j where j: "k = Suc j" using 1(2) by (cases k) auto
    show ?thesis
    proof (cases "j = 0")
      case True
      have "length (hex_digits (n div 16)) \<noteq> 0" by (subst hex_digits.simps) simp
      then show ?thesis using False j True by (simp add: hex_digits.simps[of n])
    next
      case False2: False
      then have "length (hex_digits (n div 16)) \<le> j \<longleftrightarrow> n div 16 < 16 ^ j"
        using 1(1)[OF False] by simp
      then show ?thesis
        using False j by (simp add: hex_digits.simps[of n] div_less_iff_less_mult mult.commute)
    qed
  qed
qed

lemma length_format_0x:
  "w \<le> length (format_0x w r)" "0 < w \<Longrightarrow> length (format_0x w r) = w \<longleftrightarrow> r < 16 ^ w"
  using length_hex_digits[of w r] by (auto simp: format_0x_def)

lemma length_format_04x: "4 \<le> length (format_04x r)" "length (format_04x r) = 4 \<longleftrightarrow> r < 65536"
  using length_format_0x[of 4 r] by (simp_all add: format_04x_def)

text \<open>What \<open>%s\<close> prints of the memory a pointer points at.\<close>

definition until_zero :: "bytes \<Rightarrow> bytes" where
  "until_zero s = takeWhile (\<lambda>b. b \<noteq> 0) s"

end
