(* ===== verification/Std_Map.thy ===== *)
theory Std_Map
  imports Prelude
begin

text \<open>
  \<open>std::map<K, V>\<close> as the code uses it: \<open>find\<close>, \<open>insert\<close> of a pair, \<open>erase\<close> of an
  iterator, \<open>size\<close> and iteration in key order. The container is the list of its pairs
  in iteration order; the comparison is the \<open>operator<\<close> of the key class, and two keys
  are the same key when neither is less than the other.

  The interface is the locale \<open>ordered_map\<close>: a comparison that is a strict weak order,
  as \<open>std::map\<close> requires. Each key class of the code interprets it.
\<close>

type_synonym ('k, 'v) cmap = "('k \<times> 'v) list"

definition key_equiv :: "('k \<Rightarrow> 'k \<Rightarrow> bool) \<Rightarrow> 'k \<Rightarrow> 'k \<Rightarrow> bool" where
  "key_equiv lt a b \<longleftrightarrow> \<not> lt a b \<and> \<not> lt b a"

fun map_find :: "('k \<Rightarrow> 'k \<Rightarrow> bool) \<Rightarrow> 'k \<Rightarrow> ('k, 'v) cmap \<Rightarrow> 'v option" where
  "map_find lt k [] = None"
| "map_find lt k ((k', v) # m) = (if key_equiv lt k k' then Some v else map_find lt k m)"

text \<open>\<open>insert(pair(k, v))\<close>: nothing changes when an equivalent key is present.\<close>

fun map_insert :: "('k \<Rightarrow> 'k \<Rightarrow> bool) \<Rightarrow> 'k \<Rightarrow> 'v \<Rightarrow> ('k, 'v) cmap \<Rightarrow> ('k, 'v) cmap \<times> bool" where
  "map_insert lt k v [] = ([(k, v)], True)"
| "map_insert lt k v ((k', v') # m) =
     (if key_equiv lt k k' then ((k', v') # m, False)
      else if lt k k' then ((k, v) # (k', v') # m, True)
      else (let (m', b) = map_insert lt k v m in ((k', v') # m', b)))"

fun map_erase :: "('k \<Rightarrow> 'k \<Rightarrow> bool) \<Rightarrow> 'k \<Rightarrow> ('k, 'v) cmap \<Rightarrow> ('k, 'v) cmap" where
  "map_erase lt k [] = []"
| "map_erase lt k ((k', v') # m) =
     (if key_equiv lt k k' then m else (k', v') # map_erase lt k m)"

text \<open>Assignment through the stored pointer: \<open>*it->second = v\<close>.\<close>

fun map_assign :: "('k \<Rightarrow> 'k \<Rightarrow> bool) \<Rightarrow> 'k \<Rightarrow> 'v \<Rightarrow> ('k, 'v) cmap \<Rightarrow> ('k, 'v) cmap" where
  "map_assign lt k v [] = []"
| "map_assign lt k v ((k', v') # m) =
     (if key_equiv lt k k' then (k', v) # m else (k', v') # map_assign lt k v m)"

definition map_ordered :: "('k \<Rightarrow> 'k \<Rightarrow> bool) \<Rightarrow> ('k, 'v) cmap \<Rightarrow> bool" where
  "map_ordered lt m \<longleftrightarrow> sorted_wrt (\<lambda>p q. lt (fst p) (fst q)) m"

lemma map_ordered_Nil [simp]: "map_ordered lt []"
  by (simp add: map_ordered_def)

lemma map_ordered_Cons [simp]:
  "map_ordered lt (p # m) \<longleftrightarrow> (\<forall>q\<in>set m. lt (fst p) (fst q)) \<and> map_ordered lt m"
  by (simp add: map_ordered_def)

lemma map_ordered_filter: "map_ordered lt m \<Longrightarrow> map_ordered lt (filter P m)"
  by (simp add: map_ordered_def sorted_wrt_filter)

lemma map_find_in_set: "map_find lt k m = Some v \<Longrightarrow> \<exists>k'. (k', v) \<in> set m \<and> key_equiv lt k k'"
  by (induction lt k m rule: map_find.induct) (auto split: if_splits)

lemma map_assign_keys: "map fst (map_assign lt k v m) = map fst m"
  by (induction lt k v m rule: map_assign.induct) auto

lemma map_assign_ordered [simp]: "map_ordered lt (map_assign lt k v m) = map_ordered lt m"
proof -
  have "map_ordered lt n = sorted_wrt lt (map fst n)" for n :: "('a \<times> 'b) list"
    by (simp add: map_ordered_def sorted_wrt_map)
  then show ?thesis by (simp add: map_assign_keys)
qed

lemma length_map_assign [simp]: "length (map_assign lt k v m) = length m"
  by (metis length_map map_assign_keys)

lemma map_assign_absent: "map_find lt k m = None \<Longrightarrow> map_assign lt k v m = m"
  by (induction lt k v m rule: map_assign.induct) (auto split: if_splits)

lemma map_erase_absent: "map_find lt k m = None \<Longrightarrow> map_erase lt k m = m"
  by (induction lt k m rule: map_erase.induct) (auto split: if_splits)

lemma map_insert_subset: "set (fst (map_insert lt k v m)) \<subseteq> insert (k, v) (set m)"
  by (induction lt k v m rule: map_insert.induct) (auto split: if_splits prod.splits)

lemma map_erase_subset: "set (map_erase lt k m) \<subseteq> set m"
  by (induction lt k m rule: map_erase.induct) (auto split: if_splits)

lemma map_erase_ordered: "map_ordered lt m \<Longrightarrow> map_ordered lt (map_erase lt k m)"
  by (induction lt k m rule: map_erase.induct) (use map_erase_subset in fastforce)+

locale ordered_map =
  fixes lt :: "'k \<Rightarrow> 'k \<Rightarrow> bool"
  assumes lt_irrefl: "\<not> lt a a"
    and lt_trans: "lt a b \<Longrightarrow> lt b c \<Longrightarrow> lt a c"
    and equiv_trans: "key_equiv lt a b \<Longrightarrow> key_equiv lt b c \<Longrightarrow> key_equiv lt a c"
begin

lemma equiv_refl [simp]: "key_equiv lt a a"
  by (simp add: key_equiv_def lt_irrefl)

lemma equiv_sym: "key_equiv lt a b \<longleftrightarrow> key_equiv lt b a"
  by (auto simp: key_equiv_def)

lemma equiv_lt: "key_equiv lt a b \<Longrightarrow> lt b c \<Longrightarrow> lt a c"
  by (metis equiv_sym equiv_trans key_equiv_def lt_trans)

lemma equiv_eq: "key_equiv lt a b \<Longrightarrow> key_equiv lt a c \<longleftrightarrow> key_equiv lt b c"
  by (meson equiv_sym equiv_trans)

lemma find_equiv: "key_equiv lt a b \<Longrightarrow> map_find lt a m = map_find lt b m"
  by (induction m) (auto simp: equiv_eq)

lemma find_entry: "map_ordered lt m \<Longrightarrow> (k, v) \<in> set m \<Longrightarrow> map_find lt k m = Some v"
proof (induction m)
  case (Cons p m)
  then show ?case by (cases p) (auto simp: key_equiv_def lt_irrefl)
qed simp

lemma find_none_below:
  assumes "map_ordered lt m" "\<And>p. p \<in> set m \<Longrightarrow> lt k (fst p)"
  shows "map_find lt k m = None"
  using assms by (induction m) (fastforce simp: key_equiv_def)+

lemma insert_new:
  assumes "map_find lt k m = None"
  shows "snd (map_insert lt k v m)"
    and "set (fst (map_insert lt k v m)) = insert (k, v) (set m)"
    and "length (fst (map_insert lt k v m)) = Suc (length m)"
  using assms by (induction m) (auto split: if_splits prod.splits)

lemma insert_old:
  assumes "map_find lt k m = Some w" "map_ordered lt m"
  shows "map_insert lt k v m = (m, False)"
  using assms
proof (induction m)
  case (Cons p m)
  obtain k' v' where p: "p = (k', v')" by fastforce
  show ?case
  proof (cases "key_equiv lt k k'")
    case False
    then have f: "map_find lt k m = Some w" using Cons.prems p by simp
    have "\<not> lt k k'"
    proof
      assume l: "lt k k'"
      have "lt k (fst q)" if "q \<in> set m" for q
        using Cons.prems p that l lt_trans by auto
      then have "map_find lt k m = None"
        using Cons.prems p by (intro find_none_below) auto
      with f show False by simp
    qed
    with False f Cons p show ?thesis by simp
  qed (simp add: p)
qed simp

lemma insert_ordered: "map_ordered lt m \<Longrightarrow> map_ordered lt (fst (map_insert lt k v m))"
proof (induction m)
  case (Cons p m)
  obtain k' v' where p: "p = (k', v')" by fastforce
  obtain m' b' where i: "map_insert lt k v m = (m', b')" by fastforce
  have ord: "map_ordered lt m" and ab: "\<And>q. q \<in> set m \<Longrightarrow> lt k' (fst q)"
    using Cons.prems p by auto
  have m': "map_ordered lt m'" "set m' \<subseteq> insert (k, v) (set m)"
    using Cons.IH[OF ord] map_insert_subset[of lt k v m] i by auto
  show ?case
  proof (cases "key_equiv lt k k' \<or> lt k k'")
    case True
    then show ?thesis using Cons.prems ab lt_trans[of k k'] by (auto simp: p)
  next
    case False
    then have "lt k' k" by (auto simp: key_equiv_def)
    with False m' ab show ?thesis by (auto simp: p i)
  qed
qed simp

lemma find_insert:
  assumes "map_ordered lt m"
  shows "map_find lt k' (fst (map_insert lt k v m)) =
     (if key_equiv lt k' k then (case map_find lt k m of None \<Rightarrow> Some v | Some w \<Rightarrow> Some w)
      else map_find lt k' m)"
  using assms
proof (induction m)
  case (Cons p m)
  obtain a b where p: "p = (a, b)" by fastforce
  have e: "key_equiv lt k' k \<Longrightarrow> key_equiv lt k' a = key_equiv lt k a" by (rule equiv_eq)
  have below: "map_find lt k m = None" if "lt k a" 
    using Cons.prems p that lt_trans by (intro find_none_below) auto
  show ?case
    using Cons e below by (auto simp: p split: prod.splits option.splits)
qed simp

lemma find_assign:
  "map_find lt k' (map_assign lt k v m) =
     (if key_equiv lt k' k \<and> map_find lt k m \<noteq> None then Some v else map_find lt k' m)"
proof (induction m)
  case (Cons p m)
  obtain a b where p: "p = (a, b)" by fastforce
  show ?case
    using Cons equiv_eq[of k' k a] equiv_eq[of k a k'] equiv_sym by (auto simp: p)
qed simp

lemma find_erase:
  assumes "map_ordered lt m"
  shows "map_find lt k' (map_erase lt k m) = (if key_equiv lt k' k then None else map_find lt k' m)"
  using assms
proof (induction m)
  case (Cons p m)
  obtain a b where p: "p = (a, b)" by fastforce
  have above: "map_find lt k' m = None" if "key_equiv lt k' a"
    using Cons.prems p that equiv_lt by (intro find_none_below) auto
  show ?case
    using Cons above equiv_eq[of k' k a] equiv_eq[of k a k'] equiv_sym by (auto simp: p)
qed simp

lemma find_filter_keys:
  assumes "map_ordered lt m"
  shows "map_find lt k (filter (\<lambda>(k, v). P v) m) =
     (case map_find lt k m of None \<Rightarrow> None | Some v \<Rightarrow> if P v then Some v else None)"
  using assms
proof (induction m)
  case (Cons p m)
  obtain a b where p: "p = (a, b)" by fastforce
  have above: "map_find lt k m = None" if "key_equiv lt k a"
    using Cons.prems p that equiv_lt by (intro find_none_below) auto
  show ?case using Cons above by (auto simp: p split: option.splits)
qed simp

end

text \<open>A comparison through an injective-up-to-equivalence key is a strict weak order.\<close>

locale keyed_order =
  fixes lt :: "'k \<Rightarrow> 'k \<Rightarrow> bool" and key :: "'k \<Rightarrow> 'c::linorder"
  assumes lt_key: "lt a b \<longleftrightarrow> key a < key b"
begin

lemma equiv_key: "key_equiv lt a b \<longleftrightarrow> key a = key b"
  by (auto simp: key_equiv_def lt_key)

end

sublocale keyed_order \<subseteq> ordered_map lt
  by unfold_locales (auto simp: lt_key key_equiv_def)

end
