(* ===== verification/Core_Struct.thy ===== *)
theory Core_Struct
  imports C_String Std_Map
begin

text \<open>
  The plain data classes of \<open>core/core_struct.h\<close> and the key class \<open>map_str\<close> of
  \<open>core/struct_define.h\<close>, with their operators and, because the messages copy whole
  objects with \<open>memcpy\<close>, their object representation on the x86-64 target
  (\<open>bytes_of_...\<close>, \<open>..._of_bytes\<close>): no class here has padding or a virtual table.

  \<open>MD5_Hash_Str\<close> and \<open>map_str\<close> are the key classes of the code's \<open>std::map\<close>s; they
  interpret \<open>keyed_order\<close>, so the map facts of \<open>Std_Map\<close> hold for both.
\<close>

abbreviation MD5_LEN :: nat where "MD5_LEN \<equiv> 32"
abbreviation UUID_LENGTH :: nat where "UUID_LENGTH \<equiv> 16"
abbreviation MEDIA_BLOCK_SIZE :: nat where "MEDIA_BLOCK_SIZE \<equiv> 16384"
abbreviation MAX_BUFFER_SIZE :: nat where "MAX_BUFFER_SIZE \<equiv> 1024"
abbreviation UINT32_MAX :: u32 where "UINT32_MAX \<equiv> 4294967295"

section \<open>NetAddress\<close>

text \<open>\<open>sin_addr.s_addr\<close> holds the address in network order: its first byte in memory is
  the first number of the dotted notation.\<close>

record NetAddress =
  sin_family :: u16
  sin_port :: u16
  s_addr :: u32

definition NetAddress_new :: NetAddress where
  "NetAddress_new = \<lparr>sin_family = 2, sin_port = 0, s_addr = 0\<rparr>"

definition NetAddress_eq :: "NetAddress \<Rightarrow> NetAddress \<Rightarrow> bool" where
  "NetAddress_eq a b \<longleftrightarrow> s_addr a = s_addr b \<and> sin_port a = sin_port b"

definition NetAddress_neq :: "NetAddress \<Rightarrow> NetAddress \<Rightarrow> bool" where
  "NetAddress_neq a b \<longleftrightarrow> \<not> NetAddress_eq a b"

text \<open>
  \<open>IsNatIP\<close> copies \<open>sizeof(unsigned long)\<close> = 8 bytes out of the 4-byte address: the
  four bytes that follow the object in memory are the argument \<open>beyond\<close>.
\<close>

definition IsNatIP :: "bytes \<Rightarrow> NetAddress \<Rightarrow> bool" where
  "IsNatIP beyond a =
     (let wan_ip = enc (s_addr a) @ beyond; temp = wan_ip ! 0
      in if temp = 10 then True
         else if temp = 192 then (let temp = wan_ip ! 1 in temp = 168)
         else if temp = 172 then (let temp = wan_ip ! 1 in 16 \<le> temp \<and> temp \<le> 31)
         else False)"

definition bytes_of_NetAddress :: "NetAddress \<Rightarrow> bytes" where
  "bytes_of_NetAddress a = enc (sin_family a) @ enc (sin_port a) @ enc (s_addr a)"

definition NetAddress_of_bytes :: "bytes \<Rightarrow> NetAddress" where
  "NetAddress_of_bytes bs =
     \<lparr>sin_family = dec (take 2 bs), sin_port = dec (take 2 (drop 2 bs)), s_addr = dec (take 4 (drop 4 bs))\<rparr>"

lemma length_NetAddress [simp, wire_simps]: "length (bytes_of_NetAddress a) = 8"
  by (simp add: bytes_of_NetAddress_def)

lemma NetAddress_of_bytes_of [simp, wire_simps]: "NetAddress_of_bytes (bytes_of_NetAddress a) = a"
  by (simp add: bytes_of_NetAddress_def NetAddress_of_bytes_def)

section \<open>P2PAddress\<close>

record P2PAddress =
  outerIP :: NetAddress
  subnetIP :: NetAddress

definition P2PAddress_new :: P2PAddress where
  "P2PAddress_new = \<lparr>outerIP = NetAddress_new, subnetIP = NetAddress_new\<rparr>"

definition IsNAT :: "P2PAddress \<Rightarrow> bool" where
  "IsNAT p \<longleftrightarrow> \<not> (s_addr (subnetIP p) = 0xffffffff)"

definition P2PAddress_eq :: "P2PAddress \<Rightarrow> P2PAddress \<Rightarrow> bool" where
  "P2PAddress_eq p q \<longleftrightarrow>
     s_addr (outerIP q) = s_addr (outerIP p) \<and> NetAddress_eq (subnetIP q) (subnetIP p)"

definition bytes_of_P2PAddress :: "P2PAddress \<Rightarrow> bytes" where
  "bytes_of_P2PAddress p = bytes_of_NetAddress (outerIP p) @ bytes_of_NetAddress (subnetIP p)"

definition P2PAddress_of_bytes :: "bytes \<Rightarrow> P2PAddress" where
  "P2PAddress_of_bytes bs =
     \<lparr>outerIP = NetAddress_of_bytes (take 8 bs), subnetIP = NetAddress_of_bytes (take 8 (drop 8 bs))\<rparr>"

lemma length_P2PAddress [simp, wire_simps]: "length (bytes_of_P2PAddress p) = 16"
  by (simp add: bytes_of_P2PAddress_def)

lemma P2PAddress_of_bytes_of [simp, wire_simps]: "P2PAddress_of_bytes (bytes_of_P2PAddress p) = p"
  by (simp add: bytes_of_P2PAddress_def P2PAddress_of_bytes_def)

section \<open>CorePeerInfo, PeerInfoWithAddr, TransferInfo\<close>

text \<open>
  \<open>CorePeerInfo\<close> is one 32-bit word of bit-fields, 19 of them unnamed; the copies of the
  code carry all 32 bits, so the object is the word and the fields are its bits.
\<close>

record CorePeerInfo =
  cpi_word :: u32

definition CorePeerInfo_new :: CorePeerInfo where
  "CorePeerInfo_new = \<lparr>cpi_word = 0\<rparr>"

definition layer :: "CorePeerInfo \<Rightarrow> u8" where
  "layer c = ucast (cpi_word c)"

definition isMaxIn :: "CorePeerInfo \<Rightarrow> bool" where
  "isMaxIn c = bit (cpi_word c) 8"

definition isMaxOut :: "CorePeerInfo \<Rightarrow> bool" where
  "isMaxOut c = bit (cpi_word c) 9"

definition isMaxFreeIn :: "CorePeerInfo \<Rightarrow> bool" where
  "isMaxFreeIn c = bit (cpi_word c) 10"

definition isMaxFreeOut :: "CorePeerInfo \<Rightarrow> bool" where
  "isMaxFreeOut c = bit (cpi_word c) 11"

definition isSuperPeer :: "CorePeerInfo \<Rightarrow> bool" where
  "isSuperPeer c = bit (cpi_word c) 12"

record PeerInfoWithAddr =
  peer_core :: CorePeerInfo
  peer_p2p :: P2PAddress

record TransferInfo =
  totalDownBytes :: u64
  totalUpBytes :: u64
  currDownSpeed :: float32
  currUpSpeed :: float32
  avgDownSpeed :: float32
  avgUpSpeed :: float32

definition TransferInfo_new :: TransferInfo where
  "TransferInfo_new = \<lparr>totalDownBytes = 0, totalUpBytes = 0, currDownSpeed = 0, currUpSpeed = 0,
     avgDownSpeed = 0, avgUpSpeed = 0\<rparr>"

definition bytes_of_CorePeerInfo :: "CorePeerInfo \<Rightarrow> bytes" where
  "bytes_of_CorePeerInfo c = enc (cpi_word c)"

definition CorePeerInfo_of_bytes :: "bytes \<Rightarrow> CorePeerInfo" where
  "CorePeerInfo_of_bytes bs = \<lparr>cpi_word = dec bs\<rparr>"

definition bytes_of_Peer :: "PeerInfoWithAddr \<Rightarrow> bytes" where
  "bytes_of_Peer p = bytes_of_CorePeerInfo (peer_core p) @ bytes_of_P2PAddress (peer_p2p p)"

definition Peer_of_bytes :: "bytes \<Rightarrow> PeerInfoWithAddr" where
  "Peer_of_bytes bs = \<lparr>peer_core = CorePeerInfo_of_bytes (take 4 bs), peer_p2p = P2PAddress_of_bytes (drop 4 bs)\<rparr>"

definition bytes_of_TransferInfo :: "TransferInfo \<Rightarrow> bytes" where
  "bytes_of_TransferInfo t = enc (totalDownBytes t) @ enc (totalUpBytes t) @ enc (currDownSpeed t) @
     enc (currUpSpeed t) @ enc (avgDownSpeed t) @ enc (avgUpSpeed t)"

definition TransferInfo_of_bytes :: "bytes \<Rightarrow> TransferInfo" where
  "TransferInfo_of_bytes bs = \<lparr>totalDownBytes = dec (take 8 bs), totalUpBytes = dec (take 8 (drop 8 bs)),
     currDownSpeed = dec (take 4 (drop 16 bs)), currUpSpeed = dec (take 4 (drop 20 bs)),
     avgDownSpeed = dec (take 4 (drop 24 bs)), avgUpSpeed = dec (take 4 (drop 28 bs))\<rparr>"

lemma length_CorePeerInfo [simp, wire_simps]: "length (bytes_of_CorePeerInfo c) = 4"
  and length_Peer [simp, wire_simps]: "length (bytes_of_Peer p) = 20"
  and length_TransferInfo [simp, wire_simps]: "length (bytes_of_TransferInfo t) = 32"
  by (simp_all add: bytes_of_CorePeerInfo_def bytes_of_Peer_def bytes_of_TransferInfo_def)

lemma CorePeerInfo_of_bytes_of [simp, wire_simps]: "CorePeerInfo_of_bytes (bytes_of_CorePeerInfo c) = c"
  by (simp add: CorePeerInfo_of_bytes_def bytes_of_CorePeerInfo_def)

lemma Peer_of_bytes_of [simp, wire_simps]: "Peer_of_bytes (bytes_of_Peer p) = p"
  by (simp add: Peer_of_bytes_def bytes_of_Peer_def)

lemma TransferInfo_of_bytes_of [simp, wire_simps]: "TransferInfo_of_bytes (bytes_of_TransferInfo t) = t"
  by (simp add: TransferInfo_of_bytes_def bytes_of_TransferInfo_def)

section \<open>BlockInterval\<close>

record BlockInterval =
  bi_start :: u32
  bi_size :: u32

text \<open>The default constructor leaves \<open>size\<close> as it was in memory.\<close>

definition BlockInterval_new :: "u32 \<Rightarrow> BlockInterval" where
  "BlockInterval_new junk = \<lparr>bi_start = UINT32_MAX, bi_size = junk\<rparr>"

definition cmp_size :: "BlockInterval \<Rightarrow> BlockInterval \<Rightarrow> bool" where
  "cmp_size i1 i2 \<longleftrightarrow> bi_size i1 < bi_size i2"

definition cmp_start :: "BlockInterval \<Rightarrow> BlockInterval \<Rightarrow> bool" where
  "cmp_start i1 i2 \<longleftrightarrow> bi_start i1 < bi_start i2"

definition BlockInterval_eq :: "BlockInterval \<Rightarrow> BlockInterval \<Rightarrow> bool" where
  "BlockInterval_eq i a \<longleftrightarrow> bi_start i = bi_start a \<and> bi_size i = bi_size a"

definition and_op :: "BlockInterval \<Rightarrow> BlockInterval \<Rightarrow> BlockInterval" where
  "and_op i1 i2 =
     (let st = max (bi_start i1) (bi_start i2);
          e = min (bi_start i1 + bi_size i1) (bi_start i2 + bi_size i2)
      in \<lparr>bi_start = st, bi_size = (if e > st then e - st else 0)\<rparr>)"

definition bytes_of_BlockInterval :: "BlockInterval \<Rightarrow> bytes" where
  "bytes_of_BlockInterval i = enc (bi_start i) @ enc (bi_size i)"

definition BlockInterval_of_bytes :: "bytes \<Rightarrow> BlockInterval" where
  "BlockInterval_of_bytes bs = \<lparr>bi_start = dec (take 4 bs), bi_size = dec (take 4 (drop 4 bs))\<rparr>"

lemma length_BlockInterval [simp, wire_simps]: "length (bytes_of_BlockInterval i) = 8"
  by (simp add: bytes_of_BlockInterval_def)

lemma BlockInterval_of_bytes_of [simp, wire_simps]: "BlockInterval_of_bytes (bytes_of_BlockInterval i) = i"
  by (simp add: BlockInterval_of_bytes_def bytes_of_BlockInterval_def)

lemma BlockInterval_eq_iff: "BlockInterval_eq a b \<longleftrightarrow> a = b"
  by (cases a; cases b) (simp add: BlockInterval_eq_def)

section \<open>The key classes\<close>

record MD5_Hash_Str =
  md5_hash :: bytes
  md5_interval :: BlockInterval

definition MD5_lt :: "MD5_Hash_Str \<Rightarrow> MD5_Hash_Str \<Rightarrow> bool" where
  "MD5_lt a b \<longleftrightarrow> strncasecmp MD5_LEN (md5_hash a) (md5_hash b) < 0"

definition MD5_eq :: "MD5_Hash_Str \<Rightarrow> MD5_Hash_Str \<Rightarrow> bool" where
  "MD5_eq a b \<longleftrightarrow> strncmp MD5_LEN (md5_hash a) (md5_hash b) = 0"

text \<open>\<open>map_str\<close>: an array of \<open>UUID_LENGTH + 1\<close> bytes.\<close>

type_synonym map_str = bytes

definition map_str_lt :: "map_str \<Rightarrow> map_str \<Rightarrow> bool" where
  "map_str_lt a b \<longleftrightarrow> strncasecmp UUID_LENGTH a b < 0"

definition map_str_neq :: "map_str \<Rightarrow> map_str \<Rightarrow> bool" where
  "map_str_neq a b \<longleftrightarrow> strncasecmp UUID_LENGTH a b \<noteq> 0"

definition md5_key :: "MD5_Hash_Str \<Rightarrow> bytes" where
  "md5_key h = case_key MD5_LEN (md5_hash h)"

interpretation md5: keyed_order MD5_lt md5_key
  by unfold_locales (simp add: MD5_lt_def md5_key_def strncasecmp_less)

interpretation mapstr: keyed_order map_str_lt "case_key UUID_LENGTH"
  by unfold_locales (simp add: map_str_lt_def strncasecmp_less)

lemma map_str_neq_iff: "map_str_neq a b \<longleftrightarrow> \<not> key_equiv map_str_lt a b"
  by (simp add: map_str_neq_def mapstr.equiv_key strncasecmp_eq)

lemma MD5_eq_equiv: "MD5_eq a b \<Longrightarrow> key_equiv MD5_lt a b"
  by (simp add: MD5_eq_def md5.equiv_key md5_key_def strncmp_strncasecmp flip: strncasecmp_eq)

section \<open>Properties of the data classes\<close>

lemma IsNatIP_local: "IsNatIP beyond a = IsNatIP beyond' a"
  by (simp add: IsNatIP_def nth_append)

end
