(* ===== verification/Interval_Array.thy ===== *)
theory Interval_Array
  imports Core_Struct
begin

text \<open>
  \<open>core/interval_array.h\<close>: the sorted array of block intervals a peer holds. The object
  owns an array of \<open>m_totalsize\<close> elements of which the first \<open>m_validsize\<close> are live; the
  model keeps the live elements and the capacity, so \<open>m_validsize\<close> is the length of the
  list. The elements past \<open>m_validsize\<close> are never read by the code.

  \<open>SafeInsert\<close> shifts the tail of the array with \<open>memcpy\<close>. When the capacity is not
  exhausted source and destination are the same array, and they overlap as soon as two
  elements move, which C leaves undefined. The parameter \<open>memcpy_impl\<close> says what the C
  library does: \<open>Iso_C\<close> makes no promise (the model stops with \<open>Overlapping_Copy\<close>),
  \<open>Moves\<close> copies as \<open>memmove\<close> does. The theorems on updates cover both.
\<close>

section \<open>The object and its operations\<close>

datatype memcpy_impl = Iso_C | Moves

record IntervalArray =
  ia_blocks :: "BlockInterval list"
  ia_total :: nat

definition IntervalArray_new :: IntervalArray where
  "IntervalArray_new = \<lparr>ia_blocks = [], ia_total = 0\<rparr>"

definition IntervalArray_copy :: "IntervalArray \<Rightarrow> IntervalArray" where
  "IntervalArray_copy another = \<lparr>ia_blocks = ia_blocks another, ia_total = ia_total another\<rparr>"

definition IntervalArray_assign :: "IntervalArray \<Rightarrow> IntervalArray" where
  "IntervalArray_assign another =
     \<lparr>ia_blocks = ia_blocks another, ia_total = length (ia_blocks another)\<rparr>"

definition IntervalArray_eq :: "IntervalArray \<Rightarrow> IntervalArray \<Rightarrow> bool" where
  "IntervalArray_eq x a \<longleftrightarrow>
     length (ia_blocks x) = length (ia_blocks a) \<and> ia_blocks x = ia_blocks a"

definition SafeInsert :: "memcpy_impl \<Rightarrow> nat \<Rightarrow> u32 \<Rightarrow> u32 \<Rightarrow> IntervalArray \<Rightarrow> IntervalArray res" where
  "SafeInsert mc i st sz ia =
     (let bs = ia_blocks ia; validsize = length bs in
      bindE (assertE (validsize \<le> ia_total ia)) (\<lambda>_.
      bindE (assertE (i \<le> validsize)) (\<lambda>_.
      bindE (assertE (validsize \<le> 0xffff)) (\<lambda>_.
      if validsize = 0xffff then Inr ia
      else
        bindE (guardE Overlapping_Copy
                 (ia_total ia = validsize \<or> validsize - i \<le> 1 \<or> mc = Moves)) (\<lambda>_.
        Inr \<lparr>ia_blocks = take i bs @ \<lparr>bi_start = st, bi_size = sz\<rparr> # drop i bs,
             ia_total = (if ia_total ia = validsize then ia_total ia + 1 else ia_total ia)\<rparr>)))))"

definition SafeDelete :: "nat \<Rightarrow> IntervalArray \<Rightarrow> IntervalArray res" where
  "SafeDelete i ia =
     bindE (assertE (i < length (ia_blocks ia))) (\<lambda>_.
     Inr (ia\<lparr>ia_blocks := take i (ia_blocks ia) @ drop (Suc i) (ia_blocks ia)\<rparr>))"

definition set_block :: "nat \<Rightarrow> u32 \<Rightarrow> u32 \<Rightarrow> IntervalArray \<Rightarrow> IntervalArray" where
  "set_block i st sz ia = ia\<lparr>ia_blocks := (ia_blocks ia)[i := \<lparr>bi_start = st, bi_size = sz\<rparr>]\<rparr>"

lemma SafeDelete_shorter:
  "SafeDelete i ia = Inr ia' \<Longrightarrow> length (ia_blocks ia') < length (ia_blocks ia)"
  by (auto simp: SafeDelete_def res_invert)

function AddInterval :: "memcpy_impl \<Rightarrow> u32 \<Rightarrow> u32 \<Rightarrow> IntervalArray \<Rightarrow> IntervalArray res"
  and AddLoop :: "memcpy_impl \<Rightarrow> nat \<Rightarrow> u32 \<Rightarrow> u32 \<Rightarrow> IntervalArray \<Rightarrow> IntervalArray res" where
  "AddInterval mc st sz ia =
     (if st = UINT32_MAX then Inr ia
      else if sz = 0 then Inr ia
      else AddLoop mc 0 st sz ia)"
| "AddLoop mc i st sz ia =
     (if i < length (ia_blocks ia) then
        let b = ia_blocks ia ! i in
        if bi_start b > st then
          if bi_start b > st + sz then SafeInsert mc i st sz ia
          else if bi_start b + bi_size b \<ge> st + sz then
            Inr (set_block i st (bi_size b + (bi_start b - st)) ia)
          else bindE (SafeDelete i ia) (\<lambda>ia. AddInterval mc st sz ia)
        else if bi_start b + bi_size b \<ge> st then
          if bi_start b + bi_size b \<ge> st + sz then Inr ia
          else if i = length (ia_blocks ia) - 1 \<or> bi_start (ia_blocks ia ! (i + 1)) > st + sz then
            Inr (set_block i (bi_start b) (st + sz - bi_start b) ia)
          else
            bindE (SafeDelete i ia) (\<lambda>ia. AddInterval mc (bi_start b) (sz + (st - bi_start b)) ia)
        else AddLoop mc (i + 1) st sz ia
      else SafeInsert mc i st sz ia)"
  by pat_completeness auto
termination
  by (relation "measures [\<lambda>x. case x of Inl (mc, st, sz, ia) \<Rightarrow> length (ia_blocks ia)
                             | Inr (mc, i, st, sz, ia) \<Rightarrow> length (ia_blocks ia),
                          \<lambda>x. case x of Inl (mc, st, sz, ia) \<Rightarrow> Suc (length (ia_blocks ia))
                             | Inr (mc, i, st, sz, ia) \<Rightarrow> length (ia_blocks ia) - i]")
     (auto dest: SafeDelete_shorter)

declare AddInterval.simps [simp del] AddLoop.simps [simp del]

text \<open>
  \<open>DelInterval\<close> restarts from the front after it has shortened the block that holds
  \<open>start\<close>; that block then ends at \<open>start\<close>, so the second measure counts the blocks
  that still reach past \<open>start\<close> from below.
\<close>

definition straddles :: "u32 \<Rightarrow> BlockInterval \<Rightarrow> bool" where
  "straddles st b \<longleftrightarrow> bi_start b < st \<and> st < bi_start b + bi_size b"

lemma straddles_removed:
  assumes "i < length bs" "straddles st (bs ! i)" "\<not> straddles st b"
  shows "length (filter (straddles st) (bs[i := b])) < length (filter (straddles st) bs)"
proof -
  have bs: "bs = take i bs @ bs ! i # drop (Suc i) bs"
    using assms(1) by (rule id_take_nth_drop)
  have "bs[i := b] = take i bs @ b # drop (Suc i) bs"
    using assms(1) by (rule upd_conv_take_nth_drop)
  then show ?thesis
    using assms(2,3) by (subst (2) bs) simp
qed

function DelInterval :: "memcpy_impl \<Rightarrow> u32 \<Rightarrow> u32 \<Rightarrow> IntervalArray \<Rightarrow> IntervalArray res"
  and DelLoop :: "memcpy_impl \<Rightarrow> nat \<Rightarrow> u32 \<Rightarrow> u32 \<Rightarrow> IntervalArray \<Rightarrow> IntervalArray res" where
  "DelInterval mc st sz ia =
     bindE (assertE (sz \<noteq> 0)) (\<lambda>_. if sz = 0 then Inr ia else DelLoop mc 0 st sz ia)"
| "DelLoop mc i st sz ia =
     (if i < length (ia_blocks ia) then
        let b = ia_blocks ia ! i in
        if bi_start b > st then
          if bi_start b > st + sz then Inr ia
          else if bi_start b + bi_size b > st + sz then
            Inr (set_block i (st + sz) ((bi_start b + bi_size b) - (st + sz)) ia)
          else bindE (SafeDelete i ia) (\<lambda>ia. DelInterval mc st sz ia)
        else if bi_start b + bi_size b > st then
          let oldSize = bi_size b;
              ia1 = (if bi_start b \<noteq> st then set_block i (bi_start b) (st - bi_start b) ia else ia)
          in if bi_start b + oldSize \<le> st + sz then
               if bi_start b \<noteq> st then DelInterval mc st sz ia1
               else SafeDelete i ia1
             else if bi_start b = st then
               Inr (set_block i (st + sz) (bi_size b - (st + sz - bi_start b)) ia1)
             else SafeInsert mc (i + 1) (st + sz) (bi_start b + oldSize - (st + sz)) ia1
        else DelLoop mc (i + 1) st sz ia
      else Inr ia)"
  by pat_completeness auto

termination
proof (relation "measures [\<lambda>x. case x of Inl (mc, st, sz, ia) \<Rightarrow> length (ia_blocks ia)
                             | Inr (mc, i, st, sz, ia) \<Rightarrow> length (ia_blocks ia),
                          \<lambda>x. case x of Inl (mc, st, sz, ia) \<Rightarrow> length (filter (straddles st) (ia_blocks ia))
                             | Inr (mc, i, st, sz, ia) \<Rightarrow> length (filter (straddles st) (ia_blocks ia)),
                          \<lambda>x. case x of Inl (mc, st, sz, ia) \<Rightarrow> Suc (length (ia_blocks ia))
                             | Inr (mc, i, st, sz, ia) \<Rightarrow> length (ia_blocks ia) - i]", goal_cases)
  case (4 mc i st sz ia b oldSize ia1)
  then have "straddles st b" by (auto simp: straddles_def)
  moreover have "\<not> straddles st \<lparr>bi_start = bi_start b, bi_size = st - bi_start b\<rparr>"
    by (simp add: straddles_def)
  ultimately have "length (filter (straddles st) (ia_blocks ia1)) < length (filter (straddles st) (ia_blocks ia))"
    using 4 straddles_removed[of i "ia_blocks ia" st] by (simp add: set_block_def)
  then show ?case using 4 by (simp add: set_block_def)
qed (auto dest: SafeDelete_shorter)

declare DelInterval.simps [simp del] DelLoop.simps [simp del]


text \<open>The loops over another array, and the read-only operations.\<close>

fun foldE :: "('a \<Rightarrow> 's \<Rightarrow> 's res) \<Rightarrow> 'a list \<Rightarrow> 's \<Rightarrow> 's res" where
  "foldE f [] s = Inr s"
| "foldE f (x # xs) s = bindE (f x s) (foldE f xs)"

definition DeleteArray :: "memcpy_impl \<Rightarrow> IntervalArray \<Rightarrow> IntervalArray \<Rightarrow> IntervalArray res" where
  "DeleteArray mc another ia =
     foldE (\<lambda>b ia. DelInterval mc (bi_start b) (bi_size b) ia) (ia_blocks another) ia"

definition Clear :: "IntervalArray \<Rightarrow> IntervalArray" where
  "Clear ia = ia\<lparr>ia_blocks := []\<rparr>"

definition AndOperator ::
  "memcpy_impl \<Rightarrow> IntervalArray \<Rightarrow> IntervalArray \<Rightarrow> IntervalArray \<Rightarrow> IntervalArray res" where
  "AndOperator mc ia another result =
     foldE (\<lambda>b r. foldE (\<lambda>a r. let temp = and_op a b in
               if bi_size temp > 0 then AddInterval mc (bi_start temp) (bi_size temp) r else Inr r)
             (ia_blocks ia) r)
       (ia_blocks another) (Clear result)"

fun find_block :: "u32 \<Rightarrow> BlockInterval list \<Rightarrow> bool" where
  "find_block blockID [] = False"
| "find_block blockID (b # bs) =
     (if bi_start b > blockID then False
      else if bi_start b + bi_size b > blockID then True
      else find_block blockID bs)"

definition FindBlock :: "IntervalArray \<Rightarrow> u32 \<Rightarrow> bool" where
  "FindBlock ia blockID = find_block blockID (ia_blocks ia)"

definition IsEmpty :: "IntervalArray \<Rightarrow> bool" where
  "IsEmpty ia \<longleftrightarrow> length (ia_blocks ia) = 0"

definition GetMaxBlockID :: "IntervalArray \<Rightarrow> u32" where
  "GetMaxBlockID ia =
     (if ia_blocks ia \<noteq> [] then bi_start (last (ia_blocks ia)) + bi_size (last (ia_blocks ia)) else 0)"

definition GetMinBlockID :: "IntervalArray \<Rightarrow> u32" where
  "GetMinBlockID ia = (if ia_blocks ia \<noteq> [] then bi_start (hd (ia_blocks ia)) else UINT32_MAX)"

definition GetValidSize :: "IntervalArray \<Rightarrow> nat" where
  "GetValidSize ia = length (ia_blocks ia)"

definition GetCountInInterval :: "IntervalArray \<Rightarrow> u32 \<Rightarrow> u32 \<Rightarrow> u32" where
  "GetCountInInterval ia blockID len =
     (let inn = \<lparr>bi_start = blockID, bi_size = min len (UINT32_MAX - blockID)\<rparr>
      in fold (\<lambda>b total. total + bi_size (and_op b inn)) (ia_blocks ia) 0)"

fun continous_count :: "u32 \<Rightarrow> BlockInterval list \<Rightarrow> u32" where
  "continous_count blockID [] = 0"
| "continous_count blockID (b # bs) =
     (if bi_start b > blockID then 0
      else if bi_start b + bi_size b > blockID then bi_start b + bi_size b - blockID
      else continous_count blockID bs)"

definition GetContinousCount :: "IntervalArray \<Rightarrow> u32 \<Rightarrow> u32" where
  "GetContinousCount ia blockID = continous_count blockID (ia_blocks ia)"

text \<open>An empty array hands out an all-zero interval.\<close>

definition PopFront :: "IntervalArray \<Rightarrow> (BlockInterval \<times> IntervalArray) res" where
  "PopFront ia =
     (if ia_blocks ia \<noteq> [] then
        bindE (SafeDelete 0 ia) (\<lambda>ia'. Inr (ia_blocks ia ! 0, ia'))
      else Inr (\<lparr>bi_start = 0, bi_size = 0\<rparr>, ia))"

fun verify_blocks :: "BlockInterval list \<Rightarrow> bool" where
  "verify_blocks [] = True"
| "verify_blocks (b # bs) =
     (if bi_size b = 0 then False
      else if UINT32_MAX - bi_start b < bi_size b then False
      else (case bs of [] \<Rightarrow> True
            | c # _ \<Rightarrow> if bi_start b + bi_size b \<ge> bi_start c then False else verify_blocks bs))"

definition Verify :: "IntervalArray \<Rightarrow> bool" where
  "Verify ia = verify_blocks (ia_blocks ia)"

section \<open>The abstract set of blocks\<close>

text \<open>
  What the array stands for: the set of block ids its intervals cover. The invariant is
  the code's own \<open>Verify\<close>, stated over the natural-number bounds \<open>lo\<close> and \<open>hi\<close>.
\<close>

definition lo :: "BlockInterval \<Rightarrow> nat" where "lo b = unat (bi_start b)"
definition hi :: "BlockInterval \<Rightarrow> nat" where "hi b = unat (bi_start b) + unat (bi_size b)"

definition ids :: "BlockInterval list \<Rightarrow> nat set" where
  "ids bs = (\<Union>b\<in>set bs. {lo b..<hi b})"

definition held :: "IntervalArray \<Rightarrow> nat set" where
  "held ia = ids (ia_blocks ia)"

definition wf_block :: "BlockInterval \<Rightarrow> bool" where
  "wf_block b \<longleftrightarrow> lo b < hi b \<and> hi b < 2 ^ 32"

definition wf_blocks :: "BlockInterval list \<Rightarrow> bool" where
  "wf_blocks bs \<longleftrightarrow> (\<forall>b\<in>set bs. wf_block b) \<and> sorted_wrt (\<lambda>a b. hi a < lo b) bs"

definition ia_ok :: "IntervalArray \<Rightarrow> bool" where
  "ia_ok ia \<longleftrightarrow> wf_blocks (ia_blocks ia) \<and> length (ia_blocks ia) \<le> ia_total ia"

named_theorems ivl_simps "interval bounds as natural numbers"

lemma ids_simps [simp]: "ids [] = {}" "ids (b # bs) = {lo b..<hi b} \<union> ids bs"
    "ids (as @ bs) = ids as \<union> ids bs"
  by (auto simp: ids_def)

lemma wf_blocks_Nil [simp]: "wf_blocks []"
  by (simp add: wf_blocks_def)

lemma wf_blocks_Cons: "wf_blocks (b # bs) \<longleftrightarrow> wf_block b \<and> (\<forall>c\<in>set bs. hi b < lo c) \<and> wf_blocks bs"
  by (auto simp: wf_blocks_def)

lemma wf_blocks_append: "wf_blocks (as @ bs) \<longleftrightarrow>
    wf_blocks as \<and> wf_blocks bs \<and> (\<forall>a\<in>set as. \<forall>b\<in>set bs. hi a < lo b)"
  by (auto simp: wf_blocks_def sorted_wrt_append)

lemma unat_end: "hi b < 2 ^ 32 \<Longrightarrow> unat (bi_start b + bi_size b) = hi b"
  by (simp add: hi_def unat_word_ariths)

lemma lo_hi_mk [simp]: "lo \<lparr>bi_start = s, bi_size = z\<rparr> = unat s"
    "hi \<lparr>bi_start = s, bi_size = z\<rparr> = unat s + unat z"
  by (simp_all add: lo_def hi_def)

lemma lo_less: "lo b < 2 ^ 32"
  using unsigned_less[of "bi_start b"] by (simp add: lo_def)

lemma lo_le_hi: "lo b \<le> hi b"
  by (simp add: lo_def hi_def)

section \<open>The steps of the update loops\<close>

text \<open>
  The outcome of an update: it returns, the array it returns keeps the invariant, holds the
  ids \<open>A\<close> and has at most \<open>n\<close> intervals.
\<close>

definition becomes :: "nat \<Rightarrow> nat set \<Rightarrow> IntervalArray res \<Rightarrow> bool" where
  "becomes n A r \<longleftrightarrow> (\<exists>ia'. r = Inr ia' \<and> ia_ok ia' \<and> held ia' = A \<and> length (ia_blocks ia') \<le> n)"

lemma becomes_mono: "becomes n A r \<Longrightarrow> A = B \<Longrightarrow> n \<le> m \<Longrightarrow> becomes m B r"
  by (auto simp: becomes_def)

lemma becomes_same: "ia_ok ia \<Longrightarrow> held ia = A \<Longrightarrow> length (ia_blocks ia) \<le> n \<Longrightarrow> becomes n A (Inr ia)"
  by (simp add: becomes_def)

text \<open>The array cut at the block the loop looks at.\<close>

lemma ia_cut:
  assumes "i < length (ia_blocks ia)"
  obtains pre b post where "ia_blocks ia = pre @ b # post" "length pre = i" "ia_blocks ia ! i = b"
  using id_take_nth_drop[OF assms] assms by (metis length_take min.absorb2 less_imp_le)

lemma becomes_insert:
  assumes "ia_blocks ia = pre @ post" "length pre = i" "ia_ok ia" "length (ia_blocks ia) < 0xffff"
    and "\<forall>a\<in>set pre. hi a < unat st" "\<forall>c\<in>set post. unat st + unat sz < lo c"
    and "0 < unat sz" "unat st + unat sz < 2 ^ 32"
  shows "becomes (Suc (length (ia_blocks ia))) (held ia \<union> {unat st..<unat st + unat sz})
     (SafeInsert Moves i st sz ia)"
  using assms
  by (auto simp: SafeInsert_def becomes_def ia_ok_def Let_def held_def
      wf_blocks_append wf_blocks_Cons wf_block_def)

lemma becomes_set_block:
  assumes "ia_blocks ia = pre @ b # post" "length pre = i" "ia_ok ia"
    and "\<forall>a\<in>set pre. hi a < unat st" "\<forall>c\<in>set post. unat st + unat sz < lo c"
    and "0 < unat sz" "unat st + unat sz < 2 ^ 32"
    and "A = ids pre \<union> {unat st..<unat st + unat sz} \<union> ids post"
    and "length (ia_blocks ia) \<le> n"
  shows "becomes n A (Inr (set_block i st sz ia))"
  using assms
  by (auto simp: set_block_def becomes_def ia_ok_def held_def
      wf_blocks_append wf_blocks_Cons wf_block_def)

lemma SafeDelete_cut:
  "ia_blocks ia = pre @ b # post \<Longrightarrow> length pre = i \<Longrightarrow>
   SafeDelete i ia = Inr (ia\<lparr>ia_blocks := pre @ post\<rparr>)"
  by (auto simp: SafeDelete_def)

lemma ia_ok_delete:
  "ia_ok ia \<Longrightarrow> ia_blocks ia = pre @ b # post \<Longrightarrow> ia_ok (ia\<lparr>ia_blocks := pre @ post\<rparr>)"
  by (auto simp: ia_ok_def wf_blocks_append wf_blocks_Cons)

text \<open>What the invariant says around a cut.\<close>

lemma ia_ok_cut:
  assumes "ia_ok ia" "ia_blocks ia = pre @ b # post"
  shows "lo b < hi b" "hi b < 2 ^ 32" "\<forall>a\<in>set pre. hi a < lo b" "\<forall>c\<in>set post. hi b < lo c"
    and "\<forall>c\<in>set post. lo (hd post) \<le> lo c" "unat (bi_start b + bi_size b) = hi b"
    and "held ia = ids pre \<union> {lo b..<hi b} \<union> ids post"
proof -
  have wf: "wf_blocks (pre @ b # post)" using assms by (simp add: ia_ok_def)
  then show "lo b < hi b" "\<forall>a\<in>set pre. hi a < lo b" "\<forall>c\<in>set post. hi b < lo c"
    by (auto simp: wf_blocks_append wf_blocks_Cons wf_block_def)
  show h: "hi b < 2 ^ 32" using wf by (simp add: wf_blocks_append wf_blocks_Cons wf_block_def)
  show "\<forall>c\<in>set post. lo (hd post) \<le> lo c"
    using wf by (cases post) (auto simp: wf_blocks_append wf_blocks_Cons wf_block_def)
  show "unat (bi_start b + bi_size b) = hi b" using h by (rule unat_end)
  show "held ia = ids pre \<union> {lo b..<hi b} \<union> ids post"
    using assms(2) by (auto simp: held_def)
qed

section \<open>AddInterval adds exactly its interval\<close>

text \<open>One round of the loop, its word comparisons read as comparisons of bounds.\<close>

lemma AddLoop_round:
  assumes "ia_ok ia" "ia_blocks ia = pre @ b # post" "length pre = i"
    and e: "unat (st + sz) = e"
  shows "AddLoop mc i st sz ia =
       (if lo b > unat st then
          if lo b > e then SafeInsert mc i st sz ia
          else if hi b \<ge> e then Inr (set_block i st (bi_size b + (bi_start b - st)) ia)
          else AddInterval mc st sz (ia\<lparr>ia_blocks := pre @ post\<rparr>)
        else if hi b \<ge> unat st then
          if hi b \<ge> e then Inr ia
          else if post = [] \<or> lo (hd post) > e then
            Inr (set_block i (bi_start b) (st + sz - bi_start b) ia)
          else AddInterval mc (bi_start b) (sz + (st - bi_start b)) (ia\<lparr>ia_blocks := pre @ post\<rparr>)
        else AddLoop mc (i + 1) st sz ia)"
proof -
  note num = word_less_nat_alt word_le_nat_alt e ia_ok_cut(6)[OF assms(1,2)]
  have i: "i < length (ia_blocks ia)" "ia_blocks ia ! i = b"
    using assms(2,3) by (auto simp: nth_append)
  show ?thesis
    using i SafeDelete_cut[OF assms(2,3)] assms(2,3)
    by (subst AddLoop.simps) (cases post, auto simp: Let_def num lo_def nth_append)
qed

lemma unat_widened:
  assumes "unat st \<le> lo b" "hi b < 2 ^ 32"
  shows "unat st + unat (bi_size b + (bi_start b - st)) = hi b"
proof -
  have "unat (bi_start b - st) = lo b - unat st"
    using assms by (simp add: lo_def unat_sub word_le_nat_alt)
  moreover have "unat (bi_size b) = hi b - lo b" by (simp add: hi_def lo_def)
  ultimately show ?thesis
    using assms lo_le_hi[of b] by (simp add: unat_word_ariths)
qed

lemma unat_upto:
  "lo b \<le> unat x \<Longrightarrow> unat (bi_start b) + unat (x - bi_start b) = unat x"
  by (simp add: lo_def unat_sub word_le_nat_alt)

lemma unat_joined:
  assumes "lo b \<le> unat st" "unat st + unat sz < 2 ^ 32"
  shows "unat (sz + (st - bi_start b)) = unat sz + (unat st - lo b)"
  using assms by (simp add: lo_def unat_sub word_le_nat_alt unat_word_ariths)

text \<open>
  One round, given what the three continuations do: restart after swallowing a block,
  restart with a block joined to the interval, or go on to the next block.
\<close>

lemma AddLoop_step:
  assumes ok: "ia_ok ia" and cut: "ia_blocks ia = pre @ b # post" "length pre = i"
    and len: "length (ia_blocks ia) < 0xffff" and pre: "\<forall>a\<in>set pre. hi a < unat st"
    and sz: "0 < unat sz" and e: "e = unat st + unat sz" "e < 2 ^ 32"
    and swallow: "unat st < lo b \<Longrightarrow> lo b \<le> e \<Longrightarrow> hi b < e \<Longrightarrow>
      becomes (Suc (length (pre @ post))) (ids (pre @ post) \<union> {unat st..<e})
        (AddInterval Moves st sz (ia\<lparr>ia_blocks := pre @ post\<rparr>))"
    and join: "lo b \<le> unat st \<Longrightarrow> unat st \<le> hi b \<Longrightarrow> hi b < e \<Longrightarrow> post \<noteq> [] \<Longrightarrow> lo (hd post) \<le> e \<Longrightarrow>
      becomes (Suc (length (pre @ post))) (ids (pre @ post) \<union> {lo b..<e})
        (AddInterval Moves (bi_start b) (sz + (st - bi_start b)) (ia\<lparr>ia_blocks := pre @ post\<rparr>))"
    and onward: "lo b \<le> unat st \<Longrightarrow> hi b < unat st \<Longrightarrow>
      becomes (Suc (length (ia_blocks ia))) (held ia \<union> {unat st..<e}) (AddLoop Moves (i + 1) st sz ia)"
  shows "becomes (Suc (length (ia_blocks ia))) (held ia \<union> {unat st..<e}) (AddLoop Moves i st sz ia)"
proof -
  have word_e: "unat (st + sz) = e" using e by (simp add: unat_word_ariths)
  note round = AddLoop_round[OF ok cut word_e] and around = ia_ok_cut[OF ok cut(1)]
  consider "unat st < lo b" "e < lo b" | "unat st < lo b" "lo b \<le> e" "e \<le> hi b"
    | "unat st < lo b" "lo b \<le> e" "hi b < e" | "lo b \<le> unat st" "e \<le> hi b"
    | "lo b \<le> unat st" "unat st \<le> hi b" "hi b < e" "post = [] \<or> e < lo (hd post)"
    | "lo b \<le> unat st" "unat st \<le> hi b" "hi b < e" "post \<noteq> []" "lo (hd post) \<le> e"
    | "lo b \<le> unat st" "hi b < unat st"
    by linarith
  then show ?thesis
  proof cases
    case 1
    then have "\<forall>c\<in>set (b # post). unat st + unat sz < lo c" using around(1,4) e by fastforce
    then show ?thesis
      using 1 round e sz becomes_insert[OF cut ok len pre] by simp
  next
    case 2
    then show ?thesis
      using round e sz unat_widened[of st b] around pre
      by (auto intro!: becomes_set_block[OF cut ok])
  next
    case 3
    then show ?thesis
      using swallow round cut around by (auto elim!: becomes_mono)
  next
    case 4
    then show ?thesis using round ok around e by (auto intro!: becomes_same)
  next
    case 5
    have "\<forall>c\<in>set post. e < lo c" using 5 around(5) by (cases post) auto
    moreover have "{lo b..<e} = {lo b..<hi b} \<union> {unat st..<e}" using 5(1-3) by auto
    then have "held ia \<union> {unat st..<e} = ids pre \<union> {lo b..<e} \<union> ids post"
      using around(7) by blast
    moreover have "unat (bi_start b) + unat (st + sz - bi_start b) = e"
      using unat_upto[of b "st + sz"] 5 e word_e by simp
    ultimately have "becomes (Suc (length (ia_blocks ia))) (held ia \<union> {unat st..<e})
        (Inr (set_block i (bi_start b) (st + sz - bi_start b) ia))"
      using 5 around(1,3) e
      by (intro becomes_set_block[OF cut ok]) (simp_all add: lo_def)
    moreover have "AddLoop Moves i st sz ia = Inr (set_block i (bi_start b) (st + sz - bi_start b) ia)"
      using round 5 by auto
    ultimately show ?thesis by simp
  next
    case 6
    moreover have "{lo b..<e} = {lo b..<hi b} \<union> {unat st..<e}" using 6 by auto
    ultimately show ?thesis
      using join round cut around by (auto elim!: becomes_mono)
  next
    case 7
    then show ?thesis using onward round by simp
  qed
qed

lemma AddInterval_becomes:
  "mc = Moves \<Longrightarrow> ia_ok ia \<Longrightarrow> length (ia_blocks ia) < 0xffff \<Longrightarrow> 0 < unat sz \<Longrightarrow>
   unat st + unat sz < 2 ^ 32 \<Longrightarrow>
   becomes (Suc (length (ia_blocks ia))) (held ia \<union> {unat st..<unat st + unat sz}) (AddInterval mc st sz ia)"
  "mc = Moves \<Longrightarrow> ia_ok ia \<Longrightarrow> length (ia_blocks ia) < 0xffff \<Longrightarrow> 0 < unat sz \<Longrightarrow>
   unat st + unat sz < 2 ^ 32 \<Longrightarrow> i \<le> length (ia_blocks ia) \<Longrightarrow>
   \<forall>a\<in>set (take i (ia_blocks ia)). hi a < unat st \<Longrightarrow>
   becomes (Suc (length (ia_blocks ia))) (held ia \<union> {unat st..<unat st + unat sz}) (AddLoop mc i st sz ia)"
proof (induction mc st sz ia and mc i st sz ia rule: AddInterval_AddLoop.induct)
  case (1 mc st sz ia)
  then have "st \<noteq> UINT32_MAX" "sz \<noteq> 0" by auto
  with 1 show ?case by (simp add: AddInterval.simps)
next
  case (2 mc i st sz ia)
  let ?e = "unat st + unat sz"
  have e: "unat (st + sz) = ?e" using "2.prems" by (simp add: unat_word_ariths)
  show ?case
  proof (cases "i < length (ia_blocks ia)")
    case False
    then have "SafeInsert mc i st sz ia = AddLoop mc i st sz ia" by (simp add: AddLoop.simps)
    with False 2 show ?thesis
      using becomes_insert[of ia "ia_blocks ia" "[]" i st sz] by simp
  next
    case i: True
    then obtain pre b post where cut: "ia_blocks ia = pre @ b # post" "length pre = i" "ia_blocks ia ! i = b"
      by (rule ia_cut)
    let ?ia = "ia\<lparr>ia_blocks := pre @ post\<rparr>"
    note del = SafeDelete_cut[OF cut(1,2)] and around = ia_ok_cut[OF "2.prems"(2) cut(1)]
      and ok' = ia_ok_delete[OF "2.prems"(2) cut(1)] and num = word_less_nat_alt word_le_nat_alt e lo_def
    have pre: "\<forall>a\<in>set pre. hi a < unat st" using "2.prems" cut by auto
    have held': "held ?ia = ids (pre @ post)" "length (ia_blocks ?ia) = length (pre @ post)"
      by (simp_all add: held_def)
    show ?thesis unfolding \<open>mc = Moves\<close>
    proof (rule AddLoop_step[OF "2.prems"(2) cut(1,2) "2.prems"(3) pre "2.prems"(4) refl "2.prems"(5)])
      assume c: "unat st < lo b" "lo b \<le> ?e" "hi b < ?e"
      show "becomes (Suc (length (pre @ post))) (ids (pre @ post) \<union> {unat st..<?e}) (AddInterval Moves st sz ?ia)"
        using "2.IH"(1)[OF i refl _ _ _ del] c cut around ok' "2.prems" unfolding held' by (auto simp: num)
    next
      assume c: "lo b \<le> unat st" "unat st \<le> hi b" "hi b < ?e" "post \<noteq> []" "lo (hd post) \<le> ?e"
      then have z: "unat (bi_start b) + unat (sz + (st - bi_start b)) = ?e" "0 < unat (sz + (st - bi_start b))"
        using unat_joined[OF c(1) "2.prems"(5)] "2.prems"(4) by (simp_all add: lo_def)
      show "becomes (Suc (length (pre @ post))) (ids (pre @ post) \<union> {lo b..<?e})
          (AddInterval Moves (bi_start b) (sz + (st - bi_start b)) ?ia)"
        using "2.IH"(2)[OF i refl _ _ _ _ del, unfolded cut(3) z] c cut around ok' z "2.prems"
        unfolding held' by (auto simp: num nth_append hd_conv_nth)
    next
      assume c: "lo b \<le> unat st" "hi b < unat st"
      have "take (i + 1) (ia_blocks ia) = pre @ [b]" using cut by simp
      then show "becomes (Suc (length (ia_blocks ia))) (held ia \<union> {unat st..<?e}) (AddLoop Moves (i + 1) st sz ia)"
        using "2.IH"(3)[OF i refl] c pre cut around i "2.prems" by (auto simp: num)
    qed
  qed
qed

end
