(* ===== verification/Interval_Delete.thy ===== *)
theory Interval_Delete
  imports Interval_Array
begin

text \<open>
  What \<open>DelInterval\<close> (\<open>core/interval_array.h\<close>) removes from the set of held ids.
\<close>

section \<open>DelInterval: what it removes\<close>

text \<open>
  The loop stops at once when a block starts exactly at \<open>start\<close> and ends inside the
  range; otherwise it goes on to the end of the range. \<open>del_stop\<close> is where it stops.
\<close>

definition del_stop :: "nat \<Rightarrow> nat \<Rightarrow> BlockInterval list \<Rightarrow> nat" where
  "del_stop s e bs = (case find (\<lambda>b. lo b = s \<and> hi b \<le> e) bs of Some b \<Rightarrow> hi b | None \<Rightarrow> e)"

lemma del_stop_append: "\<forall>a\<in>set pre. lo a \<noteq> s \<Longrightarrow> del_stop s e (pre @ bs) = del_stop s e bs"
  by (induction pre) (auto simp: del_stop_def)

lemma del_stop_none: "\<forall>a\<in>set bs. lo a \<noteq> s \<Longrightarrow> del_stop s e bs = e"
  by (induction bs) (auto simp: del_stop_def)

lemma del_stop_Cons: "del_stop s e (b # bs) = (if lo b = s \<and> hi b \<le> e then hi b else del_stop s e bs)"
  by (simp add: del_stop_def)

lemma DelLoop_round:
  assumes "ia_ok ia" "ia_blocks ia = pre @ b # post" "length pre = i"
    and e: "unat (st + sz) = e" and z: "sz \<noteq> 0"
  shows "DelLoop mc i st sz ia =
       (if unat st < lo b then
          if e < lo b then Inr ia
          else if e < hi b then Inr (set_block i (st + sz) ((bi_start b + bi_size b) - (st + sz)) ia)
          else DelLoop mc 0 st sz (ia\<lparr>ia_blocks := pre @ post\<rparr>)
        else if unat st < hi b then
          if hi b \<le> e then
            if lo b \<noteq> unat st then DelLoop mc 0 st sz (set_block i (bi_start b) (st - bi_start b) ia)
            else Inr (ia\<lparr>ia_blocks := pre @ post\<rparr>)
          else if lo b = unat st then
            Inr (set_block i (st + sz) (bi_size b - (st + sz - bi_start b)) ia)
          else SafeInsert mc (i + 1) (st + sz) (bi_start b + bi_size b - (st + sz))
                 (set_block i (bi_start b) (st - bi_start b) ia)
        else DelLoop mc (i + 1) st sz ia)"
proof -
  note num = word_less_nat_alt word_le_nat_alt e ia_ok_cut(6)[OF assms(1,2)] word_unat_eq_iff
  have i: "i < length (ia_blocks ia)" "ia_blocks ia ! i = b"
    using assms(2,3) by (auto simp: nth_append)
  have rec: "DelInterval mc st sz ia' = DelLoop mc 0 st sz ia'" for ia'
    using z by (simp add: DelInterval.simps)
  show ?thesis
    using i SafeDelete_cut[OF assms(2,3)] assms(2,3)
    by (subst DelLoop.simps) (auto simp: Let_def num lo_def rec)
qed

text \<open>Shortening the block that straddles \<open>start\<close>.\<close>

lemma crop_block:
  assumes "ia_ok ia" "ia_blocks ia = pre @ b # post" "length pre = i"
    and "lo b < unat st" "unat st < hi b"
  defines "ic \<equiv> set_block i (bi_start b) (st - bi_start b) ia"
  shows "ia_ok ic" "held ic = ids pre \<union> {lo b..<unat st} \<union> ids post"
    and "ia_blocks ic = pre @ \<lparr>bi_start = bi_start b, bi_size = st - bi_start b\<rparr> # post"
    and "length (ia_blocks ic) = length (ia_blocks ia)"
proof -
  note around = ia_ok_cut[OF assms(1,2)]
  have st: "unat (bi_start b) + unat (st - bi_start b) = unat st"
    using assms(4) by (intro unat_upto) simp
  have "becomes (length (ia_blocks ia)) (ids pre \<union> {lo b..<unat st} \<union> ids post) (Inr ic)"
    unfolding ic_def using assms(4,5) around st
    by (intro becomes_set_block[OF assms(2,3,1)]) (auto simp: lo_def)
  then show "ia_ok ic" "held ic = ids pre \<union> {lo b..<unat st} \<union> ids post"
    by (simp_all add: becomes_def)
  show "ia_blocks ic = pre @ \<lparr>bi_start = bi_start b, bi_size = st - bi_start b\<rparr> # post"
    "length (ia_blocks ic) = length (ia_blocks ia)"
    using assms(2,3) by (auto simp: ic_def set_block_def)
qed

lemma ia_ok_nonempty: "ia_ok ia \<Longrightarrow> a \<in> set (ia_blocks ia) \<Longrightarrow> lo a < hi a"
  by (auto simp: ia_ok_def wf_blocks_def wf_block_def)

lemma DelLoop_step:
  assumes ok: "ia_ok ia" and cut: "ia_blocks ia = pre @ b # post" "length pre = i"
    and len: "length (ia_blocks ia) < 0xffff" and pre: "\<forall>a\<in>set pre. hi a \<le> unat st"
    and sz: "0 < unat sz" and e: "e = unat st + unat sz" "e < 2 ^ 32"
    and s: "s = del_stop (unat st) e (ia_blocks ia)"
    and swallow: "unat st < lo b \<Longrightarrow> hi b \<le> e \<Longrightarrow>
      becomes (Suc (length (pre @ post))) (ids (pre @ post) - {unat st..<e})
        (DelLoop Moves 0 st sz (ia\<lparr>ia_blocks := pre @ post\<rparr>))"
    and crop: "lo b < unat st \<Longrightarrow> unat st < hi b \<Longrightarrow> hi b \<le> e \<Longrightarrow>
      becomes (Suc (length (ia_blocks ia))) (ids pre \<union> {lo b..<unat st} \<union> ids post - {unat st..<e})
        (DelLoop Moves 0 st sz (set_block i (bi_start b) (st - bi_start b) ia))"
    and onward: "hi b \<le> unat st \<Longrightarrow>
      becomes (Suc (length (ia_blocks ia))) (held ia - {unat st..<s}) (DelLoop Moves (i + 1) st sz ia)"
  shows "becomes (Suc (length (ia_blocks ia))) (held ia - {unat st..<s}) (DelLoop Moves i st sz ia)"
proof -
  have word_e: "unat (st + sz) = e" using e by (simp add: unat_word_ariths)
  have sz0: "sz \<noteq> 0" using sz by auto
  note round = DelLoop_round[OF ok cut word_e sz0] and around = ia_ok_cut[OF ok cut(1)]
  have "lo a < hi a" if "a \<in> set pre" for a
    using that ia_ok_nonempty[OF ok, of a] cut by simp
  then have "\<forall>a\<in>set pre. lo a \<noteq> unat st"
    using pre by fastforce
  then have stop: "s = del_stop (unat st) e (b # post)"
    using s cut by (simp add: del_stop_append)
  have late: "s = e" if "lo b \<noteq> unat st" "unat st < hi b"
    using that around(4) stop by (subst stop) (auto simp: del_stop_Cons intro!: del_stop_none)
  have below: "ids pre - {unat st..<x} = ids pre" for x
    using pre by (fastforce simp: ids_def)
  have above: "ids post - {x..<y} = ids post" if "y \<le> hi b" for x y
    using that around(4) by (fastforce simp: ids_def)
  have held: "held ia - {x..<y} = (ids pre - {x..<y}) \<union> ({lo b..<hi b} - {x..<y}) \<union> (ids post - {x..<y})" for x y
    using around(7) by blast
  have crop_size: "unat (bi_start b) + unat (st - bi_start b) = unat st" if "lo b \<le> unat st"
    using that by (rule unat_upto)
  consider "unat st < lo b" "e < lo b" | "unat st < lo b" "lo b \<le> e" "e < hi b"
    | "unat st < lo b" "hi b \<le> e" | "lo b < unat st" "unat st < hi b" "hi b \<le> e"
    | "lo b = unat st" "hi b \<le> e" | "lo b = unat st" "e < hi b"
    | "lo b < unat st" "e < hi b" | "hi b \<le> unat st"
    using around(1) by linarith
  then show ?thesis
  proof cases
    case 1
    then have "{lo b..<hi b} - {unat st..<e} = {lo b..<hi b}" by auto
    then have "held ia - {unat st..<s} = held ia"
      using 1 late around(1) held above below around(7) by simp
    then show ?thesis using 1 round ok by (auto intro: becomes_same)
  next
    case 2
    have n: "unat (bi_start b + bi_size b - (st + sz)) = hi b - e"
      using 2 word_e around(6) by (simp add: unat_sub word_le_nat_alt)
    have "{lo b..<hi b} - {unat st..<e} = {e..<hi b}" using 2 by auto
    then have "held ia - {unat st..<s} = ids pre \<union> {e..<hi b} \<union> ids post"
      using 2 late held above below by simp
    moreover have "\<forall>a\<in>set pre. hi a < e" using pre e sz by fastforce
    ultimately have "becomes (Suc (length (ia_blocks ia))) (held ia - {unat st..<s})
        (Inr (set_block i (st + sz) (bi_start b + bi_size b - (st + sz)) ia))"
      using 2 around(2,4) n word_e
      by (intro becomes_set_block[OF cut ok]) simp_all
    then show ?thesis using 2 round by auto
  next
    case 3
    have "{lo b..<hi b} - {unat st..<e} = {}" using 3 by auto
    then have "held ia - {unat st..<s} = ids (pre @ post) - {unat st..<e}"
      using 3 late around(1) held by auto
    then show ?thesis using swallow[OF 3] 3 round around(1) cut by (auto elim!: becomes_mono)
  next
    case 4
    have "{lo b..<hi b} - {unat st..<e} = {lo b..<unat st}" using 4 by auto
    then have "held ia - {unat st..<s} = ids pre \<union> {lo b..<unat st} \<union> ids post - {unat st..<e}"
      using 4 late held by auto
    then show ?thesis using crop[OF 4] 4 round by auto
  next
    case 5
    then have "s = hi b" using stop by (simp add: del_stop_Cons)
    then have "held ia - {unat st..<s} = ids (pre @ post)"
      using 5 held above below by auto
    then show ?thesis
      using 5 round around(1) cut ia_ok_delete[OF ok cut(1)]
      by (auto intro!: becomes_same simp: held_def)
  next
    case 6
    then have st: "bi_start b = st" by (simp add: lo_def word_unat_eq_iff)
    have n: "unat (bi_size b - sz) = hi b - e"
      using 6 st e by (simp add: hi_def lo_def unat_sub word_le_nat_alt)
    have "{lo b..<hi b} - {unat st..<e} = {e..<hi b}" using 6 e by auto
    moreover have "\<forall>c\<in>set post. lo c \<noteq> unat st" using 6 around(1,4) by fastforce
    then have "s = e" using 6 stop by (simp add: del_stop_Cons del_stop_none)
    ultimately have "held ia - {unat st..<s} = ids pre \<union> {e..<hi b} \<union> ids post"
      using held above below 6 by simp
    moreover have "\<forall>a\<in>set pre. hi a < e" using pre e sz by fastforce
    ultimately have "becomes (Suc (length (ia_blocks ia))) (held ia - {unat st..<s})
        (Inr (set_block i (st + sz) (bi_size b - sz) ia))"
      using 6 around(2,4) n word_e
      by (intro becomes_set_block[OF cut ok]) simp_all
    then show ?thesis using 6 round st e sz by auto
  next
    case 7
    let ?ia = "set_block i (bi_start b) (st - bi_start b) ia"
    let ?b = "\<lparr>bi_start = bi_start b, bi_size = st - bi_start b\<rparr>"
    have st: "unat (bi_start b) + unat (st - bi_start b) = unat st"
      using 7 crop_size by simp
    have n: "unat (bi_start b + bi_size b - (st + sz)) = hi b - e"
      using 7 word_e around(6) by (simp add: unat_sub word_le_nat_alt)
    note ia1 = crop_block[OF ok cut 7(1)] 
    have ub: "unat st < hi b" using 7 e by simp
    have cut1: "ia_blocks ?ia = (pre @ [?b]) @ post" "length (pre @ [?b]) = i + 1"
      using ia1(3)[OF ub] cut by auto
    have "becomes (Suc (length (ia_blocks ?ia)))
        (held ?ia \<union> {unat (st + sz)..<unat (st + sz) + unat (bi_start b + bi_size b - (st + sz))})
        (SafeInsert Moves (i + 1) (st + sz) (bi_start b + bi_size b - (st + sz)) ?ia)"
      using 7 around(2-4) n word_e st e sz pre len ia1(4)[OF ub]
      by (intro becomes_insert[OF cut1 ia1(1)[OF ub]]) (auto simp: lo_def)
    moreover have "{lo b..<hi b} - {unat st..<e} = {lo b..<unat st} \<union> {e..<hi b}"
      using 7 e by auto
    then have "held ia - {unat st..<s} = held ?ia \<union> {e..<hi b}"
      using 7 late held above below ia1(2)[OF ub] e by auto
    ultimately show ?thesis using 7 round n word_e ia1(4)[OF ub] e by auto
  next
    case 8
    then show ?thesis using onward round around(1) by auto
  qed
qed

lemma DelLoop_becomes:
  "mc = Moves \<Longrightarrow> ia_ok ia \<Longrightarrow> length (ia_blocks ia) < 0xffff \<Longrightarrow> 0 < unat sz \<Longrightarrow>
   unat st + unat sz < 2 ^ 32 \<Longrightarrow>
   becomes (Suc (length (ia_blocks ia)))
     (held ia - {unat st..<del_stop (unat st) (unat st + unat sz) (ia_blocks ia)}) (DelInterval mc st sz ia)"
  "mc = Moves \<Longrightarrow> ia_ok ia \<Longrightarrow> length (ia_blocks ia) < 0xffff \<Longrightarrow> 0 < unat sz \<Longrightarrow>
   unat st + unat sz < 2 ^ 32 \<Longrightarrow> i \<le> length (ia_blocks ia) \<Longrightarrow>
   \<forall>a\<in>set (take i (ia_blocks ia)). hi a \<le> unat st \<Longrightarrow>
   becomes (Suc (length (ia_blocks ia)))
     (held ia - {unat st..<del_stop (unat st) (unat st + unat sz) (ia_blocks ia)}) (DelLoop mc i st sz ia)"
proof (induction mc st sz ia and mc i st sz ia rule: DelInterval_DelLoop.induct)
  case (1 mc st sz ia)
  then have "sz \<noteq> 0" by auto
  with 1 show ?case by (simp add: DelInterval.simps)
next
  case (2 mc i st sz ia)
  let ?e = "unat st + unat sz"
  have e: "unat (st + sz) = ?e" using "2.prems" by (simp add: unat_word_ariths)
  have rec: "DelInterval mc st sz ia' = DelLoop mc 0 st sz ia'" for ia'
    using "2.prems"(4) by (auto simp: DelInterval.simps)
  show ?case
  proof (cases "i < length (ia_blocks ia)")
    case False
    with 2 have "\<forall>a\<in>set (ia_blocks ia). lo a < hi a \<and> hi a \<le> unat st"
      by (auto simp: ia_ok_def wf_blocks_def wf_block_def)
    then have "held ia - {unat st..<x} = held ia" for x by (fastforce simp: held_def ids_def)
    with False 2 show ?thesis by (simp add: DelLoop.simps becomes_def)
  next
    case i: True
    then obtain pre b post where cut: "ia_blocks ia = pre @ b # post" "length pre = i" "ia_blocks ia ! i = b"
      by (rule ia_cut)
    let ?ia = "ia\<lparr>ia_blocks := pre @ post\<rparr>"
    let ?ic = "set_block i (bi_start b) (st - bi_start b) ia"
    note del = SafeDelete_cut[OF cut(1,2)] and around = ia_ok_cut[OF "2.prems"(2) cut(1)]
      and ok' = ia_ok_delete[OF "2.prems"(2) cut(1)] and num = word_less_nat_alt word_le_nat_alt e lo_def
    have pre: "\<forall>a\<in>set pre. hi a \<le> unat st" using "2.prems" cut by auto
    have "lo a < hi a" if "a \<in> set pre" for a
      using that ia_ok_nonempty[OF "2.prems"(2), of a] cut by simp
    then have pre_lo: "\<forall>a\<in>set pre. lo a < unat st"
      using pre by fastforce
    show ?thesis unfolding \<open>mc = Moves\<close>
    proof (rule DelLoop_step[OF "2.prems"(2) cut(1,2) "2.prems"(3) pre "2.prems"(4) refl "2.prems"(5) refl])
      assume c: "unat st < lo b" "hi b \<le> ?e"
      have "lo a \<noteq> unat st" if "a \<in> set (pre @ post)" for a
        using that pre_lo c around(1,4) by fastforce
      then have stop: "del_stop (unat st) ?e (pre @ post) = ?e" by (simp add: del_stop_none)
      show "becomes (Suc (length (pre @ post))) (ids (pre @ post) - {unat st..<?e}) (DelLoop Moves 0 st sz ?ia)"
        using "2.IH"(1)[OF i refl _ _ _ del] c cut around ok' "2.prems" rec stop
        by (auto simp: num held_def)
    next
      assume c: "lo b < unat st" "unat st < hi b" "hi b \<le> ?e"
      note ic = crop_block[OF "2.prems"(2) cut(1,2) c(1,2)]
      have "lo a \<noteq> unat st" if "a \<in> set (ia_blocks ?ic)" for a
        using that pre_lo c around(1,4) unfolding ic(3) by (fastforce simp: lo_def)
      then have stop: "del_stop (unat st) ?e (ia_blocks ?ic) = ?e" by (simp add: del_stop_none)
      show "becomes (Suc (length (ia_blocks ia))) (ids pre \<union> {lo b..<unat st} \<union> ids post - {unat st..<?e})
          (DelLoop Moves 0 st sz ?ic)"
        using "2.IH"(2)[OF i refl, unfolded cut(3), of "bi_size b" ?ic] c around ic "2.prems" rec stop
        by (auto simp: num)
    next
      assume c: "hi b \<le> unat st"
      have "take (i + 1) (ia_blocks ia) = pre @ [b]" using cut by simp
      then show "becomes (Suc (length (ia_blocks ia)))
          (held ia - {unat st..<del_stop (unat st) ?e (ia_blocks ia)}) (DelLoop Moves (i + 1) st sz ia)"
        using "2.IH"(3)[OF i refl] c pre cut around i "2.prems" by (auto simp: num)
    qed
  qed
qed
end
