(* ===== verification/Interval_Query.thy ===== *)
theory Interval_Query
  imports Interval_Delete
begin

text \<open>
  The read-only operations of \<open>core/interval_array.h\<close> against the set of held ids, the
  loops over a second array, and what ISO C's \<open>memcpy\<close> can change about the updates.
\<close>

section \<open>The read-only operations\<close>

lemma UINT32_MAX_unat [simp]: "unat (UINT32_MAX :: u32) = 2 ^ 32 - 1"
  by simp

lemma unat_u32: "unat (x :: u32) < 2 ^ 32"
  by (rule order_less_le_trans[OF unsigned_less]) simp

lemma verify_blocks_wf: "verify_blocks bs \<longleftrightarrow> wf_blocks bs"
proof (induction bs rule: verify_blocks.induct)
  case (2 b bs)
  have word: "unat (UINT32_MAX - bi_start b) = 2 ^ 32 - 1 - lo b"
    using lo_less[of b] by (simp add: lo_def unat_sub word_le_nat_alt)
  have wf: "wf_block b \<longleftrightarrow> bi_size b \<noteq> 0 \<and> \<not> UINT32_MAX - bi_start b < bi_size b"
  proof -
    have "bi_size b \<noteq> 0 \<longleftrightarrow> lo b < hi b"
      by (simp add: lo_def hi_def unat_gt_0)
    moreover have "\<not> UINT32_MAX - bi_start b < bi_size b \<longleftrightarrow> hi b < 2 ^ 32"
      using lo_less[of b] by (simp only: word_less_nat_alt word) (auto simp: hi_def lo_def)
    ultimately show ?thesis by (simp add: wf_block_def)
  qed
  show ?case
  proof (cases bs)
    case Nil
    then show ?thesis using wf by (simp add: wf_blocks_Cons)
  next
    case (Cons c cs)
    have "(\<forall>d\<in>set bs. hi b < lo d) \<longleftrightarrow> hi b < lo c" if "wf_blocks bs"
      using that Cons by (fastforce simp: wf_blocks_Cons wf_block_def)
    moreover have "bi_start b + bi_size b \<ge> bi_start c \<longleftrightarrow> lo c \<le> hi b" if "wf_block b"
      using that by (simp add: word_le_nat_alt unat_end wf_block_def lo_def)
    ultimately show ?thesis
      using 2 Cons wf by (auto simp: wf_blocks_Cons)
  qed
qed simp

lemma find_block_ids:
  "wf_blocks bs \<Longrightarrow> find_block i bs \<longleftrightarrow> unat i \<in> ids bs"
proof (induction bs)
  case (Cons b bs)
  then have "hi b < 2 ^ 32" "\<forall>c\<in>set bs. hi b < lo c" "lo b \<le> hi b"
    by (auto simp: wf_blocks_Cons wf_block_def)
  moreover have "unat i \<notin> ids bs" if "unat i < hi b"
    using that calculation by (fastforce simp: ids_def)
  ultimately show ?case
    using Cons by (auto simp: wf_blocks_Cons word_less_nat_alt unat_end lo_def)
qed simp

lemma continous_count_ids:
  "wf_blocks bs \<Longrightarrow>
   {unat i..<unat i + unat (continous_count i bs)} \<subseteq> ids bs \<and>
   unat i + unat (continous_count i bs) \<notin> ids bs"
proof (induction bs)
  case (Cons b bs)
  then have b: "hi b < 2 ^ 32" "\<forall>c\<in>set bs. hi b < lo c" "lo b \<le> hi b"
    by (auto simp: wf_blocks_Cons wf_block_def)
  then have out: "x \<notin> ids bs" if "x \<le> hi b" for x
    using that by (fastforce simp: ids_def)
  have cnt: "unat (bi_start b + bi_size b - i) = hi b - unat i" if "unat i \<le> hi b"
    using that b by (simp add: unat_sub word_le_nat_alt unat_end)
  consider "unat i < lo b" | "lo b \<le> unat i" "unat i < hi b" | "hi b \<le> unat i" "lo b \<le> unat i"
    using b(3) by linarith
  then show ?case
  proof cases
    case 1
    then show ?thesis using out[of "unat i"] b by (auto simp: word_less_nat_alt lo_def)
  next
    case 2
    then show ?thesis using cnt out[of "hi b"] b
      by (auto simp: word_less_nat_alt unat_end lo_def)
  next
    case 3
    then show ?thesis using Cons b
      by (auto simp: word_less_nat_alt unat_end lo_def wf_blocks_Cons)
  qed
qed simp

text \<open>Intersecting two intervals.\<close>

lemma and_op_bounds:
  assumes "hi a < 2 ^ 32" "hi b < 2 ^ 32"
  shows "lo (and_op a b) = max (lo a) (lo b)"
    and "hi (and_op a b) = max (max (lo a) (lo b)) (min (hi a) (hi b))"
proof -
  have mx: "unat (max x y) = max (unat x) (unat y)" for x y :: u32
    by (simp add: max_def word_le_nat_alt)
  have mn: "unat (min x y) = min (unat x) (unat y)" for x y :: u32
    by (simp add: min_def word_le_nat_alt)
  show "lo (and_op a b) = max (lo a) (lo b)"
    by (simp add: and_op_def Let_def mx lo_def)
  have sub: "unat (x - y) = unat x - unat y" if "y < x" for x y :: u32
    using that by (simp add: unat_sub word_less_nat_alt word_le_nat_alt)
  show "hi (and_op a b) = max (max (lo a) (lo b)) (min (hi a) (hi b))"
    using assms by (auto simp: and_op_def Let_def mx mn unat_end lo_def sub word_less_nat_alt)
qed

lemma and_op_range:
  assumes "hi a < 2 ^ 32" "hi b < 2 ^ 32"
  shows "{lo (and_op a b)..<hi (and_op a b)} = {lo a..<hi a} \<inter> {lo b..<hi b}"
    and "hi (and_op a b) < 2 ^ 32"
  unfolding and_op_bounds[OF assms]
  using assms lo_less[of a] lo_less[of b] by auto

lemma size_lo_hi: "unat (bi_size b) = hi b - lo b"
  by (simp add: hi_def lo_def)

lemma finite_ids [simp]: "finite (ids bs)"
  by (simp add: ids_def)

lemma count_ids:
  assumes "wf_blocks bs" "hi w < 2 ^ 32"
  shows "unat (fold (\<lambda>b total. total + bi_size (and_op b w)) bs n) =
    (unat n + card (ids bs \<inter> {lo w..<hi w})) mod 2 ^ 32"
  using assms
proof (induction bs arbitrary: n)
  case Nil
  then show ?case using unat_u32[of n] by simp
next
  case (Cons b bs)
  then have b: "hi b < 2 ^ 32" "\<forall>c\<in>set bs. hi b < lo c"
    by (auto simp: wf_blocks_Cons wf_block_def)
  have "({lo b..<hi b} \<inter> {lo w..<hi w}) \<inter> (ids bs \<inter> {lo w..<hi w}) = {}"
    using b(2) by (fastforce simp: ids_def)
  then have "card (ids (b # bs) \<inter> {lo w..<hi w}) =
      card ({lo b..<hi b} \<inter> {lo w..<hi w}) + card (ids bs \<inter> {lo w..<hi w})"
    by (simp add: Int_Un_distrib2 card_Un_disjoint)
  moreover have "unat (bi_size (and_op b w)) = card ({lo b..<hi b} \<inter> {lo w..<hi w})"
    using and_op_range(1)[OF b(1) Cons.prems(2), symmetric] by (simp add: size_lo_hi)
  moreover have "unat (n + x) = (unat n + unat x) mod 2 ^ 32" for x
    by (simp add: unat_word_ariths)
  moreover have "wf_blocks bs" using Cons.prems by (simp add: wf_blocks_Cons)
  note Cons.IH[OF this Cons.prems(2), of "n + bi_size (and_op b w)"]
  ultimately show ?case by (simp only: fold_simps mod_add_left_eq add.assoc)
qed

text \<open>
  \<open>GetCountInInterval\<close> clips its window at the largest id; \<open>count_end\<close> is where.
\<close>

definition count_end :: "u32 \<Rightarrow> u32 \<Rightarrow> nat" where
  "count_end blockID len = min (unat blockID + unat len) (2 ^ 32 - 1)"

lemma GetCountInInterval_card:
  assumes "ia_ok ia"
  shows "unat (GetCountInInterval ia blockID len) =
    card (held ia \<inter> {unat blockID..<count_end blockID len})"
proof -
  let ?w = "\<lparr>bi_start = blockID, bi_size = min len (UINT32_MAX - blockID)\<rparr>"
  have "unat (UINT32_MAX - blockID) = 2 ^ 32 - 1 - unat blockID"
    using unat_u32[of blockID] by (simp add: unat_sub word_le_nat_alt)
  then have w: "hi ?w = count_end blockID len"
    using unat_u32[of blockID] by (auto simp: count_end_def min_def word_le_nat_alt)
  then have w32: "hi ?w < 2 ^ 32" by (simp add: count_end_def)
  have "card (held ia \<inter> {lo ?w..<hi ?w}) \<le> card {lo ?w..<hi ?w}"
    by (intro card_mono) auto
  also have "\<dots> < 2 ^ 32" using w32 by simp
  finally show ?thesis
    using count_ids[of "ia_blocks ia" ?w 0] assms w32 w
    by (simp add: GetCountInInterval_def Let_def ia_ok_def held_def)
qed

lemma held_bounds: "ia_ok ia \<Longrightarrow> x \<in> held ia \<Longrightarrow> x < 2 ^ 32 - 1"
  by (force simp: ia_ok_def wf_blocks_def wf_block_def held_def ids_def)

lemma GetMin_held:
  assumes "ia_ok ia" "ia_blocks ia \<noteq> []"
  shows "unat (GetMinBlockID ia) = Min (held ia)"
proof -
  obtain b bs where bs: "ia_blocks ia = b # bs" using assms(2) by (cases "ia_blocks ia") auto
  then have "lo b < hi b" "\<forall>c\<in>set bs. hi b < lo c"
    using assms(1) by (auto simp: ia_ok_def wf_blocks_Cons wf_block_def)
  then have "Min (held ia) = lo b"
    using bs by (intro Min_eqI) (fastforce simp: held_def ids_def)+
  then show ?thesis using bs by (simp add: GetMinBlockID_def lo_def)
qed

lemma GetMax_held:
  assumes "ia_ok ia" "ia_blocks ia \<noteq> []"
  shows "unat (GetMaxBlockID ia) = Suc (Max (held ia))"
proof -
  obtain b bs where bs: "ia_blocks ia = bs @ [b]" using assms(2) by (cases "ia_blocks ia" rule: rev_cases) auto
  then have b: "lo b < hi b" "\<forall>c\<in>set bs. hi c < lo b" "hi b < 2 ^ 32"
    using assms(1) by (auto simp: ia_ok_def wf_blocks_append wf_blocks_Cons wf_block_def)
  then have "Max (held ia) = hi b - 1"
    using bs by (intro Max_eqI) (fastforce simp: held_def ids_def)+
  then show ?thesis using bs b by (simp add: GetMaxBlockID_def unat_end)
qed

section \<open>The loops over a second array\<close>

lemma becomes_Del:
  assumes "ia_ok ia" "length (ia_blocks ia) < 0xffff" "wf_block b"
  obtains ia' where "DelInterval Moves (bi_start b) (bi_size b) ia = Inr ia'" "ia_ok ia'"
    "held ia - {lo b..<hi b} \<subseteq> held ia'" "held ia' \<subseteq> held ia"
    "length (ia_blocks ia') \<le> Suc (length (ia_blocks ia))"
proof -
  let ?s = "del_stop (lo b) (hi b) (ia_blocks ia)"
  have "?s \<le> hi b"
    by (induction "ia_blocks ia") (auto simp: del_stop_def find_Some_iff split: option.splits)
  then have "held ia - {lo b..<hi b} \<subseteq> held ia - {lo b..<?s}" by auto
  moreover have "becomes (Suc (length (ia_blocks ia))) (held ia - {lo b..<?s})
      (DelInterval Moves (bi_start b) (bi_size b) ia)"
    using DelLoop_becomes(1)[of Moves ia "bi_size b" "bi_start b"] assms
    by (simp add: wf_block_def lo_def hi_def)
  ultimately show thesis by (auto simp: becomes_def intro: that)
qed

lemma DelArray_fold:
  assumes "ia_ok ia" "\<forall>b\<in>set ys. wf_block b" "length (ia_blocks ia) + length ys \<le> 0xffff"
  shows "\<exists>ia'. foldE (\<lambda>b. DelInterval Moves (bi_start b) (bi_size b)) ys ia = Inr ia' \<and> ia_ok ia' \<and>
    held ia - ids ys \<subseteq> held ia' \<and> held ia' \<subseteq> held ia"
  using assms
proof (induction ys arbitrary: ia)
  case (Cons y ys)
  then have "length (ia_blocks ia) < 0xffff" by simp
  then obtain ia' where d: "DelInterval Moves (bi_start y) (bi_size y) ia = Inr ia'" "ia_ok ia'"
    "held ia - {lo y..<hi y} \<subseteq> held ia'" "held ia' \<subseteq> held ia"
    "length (ia_blocks ia') \<le> Suc (length (ia_blocks ia))"
    using becomes_Del[of ia y] Cons.prems by auto
  moreover have "\<exists>ia2. foldE (\<lambda>b. DelInterval Moves (bi_start b) (bi_size b)) ys ia' = Inr ia2 \<and> ia_ok ia2 \<and>
    held ia' - ids ys \<subseteq> held ia2 \<and> held ia2 \<subseteq> held ia'"
    using Cons.prems d by (intro Cons.IH) auto
  ultimately show ?case by fastforce
qed simp

lemma and_fold_inner:
  assumes "ia_ok r" "\<forall>a\<in>set as. wf_block a" "wf_block b" "length (ia_blocks r) + length as \<le> 0xffff"
  shows "becomes (length (ia_blocks r) + length as) (held r \<union> (ids as \<inter> {lo b..<hi b}))
    (foldE (\<lambda>a r. let temp = and_op a b in
        if bi_size temp > 0 then AddInterval Moves (bi_start temp) (bi_size temp) r else Inr r) as r)"
    (is "becomes _ _ (foldE ?f as r)")
  using assms
proof (induction as arbitrary: r)
  case Nil
  then show ?case by (simp add: becomes_def)
next
  case (Cons a as)
  let ?t = "and_op a b"
  have t: "{lo ?t..<hi ?t} = {lo a..<hi a} \<inter> {lo b..<hi b}" "hi ?t < 2 ^ 32"
    using and_op_range[of a b] Cons.prems by (auto simp: wf_block_def)
  have "becomes (Suc (length (ia_blocks r))) (held r \<union> ({lo a..<hi a} \<inter> {lo b..<hi b})) (?f a r)"
  proof (cases "bi_size ?t > 0")
    case True
    then show ?thesis
      using AddInterval_becomes(1)[of Moves r "bi_size ?t" "bi_start ?t"] t Cons.prems
      by (simp add: Let_def lo_def hi_def unat_gt_0)
  next
    case False
    then have "{lo ?t..<hi ?t} = {}" by (simp add: lo_def hi_def word_less_nat_alt)
    then have empty: "{lo a..<hi a} \<inter> {lo b..<hi b} = {}" using t(1) by simp
    show ?thesis unfolding empty using False Cons.prems by (simp add: becomes_def)
  qed
  then obtain r' where r': "?f a r = Inr r'" "ia_ok r'"
    "held r' = held r \<union> ({lo a..<hi a} \<inter> {lo b..<hi b})"
    "length (ia_blocks r') \<le> Suc (length (ia_blocks r))"
    by (auto simp: becomes_def)
  have "becomes (length (ia_blocks r') + length as) (held r' \<union> (ids as \<inter> {lo b..<hi b})) (foldE ?f as r')"
    using Cons.prems r' by (intro Cons.IH) auto
  moreover have "held r' \<union> (ids as \<inter> {lo b..<hi b}) = held r \<union> (ids (a # as) \<inter> {lo b..<hi b})"
    unfolding r'(3) ids_simps by blast
  ultimately have "becomes (length (ia_blocks r) + length (a # as)) (held r \<union> (ids (a # as) \<inter> {lo b..<hi b}))
      (foldE ?f as r')"
    by (rule becomes_mono) (use r'(4) in simp)
  then show ?case using r'(1) by (simp only: foldE.simps bindE_Inr)
qed

lemma and_fold_outer:
  assumes "ia_ok r" "\<forall>a\<in>set as. wf_block a" "\<forall>b\<in>set bs. wf_block b"
    and "length (ia_blocks r) + length as * length bs \<le> 0xffff"
  shows "becomes (length (ia_blocks r) + length as * length bs) (held r \<union> (ids as \<inter> ids bs))
    (foldE (\<lambda>b r. foldE (\<lambda>a r. let temp = and_op a b in
        if bi_size temp > 0 then AddInterval Moves (bi_start temp) (bi_size temp) r else Inr r) as r) bs r)"
    (is "becomes _ _ (foldE ?f bs r)")
  using assms
proof (induction bs arbitrary: r)
  case Nil
  then show ?case by (simp add: becomes_def)
next
  case (Cons b bs)
  have "becomes (length (ia_blocks r) + length as) (held r \<union> (ids as \<inter> {lo b..<hi b})) (?f b r)"
    using Cons.prems by (intro and_fold_inner) auto
  then obtain r' where r': "?f b r = Inr r'" "ia_ok r'"
    "held r' = held r \<union> (ids as \<inter> {lo b..<hi b})"
    "length (ia_blocks r') \<le> length (ia_blocks r) + length as"
    by (auto simp: becomes_def)
  have "becomes (length (ia_blocks r') + length as * length bs) (held r' \<union> (ids as \<inter> ids bs)) (foldE ?f bs r')"
    using Cons.prems r' by (intro Cons.IH) auto
  moreover have "held r' \<union> (ids as \<inter> ids bs) = held r \<union> (ids as \<inter> ids (b # bs))"
    unfolding r'(3) ids_simps by blast
  ultimately have "becomes (length (ia_blocks r) + length as * length (b # bs)) (held r \<union> (ids as \<inter> ids (b # bs)))
      (foldE ?f bs r')"
    by (rule becomes_mono) (use r'(4) in simp)
  then show ?case using r'(1) by (simp only: foldE.simps bindE_Inr)
qed

section \<open>What an overlapping memcpy can change\<close>

text \<open>
  Under ISO C an update does what it does with a \<open>memcpy\<close> that moves, or reaches an
  overlapping copy.
\<close>

definition agrees :: "'a res \<Rightarrow> 'a res \<Rightarrow> bool" where
  "agrees r r' \<longleftrightarrow> r = Inl Overlapping_Copy \<or> r = r'"

lemma agrees_same [intro, simp]: "agrees r r"
  by (simp add: agrees_def)

lemma agrees_bind: "(\<And>x. agrees (f x) (g x)) \<Longrightarrow> agrees (bindE r f) (bindE r g)"
  by (cases r) (simp_all add: agrees_def)

lemma agrees_bind_ok: "(\<And>x. r = Inr x \<Longrightarrow> agrees (f x) (g x)) \<Longrightarrow> agrees (bindE r f) (bindE r g)"
  by (cases r) (simp_all add: agrees_def)

lemma agrees_if: "(P \<Longrightarrow> agrees a c) \<Longrightarrow> (\<not> P \<Longrightarrow> agrees b d) \<Longrightarrow> agrees (if P then a else b) (if P then c else d)"
  by simp

lemma SafeInsert_agrees: "agrees (SafeInsert Iso_C i st sz ia) (SafeInsert Moves i st sz ia)"
  unfolding SafeInsert_def Let_def
  by (intro agrees_bind) (auto simp: agrees_def guardE_def)

lemmas agrees_intros = agrees_if SafeInsert_agrees agrees_bind_ok agrees_same

lemma AddInterval_agrees:
  "mc = Moves \<Longrightarrow> agrees (AddInterval Iso_C st sz ia) (AddInterval mc st sz ia)"
  "mc = Moves \<Longrightarrow> agrees (AddLoop Iso_C i st sz ia) (AddLoop mc i st sz ia)"
proof (induction mc st sz ia and mc i st sz ia rule: AddInterval_AddLoop.induct)
  case (1 mc st sz ia)
  then show ?case by (subst (1 2) AddInterval.simps) auto
next
  case (2 mc i st sz ia)
  then show ?case
    unfolding AddLoop.simps[of Iso_C i] AddLoop.simps[of mc i] Let_def
    by (intro agrees_if agrees_bind_ok "2.IH" refl) (simp_all add: SafeInsert_agrees)
qed

lemma DelInterval_agrees:
  "mc = Moves \<Longrightarrow> agrees (DelInterval Iso_C st sz ia) (DelInterval mc st sz ia)"
  "mc = Moves \<Longrightarrow> agrees (DelLoop Iso_C i st sz ia) (DelLoop mc i st sz ia)"
proof (induction mc st sz ia and mc i st sz ia rule: DelInterval_DelLoop.induct)
  case (1 mc st sz ia)
  then show ?case by (subst (1 2) DelInterval.simps) (auto intro!: agrees_bind)
next
  case (2 mc i st sz ia)
  then show ?case
    unfolding DelLoop.simps[of Iso_C i] DelLoop.simps[of mc i] Let_def
    by (intro agrees_if agrees_bind_ok "2.IH" refl) (simp_all add: SafeInsert_agrees)
qed

text \<open>
  An interval behind all others is appended, and an append never copies between overlapping
  regions.
\<close>

lemma SafeInsert_last:
  "SafeInsert mc (length (ia_blocks ia)) st sz ia = SafeInsert Moves (length (ia_blocks ia)) st sz ia"
  by (simp add: SafeInsert_def Let_def)

lemma AddLoop_appends:
  assumes "ia_ok ia" "\<forall>b\<in>set (ia_blocks ia). hi b < unat st" "i \<le> length (ia_blocks ia)"
  shows "AddLoop mc i st sz ia = SafeInsert Moves (length (ia_blocks ia)) st sz ia"
  using assms(3)
proof (induction "length (ia_blocks ia) - i" arbitrary: i)
  case 0
  then have "i = length (ia_blocks ia)" by simp
  then show ?case by (subst AddLoop.simps) (simp add: SafeInsert_last[of mc])
next
  case (Suc k)
  then have i: "i < length (ia_blocks ia)" by simp
  let ?b = "ia_blocks ia ! i"
  have b: "?b \<in> set (ia_blocks ia)" using i by simp
  then have wf: "wf_block ?b" using assms(1) by (simp add: ia_ok_def wf_blocks_def)
  then have "unat (bi_start ?b + bi_size ?b) = hi ?b" by (intro unat_end) (simp add: wf_block_def)
  then have "\<not> bi_start ?b > st" "\<not> bi_start ?b + bi_size ?b \<ge> st"
    using assms(2) b lo_le_hi[of ?b] by (auto simp: word_less_nat_alt word_le_nat_alt lo_def[symmetric] dest!: bspec)
  then have "AddLoop mc i st sz ia = AddLoop mc (i + 1) st sz ia" using i by (subst AddLoop.simps) (simp add: Let_def)
  also have "\<dots> = SafeInsert Moves (length (ia_blocks ia)) st sz ia" using Suc i by (intro Suc.hyps(1)) auto
  finally show ?case .
qed

lemma AddInterval_appends:
  assumes "ia_ok ia" "\<forall>b\<in>set (ia_blocks ia). hi b < unat st"
  shows "AddInterval mc st sz ia = AddInterval Moves st sz ia"
    and "AddInterval mc st sz ia = Inr ia' \<Longrightarrow>
      ia' = ia \<or> ia_blocks ia' = ia_blocks ia @ [\<lparr>bi_start = st, bi_size = sz\<rparr>]"
  using AddLoop_appends[OF assms, of 0] 
  by (auto simp: AddInterval.simps SafeInsert_def Let_def res_invert split: if_splits)

text \<open>\<open>AndOperator\<close> finds its intervals from left to right: it only appends.\<close>

definition and_add :: "memcpy_impl \<Rightarrow> BlockInterval \<Rightarrow> BlockInterval \<Rightarrow> IntervalArray \<Rightarrow> IntervalArray res" where
  "and_add mc b a r = (let temp = and_op a b in if bi_size temp > 0 then AddInterval mc (bi_start temp) (bi_size temp) r else Inr r)"

lemma and_op_within: "wf_block a \<Longrightarrow> wf_block b \<Longrightarrow> bi_size (and_op a b) > 0 \<Longrightarrow>
    unat (bi_start (and_op a b)) = max (lo a) (lo b) \<and> hi (and_op a b) = min (hi a) (hi b) \<and> wf_block (and_op a b)"
  using and_op_bounds[of a b] by (auto simp: wf_block_def lo_def hi_def word_less_nat_alt)

lemma and_inner_same:
  assumes "ia_ok r" "wf_blocks as" "wf_block b" "length (ia_blocks r) + length as \<le> 0xffff"
    and "\<forall>x\<in>set (ia_blocks r). \<forall>a\<in>set as. hi x < max (lo a) (lo b)"
    and "\<forall>x\<in>set (ia_blocks r). hi x < n" "hi b < n"
  shows "\<exists>r'. foldE (and_add mc b) as r = Inr r' \<and> foldE (and_add Moves b) as r = Inr r' \<and> ia_ok r' \<and>
    length (ia_blocks r') \<le> length (ia_blocks r) + length as \<and> (\<forall>x\<in>set (ia_blocks r'). hi x < n)"
  using assms
proof (induction as arbitrary: r)
  case (Cons a as)
  have wf: "wf_block a" "wf_blocks as" "\<forall>c\<in>set as. hi a < lo c" using Cons.prems(2) by (simp_all add: wf_blocks_Cons)
  let ?t = "and_op a b"
  have "\<exists>r'. and_add mc b a r = Inr r' \<and> and_add Moves b a r = Inr r' \<and> ia_ok r' \<and> length (ia_blocks r') \<le> Suc (length (ia_blocks r)) \<and>
    set (ia_blocks r') \<subseteq> insert ?t (set (ia_blocks r)) \<and> (bi_size ?t = 0 \<longrightarrow> r' = r)"
  proof (cases "bi_size ?t > 0")
    case True
    note t = and_op_within[OF wf(1) Cons.prems(3) True]
    have "\<forall>x\<in>set (ia_blocks r). hi x < unat (bi_start ?t)" using Cons.prems(5) t by simp
    note app = AddInterval_appends[OF Cons.prems(1) this]
    have "becomes (Suc (length (ia_blocks r))) (held r \<union> {unat (bi_start ?t)..<unat (bi_start ?t) + unat (bi_size ?t)})
        (AddInterval Moves (bi_start ?t) (bi_size ?t) r)"
      using Cons.prems t True by (intro AddInterval_becomes(1)) (auto simp: wf_block_def hi_def word_less_nat_alt)
    then obtain r' where r': "AddInterval Moves (bi_start ?t) (bi_size ?t) r = Inr r'" "ia_ok r'"
      "length (ia_blocks r') \<le> Suc (length (ia_blocks r))" by (auto simp: becomes_def)
    then have "set (ia_blocks r') \<subseteq> insert ?t (set (ia_blocks r))" using app(2)[of Moves "bi_size ?t" r'] by auto
    then show ?thesis using True r' app(1)[of mc "bi_size ?t"] by (simp add: and_add_def Let_def)
  next
    case False
    then show ?thesis using Cons.prems(1) by (auto simp: and_add_def Let_def)
  qed
  then obtain r' where r': "and_add mc b a r = Inr r'" "and_add Moves b a r = Inr r'" "ia_ok r'"
    "length (ia_blocks r') \<le> Suc (length (ia_blocks r))" "set (ia_blocks r') \<subseteq> insert ?t (set (ia_blocks r))"
    "bi_size ?t = 0 \<longrightarrow> r' = r" by blast
  have bounds: "hi ?t \<le> hi a \<and> hi ?t \<le> hi b" if "bi_size ?t \<noteq> 0"
    using that and_op_within[OF wf(1) Cons.prems(3)] by (simp add: word_gt_0)
  have old_or_new: "x \<in> set (ia_blocks r) \<or> x = ?t \<and> bi_size ?t \<noteq> 0" if "x \<in> set (ia_blocks r')" for x
    using that r'(5,6) by auto
  have "\<forall>x\<in>set (ia_blocks r'). \<forall>c\<in>set as. hi x < max (lo c) (lo b)"
    using old_or_new bounds wf(3) Cons.prems(5) by fastforce
  moreover have "\<forall>x\<in>set (ia_blocks r'). hi x < n" using old_or_new bounds Cons.prems(6,7) by fastforce
  ultimately obtain q where "foldE (and_add mc b) as r' = Inr q" "foldE (and_add Moves b) as r' = Inr q" "ia_ok q"
    "length (ia_blocks q) \<le> length (ia_blocks r') + length as" "\<forall>x\<in>set (ia_blocks q). hi x < n"
    using Cons.IH[OF r'(3) wf(2) Cons.prems(3)] Cons.prems(4,7) r'(4) by auto
  then show ?case using r'(1,2,4) by simp
qed simp

lemma and_outer_same:
  assumes "ia_ok r" "wf_blocks as" "wf_blocks bs" "length (ia_blocks r) + length as * length bs \<le> 0xffff"
    and "\<forall>x\<in>set (ia_blocks r). \<forall>b\<in>set bs. hi x < lo b"
  shows "foldE (\<lambda>b. foldE (and_add mc b) as) bs r = foldE (\<lambda>b. foldE (and_add Moves b) as) bs r"
  using assms
proof (induction bs arbitrary: r)
  case (Cons b bs)
  have wf: "wf_block b" "wf_blocks bs" "\<forall>c\<in>set bs. hi b < lo c" using Cons.prems(3) by (simp_all add: wf_blocks_Cons)
  let ?n = "Min (insert (2 ^ 32) (lo ` set bs))"
  have n: "hi x < ?n \<longleftrightarrow> hi x < 2 ^ 32 \<and> (\<forall>c\<in>set bs. hi x < lo c)" for x by simp
  have "\<forall>x\<in>set (ia_blocks r). hi x < 2 ^ 32" using Cons.prems(1) by (auto simp: ia_ok_def wf_blocks_def wf_block_def)
  then obtain r' where r': "foldE (and_add mc b) as r = Inr r'" "foldE (and_add Moves b) as r = Inr r'" "ia_ok r'"
    "length (ia_blocks r') \<le> length (ia_blocks r) + length as" "\<forall>x\<in>set (ia_blocks r'). hi x < ?n"
    using and_inner_same[OF Cons.prems(1,2) wf(1), of ?n mc] Cons.prems(4,5) wf(1,3) unfolding n
    by (fastforce simp: wf_block_def)
  have "foldE (\<lambda>b. foldE (and_add mc b) as) bs r' = foldE (\<lambda>b. foldE (and_add Moves b) as) bs r'"
    using r'(3-5) Cons.prems(2,4) wf(2) unfolding n by (intro Cons.IH) auto
  then show ?case using r'(1,2) by simp
qed simp

end
