(* ===== verification/Interval_Props.thy ===== *)
theory Interval_Props
  imports Interval_Query
begin

text \<open>
  The contract of \<open>core/interval_array.h\<close>: what each operation promises about the set
  of block ids the array stands for.
\<close>

text \<open>
  What \<open>memcpy\<close> does with overlapping regions is left open by ISO C, and \<open>SafeInsert\<close> calls it
  on them when it makes room inside an array with a spare cell. The theorems on updates are
  therefore about both readings: \<open>Moves\<close>, a \<open>memcpy\<close> that copies as \<open>memmove\<close> does, and
  \<open>Iso_C\<close>, where such a call is a fault.
\<close>

text \<open>
  C18. \<open>AddInterval\<close> returns an array that passes \<open>Verify\<close> and holds exactly the old ids
  and the ids of the interval, on every branch of the loop (insertion, widening, swallowing and
  joining), if \<open>memcpy\<close> moves overlapping bytes as \<open>memmove\<close> does. Under ISO C, which leaves
  that undefined, the only other outcome is the fault of an overlapping copy, and that only
  if some stored interval reaches \<open>start\<close>: an interval behind all others is always added.
  The array passes \<open>Verify\<close>, does not use more cells than it has, and has fewer than
  65,535 intervals; the new interval is not empty and does not wrap.
\<close>

theorem AddInterval_adds:
  assumes "Verify ia" "length (ia_blocks ia) \<le> ia_total ia" "length (ia_blocks ia) < 0xffff"
    and "0 < sz" "unat st + unat sz < 2 ^ 32"
  shows "(\<exists>ia'. AddInterval mc st sz ia = Inr ia' \<and> Verify ia' \<and>
      held ia' = held ia \<union> {unat st..<unat st + unat sz} \<and>
      length (ia_blocks ia') \<le> Suc (length (ia_blocks ia)) \<and> length (ia_blocks ia') \<le> ia_total ia') \<or>
    mc = Iso_C \<and> AddInterval mc st sz ia = Inl Overlapping_Copy \<and> (\<exists>b\<in>set (ia_blocks ia). unat st \<le> hi b)"
proof -
  have ok: "ia_ok ia" using assms(1,2) by (simp add: Verify_def verify_blocks_wf ia_ok_def)
  have moves: "\<exists>ia'. AddInterval Moves st sz ia = Inr ia' \<and> Verify ia' \<and>
      held ia' = held ia \<union> {unat st..<unat st + unat sz} \<and>
      length (ia_blocks ia') \<le> Suc (length (ia_blocks ia)) \<and> length (ia_blocks ia') \<le> ia_total ia'"
    using AddInterval_becomes(1)[of Moves ia sz st] assms ok
    by (auto simp: becomes_def ia_ok_def Verify_def verify_blocks_wf unat_gt_0 word_gt_0)
  have "AddInterval mc st sz ia = AddInterval Moves st sz ia \<or> mc = Iso_C \<and> AddInterval mc st sz ia = Inl Overlapping_Copy"
    using AddInterval_agrees(1)[of Moves st sz ia] by (cases mc) (auto simp: agrees_def)
  moreover have "AddInterval mc st sz ia = AddInterval Moves st sz ia" if "\<not> (\<exists>b\<in>set (ia_blocks ia). unat st \<le> hi b)"
    using that by (intro AddInterval_appends(1)[OF ok]) (simp add: not_le)
  ultimately show ?thesis using moves by metis
qed

definition sample_ia :: IntervalArray where
  "sample_ia = \<lparr>ia_blocks = [\<lparr>bi_start = 0, bi_size = 5\<rparr>, \<lparr>bi_start = 10, bi_size = 5\<rparr>], ia_total = 2\<rparr>"

lemma sample_ia_verifies: "Verify sample_ia" "length (ia_blocks sample_ia) = 2" "ia_total sample_ia = 2"
  by (simp_all add: sample_ia_def Verify_def)

lemma sample_ia_ok: "ia_ok sample_ia"
  using sample_ia_verifies by (simp add: Verify_def verify_blocks_wf ia_ok_def)

lemma AddInterval_adds_witness:
  "(\<exists>ia'. AddInterval Moves 4 7 sample_ia = Inr ia' \<and> Verify ia' \<and> held ia' = held sample_ia \<union> {4..<11} \<and>
      length (ia_blocks ia') \<le> Suc (length (ia_blocks sample_ia)) \<and> length (ia_blocks ia') \<le> ia_total ia') \<and>
   (\<exists>ia'. AddInterval Iso_C 20 7 sample_ia = Inr ia' \<and> held ia' = held sample_ia \<union> {20..<27})"
  using AddInterval_adds[of sample_ia 7 4 Moves] AddInterval_adds[of sample_ia 7 20 Iso_C]
  by (simp add: sample_ia_verifies) (auto simp: sample_ia_def)

text \<open>
  C34. \<open>DelInterval\<close> removes exactly the ids from \<open>start\<close> up to the point where it stops,
  keeps every other id, and the result passes \<open>Verify\<close>. It stops at the end of the
  interval, except when a stored block begins exactly at \<open>start\<close> and ends inside the
  interval: then it removes that block and returns. This holds if \<open>memcpy\<close> moves overlapping
  bytes as \<open>memmove\<close> does; under ISO C the only other outcome is the fault of an overlapping
  copy, when it splits a block. The array passes \<open>Verify\<close>, does not use more cells than it
  has, and has fewer than 65,535 intervals; the interval is not empty and does not wrap.
\<close>

theorem DelInterval_removes:
  assumes "Verify ia" "length (ia_blocks ia) \<le> ia_total ia" "length (ia_blocks ia) < 0xffff"
    and "0 < sz" "unat st + unat sz < 2 ^ 32"
  shows "(\<exists>ia'. DelInterval mc st sz ia = Inr ia' \<and> Verify ia' \<and>
      held ia' = held ia - {unat st..<(case find (\<lambda>b. bi_start b = st \<and> hi b \<le> unat st + unat sz) (ia_blocks ia)
        of Some b \<Rightarrow> hi b | None \<Rightarrow> unat st + unat sz)} \<and> length (ia_blocks ia') \<le> ia_total ia') \<or>
    mc = Iso_C \<and> DelInterval mc st sz ia = Inl Overlapping_Copy"
proof -
  have "(\<lambda>b. bi_start b = st \<and> hi b \<le> n) = (\<lambda>b. lo b = unat st \<and> hi b \<le> n)" for n
    by (simp add: lo_def word_unat_eq_iff)
  then have "\<exists>ia'. DelInterval Moves st sz ia = Inr ia' \<and> Verify ia' \<and>
      held ia' = held ia - {unat st..<(case find (\<lambda>b. bi_start b = st \<and> hi b \<le> unat st + unat sz) (ia_blocks ia)
        of Some b \<Rightarrow> hi b | None \<Rightarrow> unat st + unat sz)} \<and> length (ia_blocks ia') \<le> ia_total ia'"
    using DelLoop_becomes(1)[of Moves ia sz st] assms
    by (auto simp: becomes_def ia_ok_def Verify_def verify_blocks_wf word_gt_0 unat_gt_0 del_stop_def)
  moreover have "DelInterval mc st sz ia = DelInterval Moves st sz ia \<or> mc = Iso_C \<and> DelInterval mc st sz ia = Inl Overlapping_Copy"
    using DelInterval_agrees(1)[of Moves st sz ia] by (cases mc) (auto simp: agrees_def)
  ultimately show ?thesis by auto
qed

lemma DelInterval_removes_witness:
  "\<exists>ia'. DelInterval Moves 2 10 sample_ia = Inr ia' \<and> Verify ia' \<and> held ia' = held sample_ia - {2..<12} \<and>
    length (ia_blocks ia') \<le> ia_total ia'"
  using DelInterval_removes[of sample_ia 10 2 Moves] sample_ia_verifies by (simp add: sample_ia_def)

text \<open>The early return at work: ids 10 to 14 survive the removal of 0 to 14.\<close>

lemma DelInterval_stops_early:
  "DelInterval Moves 0 15 sample_ia = Inr (sample_ia\<lparr>ia_blocks := [\<lparr>bi_start = 10, bi_size = 5\<rparr>]\<rparr>)"
  by (simp add: sample_ia_def DelInterval.simps DelLoop.simps SafeDelete_def Let_def)

text \<open>
  C35. \<open>AndOperator\<close> computes the intersection of two arrays that pass \<open>Verify\<close>: whatever the
  target held before, it ends up holding exactly the ids both arrays hold, and passes
  \<open>Verify\<close>, provided that the numbers of intervals of the two multiply to at most 65,535 (the
  target keeps no more intervals than that). It only appends to the target, so it makes no
  difference what \<open>memcpy\<close> does with overlapping regions.
\<close>

theorem AndOperator_intersects:
  assumes "Verify ia" "Verify another" "length (ia_blocks ia) * length (ia_blocks another) \<le> 0xffff"
  shows "\<exists>r. AndOperator mc ia another result = Inr r \<and> Verify r \<and> held r = held ia \<inter> held another"
proof -
  have new: "ia_ok (Clear result)" "held (Clear result) = {}" "ia_blocks (Clear result) = []"
    by (simp_all add: Clear_def ia_ok_def held_def)
  have wf: "wf_blocks (ia_blocks ia)" "wf_blocks (ia_blocks another)" using assms(1,2) by (simp_all add: Verify_def verify_blocks_wf)
  have "AndOperator mc ia another result = AndOperator Moves ia another result"
    using and_outer_same[OF new(1) wf, of mc] assms(3) new(3) by (simp add: AndOperator_def and_add_def[abs_def])
  then show ?thesis
    using and_fold_outer[of "Clear result" "ia_blocks ia" "ia_blocks another"] assms new
    by (auto simp: AndOperator_def becomes_def Verify_def verify_blocks_wf ia_ok_def held_def wf_blocks_def)
qed

lemma AndOperator_intersects_witness:
  "\<exists>r. AndOperator Iso_C sample_ia sample_ia IntervalArray_new = Inr r \<and> Verify r \<and>
    held r = held sample_ia \<inter> held sample_ia"
  by (rule AndOperator_intersects) (simp_all add: sample_ia_verifies)

text \<open>
  C28. The queries read the set: \<open>FindBlock\<close> decides membership, \<open>GetContinousCount\<close> is
  the length of the unbroken run that starts at the id, \<open>GetCountInInterval\<close> counts the
  held ids in the window (clipped at the largest id), and \<open>GetMinBlockID\<close> and
  \<open>GetMaxBlockID\<close> are the least id and one past the greatest.
\<close>

theorem queries_read_held:
  assumes "Verify ia"
  shows "FindBlock ia i = (unat i \<in> held ia) \<and>
    {unat i..<unat i + unat (GetContinousCount ia i)} \<subseteq> held ia \<and>
    unat i + unat (GetContinousCount ia i) \<notin> held ia \<and>
    unat (GetCountInInterval ia i n) = card (held ia \<inter> {unat i..<min (unat i + unat n) (2 ^ 32 - 1)}) \<and>
    (ia_blocks ia \<noteq> [] \<longrightarrow>
      unat (GetMinBlockID ia) = Min (held ia) \<and> unat (GetMaxBlockID ia) = Suc (Max (held ia)))"
proof -
  let ?ia = "ia\<lparr>ia_total := length (ia_blocks ia)\<rparr>"
  have ok: "wf_blocks (ia_blocks ia)" "ia_ok ?ia"
    using assms by (simp_all add: Verify_def verify_blocks_wf ia_ok_def)
  have "FindBlock ia i = (unat i \<in> held ia)"
    using ok by (simp add: FindBlock_def held_def find_block_ids)
  moreover have "{unat i..<unat i + unat (GetContinousCount ia i)} \<subseteq> held ia"
    "unat i + unat (GetContinousCount ia i) \<notin> held ia"
    using continous_count_ids[OF ok(1), of i] by (simp_all add: GetContinousCount_def held_def)
  moreover have "unat (GetCountInInterval ia i n) = card (held ia \<inter> {unat i..<min (unat i + unat n) (2 ^ 32 - 1)})"
    using GetCountInInterval_card[OF ok(2), of i n]
    by (simp add: GetCountInInterval_def held_def count_end_def)
  moreover have "unat (GetMinBlockID ia) = Min (held ia) \<and> unat (GetMaxBlockID ia) = Suc (Max (held ia))"
    if "ia_blocks ia \<noteq> []"
    using GetMin_held[OF ok(2)] GetMax_held[OF ok(2)] that
    by (simp add: GetMinBlockID_def GetMaxBlockID_def held_def)
  ultimately show ?thesis by blast
qed

lemma queries_read_held_witness:
  "FindBlock sample_ia 12 = (12 \<in> held sample_ia) \<and>
   unat (GetMinBlockID sample_ia) = Min (held sample_ia) \<and> unat (GetMaxBlockID sample_ia) = Suc (Max (held sample_ia))"
  using queries_read_held[of sample_ia 12 0] sample_ia_verifies
  by (simp add: sample_ia_def)

text \<open>An insertion at the front of an array with spare room and two blocks does reach it.\<close>

lemma SafeInsert_overlaps:
  "AddInterval Iso_C 0 1 \<lparr>ia_blocks = [\<lparr>bi_start = 5, bi_size = 1\<rparr>, \<lparr>bi_start = 10, bi_size = 5\<rparr>], ia_total = 3\<rparr> =
    Inl Overlapping_Copy"
  by (simp add: AddInterval.simps AddLoop.simps SafeInsert_def Let_def)

text \<open>
  \<open>AddInterval\<close> does not check that \<open>start + size\<close> stays below 2 to the 32: an interval
  that wraps is stored as it is and the array no longer passes \<open>Verify\<close>.
\<close>

lemma AddInterval_wraps:
  "AddInterval Moves 0xfffffff0 0x20 IntervalArray_new =
    Inr \<lparr>ia_blocks = [\<lparr>bi_start = 0xfffffff0, bi_size = 0x20\<rparr>], ia_total = 1\<rparr> \<and>
  \<not> Verify \<lparr>ia_blocks = [\<lparr>bi_start = 0xfffffff0, bi_size = 0x20\<rparr>], ia_total = 1\<rparr>"
  by (simp_all add: AddInterval.simps AddLoop.simps SafeInsert_def IntervalArray_new_def Verify_def)

end
