(* ===== verification/Interval_Copy.thy ===== *)
theory Interval_Copy
  imports Interval_Query "HOL-Library.Multiset"
begin

text \<open>
  \<open>CopyIntervalArray\<close> of \<open>core/interval_array.h\<close>: the smallest intervals of the array, for a
  message with room for a given number of them. The array is sorted by size and back again.
  \<open>std::sort\<close> promises an ordered permutation of its range and nothing about the order of
  equal elements: it is an argument, and \<open>sorts\<close> is the promise.
\<close>

type_synonym std_sort = "(BlockInterval \<Rightarrow> BlockInterval \<Rightarrow> bool) \<Rightarrow> BlockInterval list \<Rightarrow> BlockInterval list"

definition sorts :: "std_sort \<Rightarrow> bool" where
  "sorts srt \<longleftrightarrow> (\<forall>xs. mset (srt cmp_size xs) = mset xs \<and> mset (srt cmp_start xs) = mset xs \<and>
     sorted_wrt (\<lambda>a b. \<not> cmp_size b a) (srt cmp_size xs) \<and> sorted_wrt (\<lambda>a b. \<not> cmp_start b a) (srt cmp_start xs))"

text \<open>\<open>memcpy\<close> of the first \<open>n\<close> elements of an array to the start of another.\<close>

definition copy_blocks :: "nat \<Rightarrow> BlockInterval list \<Rightarrow> BlockInterval list \<Rightarrow> BlockInterval list res" where
  "copy_blocks n src dst =
     bindE (guardE Out_Of_Bounds (n \<le> length src \<and> n \<le> length dst)) (\<lambda>_. Inr (take n src @ drop n dst))"

text \<open>\<open>None\<close> for a null \<open>targetArray\<close>; the array itself is changed although the method is \<open>const\<close>.\<close>

definition CopyIntervalArray :: "std_sort \<Rightarrow> BlockInterval list option \<Rightarrow> u8 \<Rightarrow> IntervalArray \<Rightarrow>
    (BlockInterval list option \<times> u8 \<times> IntervalArray) res" where
  "CopyIntervalArray srt targetArray sz ia =
     (case targetArray of None \<Rightarrow> Inr (None, sz, ia)
      | Some target \<Rightarrow>
          if sz = 0 then Inr (Some target, sz, ia)
          else if unat sz \<ge> length (ia_blocks ia) then
            let sz = word_of_nat (length (ia_blocks ia))
            in bindE (copy_blocks (unat sz) (ia_blocks ia) target) (\<lambda>target. Inr (Some target, sz, ia))
          else
            let ia = ia\<lparr>ia_blocks := srt cmp_size (ia_blocks ia)\<rparr>
            in bindE (copy_blocks (unat sz) (ia_blocks ia) target) (\<lambda>target.
               let ia = ia\<lparr>ia_blocks := srt cmp_start (ia_blocks ia)\<rparr>;
                   target = srt cmp_start (take (unat sz) target) @ drop (unat sz) target
               in Inr (Some target, sz, ia)))"

lemma wf_blocks_starts:
  assumes "wf_blocks bs"
  shows "sorted (map lo bs)" "distinct bs" "inj_on lo (set bs)"
proof -
  have "sorted_wrt (\<lambda>a b. lo a < lo b) bs"
    using assms by (induction bs) (auto simp: wf_blocks_Cons wf_block_def dest!: bspec)
  then have "sorted_wrt (<) (map lo bs)" by (simp add: sorted_wrt_map)
  then show "sorted (map lo bs)" "distinct bs" "inj_on lo (set bs)"
    by (auto simp: strict_sorted_iff distinct_map)
qed

text \<open>Sorting by start puts an array that passes \<open>Verify\<close> back as it was.\<close>

lemma sort_start_restores:
  assumes "sorts srt" "wf_blocks bs" "mset xs = mset bs"
  shows "srt cmp_start xs = bs"
proof -
  let ?ys = "srt cmp_start xs"
  have ys: "mset ?ys = mset bs" "sorted_wrt (\<lambda>a b. \<not> cmp_start b a) ?ys"
    using assms(1,3) by (simp_all add: sorts_def)
  have "sorted (map lo ?ys)"
    using ys(2) by (auto simp: sorted_map cmp_start_def lo_def word_less_nat_alt not_less elim: sorted_wrt_mono_rel[rotated])
  moreover note wf_blocks_starts[OF assms(2)]
  moreover have "mset (map lo ?ys) = mset (map lo bs)" using ys(1) by simp
  ultimately have "map lo ?ys = map lo bs" by (metis properties_for_sort)
  then show ?thesis
    using wf_blocks_starts(3)[OF assms(2)] mset_eq_setD[OF ys(1)] by (auto intro: map_inj_on)
qed

text \<open>
  \<open>CopyIntervalArray\<close> hands out the smallest intervals: for an array that passes
  \<open>Verify\<close> and a target with room, and whatever order \<open>std::sort\<close> gives equal elements, the
  target begins with as many intervals of the array as asked for (all, if there are not more),
  ordered by their start, none of them larger than one left out; the rest of the target and, in
  the end, the array itself are as they were.
\<close>

theorem CopyIntervalArray_smallest:
  assumes "sorts srt" "Verify ia" "0 < sz" "n = min (unat sz) (length (ia_blocks ia))" "n \<le> length target"
  shows "\<exists>copied left. CopyIntervalArray srt (Some target) sz ia = Inr (Some (copied @ drop n target), word_of_nat n, ia) \<and>
    length copied = n \<and> mset copied + mset left = mset (ia_blocks ia) \<and> wf_blocks copied \<and>
    (\<forall>a\<in>set copied. \<forall>b\<in>set left. unat (bi_size a) \<le> unat (bi_size b))"
proof -
  let ?bs = "ia_blocks ia"
  have wf: "wf_blocks ?bs" using assms(2) by (simp add: Verify_def verify_blocks_wf)
  have small: "unat sz < 256" by (rule unat_u8)
  show ?thesis
  proof (cases "unat sz \<ge> length ?bs")
    case True
    then have "n = length ?bs" "unat (word_of_nat (length ?bs) :: u8) = length ?bs"
      using assms(4) small by (simp_all add: unat_of_nat take_bit_eq_mod)
    then show ?thesis
      using True assms(3,5) wf by (intro exI[of _ ?bs] exI[of _ "[]"]) (auto simp: CopyIntervalArray_def copy_blocks_def Let_def)
  next
    case False
    let ?xs = "srt cmp_size ?bs"
    have n: "n = unat sz" "n \<le> length ?bs" "(word_of_nat n :: u8) = sz" using False assms(4) by simp_all
    have xs: "mset ?xs = mset ?bs" "sorted_wrt (\<lambda>a b. \<not> cmp_size b a) ?xs" "length ?xs = length ?bs"
      using assms(1) by (simp_all add: sorts_def flip: size_mset)
    have split: "mset (take n ?xs) + mset (drop n ?xs) = mset ?bs" by (metis append_take_drop_id mset_append xs(1))
    let ?c = "srt cmp_start (take n ?xs)"
    have c: "mset ?c = mset (take n ?xs)" using assms(1) by (simp add: sorts_def)
    have restored: "srt cmp_start ?xs = ?bs" using assms(1) wf xs(1) by (rule sort_start_restores)
    have "CopyIntervalArray srt (Some target) sz ia = Inr (Some (?c @ drop n target), word_of_nat n, ia)"
      using False assms(3,5) n xs(3) restored
      by (auto simp: CopyIntervalArray_def copy_blocks_def Let_def min_def)
    moreover have "length ?c = n" using mset_eq_length[OF c] n(2) xs(3) by simp
    moreover have "wf_blocks ?c"
    proof -
      let ?kept = "filter (\<lambda>b. b \<in> set (take n ?xs)) ?bs"
      have kept: "wf_blocks ?kept" using wf by (auto simp: wf_blocks_def intro: sorted_wrt_filter)
      have "distinct ?bs" by (rule wf_blocks_starts(2)[OF wf])
      then have "distinct ?xs" using xs(1) by (metis mset_eq_imp_distinct_iff)
      moreover have "set (take n ?xs) \<subseteq> set ?bs" using set_take_subset[of n ?xs] mset_eq_setD[OF xs(1)] by simp
      ultimately have "mset (take n ?xs) = mset ?kept"
        using \<open>distinct ?bs\<close> by (intro set_eq_iff_mset_eq_distinct[THEN iffD1]) auto
      then show ?thesis using sort_start_restores[OF assms(1) kept] kept by simp
    qed
    moreover have "\<forall>a\<in>set ?c. \<forall>b\<in>set (drop n ?xs). unat (bi_size a) \<le> unat (bi_size b)"
    proof -
      have "sorted_wrt (\<lambda>a b. \<not> cmp_size b a) (take n ?xs @ drop n ?xs)" using xs(2) by simp
      then have "\<forall>a\<in>set (take n ?xs). \<forall>b\<in>set (drop n ?xs). \<not> cmp_size b a"
        unfolding sorted_wrt_append by blast
      then show ?thesis using mset_eq_setD[OF c] by (auto simp: cmp_size_def word_less_nat_alt not_less)
    qed
    ultimately show ?thesis using split c by (intro exI[of _ ?c] exI[of _ "drop n ?xs"]) auto
  qed
qed

text \<open>An insertion sort, to run the code with.\<close>

fun insert_by :: "(BlockInterval \<Rightarrow> BlockInterval \<Rightarrow> bool) \<Rightarrow> BlockInterval \<Rightarrow> BlockInterval list \<Rightarrow> BlockInterval list" where
  "insert_by lt x [] = [x]"
| "insert_by lt x (y # ys) = (if lt y x then y # insert_by lt x ys else x # y # ys)"

definition insertion_sort :: std_sort where
  "insertion_sort lt xs = foldr (insert_by lt) xs []"

lemma insertion_sort_sorts: "sorts insertion_sort"
proof -
  have mset: "mset (insert_by lt x ys) = add_mset x (mset ys)" for lt x ys by (induction ys) auto
  then have m: "mset (insertion_sort lt xs) = mset xs" for lt xs by (induction xs) (auto simp: insertion_sort_def)
  have set: "set (insert_by lt x ys) = insert x (set ys)" for lt x ys by (induction ys) auto
  have ordered: "sorted_wrt (\<lambda>a b. \<not> lt b a) (insertion_sort lt xs)"
    if lt: "\<And>a b. lt a b \<longleftrightarrow> f a < (f b :: u32)" for lt f xs
  proof (induction xs)
    case (Cons x xs)
    have "sorted_wrt (\<lambda>a b. \<not> lt b a) ys \<Longrightarrow> sorted_wrt (\<lambda>a b. \<not> lt b a) (insert_by lt x ys)" for ys
      by (induction ys) (auto simp: set lt)
    then show ?case using Cons by (simp add: insertion_sort_def)
  qed (simp add: insertion_sort_def)
  then show ?thesis
    using m ordered[of cmp_size bi_size] ordered[of cmp_start bi_start] by (simp add: sorts_def cmp_size_def cmp_start_def)
qed

text \<open>The smaller one of two intervals.\<close>

lemma CopyIntervalArray_smallest_witness:
  "\<exists>copied left. CopyIntervalArray insertion_sort (Some (replicate 4 \<lparr>bi_start = 0, bi_size = 0\<rparr>)) 1
      \<lparr>ia_blocks = [\<lparr>bi_start = 0, bi_size = 5\<rparr>, \<lparr>bi_start = 10, bi_size = 3\<rparr>], ia_total = 2\<rparr> =
      Inr (Some (copied @ replicate 3 \<lparr>bi_start = 0, bi_size = 0\<rparr>), 1,
        \<lparr>ia_blocks = [\<lparr>bi_start = 0, bi_size = 5\<rparr>, \<lparr>bi_start = 10, bi_size = 3\<rparr>], ia_total = 2\<rparr>) \<and>
    mset copied + mset left = {#\<lparr>bi_start = 0, bi_size = 5\<rparr>, \<lparr>bi_start = 10, bi_size = 3\<rparr>#} \<and>
    (\<forall>a\<in>set copied. \<forall>b\<in>set left. unat (bi_size a) \<le> unat (bi_size b))"
proof -
  have "drop 1 (replicate 4 x) = replicate 3 x" for x :: BlockInterval by simp
  then show ?thesis
    using CopyIntervalArray_smallest[OF insertion_sort_sorts,
        of "\<lparr>ia_blocks = [\<lparr>bi_start = 0, bi_size = 5\<rparr>, \<lparr>bi_start = 10, bi_size = 3\<rparr>], ia_total = 2\<rparr>" 1 1
          "replicate 4 \<lparr>bi_start = 0, bi_size = 0\<rparr>"]
    by (fastforce simp: Verify_def)
qed

end
