(* ===== verification/Stream_Manager.thy ===== *)
theory Stream_Manager
  imports Core_Struct
begin

text \<open>
  The class \<open>ChannelNode\<close> of \<open>core/struct_define.h\<close> and
  \<open>protocol/tracker/tracker_streamer_manager.h\<close>, \<open>.cpp\<close>: the tracker's table of super
  peers, keyed by the uuid it gave each of them. The table owns its nodes, so it holds them
  by value. The clock is read through \<open>time()\<close>: every operation that reads it takes the
  time as \<open>now\<close>. An array the code allocates and fills is a list; the null pointer is the
  empty list.

  The arrays returned through \<open>pSPAddr\<close> are of the size the code allocates: addresses the
  loop does not reach are default-constructed.
\<close>

section \<open>ChannelNode\<close>

record ChannelNode =
  cn_last_recv_report_time :: int
  cn_userID :: u32
  cn_pswd :: bytes
  cn_servicePort :: u16
  cn_resourceCount :: u32
  cn_conNum :: u16
  cn_exceedMaxConn :: bool
  cn_bandwidth :: float32
  cn_spAddress :: NetAddress
  cn_spService :: "nat option"
  cn_pHash :: "MD5_Hash_Str list"

definition ChannelNode_new :: "int \<Rightarrow> bytes \<Rightarrow> ChannelNode" where
  "ChannelNode_new now junk = \<lparr>cn_last_recv_report_time = now, cn_userID = 0, cn_pswd = 0 # junk,
     cn_servicePort = 0, cn_resourceCount = 0, cn_conNum = 0, cn_exceedMaxConn = False, cn_bandwidth = 0,
     cn_spAddress = \<lparr>sin_family = 0, sin_port = 0, s_addr = 0\<rparr>, cn_spService = None, cn_pHash = []\<rparr>"

text \<open>
  \<open>operator=\<close> stamps the target with the current time instead of copying the source's, and
  copies \<open>resourceCount\<close> hashes from the source's array.
\<close>

definition ChannelNode_assign :: "int \<Rightarrow> ChannelNode \<Rightarrow> ChannelNode res" where
  "ChannelNode_assign now pNode =
     bindE (guardE Out_Of_Bounds (unat (cn_resourceCount pNode) \<le> length (cn_pHash pNode))) (\<lambda>_.
     Inr (pNode\<lparr>cn_last_recv_report_time := now,
                cn_pHash := take (unat (cn_resourceCount pNode)) (cn_pHash pNode)\<rparr>))"

definition new_pHash :: "MD5_Hash_Str \<Rightarrow> ChannelNode \<Rightarrow> ChannelNode" where
  "new_pHash junk n = n\<lparr>cn_pHash := replicate (unat (cn_resourceCount n)) junk\<rparr>"

definition delete_pHash :: "ChannelNode \<Rightarrow> ChannelNode" where
  "delete_pHash n = n\<lparr>cn_pHash := []\<rparr>"

definition node_ok :: "ChannelNode \<Rightarrow> bool" where
  "node_ok n \<longleftrightarrow> length (cn_pHash n) = unat (cn_resourceCount n)"

lemma ChannelNode_assign_ok:
  "node_ok n \<Longrightarrow> ChannelNode_assign now n = Inr (n\<lparr>cn_last_recv_report_time := now\<rparr>)"
  by (simp add: ChannelNode_assign_def node_ok_def)

lemma node_ok_time [simp]: "node_ok (n\<lparr>cn_last_recv_report_time := t\<rparr>) = node_ok n"
  by (simp add: node_ok_def)

lemma ChannelNode_assign_result:
  "ChannelNode_assign now n = Inr n' \<Longrightarrow> node_ok n'"
  by (auto simp: ChannelNode_assign_def res_invert node_ok_def)

section \<open>The table and its operations\<close>

record RsTrackerStreamManager =
  channel_map :: "(map_str, ChannelNode) cmap"

definition RsTrackerStreamManager_new :: RsTrackerStreamManager where
  "RsTrackerStreamManager_new = \<lparr>channel_map = []\<rparr>"

abbreviation MAX_IDLE_TIME_SEC :: int where "MAX_IDLE_TIME_SEC \<equiv> 100"

text \<open>The iterator is advanced before its element is erased: every element is visited once.\<close>

fun check_channels :: "int \<Rightarrow> (map_str, ChannelNode) cmap \<Rightarrow> (map_str, ChannelNode) cmap" where
  "check_channels now [] = []"
| "check_channels now ((k, n) # m) =
     (if now - cn_last_recv_report_time n > MAX_IDLE_TIME_SEC then check_channels now m
      else (k, n) # check_channels now m)"

definition timer_check :: "int \<Rightarrow> RsTrackerStreamManager \<Rightarrow> RsTrackerStreamManager" where
  "timer_check now mgr = mgr\<lparr>channel_map := check_channels now (channel_map mgr)\<rparr>"

definition get_channel_count :: "RsTrackerStreamManager \<Rightarrow> int" where
  "get_channel_count mgr = int (length (channel_map mgr))"

definition get_node :: "map_str \<Rightarrow> RsTrackerStreamManager \<Rightarrow> ChannelNode option" where
  "get_node uuid mgr = map_find map_str_lt uuid (channel_map mgr)"

text \<open>\<open>get_channel\<close> returns -1, or 0 and assigns the stored node to \<open>*Node\<close>.\<close>

definition get_channel :: "int \<Rightarrow> map_str \<Rightarrow> RsTrackerStreamManager \<Rightarrow> ChannelNode option res" where
  "get_channel now uuid mgr =
     (case map_find map_str_lt uuid (channel_map mgr) of
        None \<Rightarrow> Inr None
      | Some n \<Rightarrow> bindE (ChannelNode_assign now n) (\<lambda>n. Inr (Some n)))"

definition insert_channel :: "int \<Rightarrow> map_str \<Rightarrow> ChannelNode \<Rightarrow> RsTrackerStreamManager \<Rightarrow> RsTrackerStreamManager res" where
  "insert_channel now uuid chnl mgr =
     bindE (get_channel now uuid mgr) (\<lambda>found.
     case found of
       None \<Rightarrow> bindE (ChannelNode_assign now chnl) (\<lambda>pNode.
         Inr (mgr\<lparr>channel_map := fst (map_insert map_str_lt uuid pNode (channel_map mgr))\<rparr>))
     | Some _ \<Rightarrow> (case get_node uuid mgr of
           None \<Rightarrow> Inr mgr
         | Some _ \<Rightarrow> bindE (ChannelNode_assign now chnl) (\<lambda>pNode.
             Inr (mgr\<lparr>channel_map := map_assign map_str_lt uuid pNode (channel_map mgr)\<rparr>))))"

definition delete_channel :: "map_str \<Rightarrow> RsTrackerStreamManager \<Rightarrow> RsTrackerStreamManager" where
  "delete_channel uuid mgr =
     (case map_find map_str_lt uuid (channel_map mgr) of
        None \<Rightarrow> mgr
      | Some _ \<Rightarrow> mgr\<lparr>channel_map := map_erase map_str_lt uuid (channel_map mgr)\<rparr>)"

text \<open>The inner loop: the first of the \<open>n\<close> hashes equal to the one searched.\<close>

fun scan_hash :: "nat \<Rightarrow> MD5_Hash_Str list \<Rightarrow> MD5_Hash_Str \<Rightarrow> MD5_Hash_Str option res" where
  "scan_hash 0 hs h = Inr None"
| "scan_hash (Suc n) [] h = Inl Out_Of_Bounds"
| "scan_hash (Suc n) (x # xs) h = (if MD5_eq x h then Inr (Some x) else scan_hash n xs h)"

definition node_resource :: "MD5_Hash_Str \<Rightarrow> ChannelNode \<Rightarrow> MD5_Hash_Str option res" where
  "node_resource h n = scan_hash (unat (cn_resourceCount n)) (cn_pHash n) h"

text \<open>
  \<open>signal_get_res_interval\<close> goes on to the next hash, and the next node, when the node that
  has the resource has no service: 0 when it found one that has, 1 otherwise.
\<close>

fun scan_service :: "nat \<Rightarrow> MD5_Hash_Str list \<Rightarrow> bool \<Rightarrow> MD5_Hash_Str \<Rightarrow> bool res" where
  "scan_service 0 hs sp h = Inr False"
| "scan_service (Suc n) [] sp h = Inl Out_Of_Bounds"
| "scan_service (Suc n) (x # xs) sp h = (if MD5_eq x h \<and> sp then Inr True else scan_service n xs sp h)"

fun signal_nodes :: "MD5_Hash_Str \<Rightarrow> (map_str, ChannelNode) cmap \<Rightarrow> int res" where
  "signal_nodes h [] = Inr 1"
| "signal_nodes h ((k, n) # m) =
     bindE (scan_service (unat (cn_resourceCount n)) (cn_pHash n) (cn_spService n \<noteq> None) h) (\<lambda>found.
     if found then Inr 0 else signal_nodes h m)"

definition signal_get_res_interval :: "MD5_Hash_Str \<Rightarrow> RsTrackerStreamManager \<Rightarrow> int res" where
  "signal_get_res_interval h mgr = signal_nodes h (channel_map mgr)"

fun interval_in :: "MD5_Hash_Str \<Rightarrow> (map_str, ChannelNode) cmap \<Rightarrow> BlockInterval option res" where
  "interval_in h [] = Inr None"
| "interval_in h ((k, n) # m) =
     bindE (node_resource h n) (\<lambda>r.
     case r of Some x \<Rightarrow> Inr (Some (md5_interval x)) | None \<Rightarrow> interval_in h m)"

text \<open>\<open>get_channel_interval\<close> returns 0 and the interval, or 1 (\<open>None\<close>).\<close>

definition get_channel_interval :: "MD5_Hash_Str \<Rightarrow> RsTrackerStreamManager \<Rightarrow> BlockInterval option res" where
  "get_channel_interval h mgr = interval_in h (channel_map mgr)"

text \<open>The three overloads of \<open>get_cp_address\<close>: of one channel, of the others, of some.\<close>

definition get_cp_address_of :: "map_str \<Rightarrow> RsTrackerStreamManager \<Rightarrow> NetAddress option" where
  "get_cp_address_of uuid mgr =
     (case map_find map_str_lt uuid (channel_map mgr) of None \<Rightarrow> None | Some n \<Rightarrow> Some (cn_spAddress n))"

fun store_others :: "NetAddress option \<Rightarrow> (map_str, ChannelNode) cmap \<Rightarrow> nat \<Rightarrow> NetAddress list \<Rightarrow>
    (nat \<times> NetAddress list) res" where
  "store_others sel [] index arr = Inr (index, arr)"
| "store_others sel ((k, n) # m) index arr =
     (if sel = None \<or> NetAddress_neq (the sel) (cn_spAddress n) then
        bindE (guardE Out_Of_Bounds (index < length arr)) (\<lambda>_.
        store_others sel m (Suc index) (arr[index := cn_spAddress n]))
      else store_others sel m index arr)"

definition get_cp_address_others :: "map_str \<Rightarrow> RsTrackerStreamManager \<Rightarrow> (nat \<times> NetAddress list) res" where
  "get_cp_address_others uuid mgr =
     (let sel = get_cp_address_of uuid mgr; inCount = get_channel_count mgr - 1
      in if 0 \<ge> inCount then Inr (0, [])
         else store_others sel (channel_map mgr) 0 (replicate (nat inCount) NetAddress_new))"

definition get_all_cp_address :: "map_str \<Rightarrow> RsTrackerStreamManager \<Rightarrow> (nat \<times> NetAddress list) res" where
  "get_all_cp_address uuid mgr =
     (if get_channel_count mgr = 0 then Inr (0, []) else get_cp_address_others uuid mgr)"

fun store_from :: "nat \<Rightarrow> nat \<Rightarrow> (map_str, ChannelNode) cmap \<Rightarrow> nat \<Rightarrow> nat \<Rightarrow> NetAddress list \<Rightarrow>
    (nat \<times> NetAddress list) res" where
  "store_from iPos inCount [] i index arr = Inr (index, arr)"
| "store_from iPos inCount ((k, n) # m) i index arr =
     (if i \<ge> iPos then
        if index \<ge> inCount then Inr (index, arr)
        else bindE (guardE Out_Of_Bounds (index < length arr)) (\<lambda>_.
          store_from iPos inCount m (Suc i) (Suc index) (arr[index := cn_spAddress n]))
      else store_from iPos inCount m (Suc i) index arr)"

text \<open>\<open>r\<close> is what \<open>rand()\<close> returns, a number from 0 on.\<close>

definition get_cp_address :: "nat \<Rightarrow> nat \<Rightarrow> RsTrackerStreamManager \<Rightarrow> (nat \<times> NetAddress list) res" where
  "get_cp_address r inCount mgr =
     (let imaxPos = int (length (channel_map mgr)) - int inCount;
          iPos = (if imaxPos > 0 then nat (int r mod imaxPos) else 0)
      in store_from iPos inCount (channel_map mgr) 0 0 (replicate inCount NetAddress_new))"

fun store_having :: "MD5_Hash_Str \<Rightarrow> nat \<Rightarrow> (map_str, ChannelNode) cmap \<Rightarrow> nat \<Rightarrow> NetAddress list \<Rightarrow>
    (nat \<times> NetAddress list) res" where
  "store_having h inCount [] index arr = Inr (index, arr)"
| "store_having h inCount ((k, n) # m) index arr =
     (if index \<ge> inCount then Inr (index, arr)
      else bindE (node_resource h n) (\<lambda>r.
        if r \<noteq> None then
          bindE (guardE Out_Of_Bounds (index < length arr)) (\<lambda>_.
          store_having h inCount m (Suc index) (arr[index := cn_spAddress n]))
        else store_having h inCount m index arr))"

definition get_sp_address :: "MD5_Hash_Str \<Rightarrow> nat \<Rightarrow> RsTrackerStreamManager \<Rightarrow> (nat \<times> NetAddress list) res" where
  "get_sp_address h inCount mgr = store_having h inCount (channel_map mgr) 0 (replicate inCount NetAddress_new)"

section \<open>The invariant of the table\<close>

definition table_ok :: "RsTrackerStreamManager \<Rightarrow> bool" where
  "table_ok mgr \<longleftrightarrow> map_ordered map_str_lt (channel_map mgr) \<and> (\<forall>(k, n)\<in>set (channel_map mgr). node_ok n)"

definition registered :: "map_str \<Rightarrow> RsTrackerStreamManager \<Rightarrow> ChannelNode option" where
  "registered uuid mgr = map_find map_str_lt uuid (channel_map mgr)"

lemma registered_ok: "table_ok mgr \<Longrightarrow> registered uuid mgr = Some n \<Longrightarrow> node_ok n"
  unfolding registered_def table_ok_def by (auto dest: map_find_in_set)

lemma get_channel_ok:
  assumes "table_ok mgr"
  shows "get_channel now uuid mgr =
    Inr (map_option (\<lambda>n. n\<lparr>cn_last_recv_report_time := now\<rparr>) (registered uuid mgr))"
  using registered_ok[OF assms, of uuid]
  by (auto simp: get_channel_def registered_def ChannelNode_assign_ok split: option.splits)

lemma map_assign_subset: "set (map_assign lt k v m) \<subseteq> set m \<union> (\<lambda>(k', v'). (k', v)) ` set m"
  by (induction lt k v m rule: map_assign.induct) auto

lemma insert_channel_ok:
  assumes ok: "table_ok mgr" "node_ok n"
  shows "\<exists>mgr'. insert_channel now uuid n mgr = Inr mgr' \<and> table_ok mgr' \<and>
    (\<forall>u. registered u mgr' =
      (if key_equiv map_str_lt u uuid then Some (n\<lparr>cn_last_recv_report_time := now\<rparr>) else registered u mgr))"
proof (cases "registered uuid mgr")
  case None
  let ?n = "n\<lparr>cn_last_recv_report_time := now\<rparr>"
  let ?m = "fst (map_insert map_str_lt uuid ?n (channel_map mgr))"
  have "insert_channel now uuid n mgr = Inr (mgr\<lparr>channel_map := ?m\<rparr>)"
    using None ok by (simp add: insert_channel_def get_channel_ok ChannelNode_assign_ok)
  moreover have "table_ok (mgr\<lparr>channel_map := ?m\<rparr>)"
    using ok mapstr.insert_ordered[of "channel_map mgr"] map_insert_subset[of map_str_lt uuid ?n "channel_map mgr"]
    by (fastforce simp: table_ok_def)
  ultimately show ?thesis
    using None ok mapstr.find_insert[of "channel_map mgr"]
    by (auto simp: registered_def table_ok_def)
next
  case (Some old)
  let ?n = "n\<lparr>cn_last_recv_report_time := now\<rparr>"
  let ?m = "map_assign map_str_lt uuid ?n (channel_map mgr)"
  have "insert_channel now uuid n mgr = Inr (mgr\<lparr>channel_map := ?m\<rparr>)"
    using Some ok by (simp add: insert_channel_def get_channel_ok ChannelNode_assign_ok get_node_def registered_def)
  moreover have "table_ok (mgr\<lparr>channel_map := ?m\<rparr>)"
    using ok map_assign_subset[of map_str_lt uuid ?n "channel_map mgr"]
    by (fastforce simp: table_ok_def)
  ultimately show ?thesis
    using Some by (auto simp: registered_def mapstr.find_assign)
qed

lemma check_channels_filter:
  "check_channels now m = filter (\<lambda>(k, n). \<not> now - cn_last_recv_report_time n > MAX_IDLE_TIME_SEC) m"
  by (induction now m rule: check_channels.induct) auto

lemma timer_check_ok:
  assumes "table_ok mgr"
  shows "table_ok (timer_check now mgr)"
    and "registered u (timer_check now mgr) = (case registered u mgr of None \<Rightarrow> None
      | Some n \<Rightarrow> if now - cn_last_recv_report_time n > MAX_IDLE_TIME_SEC then None else Some n)"
  using assms map_ordered_filter mapstr.find_filter_keys[of "channel_map mgr" u
      "\<lambda>n. \<not> now - cn_last_recv_report_time n > MAX_IDLE_TIME_SEC"]
  by (auto simp: table_ok_def timer_check_def check_channels_filter registered_def split: option.splits)

lemma delete_channel_ok:
  assumes "table_ok mgr"
  shows "table_ok (delete_channel uuid mgr)"
    and "registered u (delete_channel uuid mgr) = (if key_equiv map_str_lt u uuid then None else registered u mgr)"
proof -
  have *: "channel_map (delete_channel uuid mgr) = map_erase map_str_lt uuid (channel_map mgr)"
    by (auto simp: delete_channel_def map_erase_absent split: option.splits)
  show "table_ok (delete_channel uuid mgr)"
    using assms map_erase_ordered map_erase_subset unfolding table_ok_def * by fast
  show "registered u (delete_channel uuid mgr) = (if key_equiv map_str_lt u uuid then None else registered u mgr)"
    using assms mapstr.find_erase[of "channel_map mgr" u uuid] unfolding registered_def * table_ok_def by simp
qed

end
