(* ===== verification/Stream_Select.thy ===== *)
theory Stream_Select
  imports Stream_Manager
begin

text \<open>
  What the search loops of \<open>tracker_streamer_manager.cpp\<close> find: each is the library
  function it amounts to (\<open>find\<close>, \<open>filter\<close>, \<open>take\<close>, \<open>drop\<close>), and the array it
  fills is written inside its bounds.
\<close>

section \<open>Resources of a node\<close>

abbreviation has_resource :: "MD5_Hash_Str \<Rightarrow> ChannelNode \<Rightarrow> bool" where
  "has_resource h n \<equiv> \<exists>x\<in>set (cn_pHash n). MD5_eq x h"

lemma scan_hash_find: "scan_hash (length hs) hs h = Inr (find (\<lambda>x. MD5_eq x h) hs)"
  by (induction hs) auto

lemma node_resource_find: "node_ok n \<Longrightarrow> node_resource h n = Inr (find (\<lambda>x. MD5_eq x h) (cn_pHash n))"
  unfolding node_resource_def node_ok_def using scan_hash_find[of "cn_pHash n" h] by simp

lemma scan_service_ex: "scan_service (length hs) hs sp h = Inr (sp \<and> (\<exists>x\<in>set hs. MD5_eq x h))"
  by (induction hs) auto

lemma signal_nodes_ex:
  "\<forall>(k, n)\<in>set m. node_ok n \<Longrightarrow>
   signal_nodes h m = Inr (if \<exists>(k, n)\<in>set m. cn_spService n \<noteq> None \<and> has_resource h n then 0 else 1)"
proof (induction m)
  case (Cons p m)
  obtain k n where p: "p = (k, n)" by fastforce
  have "scan_service (unat (cn_resourceCount n)) (cn_pHash n) sp h = Inr (sp \<and> has_resource h n)" for sp
    using Cons.prems p scan_service_ex[of "cn_pHash n"] by (simp add: node_ok_def)
  then show ?case using Cons p by simp
qed simp

lemma find_append: "find P (xs @ ys) = (case find P xs of None \<Rightarrow> find P ys | Some x \<Rightarrow> Some x)"
  by (induction xs) auto

lemma interval_in_find:
  "\<forall>(k, n)\<in>set m. node_ok n \<Longrightarrow>
   interval_in h m = Inr (map_option md5_interval (find (\<lambda>x. MD5_eq x h) (concat (map (\<lambda>(k, n). cn_pHash n) m))))"
  by (induction h m rule: interval_in.induct) (auto simp: node_resource_find find_append split: option.splits)

section \<open>Filling the array\<close>

definition filled :: "nat \<Rightarrow> 'a list \<Rightarrow> 'a list \<Rightarrow> nat \<times> 'a list" where
  "filled index xs arr = (index + length xs, take index arr @ xs @ drop (index + length xs) arr)"

lemma filled_Nil [simp]: "filled index [] arr = (index, arr)"
  by (simp add: filled_def)

lemma filled_Cons: "index < length arr \<Longrightarrow> filled (Suc index) xs (arr[index := x]) = filled index (x # xs) arr"
  by (simp add: filled_def take_Suc_conv_app_nth)

lemma store_having_filled:
  "\<forall>(k, n)\<in>set m. node_ok n \<Longrightarrow> c \<le> length arr \<Longrightarrow> index \<le> c \<Longrightarrow>
   store_having h c m index arr =
     Inr (filled index (take (c - index) (map (cn_spAddress \<circ> snd) (filter (has_resource h \<circ> snd) m))) arr)"
proof (induction h c m index arr rule: store_having.induct)
  case (2 h c k n m index arr)
  have r: "node_resource h n = Inr (find (\<lambda>x. MD5_eq x h) (cn_pHash n))"
    using 2 by (simp add: node_resource_find)
  have f: "find (\<lambda>x. MD5_eq x h) (cn_pHash n) \<noteq> None \<longleftrightarrow> has_resource h n"
    by (auto simp: find_None_iff)
  show ?case
  proof (cases "index < c")
    case True
    then have "c - index = Suc (c - Suc index)" by simp
    with True 2 r f show ?thesis by (auto simp: filled_Cons)
  qed (use 2 in simp)
qed simp

lemma store_from_skip:
  "i + length m \<le> iPos \<Longrightarrow> store_from iPos c m i index arr = Inr (index, arr)"
  by (induction iPos c m i index arr rule: store_from.induct) auto

lemma store_from_filled:
  "c \<le> length arr \<Longrightarrow> index \<le> c \<Longrightarrow> 
   store_from iPos c m i index arr =
     Inr (filled index (take (c - index) (drop (iPos - i) (map (cn_spAddress \<circ> snd) m))) arr)"
proof (induction iPos c m i index arr rule: store_from.induct)
  case (2 iPos c k n m i index arr)
  consider "i < iPos" | "iPos \<le> i" "index < c" | "iPos \<le> i" "index = c" using 2 by linarith
  then show ?case
  proof cases
    case 1
    then have "iPos - i = Suc (iPos - Suc i)" by simp
    with 1 2 show ?thesis by simp
  next
    case 2
    then have "c - index = Suc (c - Suc index)" by simp
    with 2 "2.IH"(1) "2.prems" show ?thesis by (simp add: filled_Cons)
  qed simp
qed simp

lemma store_others_filled:
  "index + length (filter (\<lambda>a. sel = None \<or> NetAddress_neq (the sel) a) (map (cn_spAddress \<circ> snd) m)) \<le> length arr \<Longrightarrow>
   store_others sel m index arr =
     Inr (filled index (filter (\<lambda>a. sel = None \<or> NetAddress_neq (the sel) a) (map (cn_spAddress \<circ> snd) m)) arr)"
  by (induction sel m index arr rule: store_others.induct) (auto simp: filled_Cons)

lemma store_others_overflow:
  "length arr < index + length m \<Longrightarrow> index \<le> length arr \<Longrightarrow> store_others None m index arr = Inl Out_Of_Bounds"
  by (induction "None :: NetAddress option" m index arr rule: store_others.induct) (auto simp: assertE_def guardE_def)

lemma NetAddress_neq_self [simp]: "\<not> NetAddress_neq a a"
  by (simp add: NetAddress_neq_def NetAddress_eq_def)

text \<open>A registered super peer is skipped, so the others fit.\<close>

lemma others_fit:
  assumes "map_find map_str_lt uuid m = Some n"
  shows "length (filter (NetAddress_neq (cn_spAddress n)) (map (cn_spAddress \<circ> snd) m)) < length m"
proof -
  obtain k where "(k, n) \<in> set m" using map_find_in_set[OF assms] by blast
  then have "cn_spAddress n \<in> set (map (cn_spAddress \<circ> snd) m)" by force
  then have "length (filter (NetAddress_neq (cn_spAddress n)) (map (cn_spAddress \<circ> snd) m)) <
      length (map (cn_spAddress \<circ> snd) m)"
    by (intro length_filter_less) auto
  then show ?thesis by simp
qed

section \<open>The properties of the table\<close>

text \<open>
  C30. Registering, looking up, removing and expiring super peers is what a table keyed by
  uuid does, the comparison of uuids ignoring case: after \<open>insert_channel\<close> the uuid maps to
  the node, stamped with the time of insertion, and no other uuid changes; \<open>delete_channel\<close>
  forgets exactly that uuid; \<open>timer_check\<close> forgets exactly the nodes idle for more than 100
  seconds; and every operation keeps the invariant (ordered keys, hash arrays as long as
  their count), under which no operation faults.
\<close>

theorem channel_table:
  assumes "table_ok mgr" "node_ok n"
  shows "(\<exists>mgr'. insert_channel now uuid n mgr = Inr mgr' \<and> table_ok mgr' \<and>
      (\<forall>u. registered u mgr' =
        (if key_equiv map_str_lt u uuid then Some (n\<lparr>cn_last_recv_report_time := now\<rparr>) else registered u mgr))) \<and>
    table_ok (delete_channel uuid mgr) \<and>
    (\<forall>u. registered u (delete_channel uuid mgr) = (if key_equiv map_str_lt u uuid then None else registered u mgr)) \<and>
    table_ok (timer_check now mgr) \<and>
    (\<forall>u. registered u (timer_check now mgr) = (case registered u mgr of None \<Rightarrow> None
      | Some n \<Rightarrow> if now - cn_last_recv_report_time n > 100 then None else Some n)) \<and>
    get_channel now uuid mgr = Inr (map_option (\<lambda>n. n\<lparr>cn_last_recv_report_time := now\<rparr>) (registered uuid mgr))"
  using insert_channel_ok[OF assms] timer_check_ok[OF assms(1)] delete_channel_ok[OF assms(1)] get_channel_ok[OF assms(1)]
  by simp

definition sample_node :: ChannelNode where
  "sample_node = (ChannelNode_new 5 [])\<lparr>cn_resourceCount := 1, cn_spService := Some 0,
     cn_pHash := [\<lparr>md5_hash = replicate 33 9, md5_interval = \<lparr>bi_start = 3, bi_size = 4\<rparr>\<rparr>]\<rparr>"

lemma sample_node_ok: "node_ok sample_node" "table_ok RsTrackerStreamManager_new"
  by (simp_all add: node_ok_def sample_node_def table_ok_def RsTrackerStreamManager_new_def)

lemma channel_table_witness:
  "\<exists>mgr'. insert_channel 7 [1] sample_node RsTrackerStreamManager_new = Inr mgr' \<and> table_ok mgr' \<and>
     (\<forall>u. registered u mgr' = (if key_equiv map_str_lt u [1] then Some (sample_node\<lparr>cn_last_recv_report_time := 7\<rparr>)
        else registered u RsTrackerStreamManager_new))"
  using channel_table[OF sample_node_ok(2,1), of 7 "[1]"] by blast

lemma sources_found:
  assumes "table_ok mgr"
  shows "(let found = take inCount (map (cn_spAddress \<circ> snd) (filter (has_resource h \<circ> snd) (channel_map mgr)))
    in get_sp_address h inCount mgr = Inr (length found, found @ replicate (inCount - length found) NetAddress_new))"
proof -
  have ok: "\<forall>(k, n)\<in>set (channel_map mgr). node_ok n" using assms by (simp add: table_ok_def)
  show ?thesis
    using store_having_filled[OF ok, of inCount "replicate inCount NetAddress_new" 0 h]
    by (simp add: get_sp_address_def filled_def Let_def)
qed

lemma interval_found:
  assumes "table_ok mgr"
  shows "get_channel_interval h mgr = Inr (map_option md5_interval
    (find (\<lambda>x. MD5_eq x h) (concat (map (\<lambda>(k, n). cn_pHash n) (channel_map mgr)))))"
proof -
  have ok: "\<forall>(k, n)\<in>set (channel_map mgr). node_ok n" using assms by (simp add: table_ok_def)
  show ?thesis using interval_in_find[OF ok, of h] by (simp add: get_channel_interval_def)
qed

lemma signal_found:
  assumes "table_ok mgr"
  shows "signal_get_res_interval h mgr =
    Inr (if \<exists>(k, n)\<in>set (channel_map mgr). cn_spService n \<noteq> None \<and> has_resource h n then 0 else 1)"
proof -
  have ok: "\<forall>(k, n)\<in>set (channel_map mgr). node_ok n" using assms by (simp add: table_ok_def)
  show ?thesis using signal_nodes_ex[OF ok, of h] by (simp add: signal_get_res_interval_def)
qed

text \<open>
  C31. The addresses handed to a normal peer as sources of a resource are those of the first
  \<open>inCount\<close> super peers, in uuid order, that announced it; the interval of a resource is the
  one of the first announcement; and the signal reports success exactly when a super peer
  with a live service announced it.
\<close>

theorem resource_lookup:
  assumes "table_ok mgr"
  shows "(let found = take inCount (map (cn_spAddress \<circ> snd) (filter (has_resource h \<circ> snd) (channel_map mgr)))
      in get_sp_address h inCount mgr =
        Inr (length found, found @ replicate (inCount - length found) NetAddress_new)) \<and>
    get_channel_interval h mgr = Inr (map_option md5_interval
      (find (\<lambda>x. MD5_eq x h) (concat (map (\<lambda>(k, n). cn_pHash n) (channel_map mgr))))) \<and>
    signal_get_res_interval h mgr =
      Inr (if \<exists>(k, n)\<in>set (channel_map mgr). cn_spService n \<noteq> None \<and> has_resource h n then 0 else 1)"
  by (intro conjI sources_found interval_found signal_found assms)

lemma resource_lookup_witness:
  "get_channel_interval \<lparr>md5_hash = replicate 33 9, md5_interval = \<lparr>bi_start = 0, bi_size = 0\<rparr>\<rparr>
     \<lparr>channel_map = [([1], sample_node)]\<rparr> = Inr (Some \<lparr>bi_start = 3, bi_size = 4\<rparr>)"
proof -
  have "table_ok \<lparr>channel_map = [([1], sample_node)]\<rparr>"
    using sample_node_ok by (simp add: table_ok_def)
  then show ?thesis
    using resource_lookup[of "\<lparr>channel_map = [([1], sample_node)]\<rparr>" 1
        "\<lparr>md5_hash = replicate 33 9, md5_interval = \<lparr>bi_start = 0, bi_size = 0\<rparr>\<rparr>", THEN conjunct2, THEN conjunct1]
    by (simp add: sample_node_def MD5_eq_def strncmp_eq)
qed

text \<open>
  \<open>get_cp_address\<close> with a count returns a window of at most that many consecutive
  super peers, and never writes outside its array; but when there are more super peers than
  the count, the window never reaches the last one, whatever \<open>rand()\<close> returns.
\<close>

theorem cp_window:
  "\<exists>pos. get_cp_address r inCount mgr =
      Inr (let found = take inCount (drop pos (map (cn_spAddress \<circ> snd) (channel_map mgr)))
        in (length found, found @ replicate (inCount - length found) NetAddress_new)) \<and>
    (length (channel_map mgr) \<le> inCount \<longrightarrow> pos = 0) \<and>
    (inCount < length (channel_map mgr) \<longrightarrow> pos + inCount < length (channel_map mgr))"
proof -
  let ?d = "int (length (channel_map mgr)) - int inCount"
  let ?pos = "if ?d > 0 then nat (int r mod ?d) else 0"
  have "get_cp_address r inCount mgr =
      Inr (filled 0 (take inCount (drop ?pos (map (cn_spAddress \<circ> snd) (channel_map mgr)))) (replicate inCount NetAddress_new))"
    using store_from_filled[of inCount "replicate inCount NetAddress_new" 0 ?pos "channel_map mgr" 0]
    by (simp add: get_cp_address_def Let_def)
  moreover have lt: "int (nat (int r mod ?d)) < ?d" if "?d > 0"
    using that pos_mod_bound[of ?d "int r"] pos_mod_sign[of ?d "int r"] by simp
  then have "?pos + inCount < length (channel_map mgr)" if "inCount < length (channel_map mgr)"
  proof -
    have d: "?d > 0" using that by simp
    have "int (nat (int r mod ?d)) + int inCount < int (length (channel_map mgr))"
      using lt[OF d] by linarith
    then show ?thesis using d by (simp only: if_True of_nat_add[symmetric] of_nat_less_iff)
  qed
  ultimately show ?thesis
    by (intro exI[of _ ?pos]) (simp add: filled_def Let_def)
qed

lemma cp_window_witness:
  "\<exists>pos. get_cp_address 8 1 \<lparr>channel_map = [([1], sample_node), ([2], sample_node)]\<rparr> =
      Inr (let found = take 1 (drop pos [cn_spAddress sample_node, cn_spAddress sample_node])
        in (length found, found @ replicate (1 - length found) NetAddress_new)) \<and> pos + 1 < (2 :: nat)"
  using cp_window[of 8 1 "\<lparr>channel_map = [([1], sample_node), ([2], sample_node)]\<rparr>"] by simp

text \<open>
  Asked for the other super peers of a registered uuid, the tracker returns exactly the
  addresses that differ from its own, inside the array it allocated; for a uuid it does not
  know, and two or more super peers, it writes one address past the end of the array.
\<close>

theorem cp_others:
  "(case registered uuid mgr of
      Some n \<Rightarrow> (let found = filter (NetAddress_neq (cn_spAddress n)) (map (cn_spAddress \<circ> snd) (channel_map mgr))
        in get_cp_address_others uuid mgr =
          Inr (if length (channel_map mgr) \<le> 1 then (0, [])
               else (length found, found @ replicate (length (channel_map mgr) - 1 - length found) NetAddress_new)))
    | None \<Rightarrow> get_cp_address_others uuid mgr =
        (if length (channel_map mgr) \<le> 1 then Inr (0, []) else Inl Out_Of_Bounds))"
proof (cases "registered uuid mgr")
  case None
  then show ?thesis
    using store_others_overflow[of "replicate (nat (get_channel_count mgr - 1)) NetAddress_new" 0 "channel_map mgr"]
    by (auto simp: get_cp_address_others_def get_cp_address_of_def registered_def get_channel_count_def Let_def
        simp del: replicate.simps)
next
  case (Some n)
  then have fit: "length (filter (NetAddress_neq (cn_spAddress n)) (map (cn_spAddress \<circ> snd) (channel_map mgr))) <
      length (channel_map mgr)"
    by (intro others_fit) (simp add: registered_def)
  then show ?thesis
    using Some store_others_filled[of 0 "Some (cn_spAddress n)" "channel_map mgr"
        "replicate (nat (get_channel_count mgr - 1)) NetAddress_new"]
    by (auto simp: get_cp_address_others_def get_cp_address_of_def registered_def get_channel_count_def
        Let_def filled_def nat_diff_distrib')
qed

end
