(* ===== verification/Rs_Socket.thy ===== *)
theory Rs_Socket
  imports Prelude
begin

text \<open>
  \<open>core/socket.h\<close> and \<open>core/socket.cpp\<close>: the wrapper around one file descriptor of the State
  Threads library. What the library does is an argument: what a descriptor has to deliver is
  a list of arrivals, and the outcome of a write is a value of \<open>st_written\<close>. The counters are
  64 bits wide and are taken not to overflow.
\<close>

abbreviation ERROR_SOCKET_READ :: int where "ERROR_SOCKET_READ \<equiv> 1007"
abbreviation ERROR_SOCKET_READ_FULLY :: int where "ERROR_SOCKET_READ_FULLY \<equiv> 1008"
abbreviation ERROR_SOCKET_WRITE :: int where "ERROR_SOCKET_WRITE \<equiv> 1009"
abbreviation ERROR_SOCKET_TIMEOUT :: int where "ERROR_SOCKET_TIMEOUT \<equiv> 1011"

section \<open>The library underneath\<close>

datatype arrival = Segment bytes | Timed_Out | Closed | Failed

datatype st_result = Got bytes | Got_Timeout | Got_Eof | Got_Failure

text \<open>
  \<open>st_read\<close> waits until something arrives and returns at most \<open>size\<close> bytes of it; a read of
  no bytes returns at once. \<open>None\<close>: nothing ever arrives.
\<close>

fun st_read :: "nat \<Rightarrow> arrival list \<Rightarrow> (st_result \<times> arrival list) option" where
  "st_read 0 conn = Some (Got [], conn)"
| "st_read (Suc n) [] = None"
| "st_read (Suc n) (Segment bs # conn) =
     Some (Got (take (Suc n) bs), if Suc n < length bs then Segment (drop (Suc n) bs) # conn else conn)"
| "st_read (Suc n) (Timed_Out # conn) = Some (Got_Timeout, conn)"
| "st_read (Suc n) (Closed # conn) = Some (Got_Eof, Closed # conn)"
| "st_read (Suc n) (Failed # conn) = Some (Got_Failure, conn)"

datatype st_written = Wrote nat | Write_Timeout | Write_Failure

section \<open>The class\<close>

record RsSocket =
  so_recv_timeout :: int
  so_send_timeout :: int
  so_recv_bytes :: int
  so_send_bytes :: int

abbreviation ST_UTIME_NO_TIMEOUT :: int where "ST_UTIME_NO_TIMEOUT \<equiv> -1"

definition RsSocket_new :: RsSocket where
  "RsSocket_new = \<lparr>so_recv_timeout = ST_UTIME_NO_TIMEOUT, so_send_timeout = ST_UTIME_NO_TIMEOUT,
     so_recv_bytes = 0, so_send_bytes = 0\<rparr>"

definition is_never_timeout :: "int \<Rightarrow> bool" where
  "is_never_timeout timeout_us \<longleftrightarrow> timeout_us = ST_UTIME_NO_TIMEOUT"

definition set_recv_timeout :: "int \<Rightarrow> RsSocket \<Rightarrow> RsSocket" where
  "set_recv_timeout timeout_us s = s\<lparr>so_recv_timeout := timeout_us\<rparr>"

definition set_send_timeout :: "int \<Rightarrow> RsSocket \<Rightarrow> RsSocket" where
  "set_send_timeout timeout_us s = s\<lparr>so_send_timeout := timeout_us\<rparr>"

text \<open>
  The code returned, the bytes stored, and the socket: the size the caller learns through
  \<open>nread\<close> is the number of bytes stored when the code is \<open>ERROR_SUCCESS\<close>.
\<close>

definition socket_read :: "st_result \<Rightarrow> RsSocket \<Rightarrow> int \<times> bytes \<times> RsSocket" where
  "socket_read r s =
     (case r of
        Got_Failure \<Rightarrow> (ERROR_SOCKET_READ, [], s)
      | Got_Timeout \<Rightarrow> (ERROR_SOCKET_TIMEOUT, [], s)
      | Got_Eof \<Rightarrow> (ERROR_SOCKET_READ, [], s)
      | Got bs \<Rightarrow> if bs = [] then (ERROR_SOCKET_READ, [], s)
          else (0, bs, s\<lparr>so_recv_bytes := so_recv_bytes s + int (length bs)\<rparr>))"

definition socket_read_fully :: "nat \<Rightarrow> st_result \<Rightarrow> RsSocket \<Rightarrow> int \<times> bytes \<times> RsSocket" where
  "socket_read_fully n r s =
     (case r of
        Got_Failure \<Rightarrow> (ERROR_SOCKET_READ_FULLY, [], s)
      | Got_Timeout \<Rightarrow> (ERROR_SOCKET_TIMEOUT, [], s)
      | Got_Eof \<Rightarrow> (if n = 0 then (0, [], s) else (ERROR_SOCKET_READ_FULLY, [], s))
      | Got bs \<Rightarrow> if length bs \<noteq> n then (ERROR_SOCKET_READ_FULLY, bs, s)
          else (0, bs, s\<lparr>so_recv_bytes := so_recv_bytes s + int (length bs)\<rparr>))"

text \<open>Code, \<open>nwrite\<close> and the socket. \<open>writev\<close> differs only in the call it wraps.\<close>

definition socket_write :: "st_written \<Rightarrow> RsSocket \<Rightarrow> int \<times> int \<times> RsSocket" where
  "socket_write r s =
     (case r of
        Write_Failure \<Rightarrow> (ERROR_SOCKET_WRITE, -1, s)
      | Write_Timeout \<Rightarrow> (ERROR_SOCKET_TIMEOUT, -1, s)
      | Wrote n \<Rightarrow> if n = 0 then (ERROR_SOCKET_WRITE, 0, s)
          else (0, int n, s\<lparr>so_send_bytes := so_send_bytes s + int n\<rparr>))"

definition socket_writev :: "st_written \<Rightarrow> RsSocket \<Rightarrow> int \<times> int \<times> RsSocket" where
  "socket_writev r s =
     (let nb_write = (case r of Wrote n \<Rightarrow> int n | _ \<Rightarrow> -1)
      in if nb_write \<le> 0 then
           (if nb_write < 0 \<and> r = Write_Timeout then ERROR_SOCKET_TIMEOUT else ERROR_SOCKET_WRITE, nb_write, s)
         else (0, nb_write, s\<lparr>so_send_bytes := so_send_bytes s + nb_write\<rparr>))"

lemma socket_writev_write: "socket_writev r s = socket_write r s"
  by (cases r) (simp_all add: socket_writev_def socket_write_def Let_def)

section \<open>Starting the library, closing a descriptor\<close>

abbreviation ERROR_ST_SET_EPOLL :: int where "ERROR_ST_SET_EPOLL \<equiv> 1013"
abbreviation ERROR_ST_INITIALIZE :: int where "ERROR_ST_INITIALIZE \<equiv> 1014"

text \<open>\<open>errno\<close> is what the call of \<open>epoll_ctl\<close> that is bound to fail leaves.\<close>

abbreviation ENOSYS :: int where "ENOSYS \<equiv> 38"

definition rs_st_epoll_is_supported :: "int \<Rightarrow> bool" where
  "rs_st_epoll_is_supported errno \<longleftrightarrow> errno \<noteq> ENOSYS"

text \<open>What \<open>st_set_eventsys\<close> and \<open>st_init\<close> return are arguments too.\<close>

definition rs_st_init :: "int \<Rightarrow> int \<Rightarrow> int \<Rightarrow> int" where
  "rs_st_init errno set_eventsys init =
     (if \<not> rs_st_epoll_is_supported errno then ERROR_ST_SET_EPOLL
      else if set_eventsys = -1 then ERROR_ST_SET_EPOLL
      else if init \<noteq> 0 then ERROR_ST_INITIALIZE else 0)"

text \<open>
  \<open>stfd\<close> is the descriptor behind the library's object, \<open>fds\<close> the open descriptors of the
  process: \<open>st_netfd_close\<close> closes it, then it is closed a second time.
\<close>

definition rs_close_stfd :: "int option \<Rightarrow> int set \<Rightarrow> int option \<times> int set" where
  "rs_close_stfd stfd fds =
     (case stfd of None \<Rightarrow> (None, fds)
      | Some fd \<Rightarrow> let fds = fds - {fd} in (None, fds - {fd}))"

section \<open>What reading delivers\<close>

text \<open>All the bytes a connection has still to deliver.\<close>

fun pending :: "arrival list \<Rightarrow> bytes" where
  "pending [] = []"
| "pending (Segment bs # conn) = bs @ pending conn"
| "pending (_ # conn) = pending conn"

definition conn_size :: "arrival list \<Rightarrow> nat" where
  "conn_size conn = length (pending conn) + length conn"

text \<open>A segment that arrives has at least one byte.\<close>

definition conn_ok :: "arrival list \<Rightarrow> bool" where
  "conn_ok conn \<longleftrightarrow> Segment [] \<notin> set conn"

lemma st_read_pending:
  "st_read n conn = Some (Got bs, conn') \<Longrightarrow> pending conn = bs @ pending conn' \<and> length bs \<le> n"
  by (induction n conn rule: st_read.induct) auto

lemma st_read_ok: "st_read n conn = Some (r, conn') \<Longrightarrow> conn_ok conn \<Longrightarrow> conn_ok conn'"
  by (induction n conn rule: st_read.induct) (auto simp: conn_ok_def split: if_splits)

lemma st_read_nothing: "st_read n conn = Some (r, conn') \<Longrightarrow> \<forall>bs. r \<noteq> Got bs \<Longrightarrow> pending conn' = pending conn"
  by (induction n conn rule: st_read.induct) auto

lemma st_read_shrinks:
  "st_read n conn = Some (Got bs, conn') \<Longrightarrow> bs \<noteq> [] \<Longrightarrow> conn_size conn' < conn_size conn"
  by (induction n conn rule: st_read.induct) (auto simp: conn_size_def)

lemma st_read_segments:
  "st_read n conn = Some (r, conn') \<Longrightarrow> \<forall>x\<in>set conn. \<exists>bs. x = Segment bs \<Longrightarrow> \<forall>x\<in>set conn'. \<exists>bs. x = Segment bs"
  by (induction n conn rule: st_read.induct) (auto split: if_splits)

end
