(* ===== verification/Rs_Buffer.thy ===== *)
theory Rs_Buffer
  imports Rs_Socket
begin

text \<open>
  \<open>core/buffer.h\<close> and \<open>core/buffer.cpp\<close>: the receive buffer of a connection. The three
  pointers are the memory \<open>buffer .. buffer + buffer_size\<close> and the offsets of \<open>curr_ptr\<close> and
  \<open>end_ptr\<close> in it. \<open>read_nbytes\<close> and \<open>skip\<close> move \<open>curr_ptr\<close> without a check: an offset outside
  the memory is only a fault when the memory is accessed through it.
\<close>

abbreviation DEFAULT_RECV_BUFFER_SIZE :: nat where "DEFAULT_RECV_BUFFER_SIZE \<equiv> 131072"
abbreviation MAX_SOCKET_BUFFER :: int where "MAX_SOCKET_BUFFER \<equiv> 262144"

section \<open>The object and its operations\<close>

record RsBuffer =
  rb_mem :: bytes
  rb_curr :: int
  rb_end :: int

definition RsBuffer_new :: "(nat \<Rightarrow> u8) \<Rightarrow> RsBuffer" where
  "RsBuffer_new junk = \<lparr>rb_mem = map junk [0..<DEFAULT_RECV_BUFFER_SIZE], rb_curr = 0, rb_end = 0\<rparr>"

definition current_size :: "RsBuffer \<Rightarrow> int" where
  "current_size b = rb_end b - rb_curr b"

definition set_buffer :: "(nat \<Rightarrow> u8) \<Rightarrow> int \<Rightarrow> RsBuffer \<Rightarrow> RsBuffer" where
  "set_buffer junk n b =
     (if n > MAX_SOCKET_BUFFER then b
      else let nb_resize_buf = min n MAX_SOCKET_BUFFER
        in if nb_resize_buf \<le> int (length (rb_mem b)) then b
           else b\<lparr>rb_mem := rb_mem b @ map junk [length (rb_mem b)..<nat nb_resize_buf]\<rparr>)"

definition read_byte :: "RsBuffer \<Rightarrow> (u8 \<times> RsBuffer) res" where
  "read_byte b =
     bindE (guardE Out_Of_Bounds (0 \<le> rb_curr b \<and> rb_curr b < int (length (rb_mem b)))) (\<lambda>_.
     Inr (rb_mem b ! nat (rb_curr b), b\<lparr>rb_curr := rb_curr b + 1\<rparr>))"

text \<open>The pointer returned, as an offset.\<close>

definition take_nbytes :: "int \<Rightarrow> RsBuffer \<Rightarrow> int \<times> RsBuffer" where
  "take_nbytes n b = (rb_curr b, b\<lparr>rb_curr := rb_curr b + n\<rparr>)"

definition buffer_skip :: "int \<Rightarrow> RsBuffer \<Rightarrow> RsBuffer" where
  "buffer_skip n b = b\<lparr>rb_curr := rb_curr b + n\<rparr>"

text \<open>
  The loop of \<open>fill_buffer\<close>. \<open>free_space\<close> is passed to \<open>st_read\<close> as a \<open>size_t\<close>.
\<close>

definition store_at :: "int \<Rightarrow> bytes \<Rightarrow> RsBuffer \<Rightarrow> RsBuffer res" where
  "store_at p bs b =
     bindE (guardE Out_Of_Bounds (0 \<le> p \<and> p + int (length bs) \<le> int (length (rb_mem b)))) (\<lambda>_.
     Inr (b\<lparr>rb_mem := take (nat p) (rb_mem b) @ bs @ drop (nat p + length bs) (rb_mem b)\<rparr>))"

lemma st_read_shrinks': "socket_read r s = (0, bs, s') \<Longrightarrow> st_read n conn = Some (r, conn') \<Longrightarrow> conn_size conn' < conn_size conn"
  by (auto simp: socket_read_def intro: st_read_shrinks split: st_result.splits if_splits)

function fill_loop :: "int \<Rightarrow> int \<Rightarrow> RsBuffer \<Rightarrow> RsSocket \<Rightarrow> arrival list \<Rightarrow>
    (int \<times> RsBuffer \<times> RsSocket \<times> arrival list) res option" where
  "fill_loop n free_space b io conn =
     (if current_size b < n then
        (case st_read (nat (free_space mod 2 ^ 64)) conn of
           None \<Rightarrow> None
         | Some (r, conn') \<Rightarrow>
             (case socket_read r io of (ret, bs, io') \<Rightarrow>
                if ret \<noteq> 0 then Some (Inr (ret, b, io', conn'))
                else bindO (Some (store_at (rb_end b) bs b)) (\<lambda>b.
                  fill_loop n (free_space - int (length bs)) (b\<lparr>rb_end := rb_end b + int (length bs)\<rparr>) io' conn')))
      else Some (Inr (0, b, io, conn)))"
  by pat_completeness auto
termination
  by (relation "measure (\<lambda>(n, free_space, b, io, conn). conn_size conn)") (auto dest: st_read_shrinks'[OF sym])

declare fill_loop.simps [simp del]

definition fill_buffer :: "(nat \<Rightarrow> u8) \<Rightarrow> int \<Rightarrow> RsBuffer \<Rightarrow> RsSocket \<Rightarrow> arrival list \<Rightarrow>
    (int \<times> RsBuffer \<times> RsSocket \<times> arrival list) res option" where
  "fill_buffer junk n b io conn =
     bindO (Some (assertE (n \<ge> 0))) (\<lambda>_.
     if rb_end b - rb_curr b \<ge> n then Some (Inr (0, b, io, conn))
     else
       let exists_bytes = rb_end b - rb_curr b;
           b = (if int (length (rb_mem b)) < n then set_buffer junk n b else b);
           free_space = int (length (rb_mem b)) - rb_end b
       in if exists_bytes = 0 then fill_loop n free_space (b\<lparr>rb_curr := 0, rb_end := 0\<rparr>) io conn
          else if free_space < n then
            bindO (Some (guardE Out_Of_Bounds (0 \<le> exists_bytes \<and> 0 \<le> rb_curr b \<and> rb_end b \<le> int (length (rb_mem b))))) (\<lambda>_.
            let existing = take (nat exists_bytes) (drop (nat (rb_curr b)) (rb_mem b));
                b = b\<lparr>rb_mem := existing @ drop (nat exists_bytes) (rb_mem b), rb_curr := 0, rb_end := exists_bytes\<rparr>
            in fill_loop n (int (length (rb_mem b)) - rb_end b) b io conn)
          else fill_loop n free_space b io conn)"

section \<open>The buffer as a stream\<close>

definition buffer_ok :: "RsBuffer \<Rightarrow> bool" where
  "buffer_ok b \<longleftrightarrow> 0 \<le> rb_curr b \<and> rb_curr b \<le> rb_end b \<and> rb_end b \<le> int (length (rb_mem b)) \<and>
     int DEFAULT_RECV_BUFFER_SIZE \<le> int (length (rb_mem b)) \<and> int (length (rb_mem b)) \<le> MAX_SOCKET_BUFFER"

text \<open>The bytes received and not yet read.\<close>

definition unread :: "RsBuffer \<Rightarrow> bytes" where
  "unread b = take (nat (rb_end b - rb_curr b)) (drop (nat (rb_curr b)) (rb_mem b))"

lemma length_unread: "buffer_ok b \<Longrightarrow> int (length (unread b)) = current_size b"
  by (auto simp: buffer_ok_def unread_def current_size_def min_def)

lemma store_end:
  assumes "buffer_ok b" "rb_end b + int (length bs) \<le> int (length (rb_mem b))"
  shows "\<exists>b'. store_at (rb_end b) bs b = Inr b' \<and> buffer_ok (b'\<lparr>rb_end := rb_end b' + int (length bs)\<rparr>) \<and>
    unread (b'\<lparr>rb_end := rb_end b' + int (length bs)\<rparr>) = unread b @ bs \<and> length (rb_mem b') = length (rb_mem b) \<and>
    rb_end b' = rb_end b \<and> rb_curr b' = rb_curr b"
proof -
  define c e where "c = nat (rb_curr b)" and "e = nat (rb_end b)"
  have ce: "rb_curr b = int c" "rb_end b = int e" "c \<le> e" "e + length bs \<le> length (rb_mem b)"
    using assms by (auto simp: buffer_ok_def c_def e_def)
  have "drop c (take e (rb_mem b) @ bs @ drop (e + length bs) (rb_mem b)) =
      take (e - c) (drop c (rb_mem b)) @ bs @ drop (e + length bs) (rb_mem b)"
    using ce by (simp add: drop_take)
  moreover have "length (take (e - c) (drop c (rb_mem b))) = e - c" "e + length bs - c = (e - c) + length bs"
    using ce by auto
  ultimately have "take (e + length bs - c) (drop c (take e (rb_mem b) @ bs @ drop (e + length bs) (rb_mem b))) =
      take (e - c) (drop c (rb_mem b)) @ bs"
    by (simp only: take_append) simp
  moreover have "nat (int e + int (length bs) - int c) = e + length bs - c" "nat (int e - int c) = e - c"
    using ce by auto
  ultimately show ?thesis
    using assms ce by (simp add: store_at_def unread_def buffer_ok_def del: drop_append)
qed

lemma socket_read_cases:
  obtains (data) bs where "r = Got bs" "bs \<noteq> []"
      "socket_read r io = (0, bs, io\<lparr>so_recv_bytes := so_recv_bytes io + int (length bs)\<rparr>)"
  | (error) ret where "ret \<in> {ERROR_SOCKET_READ, ERROR_SOCKET_TIMEOUT}" "socket_read r io = (ret, [], io)"
      "\<forall>bs. r = Got bs \<longrightarrow> bs = []"
proof (cases r)
  case (Got bs)
  then show ?thesis using data error[of ERROR_SOCKET_READ] by (cases "bs = []") (simp_all add: socket_read_def)
qed (use error in \<open>auto simp: socket_read_def\<close>)

text \<open>What a fill did: \<open>got\<close> is what it took from the connection.\<close>

definition filled_by :: "int \<Rightarrow> RsBuffer \<Rightarrow> arrival list \<Rightarrow> int \<times> RsBuffer \<times> RsSocket \<times> arrival list \<Rightarrow> bool" where
  "filled_by n b conn result \<longleftrightarrow>
     (case result of (ret, b', io', conn') \<Rightarrow>
        ret \<in> {0, ERROR_SOCKET_READ, ERROR_SOCKET_TIMEOUT} \<and> buffer_ok b' \<and> conn_ok conn' \<and>
        (\<exists>got. unread b' = unread b @ got \<and> pending conn = got @ pending conn' \<and>
           rb_end b' = rb_end b + int (length got)) \<and>
        length (rb_mem b') = length (rb_mem b) \<and>
        ((\<forall>x\<in>set conn. \<exists>bs. x = Segment bs) \<longrightarrow> (\<forall>x\<in>set conn'. \<exists>bs. x = Segment bs)) \<and>
        (ret = 0 \<longrightarrow> n \<le> current_size b'))"

lemma fill_loop_stream:
  assumes "buffer_ok b" "conn_ok conn" "0 \<le> free_space" "rb_end b + free_space \<le> int (length (rb_mem b))"
  shows "case fill_loop n free_space b io conn of None \<Rightarrow> True | Some (Inl e) \<Rightarrow> False
    | Some (Inr result) \<Rightarrow> filled_by n b conn result"
  using assms
proof (induction n free_space b io conn rule: fill_loop.induct)
  case (1 n free_space b io conn)
  note ok = "1.prems"
  show ?case
  proof (cases "current_size b < n")
    case False
    then show ?thesis using ok by (simp add: fill_loop.simps filled_by_def)
  next
    case small: True
    show ?thesis
    proof (cases "st_read (nat (free_space mod 2 ^ 64)) conn")
      case None
      then show ?thesis using small by (subst fill_loop.simps) simp
    next
      case (Some p)
      obtain r conn' where p: "p = (r, conn')" by fastforce
      have len: "int (length (rb_mem b)) \<le> MAX_SOCKET_BUFFER" "0 \<le> rb_end b" using ok(1) by (simp_all add: buffer_ok_def)
      have size: "nat (free_space mod 2 ^ 64) = nat free_space" using ok len by (simp add: mod_pos_pos_trivial)
      have conn': "conn_ok conn'" using st_read_ok Some p ok(2) by blast
      show ?thesis
      proof (cases r io rule: socket_read_cases)
        case (error ret)
        then have "pending conn' = pending conn"
          using st_read_nothing st_read_pending Some p by (cases r) fastforce+
        then show ?thesis
          using small Some p error conn' ok st_read_segments[of _ conn r conn'] by (subst fill_loop.simps) (auto simp: filled_by_def)
      next
        case (data bs)
        have bs: "pending conn = bs @ pending conn'" "int (length bs) \<le> free_space"
          using st_read_pending[of _ conn bs conn'] Some p data(1) size ok(3) by fastforce+
        then obtain b' where b': "store_at (rb_end b) bs b = Inr b'"
          "buffer_ok (b'\<lparr>rb_end := rb_end b' + int (length bs)\<rparr>)"
          "unread (b'\<lparr>rb_end := rb_end b' + int (length bs)\<rparr>) = unread b @ bs" "length (rb_mem b') = length (rb_mem b)"
          "rb_end b' = rb_end b"
          using store_end[OF ok(1), of bs] ok(4) by auto
        let ?b = "b'\<lparr>rb_end := rb_end b' + int (length bs)\<rparr>"
        let ?io = "io\<lparr>so_recv_bytes := so_recv_bytes io + int (length bs)\<rparr>"
        have step: "fill_loop n free_space b io conn = fill_loop n (free_space - int (length bs)) ?b ?io conn'"
          using small Some p data(3) b'(1) by (subst fill_loop.simps) simp
        have "case fill_loop n (free_space - int (length bs)) ?b ?io conn' of None \<Rightarrow> True | Some (Inl e) \<Rightarrow> False
          | Some (Inr result) \<Rightarrow> filled_by n ?b conn' result"
          using b' bs ok conn' by (intro "1.IH"[OF small Some p[symmetric] data(3)[symmetric] refl]) auto
        then show ?thesis
          unfolding step using bs(1) b'(3,4,5) st_read_segments[of _ conn r conn'] Some p
          by (auto simp: filled_by_def split: option.splits sum.splits)
      qed
    qed
  qed
qed

lemma st_read_segment:
  assumes "0 < k" "conn_ok conn" "\<forall>x\<in>set conn. \<exists>bs. x = Segment bs" "pending conn \<noteq> []"
  shows "\<exists>bs conn'. st_read k conn = Some (Got bs, conn') \<and> bs \<noteq> [] \<and> conn_ok conn' \<and>
    (\<forall>x\<in>set conn'. \<exists>bs. x = Segment bs) \<and> pending conn = bs @ pending conn' \<and> length bs \<le> k"
proof -
  obtain bs c where "conn = Segment bs # c" using assms(3,4) by (cases conn) auto
  moreover from this have "bs \<noteq> []" using assms(2) by (auto simp: conn_ok_def)
  ultimately show ?thesis using assms(1-3) by (cases k) (auto simp: conn_ok_def)
qed

text \<open>With enough data on its way the loop succeeds exactly when the free space suffices.\<close>

lemma fill_loop_enough:
  assumes "buffer_ok b" "conn_ok conn" "0 \<le> free_space" "rb_end b + free_space \<le> int (length (rb_mem b))"
    and "\<forall>x\<in>set conn. \<exists>bs. x = Segment bs" "n \<le> current_size b + int (length (pending conn))"
  shows "\<exists>b' io' conn'. fill_loop n free_space b io conn =
    Some (Inr (if n \<le> current_size b \<or> n \<le> current_size b + free_space then 0 else ERROR_SOCKET_READ, b', io', conn'))"
  using assms
proof (induction n free_space b io conn rule: fill_loop.induct)
  case (1 n free_space b io conn)
  note ok = "1.prems"
  have len: "int (length (rb_mem b)) \<le> MAX_SOCKET_BUFFER" "0 \<le> rb_end b" using ok(1) by (simp_all add: buffer_ok_def)
  have size: "nat (free_space mod 2 ^ 64) = nat free_space" using ok len by (simp add: mod_pos_pos_trivial)
  consider "\<not> current_size b < n" | "current_size b < n" "free_space = 0" | "current_size b < n" "0 < free_space"
    using ok(3) by linarith
  then show ?case
  proof cases
    case 1
    then show ?thesis by (simp add: fill_loop.simps)
  next
    case 2
    then show ?thesis by (subst fill_loop.simps) (simp add: socket_read_def)
  next
    case 3
    have "pending conn \<noteq> []" using 3 ok(6) by auto
    then obtain bs conn' where r: "st_read (nat free_space) conn = Some (Got bs, conn')" "bs \<noteq> []" "conn_ok conn'"
      "\<forall>x\<in>set conn'. \<exists>bs. x = Segment bs" "pending conn = bs @ pending conn'" "length bs \<le> nat free_space"
      using st_read_segment[of "nat free_space" conn] 3 ok(2,5) by auto
    then have le: "int (length bs) \<le> free_space" using ok(3) by linarith
    have r1: "st_read (nat (free_space mod 2 ^ 64)) conn = Some (Got bs, conn')" using r(1) by (simp only: size)
    obtain b' where b': "store_at (rb_end b) bs b = Inr b'"
      "buffer_ok (b'\<lparr>rb_end := rb_end b' + int (length bs)\<rparr>)" "length (rb_mem b') = length (rb_mem b)"
      "rb_end b' = rb_end b" "rb_curr b' = rb_curr b"
      using store_end[OF ok(1), of bs] ok(4) le by auto
    let ?io = "io\<lparr>so_recv_bytes := so_recv_bytes io + int (length bs)\<rparr>"
    have data: "socket_read (Got bs) io = (0, bs, ?io)" using r(2) by (simp add: socket_read_def)
    have "\<exists>b'' io' conn''. fill_loop n (free_space - int (length bs)) (b'\<lparr>rb_end := rb_end b' + int (length bs)\<rparr>) ?io conn' =
        Some (Inr (if n \<le> current_size (b'\<lparr>rb_end := rb_end b' + int (length bs)\<rparr>) \<or>
          n \<le> current_size (b'\<lparr>rb_end := rb_end b' + int (length bs)\<rparr>) + (free_space - int (length bs))
          then 0 else ERROR_SOCKET_READ, b'', io', conn''))"
      using b' r le ok 3(1) by (intro "1.IH"[OF 3(1) r1 refl data[symmetric] refl]) (auto simp: current_size_def)
    then show ?thesis
      using 3 data b' le unfolding fill_loop.simps[of n free_space b io conn] r1
      by (auto simp: current_size_def split: if_splits)
  qed
qed

section \<open>Filling the buffer\<close>

lemma set_buffer_ok:
  assumes "buffer_ok b"
  shows "buffer_ok (set_buffer junk n b)" "unread (set_buffer junk n b) = unread b"
    "rb_curr (set_buffer junk n b) = rb_curr b" "rb_end (set_buffer junk n b) = rb_end b"
    "length (rb_mem (set_buffer junk n b)) =
      (if int (length (rb_mem b)) < n \<and> n \<le> MAX_SOCKET_BUFFER then nat n else length (rb_mem b))"
  using assms by (auto simp: set_buffer_def buffer_ok_def unread_def Let_def)

lemma buffer_reset: "buffer_ok b \<Longrightarrow> rb_end b = rb_curr b \<Longrightarrow>
    buffer_ok (b\<lparr>rb_curr := 0, rb_end := 0\<rparr>) \<and> unread (b\<lparr>rb_curr := 0, rb_end := 0\<rparr>) = unread b"
  by (simp add: buffer_ok_def unread_def)

lemma buffer_move:
  assumes "buffer_ok b"
  shows "buffer_ok (b\<lparr>rb_mem := unread b @ drop (nat (current_size b)) (rb_mem b), rb_curr := 0, rb_end := current_size b\<rparr>)"
    "unread (b\<lparr>rb_mem := unread b @ drop (nat (current_size b)) (rb_mem b), rb_curr := 0, rb_end := current_size b\<rparr>) = unread b"
    "length (unread b @ drop (nat (current_size b)) (rb_mem b)) = length (rb_mem b)"
proof -
  have l: "length (unread b) = nat (current_size b)" "0 \<le> current_size b" "current_size b \<le> int (length (rb_mem b))"
    using length_unread[OF assms] assms by (auto simp: current_size_def buffer_ok_def)
  then show len: "length (unread b @ drop (nat (current_size b)) (rb_mem b)) = length (rb_mem b)" by simp
  show "buffer_ok (b\<lparr>rb_mem := unread b @ drop (nat (current_size b)) (rb_mem b), rb_curr := 0, rb_end := current_size b\<rparr>)"
    using l len assms by (simp add: buffer_ok_def)
  show "unread (b\<lparr>rb_mem := unread b @ drop (nat (current_size b)) (rb_mem b), rb_curr := 0, rb_end := current_size b\<rparr>) = unread b"
    using l by (simp add: unread_def[of "rb_mem_update _ _"] unread_def[of "rb_curr_update _ _"] unread_def[of "rb_end_update _ _"])
qed

text \<open>The size of the memory once it has been enlarged for a fill of \<open>n\<close> bytes.\<close>

definition enlarged :: "int \<Rightarrow> RsBuffer \<Rightarrow> int" where
  "enlarged n b = (if int (length (rb_mem b)) < n \<and> n \<le> MAX_SOCKET_BUFFER then n else int (length (rb_mem b)))"

text \<open>
  A fill that has to read runs the loop, with the free space computed before the pointers of
  an empty buffer are reset.
\<close>

definition loop_space :: "int \<Rightarrow> RsBuffer \<Rightarrow> int" where
  "loop_space n b = (if current_size b = 0 \<or> n \<le> enlarged n b - rb_end b then enlarged n b - rb_end b
     else enlarged n b - current_size b)"

lemma fill_buffer_loop:
  assumes "buffer_ok b" "0 \<le> n" "current_size b < n"
  shows "\<exists>b'. fill_buffer junk n b io conn = fill_loop n (loop_space n b) b' io conn \<and>
    buffer_ok b' \<and> unread b' = unread b \<and> 0 \<le> loop_space n b \<and>
    rb_end b' + loop_space n b \<le> int (length (rb_mem b')) \<and>
    rb_end b' \<le> rb_end b \<and> int (length (rb_mem b')) = enlarged n b"
proof -
  let ?b = "if int (length (rb_mem b)) < n then set_buffer junk n b else b"
  have b: "buffer_ok ?b" "unread ?b = unread b" "rb_curr ?b = rb_curr b" "rb_end ?b = rb_end b"
    using set_buffer_ok[OF assms(1), of junk n] assms(1) by auto
  have len: "int (length (rb_mem ?b)) = enlarged n b"
    using set_buffer_ok(5)[OF assms(1), of junk n] assms(2) by (auto simp: enlarged_def)
  have cs: "current_size ?b = current_size b" using b by (simp add: current_size_def)
  have e: "rb_end b \<le> enlarged n b" "current_size b \<le> enlarged n b" "0 \<le> current_size b" "current_size b \<le> rb_end b" "0 \<le> rb_end b"
    using b(1) len b(3,4) unfolding buffer_ok_def current_size_def by linarith+
  consider (reset) "current_size b = 0" | (move) "current_size b \<noteq> 0" "enlarged n b - rb_end b < n"
    | (stay) "current_size b \<noteq> 0" "n \<le> enlarged n b - rb_end b" by linarith
  then show ?thesis
  proof cases
    case reset
    then have "fill_buffer junk n b io conn = fill_loop n (loop_space n b) (?b\<lparr>rb_curr := 0, rb_end := 0\<rparr>) io conn"
      using assms(2,3) len b(4) by (simp add: fill_buffer_def loop_space_def current_size_def)
    moreover have "rb_end ?b = rb_curr ?b" using reset b by (simp add: current_size_def)
    ultimately show ?thesis
      using buffer_reset[OF b(1)] b(2) reset e len assms(1) by (intro exI[of _ "?b\<lparr>rb_curr := 0, rb_end := 0\<rparr>"])
        (simp add: loop_space_def buffer_ok_def)
  next
    case move
    let ?b' = "?b\<lparr>rb_mem := unread ?b @ drop (nat (current_size ?b)) (rb_mem ?b), rb_curr := 0, rb_end := current_size ?b\<rparr>"
    have run: "fill_buffer junk n b io conn = fill_loop n (int (length (rb_mem ?b')) - rb_end ?b') ?b' io conn"
      using move assms(2,3) len b e assms(1)
      by (simp add: fill_buffer_def unread_def current_size_def Let_def buffer_ok_def)
    have "int (length (rb_mem ?b')) = enlarged n b"
      using buffer_move(3)[OF b(1)] len by simp
    then show ?thesis
      using run buffer_move(1,2)[OF b(1)] b(2) move e by (intro exI[of _ ?b']) (simp add: loop_space_def cs)
  next
    case stay
    then have "fill_buffer junk n b io conn = fill_loop n (loop_space n b) ?b io conn"
      using assms(2,3) len b(4) by (simp add: fill_buffer_def loop_space_def current_size_def)
    then show ?thesis using b stay e len by (intro exI[of _ ?b]) (simp add: loop_space_def)
  qed
qed

text \<open>
  C15. The receive buffer is a stream: whatever the connection does (short reads, timeouts,
  the end of the stream, errors), \<open>fill_buffer\<close> never touches memory outside the buffer, the
  bytes received and not yet read followed by the bytes still to come are the same before
  and after, in order, and when it reports success at least \<open>n\<close> bytes can be read.
\<close>

theorem fill_buffer_stream:
  assumes "buffer_ok b" "conn_ok conn" "0 \<le> n"
  shows "case fill_buffer junk n b io conn of None \<Rightarrow> True | Some (Inl e) \<Rightarrow> False
    | Some (Inr (ret, b', io', conn')) \<Rightarrow>
        buffer_ok b' \<and> conn_ok conn' \<and> unread b' @ pending conn' = unread b @ pending conn \<and>
        (ret = 0 \<longrightarrow> n \<le> int (length (unread b')))"
proof (cases "current_size b < n")
  case False
  then show ?thesis
    using assms length_unread[OF assms(1)] by (simp add: fill_buffer_def current_size_def)
next
  case True
  obtain b' where b': "fill_buffer junk n b io conn = fill_loop n (loop_space n b) b' io conn"
    "buffer_ok b'" "unread b' = unread b" "0 \<le> loop_space n b" "rb_end b' + loop_space n b \<le> int (length (rb_mem b'))"
    using fill_buffer_loop[OF assms(1,3) True] by blast
  show ?thesis
    using fill_loop_stream[OF b'(2) assms(2) b'(4,5), of n io] b'(1,3)
    by (auto simp: filled_by_def length_unread[symmetric] split: option.splits sum.splits)
qed

definition sample_buffer :: RsBuffer where
  "sample_buffer = \<lparr>rb_mem = replicate DEFAULT_RECV_BUFFER_SIZE 0, rb_curr = 131070, rb_end = 131070\<rparr>"

lemma sample_buffer_ok: "buffer_ok sample_buffer" "unread sample_buffer = []" "length (rb_mem sample_buffer) = DEFAULT_RECV_BUFFER_SIZE"
  by (simp_all add: buffer_ok_def sample_buffer_def unread_def)

text \<open>
  C36. When everything asked for is on its way, \<open>fill_buffer\<close> succeeds exactly when the bytes
  are already there, or fit: into the whole buffer (enlarged up to 262,144 bytes) when some
  bytes are unread, but only into the part behind the pointers when none are, although the
  pointers have just been reset; otherwise it reports \<open>ERROR_SOCKET_READ\<close>.
\<close>

theorem fill_buffer_succeeds_iff:
  assumes "buffer_ok b" "conn_ok conn" "0 \<le> n"
    and "\<forall>x\<in>set conn. \<exists>bs. x = Segment bs" "n \<le> int (length (unread b)) + int (length (pending conn))"
  shows "\<exists>b' io' conn'. fill_buffer junk n b io conn =
    Some (Inr (if n \<le> int (length (unread b)) \<or> n \<le> (if unread b = [] then enlarged n b - rb_end b else enlarged n b)
      then 0 else ERROR_SOCKET_READ, b', io', conn'))"
proof (cases "current_size b < n")
  case False
  then show ?thesis
    using assms(3) length_unread[OF assms(1)] by (simp add: fill_buffer_def current_size_def)
next
  case True
  obtain b' where b': "fill_buffer junk n b io conn = fill_loop n (loop_space n b) b' io conn"
    "buffer_ok b'" "unread b' = unread b" "0 \<le> loop_space n b" "rb_end b' + loop_space n b \<le> int (length (rb_mem b'))"
    using fill_buffer_loop[OF assms(1,3) True] by blast
  have cs: "current_size b' = current_size b" "int (length (unread b)) = current_size b"
    using length_unread[OF b'(2)] length_unread[OF assms(1)] b'(3) by simp_all
  have "rb_end b = rb_curr b + current_size b" "0 \<le> rb_curr b" using assms(1) by (simp_all add: current_size_def buffer_ok_def)
  then have "n \<le> current_size b \<or> n \<le> current_size b + loop_space n b \<longleftrightarrow>
      n \<le> int (length (unread b)) \<or> n \<le> (if unread b = [] then enlarged n b - rb_end b else enlarged n b)"
    using cs(2) by (auto simp: loop_space_def)
  then show ?thesis
    using fill_loop_enough[OF b'(2) assms(2) b'(4,5) assms(4), of n io] b'(1) cs assms(5) by simp
qed

text \<open>Four bytes that are there cannot be read when the last read stopped two bytes before the end.\<close>

lemma fill_buffer_succeeds_iff_witness:
  "\<exists>b' io' conn'. fill_buffer (\<lambda>_. 0) 4 sample_buffer RsSocket_new [Segment [1, 2, 3, 4, 5]] =
     Some (Inr (ERROR_SOCKET_READ, b', io', conn'))"
  using fill_buffer_succeeds_iff[OF sample_buffer_ok(1), of "[Segment [1, 2, 3, 4, 5]]" 4 "\<lambda>_. 0" RsSocket_new]
  by (simp add: conn_ok_def sample_buffer_ok enlarged_def) (simp add: sample_buffer_def)

text \<open>A fill that has room, for the loops that read a whole message.\<close>

lemma fill_buffer_room:
  assumes "buffer_ok b" "conn_ok conn" "0 \<le> n" "\<forall>x\<in>set conn. \<exists>bs. x = Segment bs"
    and "n \<le> int (length (unread b)) + int (length (pending conn))" "n \<le> int (length (rb_mem b))"
    and "unread b = [] \<longrightarrow> rb_end b + n \<le> int (length (rb_mem b))"
  shows "\<exists>b' io' conn' got. fill_buffer junk n b io conn = Some (Inr (0, b', io', conn')) \<and>
    buffer_ok b' \<and> conn_ok conn' \<and> (\<forall>x\<in>set conn'. \<exists>bs. x = Segment bs) \<and>
    unread b' = unread b @ got \<and> pending conn = got @ pending conn' \<and>
    rb_end b' \<le> rb_end b + int (length got) \<and> length (rb_mem b') = length (rb_mem b) \<and> n \<le> int (length (unread b'))"
proof (cases "current_size b < n")
  case False
  then show ?thesis
    using assms length_unread[OF assms(1)] by (simp add: fill_buffer_def current_size_def)
next
  case True
  have large: "enlarged n b = int (length (rb_mem b))" using assms(6) by (simp add: enlarged_def)
  obtain b' where b': "fill_buffer junk n b io conn = fill_loop n (loop_space n b) b' io conn"
    "buffer_ok b'" "unread b' = unread b" "0 \<le> loop_space n b" "rb_end b' + loop_space n b \<le> int (length (rb_mem b'))"
    "rb_end b' \<le> rb_end b" "int (length (rb_mem b')) = enlarged n b"
    using fill_buffer_loop[OF assms(1,3) True] by blast
  have cs: "current_size b' = int (length (unread b))" using length_unread[OF b'(2)] b'(3) by simp
  have "n \<le> current_size b' + loop_space n b"
    using assms(6,7) large cs length_unread[OF assms(1)] by (auto simp: loop_space_def)
  then obtain b'' io' conn' where r: "fill_loop n (loop_space n b) b' io conn = Some (Inr (0, b'', io', conn'))"
    using fill_loop_enough[OF b'(2) assms(2) b'(4,5) assms(4), of n io] cs assms(5) by auto
  then have "filled_by n b' conn (0, b'', io', conn')"
    using fill_loop_stream[OF b'(2) assms(2) b'(4,5), of n io] by simp
  then show ?thesis
    using r b' large assms(4) length_unread[of b''] by (auto simp: filled_by_def)
qed

text \<open>Three bytes are unread and five arrive in two segments; six are asked for.\<close>

lemma fill_buffer_stream_witness:
  "\<exists>b' io' conn'. fill_buffer (\<lambda>_. 0) 6 (sample_buffer\<lparr>rb_curr := 131067\<rparr>) RsSocket_new [Segment [1, 2], Segment [3, 4, 5]] =
      Some (Inr (0, b', io', conn')) \<and>
    buffer_ok b' \<and> unread b' @ pending conn' = [0, 0, 0, 1, 2, 3, 4, 5] \<and> 6 \<le> int (length (unread b'))"
proof -
  let ?b = "sample_buffer\<lparr>rb_curr := 131067\<rparr>" and ?conn = "[Segment [1, 2], Segment [3, 4, 5]]"
  have b: "buffer_ok ?b" "length (rb_mem ?b) = DEFAULT_RECV_BUFFER_SIZE" by (simp_all add: buffer_ok_def sample_buffer_def)
  have u: "unread ?b = [0, 0, 0]" by (simp add: unread_def sample_buffer_def numeral_3_eq_3)
  have conn: "conn_ok ?conn" "\<forall>x\<in>set ?conn. \<exists>bs. x = Segment bs" by (simp_all add: conn_ok_def)
  obtain b' io' conn' where "fill_buffer (\<lambda>_. 0) 6 ?b RsSocket_new ?conn = Some (Inr (0, b', io', conn'))"
    using fill_buffer_room[OF b(1) conn(1) _ conn(2), of 6 "\<lambda>_. 0" RsSocket_new] b(2) by (auto simp: u)
  then show ?thesis
    using fill_buffer_stream[OF b(1) conn(1), of 6 "\<lambda>_. 0" RsSocket_new] by (simp add: u)
qed

end
