(* ===== verification/Streamer.thy ===== *)
theory Streamer
  imports Prelude
begin

text \<open>
  \<open>core/streamer.h\<close> and \<open>core/streamer.cpp\<close>: the cursor \<open>RsStreamer\<close> that every
  message is parsed from and packed into. The object holds a base pointer, a current
  pointer and a size. The model keeps the bytes of the allocation the base pointer points
  to (\<open>smem\<close>), the offset of the current pointer from the base (\<open>scurr\<close>) and the
  size the caller announced (\<open>ssize\<close>), which need not be the size of the allocation:
  the network handlers take it from the packet itself.

  The typed operations are guarded by an \<open>assert\<close> against the announced size;
  \<open>write_char\<close> and \<open>write_nbytes\<close> are not guarded at all. An access outside the
  allocation is \<open>Out_Of_Bounds\<close>.
\<close>

section \<open>The object and its operations\<close>

record streamer =
  smem :: bytes
  scurr :: nat
  ssize :: int

definition initialize :: "bytes \<Rightarrow> int \<Rightarrow> streamer" where
  "initialize buf nb = \<lparr>smem = buf, scurr = 0, ssize = nb\<rparr>"

definition get_buffer :: "streamer \<Rightarrow> bytes" where
  "get_buffer s = smem s"

definition get_size :: "streamer \<Rightarrow> u32" where
  "get_size s = word_of_int (ssize s)"

definition get_as_type :: "nat \<Rightarrow> streamer \<Rightarrow> (bytes \<times> streamer) res" where
  "get_as_type typesize s =
     bindE (assertE (int (scurr s) + int typesize \<le> ssize s)) (\<lambda>_.
     bindE (guardE Out_Of_Bounds (scurr s + typesize \<le> length (smem s))) (\<lambda>_.
     Inr (take typesize (drop (scurr s) (smem s)), s\<lparr>scurr := scurr s + typesize\<rparr>)))"

definition store_bytes :: "bytes \<Rightarrow> streamer \<Rightarrow> streamer res" where
  "store_bytes bs s =
     bindE (guardE Out_Of_Bounds (scurr s + length bs \<le> length (smem s))) (\<lambda>_.
     Inr (s\<lparr>smem := take (scurr s) (smem s) @ bs @ drop (scurr s + length bs) (smem s),
            scurr := scurr s + length bs\<rparr>))"

definition set_as_type :: "bytes \<Rightarrow> streamer \<Rightarrow> streamer res" where
  "set_as_type bs s =
     bindE (assertE (int (scurr s) + int (length bs) \<le> ssize s)) (\<lambda>_. store_bytes bs s)"

definition read_char :: "streamer \<Rightarrow> (u8 \<times> streamer) res" where
  "read_char s = bindE (get_as_type 1 s) (\<lambda>(bs, s). Inr (dec bs, s))"

definition read_short :: "streamer \<Rightarrow> (u16 \<times> streamer) res" where
  "read_short s = bindE (get_as_type 2 s) (\<lambda>(bs, s). Inr (dec bs, s))"

definition read_int :: "streamer \<Rightarrow> (u32 \<times> streamer) res" where
  "read_int s = bindE (get_as_type 4 s) (\<lambda>(bs, s). Inr (dec bs, s))"

definition read_long :: "streamer \<Rightarrow> (u64 \<times> streamer) res" where
  "read_long s = bindE (get_as_type 8 s) (\<lambda>(bs, s). Inr (dec bs, s))"

text \<open>
  \<open>read_nbytes\<close> returns the current pointer; every caller copies the same number of
  bytes from it at once, so the model returns those bytes.
\<close>

definition read_nbytes :: "nat \<Rightarrow> streamer \<Rightarrow> (bytes \<times> streamer) res" where
  "read_nbytes nb s =
     bindE (assertE (int (scurr s) + int nb \<le> ssize s)) (\<lambda>_.
     bindE (guardE Out_Of_Bounds (scurr s + nb \<le> length (smem s))) (\<lambda>_.
     Inr (take nb (drop (scurr s) (smem s)), s\<lparr>scurr := scurr s + nb\<rparr>)))"

definition skip :: "nat \<Rightarrow> streamer \<Rightarrow> streamer res" where
  "skip nb s =
     bindE (assertE (int (scurr s) + int nb \<le> ssize s)) (\<lambda>_.
     Inr (s\<lparr>scurr := scurr s + nb\<rparr>))"

definition write_char :: "u8 \<Rightarrow> streamer \<Rightarrow> streamer res" where
  "write_char v s = store_bytes [v] s"

definition write_short :: "u16 \<Rightarrow> streamer \<Rightarrow> streamer res" where
  "write_short v s = set_as_type (enc v) s"

definition write_int :: "u32 \<Rightarrow> streamer \<Rightarrow> streamer res" where
  "write_int v s = set_as_type (enc v) s"

definition write_long :: "u64 \<Rightarrow> streamer \<Rightarrow> streamer res" where
  "write_long v s = set_as_type (enc v) s"

text \<open>
  \<open>write_nbytes(buf, nb)\<close> copies \<open>nb\<close> bytes from \<open>buf\<close>: reading past the end of
  \<open>buf\<close> is out of bounds too.
\<close>

definition write_nbytes :: "bytes \<Rightarrow> nat \<Rightarrow> streamer \<Rightarrow> streamer res" where
  "write_nbytes buf nb s =
     bindE (guardE Out_Of_Bounds (nb \<le> length buf)) (\<lambda>_. store_bytes (take nb buf) s)"

text \<open>A block of write statements, run in order; a loop of reads into an array.\<close>

fun seqW :: "(streamer \<Rightarrow> streamer res) list \<Rightarrow> streamer \<Rightarrow> streamer res" where
  "seqW [] s = Inr s"
| "seqW (w # ws) s = bindE (w s) (seqW ws)"

fun read_array :: "nat \<Rightarrow> (streamer \<Rightarrow> ('a \<times> streamer) res) \<Rightarrow> streamer \<Rightarrow> ('a list \<times> streamer) res" where
  "read_array 0 rd s = Inr ([], s)"
| "read_array (Suc n) rd s =
     bindE (rd s) (\<lambda>(x, s). bindE (read_array n rd s) (\<lambda>(xs, s). Inr (x # xs, s)))"

section \<open>Reading: the bytes still available\<close>

definition adv :: "nat \<Rightarrow> streamer \<Rightarrow> streamer" where
  "adv n s = s\<lparr>scurr := scurr s + n\<rparr>"

definition avail :: "streamer \<Rightarrow> bytes" where
  "avail s = take (nat (ssize s) - scurr s) (drop (scurr s) (smem s))"

text \<open>The announced size does not exceed the allocation, as after a truthful header.\<close>

definition honest :: "streamer \<Rightarrow> bool" where
  "honest s \<longleftrightarrow> ssize s \<le> int (length (smem s))"

lemma adv_adv [simp, wire_simps]: "adv m (adv n s) = adv (n + m) s"
  by (simp add: adv_def)

lemma adv_0 [simp, wire_simps]: "adv 0 s = s"
  by (simp add: adv_def)

lemma avail_adv [simp, wire_simps]: "avail (adv n s) = drop n (avail s)"
  by (simp add: avail_def adv_def drop_take add.commute)

lemma honest_adv [simp, wire_simps]: "honest (adv n s) = honest s"
  by (simp add: honest_def adv_def)

lemma avail_initialize [simp, wire_simps]: "avail (initialize buf nb) = take (nat nb) buf"
  by (simp add: avail_def initialize_def)

lemma honest_initialize [simp, wire_simps]: "honest (initialize buf nb) \<longleftrightarrow> nb \<le> int (length buf)"
  by (simp add: honest_def initialize_def)

lemma length_avail_le:
  "n \<le> length (avail s) \<Longrightarrow> n = 0 \<or> int (scurr s) + int n \<le> ssize s"
  "n \<le> length (avail s) \<Longrightarrow> n = 0 \<or> scurr s + n \<le> length (smem s)"
  by (auto simp: avail_def)

lemma take_avail: "n \<le> length (avail s) \<Longrightarrow> take n (avail s) = take n (drop (scurr s) (smem s))"
  by (simp add: avail_def take_take min_absorb1)

lemma get_as_type_ok:
  assumes "n \<le> length (avail s)" "0 < n"
  shows "get_as_type n s = Inr (take n (avail s), adv n s)"
  using length_avail_le[OF assms(1)] assms
  by (simp add: get_as_type_def adv_def take_avail)

lemma get_as_type_short:
  assumes "length (avail s) < n" "honest s"
  shows "get_as_type n s = Inl Assertion"
  using assms by (auto simp: get_as_type_def avail_def honest_def assertE_def)

lemma read_nbytes_eq: "read_nbytes = get_as_type"
  by (intro ext) (simp add: read_nbytes_def get_as_type_def)

lemma read_char_ok [wire_simps]:
  "1 \<le> length (avail s) \<Longrightarrow> read_char s = Inr (dec (take 1 (avail s)), adv 1 s)"
  by (simp add: read_char_def get_as_type_ok)

lemma read_short_ok [wire_simps]:
  "2 \<le> length (avail s) \<Longrightarrow> read_short s = Inr (dec (take 2 (avail s)), adv 2 s)"
  by (simp add: read_short_def get_as_type_ok)

lemma read_int_ok [wire_simps]:
  "4 \<le> length (avail s) \<Longrightarrow> read_int s = Inr (dec (take 4 (avail s)), adv 4 s)"
  by (simp add: read_int_def get_as_type_ok)

lemma read_long_ok [wire_simps]:
  "8 \<le> length (avail s) \<Longrightarrow> read_long s = Inr (dec (take 8 (avail s)), adv 8 s)"
  by (simp add: read_long_def get_as_type_ok)

lemma read_nbytes_ok [wire_simps]:
  "0 < n \<Longrightarrow> n \<le> length (avail s) \<Longrightarrow> read_nbytes n s = Inr (take n (avail s), adv n s)"
  by (simp add: read_nbytes_eq get_as_type_ok)

lemma read_nbytes_short: "honest s \<Longrightarrow> length (avail s) < n \<Longrightarrow> read_nbytes n s = Inl Assertion"
  by (simp add: read_nbytes_eq get_as_type_short)

lemma read_int_short: "honest s \<Longrightarrow> length (avail s) < 4 \<Longrightarrow> read_int s = Inl Assertion"
  by (simp add: read_int_def get_as_type_short)

lemma read_short_short: "honest s \<Longrightarrow> length (avail s) < 2 \<Longrightarrow> read_short s = Inl Assertion"
  by (simp add: read_short_def get_as_type_short)

lemma read_char_short: "honest s \<Longrightarrow> length (avail s) < 1 \<Longrightarrow> read_char s = Inl Assertion"
  by (simp add: read_char_def get_as_type_short)

lemmas read_short_input = read_nbytes_short read_int_short read_short_short read_char_short

text \<open>A loop of reads recovers a list of elements laid out one after the other.\<close>

lemma read_array_ok:
  assumes "\<And>x s post. x \<in> set xs \<Longrightarrow> avail s = e x @ post \<Longrightarrow> rd s = Inr (x, adv k s)"
    and "\<And>x. x \<in> set xs \<Longrightarrow> length (e x) = k"
    and "avail s = concat (map e xs) @ post"
  shows "read_array (length xs) rd s = Inr (xs, adv (k * length xs) s)"
  using assms
proof (induction xs arbitrary: s)
  case Nil
  then show ?case by simp
next
  case (Cons x xs)
  have rd: "rd s = Inr (x, adv k s)"
    using Cons.prems(1)[of x s "concat (map e xs) @ post"] Cons.prems(3) by simp
  have "avail (adv k s) = concat (map e xs) @ post"
    using Cons.prems(2)[of x] Cons.prems(3) by simp
  then have "read_array (length xs) rd (adv k s) = Inr (xs, adv (k * length xs) (adv k s))"
    using Cons.prems(1,2) by (intro Cons.IH) auto
  with rd show ?case by simp
qed

section \<open>Writing: what a block of statements emits\<close>

definition room :: "nat \<Rightarrow> streamer \<Rightarrow> bool" where
  "room n s \<longleftrightarrow> scurr s + n \<le> length (smem s) \<and> int (scurr s + n) \<le> ssize s"

definition put :: "bytes \<Rightarrow> streamer \<Rightarrow> streamer" where
  "put bs s = s\<lparr>smem := take (scurr s) (smem s) @ bs @ drop (scurr s + length bs) (smem s),
                scurr := scurr s + length bs\<rparr>"

text \<open>
  A write emits the bytes \<open>bs\<close> when it appends exactly them, without a fault, wherever
  they fit.
\<close>

definition emits :: "(streamer \<Rightarrow> streamer res) \<Rightarrow> bytes \<Rightarrow> bool" where
  "emits w bs \<longleftrightarrow> (\<forall>s. room (length bs) s \<longrightarrow> w s = Inr (put bs s))"

lemma room_put: "room (length bs + n) s \<Longrightarrow> room n (put bs s)"
  by (auto simp: room_def put_def)

lemma put_put:
  assumes "room (length (as @ bs)) s"
  shows "put bs (put as s) = put (as @ bs) s"
proof -
  have "drop (length bs) (drop (scurr s + length as) (smem s)) =
      drop (scurr s + (length as + length bs)) (smem s)"
    by (simp add: add.commute add.left_commute)
  then show ?thesis
    using assms by (simp add: put_def room_def add.assoc)
qed

lemma put_Nil: "put [] s = s"
  by (simp add: put_def)

lemma emits_store [intro]: "emits (store_bytes bs) bs"
  by (simp add: emits_def store_bytes_def put_def room_def)

lemma emits_set_as_type: "emits (set_as_type bs) bs"
  by (simp add: emits_def set_as_type_def store_bytes_def put_def room_def)

lemma emits_write_char [intro, simp]: "emits (write_char v) [v]"
  by (simp add: emits_def write_char_def store_bytes_def put_def room_def)

lemma emits_write_short [intro, simp]: "emits (write_short v) (enc v)"
  and emits_write_int [intro, simp]: "emits (write_int v4) (enc v4)"
  and emits_write_long [intro, simp]: "emits (write_long v8) (enc v8)"
  using emits_set_as_type
  by (simp_all add: emits_def write_short_def write_int_def write_long_def)

lemma emits_write_nbytes [intro]: "length buf = nb \<Longrightarrow> emits (write_nbytes buf nb) buf"
  by (simp add: emits_def write_nbytes_def store_bytes_def put_def room_def)

lemma emits_seqW_Nil [intro]: "emits (seqW []) []"
  by (simp add: emits_def put_Nil)

lemma emits_seqW_Cons:
  assumes "emits w as" "emits (seqW ws) bs"
  shows "emits (seqW (w # ws)) (as @ bs)"
  unfolding emits_def
proof (intro allI impI)
  fix s
  assume r: "room (length (as @ bs)) s"
  then have "room (length as) s" by (auto simp: room_def)
  then have w: "w s = Inr (put as s)" using assms(1) by (simp add: emits_def)
  have "room (length bs) (put as s)" using r by (simp add: room_put)
  then have "seqW ws (put as s) = Inr (put bs (put as s))"
    using assms(2) by (simp add: emits_def)
  with w r show "seqW (w # ws) s = Inr (put (as @ bs) s)"
    by (simp add: put_put)
qed

lemma emits_seqW_append:
  assumes "emits (seqW ws) as" "emits (seqW vs) bs"
  shows "emits (seqW (ws @ vs)) (as @ bs)"
proof -
  have seq: "seqW (ws @ vs) s = bindE (seqW ws s) (seqW vs)" for s
  proof (induction ws arbitrary: s)
    case (Cons w ws)
    then show ?case by (cases "w s") simp_all
  qed simp
  have "emits (seqW [seqW ws, seqW vs]) (as @ bs)"
    using emits_seqW_Cons[OF assms(1) emits_seqW_Cons[OF assms(2) emits_seqW_Nil]] by simp
  moreover have "seqW (ws @ vs) = seqW [seqW ws, seqW vs]"
    by (intro ext) (simp add: seq bindE_def split: sum.splits)
  ultimately show ?thesis by simp
qed

lemma emits_seqW_map:
  "(\<And>x. x \<in> set xs \<Longrightarrow> emits (w x) (e x)) \<Longrightarrow> emits (seqW (map w xs)) (concat (map e xs))"
  by (induction xs) (auto intro: emits_seqW_Cons)

text \<open>Filling a fresh buffer of exactly the emitted length leaves exactly those bytes.\<close>

lemma emits_fills:
  assumes "emits w bs" "length buf = length bs"
  shows "w (initialize buf (int (length bs))) = Inr (put bs (initialize buf (int (length bs))))"
    and "get_buffer (put bs (initialize buf (int (length bs)))) = bs"
  using assms by (auto simp: emits_def room_def initialize_def put_def get_buffer_def)

end
