(* ===== verification/Message_Base.thy ===== *)
theory Message_Base
  imports Streamer Core_Struct
begin

text \<open>
  \<open>core/p2p_protocol.h\<close> and the base class \<open>RsMessage\<close> of \<open>core/message.h\<close> and
  \<open>core/message.cpp\<close>. A packet is \<open>|msg size(UINT32)|msg type(BYTE)|msg content(...)|\<close>,
  the size being that of the whole packet; \<open>packet\<close> is that format.

  A class derived from \<open>RsMessage\<close> overrides \<open>reserve_pack_size\<close> and
  \<open>pack_submsg\<close>, which \<open>pack\<close> calls virtually, and \<open>parse\<close>. The contract between
  them is the locale \<open>packable\<close> (what is written is the tag and the content, and exactly
  the reserved size), the one with the receiving side is \<open>parsable\<close>, and
  \<open>wire_message\<close> is both. The message theories interpret them for every class that keeps
  the contract and prove what the others do instead.

  Memory allocation is taken to succeed, except for a negative size.
\<close>

section \<open>Message types\<close>

datatype P2PMESSAGE =
    CS2SP_REGISTER
  | CS2SP_UPDATE
  | CS2SP_BLOCK
  | CS2SP_MEDIA_TYPE
  | SP2CS_WELCOME
  | SP2CS_MSG
  | SP2TS_REGISTER
  | SP2TS_STATUS
  | SP2TS_RES_LIST
  | SP2TS_GET_SP
  | SP2TS_LOGOUT
  | TS2SP_WELCOME
  | TS2SP_MSG
  | TS2SP_SP_LIST
  | TS2SP_GET_RES_LIST
  | NP2TS_LOGIN
  | NP2TS_REQ_RES
  | NP2TS_REPORT
  | NP2TS_NEED_PEERS
  | NP2TS_RES_INTERVAL
  | NP2TS_LOGOUT
  | TS2NP_WELCOME
  | TS2NP_PEERS
  | TS2NP_RES_INTERVAL
  | TS2NP_MSG
  | NP2NP_HELLO
  | NP2NP_REPORT
  | NP2NP_NEAR_PEERS
  | NP2NP_PUSHLIST
  | NP2NP_RESPONSE
  | NP2NP_MEDIATYPE
  | NP2NP_MSG
  | SP2SP_PUSHLIST
  | SP2SP_RESPONSE
  | SP2SP_MEDIATYPE
  | SP2SP_MSG

fun msg_code :: "P2PMESSAGE \<Rightarrow> u8" where
  "msg_code CS2SP_REGISTER = 0x10"
| "msg_code CS2SP_UPDATE = 0x11"
| "msg_code CS2SP_BLOCK = 0x12"
| "msg_code CS2SP_MEDIA_TYPE = 0x13"
| "msg_code SP2CS_WELCOME = 0x14"
| "msg_code SP2CS_MSG = 0x15"
| "msg_code SP2TS_REGISTER = 0x20"
| "msg_code SP2TS_STATUS = 0x21"
| "msg_code SP2TS_RES_LIST = 0x22"
| "msg_code SP2TS_GET_SP = 0x23"
| "msg_code SP2TS_LOGOUT = 0x24"
| "msg_code TS2SP_WELCOME = 0x25"
| "msg_code TS2SP_MSG = 0x26"
| "msg_code TS2SP_SP_LIST = 0x27"
| "msg_code TS2SP_GET_RES_LIST = 0x28"
| "msg_code NP2TS_LOGIN = 0x30"
| "msg_code NP2TS_REQ_RES = 0x31"
| "msg_code NP2TS_REPORT = 0x32"
| "msg_code NP2TS_NEED_PEERS = 0x33"
| "msg_code NP2TS_RES_INTERVAL = 0x34"
| "msg_code NP2TS_LOGOUT = 0x35"
| "msg_code TS2NP_WELCOME = 0x36"
| "msg_code TS2NP_PEERS = 0x37"
| "msg_code TS2NP_RES_INTERVAL = 0x38"
| "msg_code TS2NP_MSG = 0x39"
| "msg_code NP2NP_HELLO = 0x40"
| "msg_code NP2NP_REPORT = 0x41"
| "msg_code NP2NP_NEAR_PEERS = 0x42"
| "msg_code NP2NP_PUSHLIST = 0x43"
| "msg_code NP2NP_RESPONSE = 0x44"
| "msg_code NP2NP_MEDIATYPE = 0x45"
| "msg_code NP2NP_MSG = 0x46"
| "msg_code SP2SP_PUSHLIST = 0x50"
| "msg_code SP2SP_RESPONSE = 0x51"
| "msg_code SP2SP_MEDIATYPE = 0x52"
| "msg_code SP2SP_MSG = 0x53"

instantiation P2PMESSAGE :: linorder
begin

definition less_eq_P2PMESSAGE :: "P2PMESSAGE \<Rightarrow> P2PMESSAGE \<Rightarrow> bool" where
  "less_eq_P2PMESSAGE a b \<longleftrightarrow> msg_code a \<le> msg_code b"

definition less_P2PMESSAGE :: "P2PMESSAGE \<Rightarrow> P2PMESSAGE \<Rightarrow> bool" where
  "less_P2PMESSAGE a b \<longleftrightarrow> msg_code a < msg_code b"

instance
proof
  fix a b c :: P2PMESSAGE
  show "a < b \<longleftrightarrow> a \<le> b \<and> \<not> b \<le> a" "a \<le> a" "a \<le> b \<Longrightarrow> b \<le> c \<Longrightarrow> a \<le> c" "a \<le> b \<or> b \<le> a"
    by (auto simp: less_eq_P2PMESSAGE_def less_P2PMESSAGE_def)
  show "a = b" if "a \<le> b" "b \<le> a"
  proof -
    have "msg_code a = msg_code b" using that by (simp add: less_eq_P2PMESSAGE_def)
    then have "unat (msg_code a) = unat (msg_code b)" by simp
    then show ?thesis by (cases a) (cases b; simp)+
  qed
qed

end

lemma msg_code_inj: "msg_code a = msg_code b \<longleftrightarrow> a = b"
  by (metis less_eq_P2PMESSAGE_def order.antisym order.refl)

section \<open>The base class\<close>

definition packet :: "P2PMESSAGE \<Rightarrow> bytes \<Rightarrow> bytes" where
  "packet t content = enc (word_of_nat (5 + length content) :: u32) @ msg_code t # content"

lemma length_packet [simp, wire_simps]: "length (packet t content) = 5 + length content"
  by (simp add: packet_def)

definition RsMessage_parse :: "streamer \<Rightarrow> streamer res" where
  "RsMessage_parse s = Inr s"

definition RsMessage_pack_submsg :: "streamer \<Rightarrow> streamer res" where
  "RsMessage_pack_submsg s = Inr s"

definition RsMessage_reserve_pack_size :: int where
  "RsMessage_reserve_pack_size = 4 + 1"

text \<open>
  \<open>pack\<close>, with the two virtual calls as arguments. The bytes of the fresh buffer are
  indeterminate: \<open>junk\<close>.
\<close>

definition RsMessage_pack :: "(nat \<Rightarrow> u8) \<Rightarrow> int \<Rightarrow> (streamer \<Rightarrow> streamer res) \<Rightarrow> (bytes \<times> int) res" where
  "RsMessage_pack junk reserve_pack_size pack_submsg =
     (let size = reserve_pack_size in
      bindE (guardE Bad_Alloc (0 \<le> size)) (\<lambda>_.
      let buffer = map junk [0..<nat size] in
      bindE (write_int (word_of_int size) (initialize buffer size)) (\<lambda>streamer.
      bindE (pack_submsg streamer) (\<lambda>streamer.
      Inr (get_buffer streamer, sint (get_size streamer))))))"

text \<open>
  Writing the first \<open>n\<close> elements of an array; an array of fewer elements is read past
  its end.
\<close>

fun write_array :: "nat \<Rightarrow> ('a \<Rightarrow> streamer \<Rightarrow> streamer res) \<Rightarrow> 'a list \<Rightarrow> streamer \<Rightarrow> streamer res" where
  "write_array 0 wr xs s = Inr s"
| "write_array (Suc n) wr [] s = Inl Out_Of_Bounds"
| "write_array (Suc n) wr (x # xs) s = bindE (wr x s) (write_array n wr xs)"

lemma write_array_seqW: "n \<le> length xs \<Longrightarrow> write_array n wr xs = seqW (map wr (take n xs))"
proof (induction n arbitrary: xs)
  case 0
  then show ?case by (intro ext) simp
next
  case (Suc n)
  then obtain y ys where "xs = y # ys" by (cases xs) auto
  with Suc show ?case by (intro ext) (simp add: bindE_def split: sum.splits)
qed

lemma write_array_short: "length xs < n \<Longrightarrow> \<exists>e. write_array n wr xs s = Inl e"
proof (induction n arbitrary: xs s)
  case (Suc n)
  then show ?case by (cases xs; cases "wr (hd xs) s") auto
qed simp

lemma emits_write_array:
  "length xs = n \<Longrightarrow> (\<And>x. x \<in> set xs \<Longrightarrow> emits (wr x) (e x)) \<Longrightarrow>
   emits (write_array n wr xs) (concat (map e xs))"
  by (simp add: write_array_seqW emits_seqW_map)

section \<open>The contract of a message class\<close>

text \<open>The state of the buffer after the size has been written.\<close>

lemma pack_prefix:
  assumes "0 \<le> sz" "sz < 2 ^ 31" "4 \<le> sz"
  shows "RsMessage_pack junk sz sub =
    bindE (sub (put (enc (word_of_int sz :: u32)) (initialize (map junk [0..<nat sz]) sz)))
      (\<lambda>s. Inr (get_buffer s, sint (get_size s)))"
proof -
  have "room (length (enc (word_of_int sz :: u32))) (initialize (map junk [0..<nat sz]) sz)"
    using assms by (simp add: room_def initialize_def)
  then have "write_int (word_of_int sz) (initialize (map junk [0..<nat sz]) sz) =
      Inr (put (enc (word_of_int sz :: u32)) (initialize (map junk [0..<nat sz]) sz))"
    using emits_write_int[of "word_of_int sz"] unfolding emits_def by blast
  then show ?thesis using assms by (simp add: RsMessage_pack_def Let_def)
qed

locale packable =
  fixes wf :: "'m \<Rightarrow> bool"
    and reserve :: "'m \<Rightarrow> int"
    and submsg :: "'m \<Rightarrow> streamer \<Rightarrow> streamer res"
    and tag :: P2PMESSAGE
    and content :: "'m \<Rightarrow> bytes"
  assumes submsg_emits: "wf m \<Longrightarrow> emits (submsg m) (msg_code tag # content m)"
    and reserve_exact: "wf m \<Longrightarrow> reserve m = 5 + int (length (content m))"
    and reserve_fits: "wf m \<Longrightarrow> reserve m < 2 ^ 31"
begin

lemma pack_packet:
  assumes "wf m"
  shows "RsMessage_pack junk (reserve m) (submsg m) = Inr (packet tag (content m), reserve m)"
proof -
  let ?n = "5 + length (content m)"
  let ?size = "word_of_int (reserve m) :: u32"
  let ?buf = "map junk [0..<nat (reserve m)]"
  let ?s = "initialize ?buf (reserve m)"
  have n: "reserve m = int ?n" "int ?n < 2 ^ 31"
    using reserve_exact[OF assms] reserve_fits[OF assms] by simp_all
  have all: "room (length (enc ?size @ (msg_code tag # content m))) ?s"
    using n by (simp add: room_def initialize_def)
  then have "submsg m (put (enc ?size) ?s) = Inr (put (enc ?size @ (msg_code tag # content m)) ?s)"
    using submsg_emits[OF assms] by (simp add: emits_def room_put put_put)
  moreover have "get_buffer (put (enc ?size @ (msg_code tag # content m)) ?s) = packet tag (content m)"
    using n by (simp add: get_buffer_def put_def initialize_def packet_def)
  moreover have "sint (get_size (put bs ?s)) = reserve m" for bs
  proof -
    have "ssize (put bs ?s) = reserve m" by (simp add: put_def initialize_def)
    moreover have "sint (word_of_int (reserve m) :: u32) = reserve m" using n by (intro sint_of_int32) auto
    ultimately show ?thesis unfolding get_size_def by (simp only:)
  qed
  ultimately show ?thesis
    using n pack_prefix[of "reserve m"] by simp
qed

end

locale parsable =
  fixes wf :: "'m \<Rightarrow> bool"
    and parse :: "streamer \<Rightarrow> ('m \<times> streamer) res"
    and content :: "'m \<Rightarrow> bytes"
  assumes parse_content: "wf m \<Longrightarrow> avail s = content m @ post \<Longrightarrow> parse s = Inr (m, adv (length (content m)) s)"

text \<open>
  Both ends together. \<open>receive\<close> is how the receiving side takes a packet apart: the size
  from the first four bytes, the type from the fifth, and a streamer over the rest, its size
  taken from the packet.
\<close>

definition receive :: "(streamer \<Rightarrow> ('m \<times> streamer) res) \<Rightarrow> bytes \<Rightarrow> (u8 \<times> 'm) res" where
  "receive parse buf =
     bindE (guardE Out_Of_Bounds (5 \<le> length buf)) (\<lambda>_.
     let msg_size = sint (dec (take 4 buf) :: u32); msg_type = buf ! 4
     in bindE (parse (initialize (drop 5 buf) (msg_size - 5))) (\<lambda>(m, _). Inr (msg_type, m)))"

lemma packet_head:
  "take 4 (packet t content @ rest) = enc (word_of_nat (5 + length content) :: u32)"
  "drop 5 (packet t content @ rest) = content @ rest"
  "(packet t content @ rest) ! 4 = msg_code t" "5 \<le> length (packet t content @ rest)"
  by (simp_all add: packet_def nth_append)

lemma packet_size:
  assumes "5 + int (length content) < 2 ^ 31"
  shows "sint (dec (enc (word_of_nat (5 + length content) :: u32)) :: u32) = 5 + int (length content)"
proof -
  have "(word_of_nat (5 + length content) :: u32) = word_of_int (5 + int (length content))" by simp
  then show ?thesis using assms by (simp only: sint_of_int32 dec_enc32)
qed

text \<open>
  A message is delivered when packing it gives its packet in the documented format and
  taking that packet apart, whatever follows it in the receive buffer, gives back its type
  and the message.
\<close>

definition delivered ::
  "P2PMESSAGE \<Rightarrow> ('m \<Rightarrow> bytes) \<Rightarrow> ('m \<Rightarrow> int) \<Rightarrow> ('m \<Rightarrow> streamer \<Rightarrow> streamer res) \<Rightarrow>
   (streamer \<Rightarrow> ('m \<times> streamer) res) \<Rightarrow> 'm \<Rightarrow> bool" where
  "delivered tag content reserve submsg parse m \<longleftrightarrow>
     (\<forall>junk rest. \<exists>nb. RsMessage_pack junk (reserve m) (submsg m) = Inr (packet tag (content m), nb) \<and>
        nb = int (length (packet tag (content m))) \<and>
        receive parse (packet tag (content m) @ rest) = Inr (msg_code tag, m))"

locale wire_message = packable wf reserve submsg tag content + parsable wf parse content
  for wf :: "'m \<Rightarrow> bool"
    and reserve :: "'m \<Rightarrow> int"
    and submsg :: "'m \<Rightarrow> streamer \<Rightarrow> streamer res"
    and tag :: P2PMESSAGE
    and content :: "'m \<Rightarrow> bytes"
    and parse :: "streamer \<Rightarrow> ('m \<times> streamer) res"
begin

lemma roundtrip:
  assumes "wf m"
  shows "delivered tag content reserve submsg parse m"
proof -
  have n: "5 + int (length (content m)) < 2 ^ 31"
    using reserve_exact[OF assms] reserve_fits[OF assms] by simp
  have size: "sint (dec (enc (word_of_nat (5 + length (content m)) :: u32)) :: u32) = 5 + int (length (content m))"
    using n by (rule packet_size)
  have "parse (initialize (content m @ rest) (int (length (content m)))) =
      Inr (m, adv (length (content m)) (initialize (content m @ rest) (int (length (content m)))))" for rest
    using assms by (intro parse_content[where post = "[]"]) simp_all
  then have "receive parse (packet tag (content m) @ rest) = Inr (msg_code tag, m)" for rest
    unfolding receive_def packet_head size guardE_True[OF packet_head(4)] by (simp add: Let_def)
  then show ?thesis
    unfolding delivered_def pack_packet[OF assms] using reserve_exact[OF assms] by simp
qed

end

lemma seqW_append: "seqW (ws @ vs) s = bindE (seqW ws s) (seqW vs)"
proof (induction ws arbitrary: s)
  case (Cons w ws)
  then show ?case by (cases "w s") simp_all
qed simp

text \<open>A statement that always faults makes the block, and the packing, fault.\<close>

lemma seqW_fails:
  "w \<in> set ws \<Longrightarrow> (\<And>s. \<exists>e. w s = Inl e) \<Longrightarrow> \<exists>e. seqW ws s = Inl e"
proof (induction ws arbitrary: s)
  case (Cons v ws)
  show ?case
  proof (cases "v s")
    case (Inr s')
    then have "v \<noteq> w" using Cons.prems(2)[of s] by auto
    then show ?thesis using Inr Cons.IH[of s'] Cons.prems by auto
  qed simp
qed simp

lemma pack_fails:
  assumes "\<And>s. \<exists>e. sub s = Inl e"
  shows "\<exists>e. RsMessage_pack junk sz sub = Inl e"
proof (cases "RsMessage_pack junk sz sub")
  case (Inr r)
  then obtain s where "sub s = Inr s \<or> (\<exists>s'. sub s = Inr s')"
    by (auto simp: RsMessage_pack_def Let_def res_invert)
  then show ?thesis using assms[of s] by auto
qed simp

text \<open>Reading off what a block of write statements emits, and where a read loop ends.\<close>

lemma emits_tag: "emits (seqW ws) bs \<Longrightarrow> emits (seqW (write_char t # ws)) (t # bs)"
  using emits_seqW_Cons[OF emits_write_char] by fastforce

lemma emits_last: "emits w bs \<Longrightarrow> emits (seqW [w]) bs"
  using emits_seqW_Cons[OF _ emits_seqW_Nil] by fastforce

lemma emits_next: "emits w as \<Longrightarrow> emits (seqW (w' # ws)) bs \<Longrightarrow> emits (seqW (w # w' # ws)) (as @ bs)"
  by (rule emits_seqW_Cons)

lemma emits_id: "emits Inr []"
  by (simp add: emits_def put_Nil)

lemmas emits_intros = emits_tag emits_last emits_next emits_write_char emits_write_short
  emits_write_int emits_write_nbytes emits_write_array

definition read_object :: "nat \<Rightarrow> (bytes \<Rightarrow> 'a) \<Rightarrow> streamer \<Rightarrow> ('a \<times> streamer) res" where
  "read_object n of_bytes s = bindE (read_nbytes n s) (\<lambda>(bs, s). Inr (of_bytes bs, s))"

lemma read_objects_ok:
  assumes "avail s = concat (map e xs) @ post" "0 < k"
    and "\<And>x. length (e x) = k" "\<And>x. of_bytes (e x) = x"
  shows "read_array (length xs) (read_object k of_bytes) s = Inr (xs, adv (k * length xs) s)"
proof (rule read_array_ok[where e = e])
  show "read_object k of_bytes s' = Inr (x, adv k s')" if "avail s' = e x @ post'" for x s' post'
    using that assms(2-4) by (simp add: read_object_def read_nbytes_ok)
qed (use assms in simp_all)

section \<open>The size of a packet\<close>

text \<open>Writing changes the bytes of the buffer, not its length nor the size the cursor was given.\<close>

definition keeps_length :: "(streamer \<Rightarrow> streamer res) \<Rightarrow> bool" where
  "keeps_length w \<longleftrightarrow> (\<forall>s s'. w s = Inr s' \<longrightarrow> length (smem s') = length (smem s) \<and> ssize s' = ssize s)"

lemma keeps_store: "keeps_length (store_bytes bs)"
  by (auto simp: keeps_length_def store_bytes_def res_invert)

lemma keeps_Inr: "keeps_length Inr"
  by (simp add: keeps_length_def)

lemma keeps_write:
  "keeps_length (write_char c)" "keeps_length (write_short i)" "keeps_length (write_int j)" "keeps_length (write_long l)"
  "keeps_length (write_nbytes bs n)"
  using keeps_store
  by (auto simp: keeps_length_def write_char_def write_short_def write_int_def write_long_def write_nbytes_def
      set_as_type_def res_invert)

lemma keeps_bind: "keeps_length w \<Longrightarrow> keeps_length w' \<Longrightarrow> keeps_length (\<lambda>s. bindE (w s) w')"
  by (fastforce simp: keeps_length_def res_invert)

lemma keeps_seqW: "list_all keeps_length ws \<Longrightarrow> keeps_length (seqW ws)"
proof (induction ws)
  case (Cons w ws)
  then have "keeps_length (\<lambda>s. bindE (w s) (seqW ws))" by (intro keeps_bind) auto
  then show ?case by (simp add: keeps_length_def)
qed (simp add: keeps_length_def)

lemma keeps_if: "keeps_length w \<Longrightarrow> keeps_length w' \<Longrightarrow> keeps_length (if b then w else w')"
  by simp

lemma keeps_Nil: "list_all keeps_length []"
  by simp

lemma keeps_Cons: "keeps_length w \<Longrightarrow> list_all keeps_length ws \<Longrightarrow> list_all keeps_length (w # ws)"
  by simp

lemma keeps_write_array:
  assumes "\<And>x. keeps_length (wr x)"
  shows "keeps_length (write_array n wr xs)"
proof (induction n arbitrary: xs)
  case (Suc n)
  show ?case
  proof (cases xs)
    case (Cons x ys)
    have "keeps_length (\<lambda>s. bindE (wr x s) (write_array n wr ys))" using assms Suc by (intro keeps_bind)
    then show ?thesis by (simp add: Cons keeps_length_def)
  qed (simp add: keeps_length_def)
qed (simp add: keeps_length_def)

lemmas keeps_intros = keeps_seqW keeps_Nil keeps_Cons keeps_if keeps_Inr keeps_write keeps_write_array

lemma pack_length:
  assumes "keeps_length submsg" "RsMessage_pack junk r submsg = Inr (payload, nb)"
  shows "length payload = nat r" "nb = 0 \<longleftrightarrow> length payload mod 2 ^ 32 = 0"
proof -
  have r: "length payload = nat r" "0 \<le> r" "nb = sint (word_of_int r :: u32)"
    using assms(2) keeps_write(3)[of "word_of_int r"] assms(1)
    by (auto simp: RsMessage_pack_def Let_def res_invert keeps_length_def get_buffer_def get_size_def initialize_def)
  then show "length payload = nat r" by simp
  have "nb = 0 \<longleftrightarrow> (word_of_int r :: u32) = 0" unfolding r(3) by (simp add: signed_eq_0_iff)
  also have "\<dots> \<longleftrightarrow> r mod 2 ^ 32 = 0" by (simp add: word_of_int_eq_0_iff dvd_eq_mod_eq_0)
  also have "\<dots> \<longleftrightarrow> nat r mod 2 ^ 32 = 0" using r(2) nat_mod_distrib[of r "2 ^ 32"] by (auto simp: nat_eq_iff)
  finally show "nb = 0 \<longleftrightarrow> length payload mod 2 ^ 32 = 0" unfolding r(1) .
qed

end
