(* ===== verification/Message_Stream.thy ===== *)
theory Message_Stream
  imports Rs_Buffer Message_Base
begin

text \<open>
  How a connection of a super peer takes one message off its stream: the first half of
  \<open>RsCsSpProtocol::loop\<close> and of \<open>RsNpSpProtocol::loop\<close>, which are the same. The result of the
  second \<open>fill_buffer\<close> is ignored by the code.

  A pointer into the receive buffer is its offset; \<open>peek\<close> reads through it.
\<close>

definition peek :: "bytes \<Rightarrow> int \<Rightarrow> nat \<Rightarrow> bytes res" where
  "peek mem p n = bindE (guardE Out_Of_Bounds (0 \<le> p \<and> p + int n \<le> int (length mem))) (\<lambda>_.
     Inr (take n (drop (nat p) mem)))"

definition peek_int :: "bytes \<Rightarrow> int \<Rightarrow> int res" where
  "peek_int mem p = bindE (peek mem p 4) (\<lambda>bs. Inr (sint (dec bs :: u32)))"

definition peek_char :: "bytes \<Rightarrow> int \<Rightarrow> u8 res" where
  "peek_char mem p = bindE (peek mem p 1) (\<lambda>bs. Inr (hd bs))"

text \<open>The code, and for \<open>ERROR_SUCCESS\<close> the offset of the type byte and \<open>msg_size\<close>.\<close>

definition next_message :: "(nat \<Rightarrow> u8) \<Rightarrow> RsBuffer \<Rightarrow> RsSocket \<Rightarrow> arrival list \<Rightarrow>
    (int \<times> (int \<times> int) \<times> RsBuffer \<times> RsSocket \<times> arrival list) res option" where
  "next_message junk b io conn =
     bindO (fill_buffer junk 4 b io conn) (\<lambda>(ret, b, io, conn).
     if ret \<noteq> 0 then Some (Inr (ret, (0, 0), b, io, conn))
     else
       let (temp, b) = take_nbytes 4 b
       in bindO (Some (peek_int (rb_mem b) temp)) (\<lambda>msg_size.
       bindO (Some (guardE Signed_Overflow (- int_max \<le> msg_size - 3))) (\<lambda>_.
       bindO (fill_buffer junk (msg_size - 4) b io conn) (\<lambda>(_, b, io, conn).
       let (temp, b) = take_nbytes (msg_size - 4) b
       in Some (Inr (0, (temp, msg_size), b, io, conn))))))"

section \<open>Reading from the unread bytes\<close>

lemma peek_unread:
  assumes "buffer_ok b" "n \<le> length (unread b)"
  shows "peek (rb_mem b) (rb_curr b) n = Inr (take n (unread b))"
proof -
  have "rb_curr b + int n \<le> int (length (rb_mem b))" "n \<le> nat (rb_end b - rb_curr b)" "0 \<le> rb_curr b"
    using assms length_unread[OF assms(1)] by (auto simp: buffer_ok_def current_size_def)
  then show ?thesis by (simp add: peek_def unread_def min_def)
qed

lemma peek_later:
  assumes "peek mem p n = Inr bs" "k + m \<le> n"
  shows "peek mem (p + int k) m = Inr (take m (drop k bs))"
  using assms by (auto simp: peek_def res_invert nat_add_distrib drop_take min_def add.commute)

lemma take_nbytes_ok:
  assumes "buffer_ok b" "n \<le> length (unread b)"
  shows "buffer_ok (b\<lparr>rb_curr := rb_curr b + int n\<rparr>)" "unread (b\<lparr>rb_curr := rb_curr b + int n\<rparr>) = drop n (unread b)"
proof -
  have n: "n \<le> nat (rb_end b - rb_curr b)" "0 \<le> rb_curr b" "rb_curr b \<le> rb_end b"
    using assms length_unread[OF assms(1)] by (auto simp: buffer_ok_def current_size_def)
  then show "buffer_ok (b\<lparr>rb_curr := rb_curr b + int n\<rparr>)" using assms(1) by (simp add: buffer_ok_def)
  have "nat (rb_end b - (rb_curr b + int n)) = nat (rb_end b - rb_curr b) - n" "nat (rb_curr b + int n) = n + nat (rb_curr b)"
    using n by auto
  then show "unread (b\<lparr>rb_curr := rb_curr b + int n\<rparr>) = drop n (unread b)"
    by (simp add: unread_def drop_take)
qed

text \<open>
  One message, with what the second call of \<open>fill_buffer\<close> needs: room behind the pointers for
  what is missing when exactly the four bytes of the size are there.
\<close>

lemma next_message_takes_room:
  assumes "buffer_ok b" "conn_ok conn" "\<forall>x\<in>set conn. \<exists>bs. x = Segment bs"
    and "unread b @ pending conn = packet tag c @ rest"
    and large: "5 + int (length c) \<le> int (length (rb_mem b))"
    and first: "unread b = [] \<longrightarrow> rb_end b + 4 \<le> int (length (rb_mem b))"
    and second: "\<forall>g \<le> length (pending conn). length (unread b) + g = 4 \<longrightarrow>
      rb_end b + int g + 1 + int (length c) \<le> int (length (rb_mem b))"
  shows "\<exists>p b' io' conn'. next_message junk b io conn = Some (Inr (0, (p, 5 + int (length c)), b', io', conn')) \<and>
    peek (rb_mem b') p (Suc (length c)) = Inr (msg_code tag # c) \<and>
    buffer_ok b' \<and> unread b' @ pending conn' = rest \<and> conn_ok conn' \<and> (\<forall>x\<in>set conn'. \<exists>bs. x = Segment bs) \<and>
    rb_end b' + int (length (pending conn')) \<le> rb_end b + int (length (pending conn)) \<and>
    length (rb_mem b') = length (rb_mem b)"
proof -
  let ?k = "length c"
  have size: "int (length (rb_mem b)) \<le> MAX_SOCKET_BUFFER" "0 \<le> rb_end b" using assms(1) by (simp_all add: buffer_ok_def)
  have small: "5 + int ?k < 2 ^ 31" using size large by simp
  have stream: "length (unread b) + length (pending conn) = 5 + ?k + length rest"
    using arg_cong[OF assms(4), of length] by (simp add: packet_def)
  obtain b1 io1 conn1 got1 where f1: "fill_buffer junk 4 b io conn = Some (Inr (0, b1, io1, conn1))"
    "buffer_ok b1" "conn_ok conn1" "\<forall>x\<in>set conn1. \<exists>bs. x = Segment bs" "unread b1 = unread b @ got1"
    "pending conn = got1 @ pending conn1" "rb_end b1 \<le> rb_end b + int (length got1)"
    "length (rb_mem b1) = length (rb_mem b)" "4 \<le> int (length (unread b1))"
    using fill_buffer_room[OF assms(1,2) _ assms(3), of 4 junk io] stream large first by auto
  define b1' where "b1' = b1\<lparr>rb_curr := rb_curr b1 + int 4\<rparr>"
  have b1': "buffer_ok b1'" "unread b1' = drop 4 (unread b1)"
    unfolding b1'_def using take_nbytes_ok[OF f1(2), of 4] f1(9) by simp_all
  have s1: "unread b1 @ pending conn1 = packet tag c @ rest" using f1(5,6) assms(4) by simp
  then have "take 4 (unread b1) = take 4 (packet tag c @ rest)" using f1(9) by (metis append.right_neutral add_0_right diff_is_0_eq' of_nat_le_iff of_nat_numeral take_append take_0)
  then have head: "peek_int (rb_mem b1) (rb_curr b1) = Inr (5 + int ?k)"
    using peek_unread[OF f1(2), of 4] f1(9) packet_size[OF small] packet_head(1)[of tag c "[]"]
    by (simp add: peek_int_def)
  have s1': "unread b1' @ pending conn1 = msg_code tag # c @ rest"
    using s1 f1(9) by (simp add: b1'(2) packet_def flip: append_assoc) (simp add: append_eq_append_conv_if split: if_splits)
  have n2: "int (length (unread b1')) + int (length (pending conn1)) = 1 + int ?k + int (length rest)"
    using arg_cong[OF s1', of length] by simp
  have room: "unread b1' = [] \<longrightarrow> rb_end b1' + (1 + int ?k) \<le> int (length (rb_mem b1'))"
  proof
    assume "unread b1' = []"
    then have "length (unread b) + length got1 = 4" "length got1 \<le> length (pending conn)"
      using b1'(2) f1(5,6,9) by (simp_all, linarith)
    with second have "rb_end b + int (length got1) + 1 + int ?k \<le> int (length (rb_mem b))" by blast
    then show "rb_end b1' + (1 + int ?k) \<le> int (length (rb_mem b1'))"
      using f1(7,8) by (simp add: b1'_def)
  qed
  have len: "1 + int ?k \<le> int (length (rb_mem b1'))" using large f1(8) by (simp add: b1'_def)
  obtain b2 io2 conn2 got2 where f2: "fill_buffer junk (1 + int ?k) b1' io1 conn1 = Some (Inr (0, b2, io2, conn2))"
    "buffer_ok b2" "unread b2 = unread b1' @ got2" "pending conn1 = got2 @ pending conn2"
    "1 + int ?k \<le> int (length (unread b2))" "conn_ok conn2" "\<forall>x\<in>set conn2. \<exists>bs. x = Segment bs"
    "rb_end b2 \<le> rb_end b1' + int (length got2)" "length (rb_mem b2) = length (rb_mem b1')"
    using fill_buffer_room[OF b1'(1) f1(3) _ f1(4), of "1 + int ?k" junk io1] n2 room len by auto
  define b2' where "b2' = b2\<lparr>rb_curr := rb_curr b2 + int (Suc ?k)\<rparr>"
  have s2: "unread b2 @ pending conn2 = msg_code tag # c @ rest" using f2(3,4) s1' by simp
  then have t2: "take (Suc ?k) (unread b2) = msg_code tag # c"
  proof -
    have "take (Suc ?k) (unread b2 @ pending conn2) = msg_code tag # c" unfolding s2 by simp
    then show ?thesis using f2(5) by simp
  qed
  have "drop (Suc ?k) (unread b2 @ pending conn2) = rest" unfolding s2 by simp
  then have "buffer_ok b2'" "unread b2' @ pending conn2 = rest"
    unfolding b2'_def using take_nbytes_ok[OF f2(2), of "Suc ?k"] f2(5) by simp_all
  moreover have "peek (rb_mem b2') (rb_curr b2) (Suc ?k) = Inr (msg_code tag # c)"
    using peek_unread[OF f2(2), of "Suc ?k"] f2(5) t2 by (simp add: b2'_def)
  moreover have "next_message junk b io conn = Some (Inr (0, (rb_curr b2, 5 + int ?k), b2', io2, conn2))"
    using f1(1) head f2(1) small by (simp add: next_message_def take_nbytes_def b1'_def b2'_def Let_def)
  moreover have "rb_end b2' + int (length (pending conn2)) \<le> rb_end b + int (length (pending conn))"
    "length (rb_mem b2') = length (rb_mem b)"
    using f1(6,7,8) f2(4,8,9) by (simp_all add: b1'_def b2'_def)
  ultimately show ?thesis using f2(6,7) by blast
qed

text \<open>Everything still to come fits behind the pointers: so it is after the message.\<close>

definition rest_fits :: "RsBuffer \<Rightarrow> arrival list \<Rightarrow> bool" where
  "rest_fits b conn \<longleftrightarrow> buffer_ok b \<and> conn_ok conn \<and> (\<forall>x\<in>set conn. \<exists>bs. x = Segment bs) \<and>
     rb_end b + int (length (pending conn)) \<le> int (length (rb_mem b))"

lemma unread_before_end: "buffer_ok b \<Longrightarrow> int (length (unread b)) \<le> rb_end b"
  using length_unread[of b] by (simp add: buffer_ok_def current_size_def)

lemma next_message_fits:
  assumes "rest_fits b conn" "unread b @ pending conn = packet tag c @ rest"
  shows "\<exists>p b' io' conn'. next_message junk b io conn = Some (Inr (0, (p, 5 + int (length c)), b', io', conn')) \<and>
    peek (rb_mem b') p (Suc (length c)) = Inr (msg_code tag # c) \<and>
    rest_fits b' conn' \<and> unread b' @ pending conn' = rest"
proof -
  have b: "buffer_ok b" "conn_ok conn" "\<forall>x\<in>set conn. \<exists>bs. x = Segment bs"
    "rb_end b + int (length (pending conn)) \<le> int (length (rb_mem b))" using assms(1) by (simp_all add: rest_fits_def)
  have stream: "length (unread b) + length (pending conn) = 5 + length c + length rest"
    using arg_cong[OF assms(2), of length] by (simp add: packet_def)
  show ?thesis
    using next_message_takes_room[OF b(1,2,3) assms(2), of junk io] stream b(4) unread_before_end[OF b(1)]
    unfolding rest_fits_def by fastforce
qed

lemma next_message_takes:
  assumes "buffer_ok b" "conn_ok conn" "\<forall>x\<in>set conn. \<exists>bs. x = Segment bs"
    and "unread b @ pending conn = packet tag c @ rest"
    and "rb_end b + 5 + int (length c) \<le> int (length (rb_mem b))"
  shows "\<exists>p b' io' conn'. next_message junk b io conn = Some (Inr (0, (p, 5 + int (length c)), b', io', conn')) \<and>
    peek (rb_mem b') p (Suc (length c)) = Inr (msg_code tag # c) \<and>
    buffer_ok b' \<and> unread b' @ pending conn' = rest"
proof -
  have "0 \<le> rb_end b" using assms(1) by (simp add: buffer_ok_def)
  then show ?thesis
    using next_message_takes_room[OF assms(1,2,3,4), of junk io] assms(5) by fastforce
qed

text \<open>
  C14. Messages are framed by their size: with room for it behind the pointers, a message
  whose bytes are on their way, however the network cuts them, is taken off the stream
  whole: the pointer handed on points at its type byte and content, and the stream goes on
  with the byte after it.
\<close>

theorem next_message_framed:
  assumes "buffer_ok b" "conn_ok conn" "\<forall>x\<in>set conn. \<exists>bs. x = Segment bs"
    and "unread b @ pending conn = packet tag c @ rest"
    and "rb_end b + 5 + int (length c) \<le> int (length (rb_mem b))"
  shows "\<exists>p b' io' conn'. next_message junk b io conn = Some (Inr (0, (p, 5 + int (length c)), b', io', conn')) \<and>
    peek (rb_mem b') p (Suc (length c)) = Inr (msg_code tag # c) \<and>
    buffer_ok b' \<and> unread b' @ pending conn' = rest"
  using assms by (rule next_message_takes)

lemma RsBuffer_new_ok: "buffer_ok (RsBuffer_new junk)" "unread (RsBuffer_new junk) = []" "rb_end (RsBuffer_new junk) = 0"
    "length (rb_mem (RsBuffer_new junk)) = DEFAULT_RECV_BUFFER_SIZE"
  by (simp_all add: RsBuffer_new_def buffer_ok_def unread_def)

text \<open>A message of six bytes that arrives in two pieces, with the first byte of the next one.\<close>

lemma next_message_framed_witness:
  "\<exists>p b' io' conn'. next_message (\<lambda>_. 0) (RsBuffer_new (\<lambda>_. 0)) RsSocket_new [Segment [6, 0, 0], Segment [0, 18, 42, 9]] =
     Some (Inr (0, (p, 6), b', io', conn')) \<and> peek (rb_mem b') p 2 = Inr [18, 42] \<and> unread b' @ pending conn' = [9]"
proof -
  let ?conn = "[Segment [6, 0, 0], Segment [0, 18, 42, 9]]"
  have p: "packet CS2SP_BLOCK [42] @ [9] = [6, 0, 0, 0, 18, 42, 9]" by code_simp
  have "unread (RsBuffer_new (\<lambda>_. 0)) @ pending ?conn = packet CS2SP_BLOCK [42] @ [9]"
    by (simp add: p RsBuffer_new_ok(2))
  moreover have "conn_ok ?conn" "\<forall>x\<in>set ?conn. \<exists>bs. x = Segment bs" by (simp_all add: conn_ok_def)
  ultimately show ?thesis
    using next_message_framed[OF RsBuffer_new_ok(1), of ?conn "\<lambda>_. 0" CS2SP_BLOCK "[42]" "[9]" "\<lambda>_. 0" RsSocket_new]
    by (simp add: RsBuffer_new_ok numeral_2_eq_2) blast
qed

end
