(* ===== verification/Buffer_Queue.thy ===== *)
theory Buffer_Queue
  imports Core_Struct
begin

text \<open>
  \<open>protocol/common/buffer_queue.h\<close> and \<open>buffer_queue.cpp\<close>: the ring of media blocks of
  one channel. \<open>queue_buffer\<close> and \<open>dequeue_buffer\<close> return pointers to elements of
  \<open>buffer_vector\<close> that the callers write and read through: such a pointer is the index of
  the element, the null pointer \<open>None\<close>. The \<open>int\<close> members are mathematical integers, and
  an addition that leaves the range of \<open>int\<close> is the fault \<open>Signed_Overflow\<close>.

  The specification: after the blocks with ids 0, 1, \<dots>, k - 1 have been queued in this
  order, the ring of N buffers serves exactly the last N of them.
\<close>

section \<open>The object and its operations\<close>

datatype BUFFER_FLAG = BUFFER_WRITING | BUFFER_READING | BUFFER_AVAILABLE

record media_buffer =
  mb_flag :: BUFFER_FLAG
  mb_block_id :: int
  mb_block_size :: int
  mb_buffer :: bytes

text \<open>No constructor sets \<open>media_header\<close>: \<open>None\<close> until \<open>set_header\<close>.\<close>

record RsBufferQueue =
  bq_media_header :: "(bytes \<times> int) option"
  bq_create_time :: int
  bq_source_hash :: MD5_Hash_Str
  bq_source_name :: bytes
  bq_is_source :: bool
  bq_queue_index :: int
  bq_dequeue_index :: int
  bq_buffer_number :: int
  bq_min_block_id :: int
  bq_min_block_index :: int
  bq_full_flag :: bool
  bq_vector :: "media_buffer list"

definition RsBufferQueue_new :: "int \<Rightarrow> MD5_Hash_Str \<Rightarrow> bytes \<Rightarrow> bool \<Rightarrow> RsBufferQueue" where
  "RsBufferQueue_new now hash name source = \<lparr>bq_media_header = None, bq_create_time = now,
     bq_source_hash = hash, bq_source_name = name, bq_is_source = source, bq_queue_index = 0,
     bq_dequeue_index = 0, bq_buffer_number = 0, bq_min_block_id = 0, bq_min_block_index = 0,
     bq_full_flag = False, bq_vector = []\<rparr>"

text \<open>The bytes of a new buffer are indeterminate: \<open>junk i\<close> for the \<open>i\<close>-th.\<close>

definition reserve_buffer :: "(nat \<Rightarrow> nat \<Rightarrow> u8) \<Rightarrow> int \<Rightarrow> RsBufferQueue \<Rightarrow> RsBufferQueue" where
  "reserve_buffer junk n q =
     q\<lparr>bq_buffer_number := n,
       bq_vector := bq_vector q @ map (\<lambda>i. \<lparr>mb_flag = BUFFER_AVAILABLE, mb_block_id = 0,
         mb_block_size = int MEDIA_BLOCK_SIZE, mb_buffer = map (junk i) [0..<MEDIA_BLOCK_SIZE]\<rparr>) [0..<nat n]\<rparr>"

definition at_vector :: "int \<Rightarrow> RsBufferQueue \<Rightarrow> nat res" where
  "at_vector i q = bindE (guardE Out_Of_Bounds (0 \<le> i \<and> i < int (length (bq_vector q)))) (\<lambda>_. Inr (nat i))"

definition queue_buffer :: "RsBufferQueue \<Rightarrow> (nat \<times> RsBufferQueue) res" where
  "queue_buffer q =
     bindE (at_vector (bq_queue_index q) q) (\<lambda>buf.
     let q = q\<lparr>bq_vector := (bq_vector q)[buf := (bq_vector q ! buf)\<lparr>mb_flag := BUFFER_WRITING\<rparr>]\<rparr>
     in if bq_full_flag q then
          bindE (guardE Signed_Overflow (bq_min_block_id q < int_max)) (\<lambda>_.
          bindE (guardE Div_By_Zero (bq_buffer_number q \<noteq> 0)) (\<lambda>_.
          Inr (buf, q\<lparr>bq_min_block_id := bq_min_block_id q + 1,
                      bq_min_block_index := c_rem (bq_queue_index q + 1) (bq_buffer_number q)\<rparr>)))
        else Inr (buf, q))"

definition update_buffer_attr :: "int \<Rightarrow> BUFFER_FLAG \<Rightarrow> RsBufferQueue \<Rightarrow> RsBufferQueue res" where
  "update_buffer_attr block_id flag q =
     bindE (at_vector (bq_queue_index q) q) (\<lambda>buf.
     bindE (guardE Div_By_Zero (bq_buffer_number q \<noteq> 0)) (\<lambda>_.
     Inr (q\<lparr>bq_vector := (bq_vector q)[buf := (bq_vector q ! buf)\<lparr>mb_block_id := block_id, mb_flag := flag\<rparr>],
            bq_full_flag := (bq_full_flag q \<or> bq_queue_index q + 1 = bq_buffer_number q),
            bq_queue_index := c_rem (bq_queue_index q + 1) (bq_buffer_number q)\<rparr>)))"

definition dequeue_buffer :: "int \<Rightarrow> RsBufferQueue \<Rightarrow> nat option res" where
  "dequeue_buffer block_id q =
     (let curr_buf_size = (if bq_full_flag q then bq_buffer_number q else bq_queue_index q)
      in if bq_min_block_id q > block_id then Inr None
         else bindE (guardE Signed_Overflow (bq_min_block_id q + curr_buf_size \<le> int_max)) (\<lambda>_.
           if block_id \<ge> bq_min_block_id q + curr_buf_size then Inr None
           else let offset = block_id - bq_min_block_id q
             in bindE (if offset < bq_buffer_number q - bq_min_block_index q
                       then at_vector (bq_min_block_index q + offset) q
                       else at_vector (offset - (bq_buffer_number q - bq_min_block_index q)) q)
                  (\<lambda>buf. Inr (Some buf))))"

definition get_buffer_interval :: "RsBufferQueue \<Rightarrow> (int \<times> int) res" where
  "get_buffer_interval q =
     (let st = bq_min_block_id q;
          sz = (if bq_full_flag q then bq_buffer_number q else bq_queue_index q)
      in bindE (guardE Signed_Overflow (st + sz \<le> int_max)) (\<lambda>_. Inr (st, st + sz)))"

definition set_header :: "bytes \<Rightarrow> int \<Rightarrow> RsBufferQueue \<Rightarrow> RsBufferQueue res" where
  "set_header header n q =
     bindE (guardE Bad_Alloc (0 \<le> n)) (\<lambda>_.
     bindE (guardE Out_Of_Bounds (n \<le> int (length header))) (\<lambda>_.
     Inr (q\<lparr>bq_media_header := Some (take (nat n) header, n)\<rparr>)))"

definition get_header :: "RsBufferQueue \<Rightarrow> (bytes \<times> int) res" where
  "get_header q = (case bq_media_header q of None \<Rightarrow> Inl Uninitialised | Some h \<Rightarrow> Inr h)"

text \<open>What a caller does with the pointer it got: copying \<open>n\<close> bytes into the buffer.\<close>

definition copy_to_buffer :: "nat \<Rightarrow> bytes \<Rightarrow> RsBufferQueue \<Rightarrow> RsBufferQueue res" where
  "copy_to_buffer buf bs q =
     bindE (guardE Out_Of_Bounds (buf < length (bq_vector q) \<and> length bs \<le> length (mb_buffer (bq_vector q ! buf)))) (\<lambda>_.
     Inr (q\<lparr>bq_vector := (bq_vector q)[buf := (bq_vector q ! buf)
       \<lparr>mb_buffer := bs @ drop (length bs) (mb_buffer (bq_vector q ! buf))\<rparr>]\<rparr>))"

text \<open>
  The three steps by which a block enters the ring, in the order of
  \<open>RsCsSpProtocol::get_block\<close>.
\<close>

definition produce :: "int \<Rightarrow> bytes \<Rightarrow> RsBufferQueue \<Rightarrow> RsBufferQueue res" where
  "produce block_id bs q =
     bindE (queue_buffer q) (\<lambda>(buf, q).
     bindE (copy_to_buffer buf bs q) (\<lambda>q.
     update_buffer_attr block_id BUFFER_AVAILABLE q))"

section \<open>The ring as a window of the history\<close>

definition holds_block :: "nat \<Rightarrow> bytes \<Rightarrow> media_buffer \<Rightarrow> bool" where
  "holds_block i bs b \<longleftrightarrow> mb_block_id b = int i \<and> mb_flag b = BUFFER_AVAILABLE \<and>
     take (length bs) (mb_buffer b) = bs"

definition slot_ok :: "media_buffer \<Rightarrow> bool" where
  "slot_ok b \<longleftrightarrow> length (mb_buffer b) = MEDIA_BLOCK_SIZE \<and> mb_block_size b = int MEDIA_BLOCK_SIZE"

definition ring_ok :: "nat \<Rightarrow> bytes list \<Rightarrow> RsBufferQueue \<Rightarrow> bool" where
  "ring_ok N h q \<longleftrightarrow>
     0 < N \<and> length (bq_vector q) = N \<and> bq_buffer_number q = int N \<and>
     (\<forall>b\<in>set (bq_vector q). slot_ok b) \<and>
     bq_queue_index q = int (length h mod N) \<and> bq_full_flag q = (N \<le> length h) \<and>
     bq_min_block_id q = int (length h - N) \<and>
     bq_min_block_index q = (if length h < N then 0 else int (length h mod N)) \<and>
     (\<forall>i. length h - N \<le> i \<longrightarrow> i < length h \<longrightarrow> holds_block i (h ! i) (bq_vector q ! (i mod N)))"

lemma ring_ok_fresh:
  assumes "0 < N"
  shows "ring_ok N [] (reserve_buffer junk (int N) (RsBufferQueue_new now hash name source))"
  using assms by (auto simp: ring_ok_def slot_ok_def reserve_buffer_def RsBufferQueue_new_def)

lemma window_slots_differ:
  assumes "i < k" "k < i + N"
  shows "i mod N \<noteq> k mod (N :: nat)"
proof
  assume "i mod N = k mod N"
  then have "N dvd k - i" using assms(1) mod_eq_dvd_iff_nat[of i k N] by simp
  then show False using assms by (auto dest: dvd_imp_le)
qed

lemma update_at:
  assumes "bq_queue_index q = int j" "j < length (bq_vector q)" "bq_buffer_number q \<noteq> 0"
  shows "update_buffer_attr block_id flag q = Inr (q\<lparr>
    bq_vector := (bq_vector q)[j := (bq_vector q ! j)\<lparr>mb_block_id := block_id, mb_flag := flag\<rparr>],
    bq_full_flag := (bq_full_flag q \<or> int j + 1 = bq_buffer_number q),
    bq_queue_index := c_rem (int j + 1) (bq_buffer_number q)\<rparr>)"
  using assms by (simp add: update_buffer_attr_def at_vector_def)

lemma produce_eq:
  assumes ok: "ring_ok N h q" and len: "length h < 2 ^ 31 - 1" "length bs \<le> MEDIA_BLOCK_SIZE"
  defines "j \<equiv> length h mod N"
  shows "produce block_id bs q = Inr (q\<lparr>
    bq_min_block_id := int (Suc (length h) - N),
    bq_min_block_index := (if Suc (length h) < N then 0 else int (Suc (length h) mod N)),
    bq_vector := (bq_vector q)[j := (bq_vector q ! j)\<lparr>
      mb_buffer := bs @ drop (length bs) (mb_buffer (bq_vector q ! j)),
      mb_block_id := block_id, mb_flag := BUFFER_AVAILABLE\<rparr>],
    bq_full_flag := (N \<le> Suc (length h)),
    bq_queue_index := int (Suc (length h) mod N)\<rparr>)"
proof -
  have N: "0 < N" "length (bq_vector q) = N" "bq_buffer_number q = int N"
    "bq_queue_index q = int j" "bq_full_flag q = (N \<le> length h)" "bq_min_block_id q = int (length h - N)"
    "bq_min_block_index q = (if length h < N then 0 else int j)"
    using ok by (simp_all add: ring_ok_def j_def)
  have j: "j < N" using N(1) by (simp add: j_def)
  have buf: "length (mb_buffer (bq_vector q ! j)) = MEDIA_BLOCK_SIZE"
    using ok j N(2) by (simp add: ring_ok_def slot_ok_def)
  have next_index: "c_rem (int j + 1) (int N) = int (Suc (length h) mod N)"
    using c_rem_nat[of "Suc j" N] by (simp add: j_def mod_Suc_eq add.commute)
  have wrap: "int j + 1 = int N \<longleftrightarrow> N = Suc (length h)" if "length h < N"
    using that by (auto simp: j_def)
  let ?id = "int (Suc (length h) - N)"
  let ?ix = "if Suc (length h) < N then 0 else int (Suc (length h) mod N)"
  let ?w = "(bq_vector q ! j)\<lparr>mb_flag := BUFFER_WRITING\<rparr>"
  have queue: "queue_buffer q = Inr (j, q\<lparr>bq_vector := (bq_vector q)[j := ?w],
      bq_min_block_id := ?id, bq_min_block_index := ?ix\<rparr>)"
  proof (cases "N \<le> length h")
    case True
    then have "?id = int (length h - N) + 1" "?ix = int (Suc (length h) mod N)"
      by (auto simp: Suc_diff_le)
    then show ?thesis
      using True N(1-6) j next_index len unfolding queue_buffer_def by (simp add: at_vector_def)
  next
    case False
    then have "?id = bq_min_block_id q" "?ix = bq_min_block_index q"
      using N by (cases "Suc (length h) = N"; auto)+
    then have same: "q\<lparr>bq_vector := v, bq_min_block_id := ?id, bq_min_block_index := ?ix\<rparr> = q\<lparr>bq_vector := v\<rparr>" for v
      by (cases q) simp
    have "queue_buffer q = Inr (j, q\<lparr>bq_vector := (bq_vector q)[j := ?w]\<rparr>)"
      using False N(2,4,5) j by (simp add: queue_buffer_def at_vector_def)
    then show ?thesis by (simp only: same)
  qed
  have full: "(bq_full_flag q \<or> int j + 1 = int N) = (N \<le> Suc (length h))"
    using N(5) wrap by auto
  let ?q1 = "q\<lparr>bq_vector := (bq_vector q)[j := ?w], bq_min_block_id := ?id, bq_min_block_index := ?ix\<rparr>"
  let ?w2 = "?w\<lparr>mb_buffer := bs @ drop (length bs) (mb_buffer (bq_vector q ! j))\<rparr>"
  let ?q2 = "q\<lparr>bq_vector := (bq_vector q)[j := ?w2], bq_min_block_id := ?id, bq_min_block_index := ?ix\<rparr>"
  have copy: "copy_to_buffer j bs ?q1 = Inr ?q2"
    using j N(2) buf len(2) by (simp add: copy_to_buffer_def)
  have "update_buffer_attr block_id BUFFER_AVAILABLE ?q2 = Inr (?q2\<lparr>
      bq_vector := (bq_vector q)[j := ?w2\<lparr>mb_block_id := block_id, mb_flag := BUFFER_AVAILABLE\<rparr>],
      bq_full_flag := (N \<le> Suc (length h)), bq_queue_index := int (Suc (length h) mod N)\<rparr>)"
    using update_at[of ?q2 j block_id BUFFER_AVAILABLE] j N(1-4) full next_index by simp
  then show ?thesis
    unfolding produce_def queue bindE_Inr prod.case copy by simp
qed

lemma produce_ring_ok:
  assumes ok: "ring_ok N h q" and len: "length h < 2 ^ 31 - 1" "length bs \<le> MEDIA_BLOCK_SIZE"
  shows "\<exists>q'. produce (int (length h)) bs q = Inr q' \<and> ring_ok N (h @ [bs]) q'"
proof -
  let ?j = "length h mod N"
  let ?b = "(bq_vector q ! ?j)\<lparr>mb_buffer := bs @ drop (length bs) (mb_buffer (bq_vector q ! ?j)),
    mb_block_id := int (length h), mb_flag := BUFFER_AVAILABLE\<rparr>"
  let ?v = "(bq_vector q)[?j := ?b]"
  have N: "0 < N" "length (bq_vector q) = N" "?j < N"
    and sizes: "\<forall>b\<in>set (bq_vector q). slot_ok b"
    and held: "\<forall>i. length h - N \<le> i \<longrightarrow> i < length h \<longrightarrow> holds_block i (h ! i) (bq_vector q ! (i mod N))"
    using ok by (simp_all add: ring_ok_def)
  have new: "holds_block (length h) bs ?b" by (simp add: holds_block_def)
  have "slot_ok ?b" using len(2) sizes N by (simp add: slot_ok_def)
  then have "\<forall>b\<in>set ?v. slot_ok b"
    using sizes set_update_subset_insert[of "bq_vector q" ?j ?b] by auto
  moreover have "holds_block i ((h @ [bs]) ! i) (?v ! (i mod N))"
    if "Suc (length h) - N \<le> i" "i < Suc (length h)" for i
  proof (cases "i = length h")
    case True
    then show ?thesis using new N by simp
  next
    case False
    then have "i mod N \<noteq> ?j" using that by (intro window_slots_differ) auto
    then show ?thesis using False that held by (simp add: nth_append)
  qed
  ultimately show ?thesis
    using ok N unfolding produce_eq[OF ok len] by (auto simp: ring_ok_def)
qed

lemma wrap_slot:
  "n < N \<Longrightarrow> m < N \<Longrightarrow> (m + n) mod N = (if n < N - m then m + n else n - (N - m :: nat))"
  by (cases "m + n < N") (auto simp: le_mod_geq)

lemma at_wrapped:
  assumes "n < N" "m < N" "length (bq_vector q) = N"
  shows "(if int n < int N - int m then at_vector (int m + int n) q else at_vector (int n - (int N - int m)) q) =
    Inr ((m + n) mod N)"
  unfolding wrap_slot[OF assms(1,2)] using assms by (auto simp: at_vector_def)

lemma dequeue_buffer_inside:
  assumes "bq_min_block_id q = m" "bq_min_block_index q = ix"
    and "m + (if bq_full_flag q then bq_buffer_number q else bq_queue_index q) = e"
    and "m \<le> i" "i < e" "e \<le> int_max"
  shows "dequeue_buffer i q =
    bindE (if i - m < bq_buffer_number q - ix then at_vector (ix + (i - m)) q
           else at_vector (i - m - (bq_buffer_number q - ix)) q) (\<lambda>buf. Inr (Some buf))"
  using assms by (simp add: dequeue_buffer_def Let_def)

lemma dequeue_ring_ok:
  assumes ok: "ring_ok N h q" and len: "length h < 2 ^ 31"
  shows "dequeue_buffer (int i) q =
    Inr (if length h - N \<le> i \<and> i < length h then Some (i mod N) else None)"
proof -
  let ?k = "length h"
  have N: "0 < N" "length (bq_vector q) = N" "bq_buffer_number q = int N"
    "bq_queue_index q = int (?k mod N)" "bq_full_flag q = (N \<le> ?k)" "bq_min_block_id q = int (?k - N)"
    "bq_min_block_index q = (if ?k < N then 0 else int (?k mod N))"
    using ok by (simp_all add: ring_ok_def)
  have curr: "int (?k - N) + (if N \<le> ?k then int N else int (?k mod N)) = int ?k" by auto
  consider "i < ?k - N" | "?k \<le> i" "?k - N \<le> i" | "?k - N \<le> i" "i < ?k" by linarith
  then show ?thesis
  proof cases
    case 1
    then have "bq_min_block_id q > int i" using N(6) by simp
    then show ?thesis using 1 by (simp add: dequeue_buffer_def)
  next
    case 2
    then show ?thesis using N curr len by (simp add: dequeue_buffer_def Let_def)
  next
    case 3
    let ?o = "i - (?k - N)"
    let ?m = "if ?k < N then 0 else ?k mod N"
    have off: "int i - int (?k - N) = int ?o" using 3 by simp
    have o: "?o < N" "?m < N" using 3 N(1) by auto
    have "(?m + ?o) mod N = i mod N"
    proof (cases "?k < N")
      case False
      then have "(?m + ?o) mod N = (?k + ?o) mod N" by (simp add: mod_add_left_eq)
      also have "?k + ?o = i + N" using False 3 by simp
      finally show ?thesis by simp
    qed simp
    then have slot: "i mod N = (if ?o < N - ?m then ?m + ?o else ?o - (N - ?m))"
      using o wrap_slot[of ?o N ?m] by simp
    have "(if int ?o < int N - int ?m then at_vector (int ?m + int ?o) q
        else at_vector (int ?o - (int N - int ?m)) q) = Inr (i mod N)"
      unfolding slot wrap_slot[OF o, symmetric] by (rule at_wrapped[OF o N(2)])
    moreover have "dequeue_buffer (int i) q =
        bindE (if int i - int (?k - N) < bq_buffer_number q - int ?m then at_vector (int ?m + (int i - int (?k - N))) q
           else at_vector (int i - int (?k - N) - (bq_buffer_number q - int ?m)) q) (\<lambda>buf. Inr (Some buf))"
      by (rule dequeue_buffer_inside[where e = "int ?k"]) (use N 3 len curr in auto)
    ultimately show ?thesis
      using 3 by (simp only: off N(3) bindE_Inr) simp
  qed
qed

end
