(* ===== verification/Source_Manager.thy ===== *)
theory Source_Manager
  imports Buffer_Queue
begin

text \<open>
  \<open>protocol/sp/sp_source_manager.h\<close> and \<open>sp_source_manager.cpp\<close>: the singleton that keeps
  one \<open>RsBufferQueue\<close> per channel in a \<open>std::map\<close> keyed by the channel's MD5. Every queue
  is owned by its map entry, so the map holds the queues themselves. An out-parameter the
  code may leave unset is an option.
\<close>

abbreviation ERROR_SUCCESS :: int where "ERROR_SUCCESS \<equiv> 0"
abbreviation ERROR_SOURCE_MGR_NOT_FOUND :: int where "ERROR_SOURCE_MGR_NOT_FOUND \<equiv> 2000"
abbreviation ERROR_SOURCE_MGR_FAILT_TO_CREATE_SOURCE :: int where
  "ERROR_SOURCE_MGR_FAILT_TO_CREATE_SOURCE \<equiv> 2001"

section \<open>The object and its operations\<close>

record RsSourceManager =
  sm_source_hashmap :: "(MD5_Hash_Str, RsBufferQueue) cmap"
  sm_tracker_address :: bytes

definition RsSourceManager_new :: RsSourceManager where
  "RsSourceManager_new = \<lparr>sm_source_hashmap = [], sm_tracker_address = []\<rparr>"

definition RsSourceManager_initialize :: "bytes \<Rightarrow> RsSourceManager \<Rightarrow> int \<times> RsSourceManager" where
  "RsSourceManager_initialize tracker_addr mgr = (ERROR_SUCCESS, mgr\<lparr>sm_tracker_address := tracker_addr\<rparr>)"

definition get_buffer_queue :: "MD5_Hash_Str \<Rightarrow> RsSourceManager \<Rightarrow> RsBufferQueue option" where
  "get_buffer_queue hash mgr = map_find MD5_lt hash (sm_source_hashmap mgr)"

definition set_buffer_queue :: "MD5_Hash_Str \<Rightarrow> RsBufferQueue \<Rightarrow> RsSourceManager \<Rightarrow> RsSourceManager" where
  "set_buffer_queue hash q mgr =
     mgr\<lparr>sm_source_hashmap := map_assign MD5_lt hash q (sm_source_hashmap mgr)\<rparr>"

definition find_channel :: "MD5_Hash_Str \<Rightarrow> RsSourceManager \<Rightarrow> bool" where
  "find_channel hash mgr \<longleftrightarrow> get_buffer_queue hash mgr \<noteq> None"

definition create_source ::
  "(nat \<Rightarrow> nat \<Rightarrow> u8) \<Rightarrow> int \<Rightarrow> MD5_Hash_Str \<Rightarrow> bytes \<Rightarrow> bool \<Rightarrow> RsSourceManager \<Rightarrow> int \<times> RsSourceManager" where
  "create_source junk now source_hash source_name source mgr =
     (case get_buffer_queue source_hash mgr of
        Some q \<Rightarrow> (ERROR_SUCCESS, mgr)
      | None \<Rightarrow>
          let q = reserve_buffer junk (int MAX_BUFFER_SIZE) (RsBufferQueue_new now source_hash source_name source);
              (m, inserted) = map_insert MD5_lt source_hash q (sm_source_hashmap mgr)
          in if \<not> inserted then (ERROR_SOURCE_MGR_FAILT_TO_CREATE_SOURCE, mgr)
             else (ERROR_SUCCESS, mgr\<lparr>sm_source_hashmap := m\<rparr>))"

definition queue_block :: "MD5_Hash_Str \<Rightarrow> RsSourceManager \<Rightarrow> (int \<times> nat option \<times> RsSourceManager) res" where
  "queue_block chnl_hash mgr =
     (case get_buffer_queue chnl_hash mgr of
        None \<Rightarrow> Inr (ERROR_SOURCE_MGR_NOT_FOUND, None, mgr)
      | Some q \<Rightarrow> bindE (queue_buffer q) (\<lambda>(buf, q). Inr (ERROR_SUCCESS, Some buf, set_buffer_queue chnl_hash q mgr)))"

text \<open>
  The block found and its size, or \<open>notfound\<close>; neither out-parameter is set when there is
  no such channel.
\<close>

datatype dequeued = Not_Set | Not_Found | Block nat u32

definition dequeue_block :: "MD5_Hash_Str \<Rightarrow> int \<Rightarrow> RsSourceManager \<Rightarrow> (int \<times> dequeued) res" where
  "dequeue_block chnl_hash block_id mgr =
     (case get_buffer_queue chnl_hash mgr of
        None \<Rightarrow> Inr (ERROR_SOURCE_MGR_NOT_FOUND, Not_Set)
      | Some q \<Rightarrow> bindE (dequeue_buffer block_id q) (\<lambda>buf.
          Inr (ERROR_SUCCESS, case buf of None \<Rightarrow> Not_Found
            | Some b \<Rightarrow> Block b (word_of_int (mb_block_size (bq_vector q ! b))))))"

definition set_block_available :: "MD5_Hash_Str \<Rightarrow> int \<Rightarrow> RsSourceManager \<Rightarrow> (int \<times> RsSourceManager) res" where
  "set_block_available chnl_hash block_id mgr =
     (case get_buffer_queue chnl_hash mgr of
        None \<Rightarrow> Inr (ERROR_SOURCE_MGR_NOT_FOUND, mgr)
      | Some q \<Rightarrow> bindE (update_buffer_attr block_id BUFFER_AVAILABLE q)
          (\<lambda>q. Inr (ERROR_SUCCESS, set_buffer_queue chnl_hash q mgr)))"

text \<open>The members of \<open>source_status\<close> that \<open>get_source_list\<close> sets.\<close>

record source_status =
  ss_chnl_hash :: MD5_Hash_Str
  ss_chnl_name :: bytes
  ss_created_time :: int
  ss_block_inter :: BlockInterval

definition queue_status :: "RsBufferQueue \<Rightarrow> source_status res" where
  "queue_status q = bindE (get_buffer_interval q) (\<lambda>(st, e).
     Inr \<lparr>ss_chnl_hash = bq_source_hash q, ss_chnl_name = bq_source_name q, ss_created_time = bq_create_time q,
          ss_block_inter = \<lparr>bi_start = word_of_int st, bi_size = word_of_int (e - st)\<rparr>\<rparr>)"

fun source_statuses :: "(MD5_Hash_Str, RsBufferQueue) cmap \<Rightarrow> source_status list \<Rightarrow> source_status list res" where
  "source_statuses [] source_list = Inr source_list"
| "source_statuses ((k, q) # m) source_list =
     bindE (queue_status q) (\<lambda>state. source_statuses m (source_list @ [state]))"

definition get_source_list :: "RsSourceManager \<Rightarrow> source_status list \<Rightarrow> source_status list res" where
  "get_source_list mgr source_list = source_statuses (sm_source_hashmap mgr) source_list"

definition add_header :: "MD5_Hash_Str \<Rightarrow> bytes \<Rightarrow> int \<Rightarrow> RsSourceManager \<Rightarrow> (int \<times> RsSourceManager) res" where
  "add_header chnl_hash header n mgr =
     (case get_buffer_queue chnl_hash mgr of
        None \<Rightarrow> Inr (ERROR_SOURCE_MGR_NOT_FOUND, mgr)
      | Some q \<Rightarrow> bindE (set_header header n q) (\<lambda>q. Inr (ERROR_SUCCESS, set_buffer_queue chnl_hash q mgr)))"

definition source_header :: "MD5_Hash_Str \<Rightarrow> RsSourceManager \<Rightarrow> (int \<times> (bytes \<times> int) option) res" where
  "source_header chnl_hash mgr =
     (case get_buffer_queue chnl_hash mgr of
        None \<Rightarrow> Inr (ERROR_SOURCE_MGR_NOT_FOUND, None)
      | Some q \<Rightarrow> bindE (get_header q) (\<lambda>h. Inr (ERROR_SUCCESS, Some h)))"

section \<open>Channels\<close>

definition mgr_ok :: "RsSourceManager \<Rightarrow> bool" where
  "mgr_ok mgr \<longleftrightarrow> map_ordered MD5_lt (sm_source_hashmap mgr)"

lemma get_set_queue: "get_buffer_queue h (set_buffer_queue k q mgr) =
    (if key_equiv MD5_lt h k \<and> get_buffer_queue k mgr \<noteq> None then Some q else get_buffer_queue h mgr)"
  by (auto simp: get_buffer_queue_def set_buffer_queue_def md5.find_assign)

lemma mgr_ok_set [simp]: "mgr_ok (set_buffer_queue k q mgr) = mgr_ok mgr"
  by (simp add: mgr_ok_def set_buffer_queue_def)

lemma create_source_new:
  assumes "mgr_ok mgr" "get_buffer_queue h mgr = None" "create_source junk now h name src mgr = (ret, mgr')"
  shows "ret = ERROR_SUCCESS" "mgr_ok mgr'"
    and "get_buffer_queue k mgr' = (if key_equiv MD5_lt k h
      then Some (reserve_buffer junk (int MAX_BUFFER_SIZE) (RsBufferQueue_new now h name src))
      else get_buffer_queue k mgr)"
proof -
  obtain m b where i: "map_insert MD5_lt h
      (reserve_buffer junk (int MAX_BUFFER_SIZE) (RsBufferQueue_new now h name src)) (sm_source_hashmap mgr) = (m, b)"
    by fastforce
  have b: "b"
    using md5.insert_new(1)[of h "sm_source_hashmap mgr"] assms(2) i by (simp add: get_buffer_queue_def) (metis snd_conv)
  then show "ret = ERROR_SUCCESS" "mgr_ok mgr'"
    using assms i md5.insert_ordered[of "sm_source_hashmap mgr"]
    by (auto simp: create_source_def mgr_ok_def) (metis fst_conv)
  show "get_buffer_queue k mgr' = (if key_equiv MD5_lt k h
      then Some (reserve_buffer junk (int MAX_BUFFER_SIZE) (RsBufferQueue_new now h name src))
      else get_buffer_queue k mgr)"
    using assms i b md5.find_insert[of "sm_source_hashmap mgr" k h
        "reserve_buffer junk (int MAX_BUFFER_SIZE) (RsBufferQueue_new now h name src)"]
    by (auto simp: create_source_def get_buffer_queue_def mgr_ok_def)
qed

end
