(* ===== verification/Source_Props.thy ===== *)
theory Source_Props
  imports Source_Manager
begin

text \<open>
  What the ring of blocks and the table of channels of a super peer promise.
\<close>

section \<open>The ring\<close>

text \<open>Producing blocks with the ids \<open>i\<close>, \<open>i + 1\<close>, ...\<close>

fun produce_all :: "nat \<Rightarrow> bytes list \<Rightarrow> RsBufferQueue \<Rightarrow> RsBufferQueue res" where
  "produce_all i [] q = Inr q"
| "produce_all i (b # bs) q = bindE (produce (int i) b q) (produce_all (Suc i) bs)"

lemma produce_all_ring_ok:
  assumes "ring_ok N h q" "length h + length bs < 2 ^ 31" "\<forall>b\<in>set bs. length b \<le> MEDIA_BLOCK_SIZE"
  shows "\<exists>q'. produce_all (length h) bs q = Inr q' \<and> ring_ok N (h @ bs) q'"
  using assms
proof (induction bs arbitrary: h q)
  case (Cons b bs)
  then obtain q' where "produce (int (length h)) b q = Inr q'" "ring_ok N (h @ [b]) q'"
    using produce_ring_ok[of N h q b] by auto
  then show ?case using Cons.IH[of "h @ [b]" q'] Cons.prems by simp
qed simp

lemma interval_ring_ok:
  assumes "ring_ok N h q" "length h < 2 ^ 31"
  shows "get_buffer_interval q = Inr (int (length h - N), int (length h))"
  using assms by (auto simp: get_buffer_interval_def ring_ok_def Let_def guardE_def bindE_def)

text \<open>
  C11. The ring refines the history of blocks: after blocks 0, 1, ... of at most 16,384 bytes
  each, the ring of \<open>N\<close> buffers holds exactly the last \<open>N\<close> of them: the interval it reports
  is theirs, \<open>dequeue_buffer\<close> finds every one of them, with its bytes, and nothing else.
\<close>

theorem ring_holds_last_blocks:
  assumes "0 < N" "length h < 2 ^ 31" "\<forall>b\<in>set h. length b \<le> MEDIA_BLOCK_SIZE"
  shows "\<exists>q. produce_all 0 h (reserve_buffer junk (int N) (RsBufferQueue_new now hash name source)) = Inr q \<and>
    get_buffer_interval q = Inr (int (length h - N), int (length h)) \<and>
    (\<forall>i. if length h - N \<le> i \<and> i < length h
       then \<exists>buf. dequeue_buffer (int i) q = Inr (Some buf) \<and> take (length (h ! i)) (mb_buffer (bq_vector q ! buf)) = h ! i
       else dequeue_buffer (int i) q = Inr None)"
proof -
  obtain q where q: "produce_all 0 h (reserve_buffer junk (int N) (RsBufferQueue_new now hash name source)) = Inr q"
    "ring_ok N h q"
    using produce_all_ring_ok[OF ring_ok_fresh[OF assms(1)], of h junk now hash name source] assms(2,3) by auto
  have "holds_block i (h ! i) (bq_vector q ! (i mod N))" if "length h - N \<le> i" "i < length h" for i
    using q(2) that by (simp add: ring_ok_def)
  then show ?thesis
    using q dequeue_ring_ok[OF q(2) assms(2)] interval_ring_ok[OF q(2) assms(2)]
    by (intro exI[of _ q]) (auto simp: holds_block_def)
qed

definition sample_queue :: RsBufferQueue where
  "sample_queue = reserve_buffer (\<lambda>_ _. 0) (int 2)
     (RsBufferQueue_new 0 \<lparr>md5_hash = [], md5_interval = \<lparr>bi_start = 0, bi_size = 0\<rparr>\<rparr> [] True)"

definition sample_blocks :: "bytes list" where
  "sample_blocks = [[1], [2], [3]]"

lemma ring_holds_last_blocks_witness:
  "\<exists>q. produce_all 0 sample_blocks sample_queue = Inr q \<and> get_buffer_interval q = Inr (1, 3) \<and>
    dequeue_buffer (int 0) q = Inr None"
proof -
  have "length sample_blocks = 3" "\<forall>b\<in>set sample_blocks. length b \<le> MEDIA_BLOCK_SIZE"
    by (simp_all add: sample_blocks_def)
  moreover from this obtain q where "produce_all 0 sample_blocks sample_queue = Inr q"
    "get_buffer_interval q = Inr (int (length sample_blocks - 2), int (length sample_blocks))"
    "\<forall>i. if length sample_blocks - 2 \<le> i \<and> i < length sample_blocks
      then \<exists>buf. dequeue_buffer (int i) q = Inr (Some buf) \<and>
        take (length (sample_blocks ! i)) (mb_buffer (bq_vector q ! buf)) = sample_blocks ! i
      else dequeue_buffer (int i) q = Inr None"
    using ring_holds_last_blocks[of 2 sample_blocks "\<lambda>_ _. 0" 0
        "\<lparr>md5_hash = [], md5_interval = \<lparr>bi_start = 0, bi_size = 0\<rparr>\<rparr>" "[]" True]
    unfolding sample_queue_def by (simp only: zero_less_numeral simp_thms) auto
  ultimately show ?thesis by (intro exI[of _ q]) (auto dest: spec[of _ 0])
qed

text \<open>
  The ring counts blocks and never looks at their ids: whatever id the first block has,
  it is found as block 0 and, unless its id is 0, not found under its own.
\<close>

theorem ids_start_at_zero:
  assumes "0 < N" "length b \<le> MEDIA_BLOCK_SIZE" "0 < i" "i \<le> int_max"
  shows "\<exists>q. produce i b (reserve_buffer junk (int N) (RsBufferQueue_new now hash name source)) = Inr q \<and>
    dequeue_buffer i q = Inr None \<and> dequeue_buffer 0 q = Inr (Some 0) \<and> mb_block_id (bq_vector q ! 0) = i"
proof -
  let ?q = "reserve_buffer junk (int N) (RsBufferQueue_new now hash name source)"
  have "length (mb_buffer (bq_vector ?q ! 0)) = MEDIA_BLOCK_SIZE" "bq_vector ?q \<noteq> []" "bq_queue_index ?q = 0"
    "length (bq_vector ?q) = N" "bq_buffer_number ?q = int N" "\<not> bq_full_flag ?q" "bq_min_block_id ?q = 0" "bq_min_block_index ?q = 0"
    using assms(1) by (simp_all add: reserve_buffer_def RsBufferQueue_new_def)
  moreover have "c_rem 1 (int N) = (if N = 1 then 0 else 1)"
    using c_rem_nat[of 1 N] assms(1) by auto
  ultimately show ?thesis
    using assms
    by (auto simp: produce_def queue_buffer_def copy_to_buffer_def update_buffer_attr_def at_vector_def
        dequeue_buffer_def nth_list_update Let_def)
qed

lemma ids_start_at_zero_witness:
  "\<exists>q. produce 7 [1] (reserve_buffer (\<lambda>_ _. 0) (int 2)
      (RsBufferQueue_new 0 \<lparr>md5_hash = [], md5_interval = \<lparr>bi_start = 0, bi_size = 0\<rparr>\<rparr> [] True)) = Inr q \<and>
    dequeue_buffer 7 q = Inr None \<and> dequeue_buffer 0 q = Inr (Some 0) \<and> mb_block_id (bq_vector q ! 0) = 7"
  by (rule ids_start_at_zero) simp_all

end
