(* ===== verification/Messages_Sp.thy ===== *)
theory Messages_Sp
  imports Message_Base
begin

text \<open>
  The messages between a super peer and the tracker, and between super peers
  (\<open>core/message.h\<close>, \<open>core/message.cpp\<close>). Per class: its members, its constructor, and
  the overrides \<open>parse\<close>, \<open>reserve_pack_size\<close> and \<open>pack_submsg\<close>; then the wire
  format that \<open>core/p2p_protocol.h\<close> documents (\<open>..._content\<close>) and what a valid object
  is: its character arrays have their declared length and an array has as many elements as
  its count says.

  A member array of characters is its list of bytes. A pointer to a heap array is the list
  of its elements, the null pointer the empty list. Members no constructor sets are
  arguments of the model's constructor when a \<open>parse\<close> may leave them as they are.
\<close>

section \<open>SP2TS_REGISTER\<close>

record Sp2TsRegister =
  register_user_id :: u32
  register_password :: bytes
  register_service_port :: u16

definition Sp2TsRegister_new :: Sp2TsRegister where
  "Sp2TsRegister_new = \<lparr>register_user_id = 0x04030201, register_password = replicate MD5_LEN 0, register_service_port = 0\<rparr>"

definition Sp2TsRegister_parse :: "streamer \<Rightarrow> (Sp2TsRegister \<times> streamer) res" where
  "Sp2TsRegister_parse s =
     bindE (read_int s) (\<lambda>(user_id, s).
     bindE (read_nbytes MD5_LEN s) (\<lambda>(password, s).
     bindE (read_short s) (\<lambda>(service_port, s).
     Inr (\<lparr>register_user_id = user_id, register_password = password, register_service_port = service_port\<rparr>, s))))"

definition Sp2TsRegister_reserve :: "Sp2TsRegister \<Rightarrow> int" where
  "Sp2TsRegister_reserve m = RsMessage_reserve_pack_size + (4 + int MD5_LEN + 2)"

definition Sp2TsRegister_submsg :: "Sp2TsRegister \<Rightarrow> streamer \<Rightarrow> streamer res" where
  "Sp2TsRegister_submsg m = seqW [
     write_char (msg_code SP2TS_REGISTER),
     write_int (register_user_id m),
     write_nbytes (register_password m) MD5_LEN,
     write_short (register_service_port m)]"

definition Sp2TsRegister_content :: "Sp2TsRegister \<Rightarrow> bytes" where
  "Sp2TsRegister_content m = enc (register_user_id m) @ register_password m @ enc (register_service_port m)"

definition Sp2TsRegister_wf :: "Sp2TsRegister \<Rightarrow> bool" where
  "Sp2TsRegister_wf m \<longleftrightarrow> length (register_password m) = MD5_LEN"

interpretation sp2ts_register: wire_message Sp2TsRegister_wf Sp2TsRegister_reserve Sp2TsRegister_submsg
  SP2TS_REGISTER Sp2TsRegister_content Sp2TsRegister_parse
proof
  fix m :: Sp2TsRegister
  assume "Sp2TsRegister_wf m"
  then show "emits (Sp2TsRegister_submsg m) (msg_code SP2TS_REGISTER # Sp2TsRegister_content m)"
    unfolding Sp2TsRegister_submsg_def Sp2TsRegister_content_def Sp2TsRegister_wf_def
    by (intro emits_intros)
  show "Sp2TsRegister_reserve m = 5 + int (length (Sp2TsRegister_content m))" "Sp2TsRegister_reserve m < 2 ^ 31"
    using \<open>Sp2TsRegister_wf m\<close>
    by (simp_all add: Sp2TsRegister_reserve_def RsMessage_reserve_pack_size_def Sp2TsRegister_content_def Sp2TsRegister_wf_def)
next
  fix m s post
  assume "Sp2TsRegister_wf m" "avail s = Sp2TsRegister_content m @ post"
  then show "Sp2TsRegister_parse s = Inr (m, adv (length (Sp2TsRegister_content m)) s)"
    by (simp add: Sp2TsRegister_parse_def Sp2TsRegister_content_def Sp2TsRegister_wf_def wire_simps)
qed

section \<open>TS2SP_WELCOME\<close>

record Ts2SpWelcome =
  welcome_uuid :: bytes

definition Ts2SpWelcome_parse :: "streamer \<Rightarrow> (Ts2SpWelcome \<times> streamer) res" where
  "Ts2SpWelcome_parse s = bindE (read_nbytes UUID_LENGTH s) (\<lambda>(uuid, s). Inr (\<lparr>welcome_uuid = uuid\<rparr>, s))"

definition Ts2SpWelcome_reserve :: "Ts2SpWelcome \<Rightarrow> int" where
  "Ts2SpWelcome_reserve m = RsMessage_reserve_pack_size + int UUID_LENGTH"

definition Ts2SpWelcome_submsg :: "Ts2SpWelcome \<Rightarrow> streamer \<Rightarrow> streamer res" where
  "Ts2SpWelcome_submsg m = seqW [write_char (msg_code TS2SP_WELCOME), write_nbytes (welcome_uuid m) UUID_LENGTH]"

definition Ts2SpWelcome_wf :: "Ts2SpWelcome \<Rightarrow> bool" where
  "Ts2SpWelcome_wf m \<longleftrightarrow> length (welcome_uuid m) = UUID_LENGTH"

interpretation ts2spwelcome: wire_message Ts2SpWelcome_wf Ts2SpWelcome_reserve Ts2SpWelcome_submsg
  TS2SP_WELCOME welcome_uuid Ts2SpWelcome_parse
proof
  fix m :: Ts2SpWelcome
  assume "Ts2SpWelcome_wf m"
  then show "emits (Ts2SpWelcome_submsg m) (msg_code TS2SP_WELCOME # welcome_uuid m)"
    unfolding Ts2SpWelcome_submsg_def Ts2SpWelcome_wf_def by (intro emits_intros)
  show "Ts2SpWelcome_reserve m = 5 + int (length (welcome_uuid m))" "Ts2SpWelcome_reserve m < 2 ^ 31"
    using \<open>Ts2SpWelcome_wf m\<close> by (simp_all add: Ts2SpWelcome_reserve_def RsMessage_reserve_pack_size_def Ts2SpWelcome_wf_def)
next
  fix m s post
  assume "Ts2SpWelcome_wf m" "avail s = welcome_uuid m @ post"
  then show "Ts2SpWelcome_parse s = Inr (m, adv (length (welcome_uuid m)) s)"
    by (simp add: Ts2SpWelcome_parse_def Ts2SpWelcome_wf_def wire_simps)
qed

section \<open>SP2TS_GET_SP\<close>

record Sp2TsSpList =
  getsp_uuid :: bytes

definition Sp2TsSpList_parse :: "streamer \<Rightarrow> (Sp2TsSpList \<times> streamer) res" where
  "Sp2TsSpList_parse s = bindE (read_nbytes UUID_LENGTH s) (\<lambda>(uuid, s). Inr (\<lparr>getsp_uuid = uuid\<rparr>, s))"

definition Sp2TsSpList_reserve :: "Sp2TsSpList \<Rightarrow> int" where
  "Sp2TsSpList_reserve m = RsMessage_reserve_pack_size + int UUID_LENGTH"

definition Sp2TsSpList_submsg :: "Sp2TsSpList \<Rightarrow> streamer \<Rightarrow> streamer res" where
  "Sp2TsSpList_submsg m = seqW [write_char (msg_code SP2TS_GET_SP), write_nbytes (getsp_uuid m) UUID_LENGTH]"

definition Sp2TsSpList_wf :: "Sp2TsSpList \<Rightarrow> bool" where
  "Sp2TsSpList_wf m \<longleftrightarrow> length (getsp_uuid m) = UUID_LENGTH"

interpretation sp2tssplist: wire_message Sp2TsSpList_wf Sp2TsSpList_reserve Sp2TsSpList_submsg
  SP2TS_GET_SP getsp_uuid Sp2TsSpList_parse
proof
  fix m :: Sp2TsSpList
  assume "Sp2TsSpList_wf m"
  then show "emits (Sp2TsSpList_submsg m) (msg_code SP2TS_GET_SP # getsp_uuid m)"
    unfolding Sp2TsSpList_submsg_def Sp2TsSpList_wf_def by (intro emits_intros)
  show "Sp2TsSpList_reserve m = 5 + int (length (getsp_uuid m))" "Sp2TsSpList_reserve m < 2 ^ 31"
    using \<open>Sp2TsSpList_wf m\<close> by (simp_all add: Sp2TsSpList_reserve_def RsMessage_reserve_pack_size_def Sp2TsSpList_wf_def)
next
  fix m s post
  assume "Sp2TsSpList_wf m" "avail s = getsp_uuid m @ post"
  then show "Sp2TsSpList_parse s = Inr (m, adv (length (getsp_uuid m)) s)"
    by (simp add: Sp2TsSpList_parse_def Sp2TsSpList_wf_def wire_simps)
qed

section \<open>TS2SP_SP_LIST\<close>

record Ts2SpSpList =
  splist_count :: u8
  splist_addr :: "NetAddress list"

definition Ts2SpSpList_parse :: "Ts2SpSpList \<Rightarrow> streamer \<Rightarrow> (Ts2SpSpList \<times> streamer) res" where
  "Ts2SpSpList_parse m s =
     bindE (read_char s) (\<lambda>(count, s).
     if count = 0 then Inr (m\<lparr>splist_count := 0\<rparr>, s)
     else bindE (read_array (unat count) (read_object 8 NetAddress_of_bytes) s) (\<lambda>(addr, s).
       Inr (\<lparr>splist_count = count, splist_addr = addr\<rparr>, s)))"

definition Ts2SpSpList_submsg :: "Ts2SpSpList \<Rightarrow> streamer \<Rightarrow> streamer res" where
  "Ts2SpSpList_submsg m = seqW [
     write_char (msg_code TS2SP_SP_LIST),
     write_char (splist_count m),
     write_array (unat (splist_count m)) (\<lambda>addr. write_nbytes (bytes_of_NetAddress addr) 8) (splist_addr m)]"

definition Ts2SpSpList_reserve :: "Ts2SpSpList \<Rightarrow> int" where
  "Ts2SpSpList_reserve m = RsMessage_reserve_pack_size + 1 + int (unat (splist_count m)) * 8"

definition Ts2SpSpList_content :: "Ts2SpSpList \<Rightarrow> bytes" where
  "Ts2SpSpList_content m = [splist_count m] @ concat (map bytes_of_NetAddress (splist_addr m))"

definition Ts2SpSpList_wf :: "Ts2SpSpList \<Rightarrow> bool" where
  "Ts2SpSpList_wf m \<longleftrightarrow> length (splist_addr m) = unat (splist_count m)"

interpretation ts2sp_sp_list: wire_message Ts2SpSpList_wf Ts2SpSpList_reserve Ts2SpSpList_submsg
  TS2SP_SP_LIST Ts2SpSpList_content "Ts2SpSpList_parse \<lparr>splist_count = junk, splist_addr = []\<rparr>"
proof
  fix m :: Ts2SpSpList
  assume wf: "Ts2SpSpList_wf m"
  have len: "length (concat (map bytes_of_NetAddress (splist_addr m))) = 8 * unat (splist_count m)"
    using wf by (subst length_concat_const) (auto simp: Ts2SpSpList_wf_def)
  show "Ts2SpSpList_reserve m = 5 + int (length (Ts2SpSpList_content m))" "Ts2SpSpList_reserve m < 2 ^ 31"
    using len uint_u8[of "splist_count m"] by (simp_all add: Ts2SpSpList_reserve_def RsMessage_reserve_pack_size_def Ts2SpSpList_content_def)
  from wf show "emits (Ts2SpSpList_submsg m) (msg_code TS2SP_SP_LIST # Ts2SpSpList_content m)"
    unfolding Ts2SpSpList_submsg_def Ts2SpSpList_content_def Ts2SpSpList_wf_def
    by (intro emits_intros) simp_all
next
  fix m s post
  assume "Ts2SpSpList_wf m" "avail s = Ts2SpSpList_content m @ post"
  then show "Ts2SpSpList_parse \<lparr>splist_count = junk, splist_addr = []\<rparr> s = Inr (m, adv (length (Ts2SpSpList_content m)) s)"
    using read_objects_ok[of "adv 1 s" bytes_of_NetAddress "splist_addr m" post 8 NetAddress_of_bytes]
    by (auto simp: Ts2SpSpList_parse_def Ts2SpSpList_content_def Ts2SpSpList_wf_def wire_simps
        length_concat_const[where k = 8])
qed

section \<open>SP2TS_LOGOUT\<close>

text \<open>\<open>pack_submsg\<close> writes the type of \<open>SP2TS_GET_SP\<close>, not \<open>SP2TS_LOGOUT\<close>.\<close>

record Sp2TsLogout =
  sp_logout_uuid :: bytes

definition Sp2TsLogout_parse :: "streamer \<Rightarrow> (Sp2TsLogout \<times> streamer) res" where
  "Sp2TsLogout_parse s = bindE (read_nbytes UUID_LENGTH s) (\<lambda>(uuid, s). Inr (\<lparr>sp_logout_uuid = uuid\<rparr>, s))"

definition Sp2TsLogout_reserve :: "Sp2TsLogout \<Rightarrow> int" where
  "Sp2TsLogout_reserve m = RsMessage_reserve_pack_size + int UUID_LENGTH"

definition Sp2TsLogout_submsg :: "Sp2TsLogout \<Rightarrow> streamer \<Rightarrow> streamer res" where
  "Sp2TsLogout_submsg m = seqW [write_char (msg_code SP2TS_GET_SP), write_nbytes (sp_logout_uuid m) UUID_LENGTH]"

definition Sp2TsLogout_wf :: "Sp2TsLogout \<Rightarrow> bool" where
  "Sp2TsLogout_wf m \<longleftrightarrow> length (sp_logout_uuid m) = UUID_LENGTH"

interpretation sp2tslogout: wire_message Sp2TsLogout_wf Sp2TsLogout_reserve Sp2TsLogout_submsg
  SP2TS_GET_SP sp_logout_uuid Sp2TsLogout_parse
proof
  fix m :: Sp2TsLogout
  assume "Sp2TsLogout_wf m"
  then show "emits (Sp2TsLogout_submsg m) (msg_code SP2TS_GET_SP # sp_logout_uuid m)"
    unfolding Sp2TsLogout_submsg_def Sp2TsLogout_wf_def by (intro emits_intros)
  show "Sp2TsLogout_reserve m = 5 + int (length (sp_logout_uuid m))" "Sp2TsLogout_reserve m < 2 ^ 31"
    using \<open>Sp2TsLogout_wf m\<close> by (simp_all add: Sp2TsLogout_reserve_def RsMessage_reserve_pack_size_def Sp2TsLogout_wf_def)
next
  fix m s post
  assume "Sp2TsLogout_wf m" "avail s = sp_logout_uuid m @ post"
  then show "Sp2TsLogout_parse s = Inr (m, adv (length (sp_logout_uuid m)) s)"
    by (simp add: Sp2TsLogout_parse_def Sp2TsLogout_wf_def wire_simps)
qed

section \<open>SP2TS_RES_LIST\<close>

record resource_info =
  res_md5 :: bytes
  res_block_interval :: BlockInterval

record Sp2TsResList =
  reslist_uuid :: bytes
  reslist_count :: u32
  reslist_info :: "resource_info list"

definition Sp2TsResList_new :: "bytes \<Rightarrow> Sp2TsResList" where
  "Sp2TsResList_new junk = \<lparr>reslist_uuid = junk, reslist_count = 0, reslist_info = []\<rparr>"

definition read_resource_info :: "streamer \<Rightarrow> (resource_info \<times> streamer) res" where
  "read_resource_info s =
     bindE (read_nbytes MD5_LEN s) (\<lambda>(md5, s).
     bindE (read_int s) (\<lambda>(st, s).
     bindE (read_int s) (\<lambda>(sz, s).
     Inr (\<lparr>res_md5 = md5, res_block_interval = \<lparr>bi_start = st, bi_size = sz\<rparr>\<rparr>, s))))"

definition Sp2TsResList_parse :: "streamer \<Rightarrow> (Sp2TsResList \<times> streamer) res" where
  "Sp2TsResList_parse s =
     bindE (read_nbytes UUID_LENGTH s) (\<lambda>(uuid, s).
     bindE (read_int s) (\<lambda>(resource_count, s).
     bindE (read_array (unat resource_count) read_resource_info s) (\<lambda>(res_info, s).
     Inr (\<lparr>reslist_uuid = uuid, reslist_count = resource_count, reslist_info = res_info\<rparr>, s))))"

definition Sp2TsResList_reserve :: "Sp2TsResList \<Rightarrow> int" where
  "Sp2TsResList_reserve m =
     wrap32 (RsMessage_reserve_pack_size + int UUID_LENGTH + 4 + int (unat (reslist_count m)) * 40)"

definition write_resource_info :: "resource_info \<Rightarrow> streamer \<Rightarrow> streamer res" where
  "write_resource_info r = seqW [
     write_nbytes (res_md5 r) MD5_LEN,
     write_int (bi_start (res_block_interval r)),
     write_int (bi_size (res_block_interval r))]"

definition Sp2TsResList_submsg :: "Sp2TsResList \<Rightarrow> streamer \<Rightarrow> streamer res" where
  "Sp2TsResList_submsg m = seqW [
     write_char (msg_code SP2TS_RES_LIST),
     write_nbytes (reslist_uuid m) UUID_LENGTH,
     write_int (reslist_count m),
     write_array (unat (reslist_count m)) write_resource_info (reslist_info m)]"

definition bytes_of_resource_info :: "resource_info \<Rightarrow> bytes" where
  "bytes_of_resource_info r = res_md5 r @ enc (bi_start (res_block_interval r)) @ enc (bi_size (res_block_interval r))"

definition Sp2TsResList_content :: "Sp2TsResList \<Rightarrow> bytes" where
  "Sp2TsResList_content m =
     reslist_uuid m @ enc (reslist_count m) @ concat (map bytes_of_resource_info (reslist_info m))"

text \<open>The size of the packet must fit an \<open>int\<close>: about 53 million resources.\<close>

definition Sp2TsResList_wf :: "Sp2TsResList \<Rightarrow> bool" where
  "Sp2TsResList_wf m \<longleftrightarrow> length (reslist_uuid m) = UUID_LENGTH \<and>
     length (reslist_info m) = unat (reslist_count m) \<and>
     (\<forall>r\<in>set (reslist_info m). length (res_md5 r) = MD5_LEN) \<and> unat (reslist_count m) < 53687090"

lemma length_resource_info: "length (res_md5 r) = MD5_LEN \<Longrightarrow> length (bytes_of_resource_info r) = 40"
  by (simp add: bytes_of_resource_info_def)

lemma length_Sp2TsResList_content:
  "Sp2TsResList_wf m \<Longrightarrow> length (Sp2TsResList_content m) = 20 + 40 * unat (reslist_count m)"
  by (simp add: Sp2TsResList_content_def Sp2TsResList_wf_def length_concat_const[where k = 40] length_resource_info)

lemma read_resource_infos:
  assumes "\<forall>r\<in>set rs. length (res_md5 r) = MD5_LEN" "avail s = concat (map bytes_of_resource_info rs) @ post"
  shows "read_array (length rs) read_resource_info s = Inr (rs, adv (40 * length rs) s)"
proof (rule read_array_ok[where e = bytes_of_resource_info])
  fix r s' post'
  assume "r \<in> set rs" "avail s' = bytes_of_resource_info r @ post'"
  then show "read_resource_info s' = Inr (r, adv 40 s')"
    using assms(1) by (simp add: read_resource_info_def bytes_of_resource_info_def wire_simps)
qed (use assms in \<open>simp_all add: length_resource_info\<close>)

interpretation sp2ts_res_list: wire_message Sp2TsResList_wf Sp2TsResList_reserve Sp2TsResList_submsg
  SP2TS_RES_LIST Sp2TsResList_content Sp2TsResList_parse
proof
  fix m :: Sp2TsResList
  assume wf: "Sp2TsResList_wf m"
  have "emits (write_resource_info r) (bytes_of_resource_info r)" if "length (res_md5 r) = MD5_LEN" for r
    using that unfolding write_resource_info_def bytes_of_resource_info_def by (intro emits_intros)
  with wf show "emits (Sp2TsResList_submsg m) (msg_code SP2TS_RES_LIST # Sp2TsResList_content m)"
    unfolding Sp2TsResList_submsg_def Sp2TsResList_content_def Sp2TsResList_wf_def
    by (intro emits_intros) simp_all
  show "Sp2TsResList_reserve m = 5 + int (length (Sp2TsResList_content m))" "Sp2TsResList_reserve m < 2 ^ 31"
    using wf wrap32_range uint_less_nat[of "reslist_count m" 53687090]
    unfolding length_Sp2TsResList_content[OF wf] Sp2TsResList_reserve_def
    by (simp_all add: RsMessage_reserve_pack_size_def Sp2TsResList_wf_def wrap32_id)
next
  fix m s post
  assume wf: "Sp2TsResList_wf m" and "avail s = Sp2TsResList_content m @ post"
  then show "Sp2TsResList_parse s = Inr (m, adv (length (Sp2TsResList_content m)) s)"
    using read_resource_infos[of "reslist_info m" "adv 20 s" post]
    unfolding length_Sp2TsResList_content[OF wf]
    by (simp add: Sp2TsResList_parse_def Sp2TsResList_content_def Sp2TsResList_wf_def wire_simps)
qed

section \<open>SP2TS_STATUS\<close>

record Sp2TsStatus =
  status_uuid :: bytes
  status_resource_count :: u32
  status_connection_num :: u16
  status_bandwidth :: float32
  status_exceed_max_connection :: u8

definition Sp2TsStatus_parse :: "streamer \<Rightarrow> (Sp2TsStatus \<times> streamer) res" where
  "Sp2TsStatus_parse s =
     bindE (read_nbytes UUID_LENGTH s) (\<lambda>(uuid, s).
     bindE (read_int s) (\<lambda>(resource_count, s).
     bindE (read_short s) (\<lambda>(connection_num, s).
     bindE (read_object 4 dec s) (\<lambda>(bandwidth, s).
     bindE (read_char s) (\<lambda>(exceed_max_connection, s).
     Inr (\<lparr>status_uuid = uuid, status_resource_count = resource_count, status_connection_num = connection_num,
           status_bandwidth = bandwidth, status_exceed_max_connection = exceed_max_connection\<rparr>, s))))))"

definition Sp2TsStatus_reserve :: "Sp2TsStatus \<Rightarrow> int" where
  "Sp2TsStatus_reserve m = RsMessage_reserve_pack_size + int UUID_LENGTH + 4 + 2 + 4 + 1"

definition Sp2TsStatus_submsg :: "Sp2TsStatus \<Rightarrow> streamer \<Rightarrow> streamer res" where
  "Sp2TsStatus_submsg m = seqW [
     write_char (msg_code SP2TS_STATUS),
     write_nbytes (status_uuid m) UUID_LENGTH,
     write_int (status_resource_count m),
     write_short (status_connection_num m),
     write_nbytes (enc (status_bandwidth m)) 4,
     write_char (status_exceed_max_connection m)]"

definition Sp2TsStatus_content :: "Sp2TsStatus \<Rightarrow> bytes" where
  "Sp2TsStatus_content m = status_uuid m @ enc (status_resource_count m) @ enc (status_connection_num m) @
     enc (status_bandwidth m) @ [status_exceed_max_connection m]"

definition Sp2TsStatus_wf :: "Sp2TsStatus \<Rightarrow> bool" where
  "Sp2TsStatus_wf m \<longleftrightarrow> length (status_uuid m) = UUID_LENGTH"

interpretation sp2ts_status: wire_message Sp2TsStatus_wf Sp2TsStatus_reserve Sp2TsStatus_submsg
  SP2TS_STATUS Sp2TsStatus_content Sp2TsStatus_parse
proof
  fix m :: Sp2TsStatus
  assume "Sp2TsStatus_wf m"
  then show "emits (Sp2TsStatus_submsg m) (msg_code SP2TS_STATUS # Sp2TsStatus_content m)"
    unfolding Sp2TsStatus_submsg_def Sp2TsStatus_content_def Sp2TsStatus_wf_def
    by (intro emits_intros) simp_all
  show "Sp2TsStatus_reserve m = 5 + int (length (Sp2TsStatus_content m))" "Sp2TsStatus_reserve m < 2 ^ 31"
    using \<open>Sp2TsStatus_wf m\<close>
    by (simp_all add: Sp2TsStatus_reserve_def RsMessage_reserve_pack_size_def Sp2TsStatus_content_def Sp2TsStatus_wf_def)
next
  fix m s post
  assume "Sp2TsStatus_wf m" "avail s = Sp2TsStatus_content m @ post"
  then show "Sp2TsStatus_parse s = Inr (m, adv (length (Sp2TsStatus_content m)) s)"
    by (simp add: Sp2TsStatus_parse_def Sp2TsStatus_content_def Sp2TsStatus_wf_def read_object_def wire_simps)
qed

section \<open>SP2SP_PUSHLIST\<close>

record Sp2SpPushList =
  push_resource_md5 :: bytes
  push_source_sp_addr :: NetAddress
  push_block_count :: u8
  push_block_array :: "u32 list"

definition Sp2SpPushList_new :: Sp2SpPushList where
  "Sp2SpPushList_new = \<lparr>push_resource_md5 = replicate MD5_LEN 0,
     push_source_sp_addr = \<lparr>sin_family = 0, sin_port = 0, s_addr = 0\<rparr>, push_block_count = 0, push_block_array = []\<rparr>"

definition Sp2SpPushList_parse :: "Sp2SpPushList \<Rightarrow> streamer \<Rightarrow> (Sp2SpPushList \<times> streamer) res" where
  "Sp2SpPushList_parse m s =
     bindE (read_nbytes MD5_LEN s) (\<lambda>(md5, s).
     bindE (read_object 8 NetAddress_of_bytes s) (\<lambda>(addr, s).
     bindE (read_char s) (\<lambda>(block_count, s).
     let m = m\<lparr>push_resource_md5 := md5, push_source_sp_addr := addr, push_block_count := block_count\<rparr>
     in if block_count \<noteq> 0 then
          bindE (read_array (unat block_count) read_int s) (\<lambda>(block_array, s).
          Inr (m\<lparr>push_block_array := block_array\<rparr>, s))
        else Inr (m, s))))"

text \<open>\<open>sizeof(block_array)\<close> is the size of the pointer.\<close>

definition Sp2SpPushList_reserve :: "Sp2SpPushList \<Rightarrow> int" where
  "Sp2SpPushList_reserve m = RsMessage_reserve_pack_size + 1 + 8 + int (unat (push_block_count m)) * 4"

definition Sp2SpPushList_submsg :: "Sp2SpPushList \<Rightarrow> streamer \<Rightarrow> streamer res" where
  "Sp2SpPushList_submsg m s = Inr s"

definition Sp2SpPushList_content :: "Sp2SpPushList \<Rightarrow> bytes" where
  "Sp2SpPushList_content m = push_resource_md5 m @ bytes_of_NetAddress (push_source_sp_addr m) @
     [push_block_count m] @ concat (map enc (push_block_array m))"

definition Sp2SpPushList_wf :: "Sp2SpPushList \<Rightarrow> bool" where
  "Sp2SpPushList_wf m \<longleftrightarrow> length (push_resource_md5 m) = MD5_LEN \<and>
     length (push_block_array m) = unat (push_block_count m)"

lemma read_ints:
  assumes "avail s = concat (map enc (xs :: u32 list)) @ post"
  shows "read_array (length xs) read_int s = Inr (xs, adv (4 * length xs) s)"
  by (rule read_array_ok[where e = enc]) (use assms in \<open>simp_all add: read_int_ok\<close>)

interpretation sp2sp_pushlist: parsable Sp2SpPushList_wf "Sp2SpPushList_parse Sp2SpPushList_new" Sp2SpPushList_content
proof
  fix m s post
  assume "Sp2SpPushList_wf m" "avail s = Sp2SpPushList_content m @ post"
  then show "Sp2SpPushList_parse Sp2SpPushList_new s = Inr (m, adv (length (Sp2SpPushList_content m)) s)"
    using read_ints[of "adv 41 s" "push_block_array m" post]
    by (auto simp: Sp2SpPushList_parse_def Sp2SpPushList_new_def Sp2SpPushList_content_def Sp2SpPushList_wf_def
        Let_def read_object_def wire_simps length_concat_const[where k = 4])
qed

section \<open>SP2SP_MEDIATYPE\<close>

record Sp2SpMediatype =
  media_resource_md5 :: bytes
  media_block_start_id :: u32
  media_block_num :: u32
  media_type_size :: u32
  media_type :: bytes
  media_program_name_size :: u8
  media_program_name :: bytes
  media_program_time :: u32
  media_channel_name_size :: u8
  media_channel_name :: bytes

definition Sp2SpMediatype_parse :: "Sp2SpMediatype \<Rightarrow> streamer \<Rightarrow> (Sp2SpMediatype \<times> streamer) res" where
  "Sp2SpMediatype_parse m s = Inr (m, s)"

definition Sp2SpMediatype_reserve :: "Sp2SpMediatype \<Rightarrow> int" where
  "Sp2SpMediatype_reserve m = wrap32 (RsMessage_reserve_pack_size + int MD5_LEN + 4 + 4 + 4 +
     int (unat (media_type_size m)) + 1 + int (unat (media_program_name_size m)) + 4 + 1 +
     int (unat (media_channel_name_size m)))"

definition Sp2SpMediatype_submsg :: "Sp2SpMediatype \<Rightarrow> streamer \<Rightarrow> streamer res" where
  "Sp2SpMediatype_submsg m = seqW [
     write_char (msg_code SP2SP_MEDIATYPE),
     write_nbytes (media_resource_md5 m) MD5_LEN,
     write_int (media_block_start_id m),
     write_int (media_block_num m),
     write_int (media_type_size m),
     if media_type_size m \<noteq> 0 then write_nbytes (media_type m) (unat (media_type_size m)) else Inr,
     write_char (media_program_name_size m),
     if media_program_name_size m \<noteq> 0 then
       write_nbytes (media_program_name m) (unat (media_program_name_size m)) else Inr,
     write_int (media_program_time m),
     write_char (media_channel_name_size m),
     if media_channel_name_size m \<noteq> 0 then
       write_nbytes (media_channel_name m) (unat (media_channel_name_size m)) else Inr]"

definition Sp2SpMediatype_content :: "Sp2SpMediatype \<Rightarrow> bytes" where
  "Sp2SpMediatype_content m = media_resource_md5 m @ enc (media_block_start_id m) @ enc (media_block_num m) @
     enc (media_type_size m) @ media_type m @ [media_program_name_size m] @ media_program_name m @
     enc (media_program_time m) @ [media_channel_name_size m] @ media_channel_name m"

definition Sp2SpMediatype_wf :: "Sp2SpMediatype \<Rightarrow> bool" where
  "Sp2SpMediatype_wf m \<longleftrightarrow> length (media_resource_md5 m) = MD5_LEN \<and>
     length (media_type m) = unat (media_type_size m) \<and>
     length (media_program_name m) = unat (media_program_name_size m) \<and>
     length (media_channel_name m) = unat (media_channel_name_size m) \<and> unat (media_type_size m) < 2147483000"

lemma emits_if_bytes:
  "length bs = unat n \<Longrightarrow> emits (if n \<noteq> 0 then write_nbytes bs (unat n) else Inr) bs"
  using emits_write_nbytes emits_id by auto

interpretation sp2sp_mediatype: packable Sp2SpMediatype_wf Sp2SpMediatype_reserve Sp2SpMediatype_submsg
  SP2SP_MEDIATYPE Sp2SpMediatype_content
proof
  fix m :: Sp2SpMediatype
  assume wf: "Sp2SpMediatype_wf m"
  then show "emits (Sp2SpMediatype_submsg m) (msg_code SP2SP_MEDIATYPE # Sp2SpMediatype_content m)"
    unfolding Sp2SpMediatype_submsg_def Sp2SpMediatype_content_def Sp2SpMediatype_wf_def
    by (intro emits_intros emits_if_bytes) simp_all
  have "uint (media_type_size m) < 2147483000"
    using wf uint_less_nat[of "media_type_size m" 2147483000] by (simp add: Sp2SpMediatype_wf_def)
  then show "Sp2SpMediatype_reserve m = 5 + int (length (Sp2SpMediatype_content m))" "Sp2SpMediatype_reserve m < 2 ^ 31"
    using wf uint_u8[of "media_program_name_size m"] uint_u8[of "media_channel_name_size m"] wrap32_range
    by (simp_all add: Sp2SpMediatype_reserve_def RsMessage_reserve_pack_size_def Sp2SpMediatype_content_def
        Sp2SpMediatype_wf_def wrap32_id)
qed

section \<open>SP2SP_RESPONSE\<close>

record Sp2SpResponse =
  response_resource_md5 :: bytes
  response_block_id :: u32
  response_block_size :: u32
  response_block_data :: bytes

definition Sp2SpResponse_parse :: "Sp2SpResponse \<Rightarrow> streamer \<Rightarrow> (Sp2SpResponse \<times> streamer) res" where
  "Sp2SpResponse_parse m s = Inr (m, s)"

definition Sp2SpResponse_reserve :: "Sp2SpResponse \<Rightarrow> int" where
  "Sp2SpResponse_reserve m =
     wrap32 (RsMessage_reserve_pack_size + int MD5_LEN + 4 + 4 + int (unat (response_block_size m)))"

definition Sp2SpResponse_submsg :: "Sp2SpResponse \<Rightarrow> streamer \<Rightarrow> streamer res" where
  "Sp2SpResponse_submsg m = seqW [
     write_char (msg_code SP2SP_RESPONSE),
     write_nbytes (response_resource_md5 m) MD5_LEN,
     write_int (response_block_id m),
     write_int (response_block_size m),
     if response_block_size m \<noteq> 0 then
       write_nbytes (response_block_data m) (unat (response_block_size m)) else Inr]"

definition Sp2SpResponse_content :: "Sp2SpResponse \<Rightarrow> bytes" where
  "Sp2SpResponse_content m = response_resource_md5 m @ enc (response_block_id m) @
     enc (response_block_size m) @ response_block_data m"

definition Sp2SpResponse_wf :: "Sp2SpResponse \<Rightarrow> bool" where
  "Sp2SpResponse_wf m \<longleftrightarrow> length (response_resource_md5 m) = MD5_LEN \<and>
     length (response_block_data m) = unat (response_block_size m) \<and> unat (response_block_size m) < 2147483000"

interpretation sp2sp_response: packable Sp2SpResponse_wf Sp2SpResponse_reserve Sp2SpResponse_submsg
  SP2SP_RESPONSE Sp2SpResponse_content
proof
  fix m :: Sp2SpResponse
  assume wf: "Sp2SpResponse_wf m"
  then show "emits (Sp2SpResponse_submsg m) (msg_code SP2SP_RESPONSE # Sp2SpResponse_content m)"
    unfolding Sp2SpResponse_submsg_def Sp2SpResponse_content_def Sp2SpResponse_wf_def
    by (intro emits_intros emits_if_bytes) simp_all
  have "uint (response_block_size m) < 2147483000"
    using wf uint_less_nat[of "response_block_size m" 2147483000] by (simp add: Sp2SpResponse_wf_def)
  then show "Sp2SpResponse_reserve m = 5 + int (length (Sp2SpResponse_content m))" "Sp2SpResponse_reserve m < 2 ^ 31"
    using wf wrap32_range
    by (simp_all add: Sp2SpResponse_reserve_def RsMessage_reserve_pack_size_def Sp2SpResponse_content_def
        Sp2SpResponse_wf_def wrap32_id)
qed

end
