(* ===== verification/Timer.thy ===== *)
theory Timer
  imports Prelude "HOL-Library.Signed_Division"
begin

text \<open>
  \<open>core/system_time.h\<close>, \<open>.cpp\<close>, the cached clock, and \<open>core/timer.h\<close>, \<open>.cpp\<close>, the timers
  that hang on it. Times are 64-bit numbers and are taken not to overflow. What
  \<open>gettimeofday\<close> returns is an argument, \<open>None\<close> when it fails.
\<close>

section \<open>The clock\<close>

record SystemTime =
  system_time_us_cache :: int
  system_time_startup_time :: int

definition SystemTime_new :: SystemTime where
  "SystemTime_new = \<lparr>system_time_us_cache = 0, system_time_startup_time = 0\<rparr>"

abbreviation kSystemTime_Resolution_us :: int where "kSystemTime_Resolution_us \<equiv> 300000"

definition update_system_time_ms :: "(int \<times> int) option \<Rightarrow> SystemTime \<Rightarrow> int \<times> SystemTime" where
  "update_system_time_ms tv c =
     (case tv of None \<Rightarrow> (-1, c)
      | Some (tv_sec, tv_usec) \<Rightarrow>
          let now_us = tv_sec * 1000 * 1000 + tv_usec
          in if system_time_us_cache c \<le> 0 then
               (now_us sdiv 1000, c\<lparr>system_time_us_cache := now_us, system_time_startup_time := now_us\<rparr>)
             else
               let diff = max 0 (now_us - system_time_us_cache c);
                   c = (if diff < 0 \<or> diff > 1000 * kSystemTime_Resolution_us
                        then c\<lparr>system_time_startup_time := system_time_startup_time c + diff\<rparr> else c)
               in (now_us sdiv 1000, c\<lparr>system_time_us_cache := now_us\<rparr>))"

definition get_system_time_ms :: "(int \<times> int) option \<Rightarrow> SystemTime \<Rightarrow> int \<times> SystemTime" where
  "get_system_time_ms tv c =
     (let c = (if system_time_us_cache c \<le> 0 then snd (update_system_time_ms tv c) else c)
      in (system_time_us_cache c sdiv 1000, c))"

definition get_system_startup_time_ms :: "(int \<times> int) option \<Rightarrow> SystemTime \<Rightarrow> int \<times> SystemTime" where
  "get_system_startup_time_ms tv c =
     (let c = (if system_time_startup_time c \<le> 0 then snd (update_system_time_ms tv c) else c)
      in (system_time_startup_time c sdiv 1000, c))"

section \<open>The timers\<close>

text \<open>
  \<open>callback\<close> identifies the object called back. \<open>handle\<close> is what its \<open>handle_timeout\<close> does to
  the rest of the program; no handler of the program adds or deletes a timer.
\<close>

record 'cb timer_item =
  ti_timeout :: int
  ti_timerid :: int
  ti_last_signal_time :: int
  ti_callback :: 'cb

record 'cb RsTimer =
  tm_thread_start_flag :: bool
  tm_last_thread_time :: int
  tm_vector :: "'cb timer_item list"

definition RsTimer_new :: "'cb RsTimer" where
  "RsTimer_new = \<lparr>tm_thread_start_flag = False, tm_last_thread_time = 0, tm_vector = []\<rparr>"

definition timer_item_eq :: "'cb timer_item \<Rightarrow> 'cb timer_item \<Rightarrow> bool" where
  "timer_item_eq a b \<longleftrightarrow> ti_callback a = ti_callback b \<and> ti_timeout a = ti_timeout b \<and> ti_timerid a = ti_timerid b"

definition add_timer :: "int \<Rightarrow> int \<Rightarrow> 'cb option \<Rightarrow> 'cb RsTimer \<Rightarrow> 'cb RsTimer res" where
  "add_timer timeout timerid callback tm =
     (case callback of None \<Rightarrow> Inl Assertion
      | Some cb \<Rightarrow>
          let item = \<lparr>ti_timeout = timeout, ti_timerid = timerid, ti_last_signal_time = 0, ti_callback = cb\<rparr>
          in Inr (tm\<lparr>tm_thread_start_flag := True, tm_vector := tm_vector tm @ [item]\<rparr>))"

text \<open>
  \<open>remove\<close> moves the items kept to the front, leaves the memory behind them as it is and
  returns the position behind them; \<open>erase\<close> with one position removes one item, which must
  exist.
\<close>

definition std_remove :: "('a \<Rightarrow> bool) \<Rightarrow> 'a list \<Rightarrow> 'a list \<times> nat" where
  "std_remove p v = (let kept = filter (\<lambda>x. \<not> p x) v in (kept @ drop (length kept) v, length kept))"

definition delete_timer :: "int \<Rightarrow> int \<Rightarrow> 'cb \<Rightarrow> 'cb RsTimer \<Rightarrow> 'cb RsTimer res" where
  "delete_timer timeout timerid callback tm =
     (let item = \<lparr>ti_timeout = timeout, ti_timerid = timerid, ti_last_signal_time = 0, ti_callback = callback\<rparr>;
          (v, pos) = std_remove (\<lambda>x. timer_item_eq x item) (tm_vector tm)
      in bindE (guardE Out_Of_Bounds (pos < length v)) (\<lambda>_.
         Inr (tm\<lparr>tm_vector := take pos v @ drop (pos + 1) v\<rparr>)))"

fun signal_timers :: "('cb \<Rightarrow> int \<Rightarrow> 's \<Rightarrow> 's res) \<Rightarrow> int \<Rightarrow> 'cb timer_item list \<Rightarrow> 's \<Rightarrow> ('cb timer_item list \<times> 's) res" where
  "signal_timers handle now_ms [] s = Inr ([], s)"
| "signal_timers handle now_ms (x # v) s =
     bindE (if now_ms - ti_last_signal_time x \<ge> ti_timeout x then
              bindE (handle (ti_callback x) (ti_timerid x) s) (\<lambda>s. Inr (x\<lparr>ti_last_signal_time := now_ms\<rparr>, s))
            else Inr (x, s)) (\<lambda>(x, s).
     bindE (signal_timers handle now_ms v s) (\<lambda>(v, s). Inr (x # v, s)))"

definition check_timeout :: "('cb \<Rightarrow> int \<Rightarrow> 's \<Rightarrow> 's res) \<Rightarrow> int \<Rightarrow> 'cb RsTimer \<Rightarrow> 's \<Rightarrow> ('cb RsTimer \<times> 's) res" where
  "check_timeout handle now_ms tm s =
     (if tm_last_thread_time tm = 0 then
        Inr (tm\<lparr>tm_last_thread_time := now_ms,
               tm_vector := map (\<lambda>x. x\<lparr>ti_last_signal_time := now_ms\<rparr>) (tm_vector tm)\<rparr>, s)
      else bindE (signal_timers handle now_ms (tm_vector tm) s) (\<lambda>(v, s). Inr (tm\<lparr>tm_vector := v\<rparr>, s)))"

text \<open>
  The thread's rounds read the cached clock. The loop of the server refreshes it, once a second;
  the thread itself does so only while it holds no time. So rounds in between see the same time
  again. An event carries what \<open>gettimeofday\<close> would return at that moment.
\<close>

datatype clock_event = Server_Tick "(int \<times> int) option" | Timer_Tick "(int \<times> int) option"

fun timer_run :: "('cb \<Rightarrow> int \<Rightarrow> 's \<Rightarrow> 's res) \<Rightarrow> clock_event list \<Rightarrow> SystemTime \<Rightarrow> 'cb RsTimer \<Rightarrow> 's \<Rightarrow>
    (SystemTime \<times> 'cb RsTimer \<times> 's) res" where
  "timer_run handle [] clock tm s = Inr (clock, tm, s)"
| "timer_run handle (Server_Tick tv # es) clock tm s =
     (let (_, clock) = update_system_time_ms tv clock in timer_run handle es clock tm s)"
| "timer_run handle (Timer_Tick tv # es) clock tm s =
     (let (curr, clock) = get_system_time_ms tv clock
      in bindE (check_timeout handle curr tm s) (\<lambda>(tm, s). timer_run handle es clock tm s))"

section \<open>When timers fire\<close>

text \<open>The times the rounds see, and the rounds at given times.\<close>

fun readings :: "clock_event list \<Rightarrow> SystemTime \<Rightarrow> int list" where
  "readings [] clock = []"
| "readings (Server_Tick tv # es) clock = readings es (snd (update_system_time_ms tv clock))"
| "readings (Timer_Tick tv # es) clock =
     (let (curr, clock) = get_system_time_ms tv clock in curr # readings es clock)"

fun rounds_at :: "('cb \<Rightarrow> int \<Rightarrow> 's \<Rightarrow> 's res) \<Rightarrow> int list \<Rightarrow> 'cb RsTimer \<Rightarrow> 's \<Rightarrow> ('cb RsTimer \<times> 's) res" where
  "rounds_at handle [] tm s = Inr (tm, s)"
| "rounds_at handle (t # ts) tm s = bindE (check_timeout handle t tm s) (\<lambda>(tm, s). rounds_at handle ts tm s)"

lemma timer_run_rounds:
  "rounds_at handle (readings es clock) tm s = Inr (tm', s') \<Longrightarrow> \<exists>clock'. timer_run handle es clock tm s = Inr (clock', tm', s')"
proof (induction es arbitrary: clock tm s)
  case (Cons e es)
  then show ?case by (cases e) (auto simp: res_invert case_prod_unfold Let_def)
qed simp

text \<open>Whether a timer fires at each of the rounds at the times \<open>ts\<close>, if it fired last at \<open>l\<close>.\<close>

fun fires :: "int \<Rightarrow> int \<Rightarrow> int list \<Rightarrow> bool list" where
  "fires timeout l [] = []"
| "fires timeout l (t # ts) = (t - l \<ge> timeout) # fires timeout (if t - l \<ge> timeout then t else l) ts"

text \<open>The time of its last call at a round or before, or else \<open>l\<close>.\<close>

fun last_call :: "int \<Rightarrow> int list \<Rightarrow> bool list \<Rightarrow> nat \<Rightarrow> int" where
  "last_call l (t # ts) (b # bs) 0 = (if b then t else l)"
| "last_call l (t # ts) (b # bs) (Suc j) = last_call (if b then t else l) ts bs j"
| "last_call l _ _ _ = l"

lemma length_fires [simp]: "length (fires T l ts) = length ts"
  by (induction ts arbitrary: l) auto

lemma fires_after: "0 < T \<Longrightarrow> j < length ts \<Longrightarrow> fires T l ts ! j \<Longrightarrow> T \<le> ts ! j - l"
proof (induction ts arbitrary: l j)
  case (Cons t ts)
  then show ?case
  proof (cases j)
    case (Suc k)
    then show ?thesis using Cons.IH[of k "if t - l \<ge> T then t else l"] Cons.prems by (auto split: if_splits)
  qed simp
qed simp

lemma fires_apart:
  "0 < T \<Longrightarrow> i < j \<Longrightarrow> j < length ts \<Longrightarrow> fires T l ts ! i \<Longrightarrow> fires T l ts ! j \<Longrightarrow> T \<le> ts ! j - ts ! i"
proof (induction ts arbitrary: l i j)
  case (Cons t ts)
  then obtain k where k: "j = Suc k" by (cases j) auto
  show ?case
  proof (cases i)
    case 0
    then show ?thesis using Cons.prems fires_after[of T k ts t] by (simp add: k)
  next
    case (Suc m)
    then show ?thesis using Cons.IH[of m k] Cons.prems by (simp add: k)
  qed
qed simp

lemma fires_recent: "0 < T \<Longrightarrow> j < length ts \<Longrightarrow> ts ! j - last_call l ts (fires T l ts) j < T"
proof (induction ts arbitrary: l j)
  case (Cons t ts)
  then show ?case by (cases j) auto
qed simp

definition call_log :: "'cb \<Rightarrow> int \<Rightarrow> ('cb \<times> int) list \<Rightarrow> ('cb \<times> int) list res" where
  "call_log cb timerid calls = Inr (calls @ [(cb, timerid)])"

abbreviation due :: "int \<Rightarrow> 'cb timer_item \<Rightarrow> bool" where
  "due t x \<equiv> t - ti_last_signal_time x \<ge> ti_timeout x"

lemma signal_timers_log:
  "signal_timers call_log t v calls =
    Inr (map (\<lambda>x. if due t x then x\<lparr>ti_last_signal_time := t\<rparr> else x) v,
      calls @ map (\<lambda>x. (ti_callback x, ti_timerid x)) (filter (due t) v))"
  by (induction v arbitrary: calls) (simp_all add: call_log_def)

text \<open>What is called back at each of the rounds.\<close>

definition calls_at :: "int list \<Rightarrow> 'cb timer_item list \<Rightarrow> nat \<Rightarrow> ('cb \<times> int) list" where
  "calls_at ts v j = map (\<lambda>x. (ti_callback x, ti_timerid x)) (filter (\<lambda>x. fires (ti_timeout x) (ti_last_signal_time x) ts ! j) v)"

lemma calls_at_Cons:
  "calls_at (t # ts) v 0 = map (\<lambda>x. (ti_callback x, ti_timerid x)) (filter (due t) v)"
  "calls_at (t # ts) v (Suc j) = calls_at ts (map (\<lambda>x. if due t x then x\<lparr>ti_last_signal_time := t\<rparr> else x) v) j"
  by (induction v) (auto simp: calls_at_def)

lemma rounds_log:
  assumes "tm_last_thread_time tm \<noteq> 0"
  shows "\<exists>tm'. rounds_at call_log ts tm calls = Inr (tm', calls @ concat (map (calls_at ts (tm_vector tm)) [0..<length ts]))"
  using assms
proof (induction ts arbitrary: tm calls)
  case (Cons t ts)
  let ?v = "map (\<lambda>x. if due t x then x\<lparr>ti_last_signal_time := t\<rparr> else x) (tm_vector tm)"
  have "[0..<length (t # ts)] = 0 # map Suc [0..<length ts]" by (simp add: upt_conv_Cons map_Suc_upt del: upt_Suc)
  then have "concat (map (calls_at (t # ts) (tm_vector tm)) [0..<length (t # ts)]) =
      calls_at (t # ts) (tm_vector tm) 0 @ concat (map (calls_at ts ?v) [0..<length ts])"
    by (simp add: calls_at_Cons comp_def)
  then show ?case
    using Cons.prems Cons.IH[of "tm\<lparr>tm_vector := ?v\<rparr>" "calls @ calls_at (t # ts) (tm_vector tm) 0"]
    by (simp add: check_timeout_def signal_timers_log calls_at_Cons)
qed simp

text \<open>Rounds that see no time yet only start over.\<close>

lemma rounds_without_time:
  "tm_last_thread_time tm = 0 \<Longrightarrow> \<exists>tm'. rounds_at call_log (replicate n 0 @ ts) tm calls = rounds_at call_log ts tm' calls \<and>
    tm_last_thread_time tm' = 0 \<and> map (\<lambda>x. x\<lparr>ti_last_signal_time := 0\<rparr>) (tm_vector tm') = map (\<lambda>x. x\<lparr>ti_last_signal_time := 0\<rparr>) (tm_vector tm)"
proof (induction n arbitrary: tm)
  case (Suc n)
  let ?tm = "tm\<lparr>tm_last_thread_time := 0, tm_vector := map (\<lambda>x. x\<lparr>ti_last_signal_time := 0\<rparr>) (tm_vector tm)\<rparr>"
  have "check_timeout call_log 0 tm calls = Inr (?tm, calls)" using Suc.prems by (simp add: check_timeout_def)
  then show ?case using Suc.IH[of ?tm] by (simp add: comp_def)
qed auto

text \<open>
  C29. Timers keep their period, by the cached clock: its time is refreshed by the loop of the
  server and the timer thread's rounds in between see it again; it may even go back. Of timers
  added before the thread's first round, with positive periods, and handlers that add or delete
  none: as long as the clock holds no time (it reads 0) nothing is called; the first round that
  sees a time \<open>t0\<close> calls nothing either; at the later rounds, which see \<open>ts\<close>, the timers
  that \<open>fires\<close> names are called back in the order they were added. A call of a timer comes at
  least its period after \<open>t0\<close> and after each earlier call of it, and at every round less than
  its period has gone by since its last call (or \<open>t0\<close>), that of the same round included.
\<close>

theorem timers_keep_period:
  assumes "readings es clock = replicate n 0 @ t0 # ts" "t0 \<noteq> 0"
    and "tm_last_thread_time tm = 0" "\<forall>x\<in>set (tm_vector tm). 0 < ti_timeout x"
  shows "(\<exists>clock' tm'. timer_run call_log es clock tm [] = Inr (clock', tm', concat (map (\<lambda>j.
      map (\<lambda>x. (ti_callback x, ti_timerid x)) (filter (\<lambda>x. fires (ti_timeout x) t0 ts ! j) (tm_vector tm))) [0..<length ts]))) \<and>
    (\<forall>x\<in>set (tm_vector tm). \<forall>j<length ts.
      (fires (ti_timeout x) t0 ts ! j \<longrightarrow> ti_timeout x \<le> ts ! j - t0 \<and>
        (\<forall>i<j. fires (ti_timeout x) t0 ts ! i \<longrightarrow> ti_timeout x \<le> ts ! j - ts ! i)) \<and>
      ts ! j - last_call t0 ts (fires (ti_timeout x) t0 ts) j < ti_timeout x)"
proof
  obtain tm1 where tm1: "rounds_at call_log (readings es clock) tm [] = rounds_at call_log (t0 # ts) tm1 []"
    "tm_last_thread_time tm1 = 0"
    "map (\<lambda>x. x\<lparr>ti_last_signal_time := 0\<rparr>) (tm_vector tm1) = map (\<lambda>x. x\<lparr>ti_last_signal_time := 0\<rparr>) (tm_vector tm)"
    using rounds_without_time[OF assms(3), of n "t0 # ts" "[]"] unfolding assms(1) by blast
  let ?set = "map (\<lambda>x. x\<lparr>ti_last_signal_time := t0\<rparr>)"
  have "?set (tm_vector tm1) = ?set (map (\<lambda>x. x\<lparr>ti_last_signal_time := 0\<rparr>) (tm_vector tm1))" by simp
  then have v: "?set (tm_vector tm1) = ?set (tm_vector tm)" by (simp add: tm1(3))
  let ?tm = "tm1\<lparr>tm_last_thread_time := t0, tm_vector := ?set (tm_vector tm)\<rparr>"
  have "rounds_at call_log (t0 # ts) tm1 [] = rounds_at call_log ts ?tm []"
    using tm1(2) by (simp add: check_timeout_def v)
  moreover have "calls_at ts (?set (tm_vector tm)) =
      (\<lambda>j. map (\<lambda>x. (ti_callback x, ti_timerid x)) (filter (\<lambda>x. fires (ti_timeout x) t0 ts ! j) (tm_vector tm)))"
    by (rule ext) (simp add: calls_at_def filter_map comp_def)
  ultimately show "\<exists>clock' tm'. timer_run call_log es clock tm [] = Inr (clock', tm', concat (map (\<lambda>j.
      map (\<lambda>x. (ti_callback x, ti_timerid x)) (filter (\<lambda>x. fires (ti_timeout x) t0 ts ! j) (tm_vector tm))) [0..<length ts]))"
    using rounds_log[of ?tm ts "[]"] assms(2) tm1(1) timer_run_rounds[of call_log es clock tm "[]"] by auto
qed (use assms(4) fires_after fires_apart fires_recent in \<open>auto dest: bspec\<close>)

text \<open>
  The two timers of a super peer: before the first refresh the thread reads the clock itself,
  then the server refreshes it three times.
\<close>

lemma timers_keep_period_witness:
  "\<exists>clock tm. timer_run call_log [Timer_Tick None, Timer_Tick (Some (1, 0)), Timer_Tick None, Server_Tick (Some (2, 100000)),
       Timer_Tick None, Timer_Tick None, Server_Tick (Some (2, 900000)), Timer_Tick None, Server_Tick (Some (51, 0)), Timer_Tick None]
     SystemTime_new \<lparr>tm_thread_start_flag = True, tm_last_thread_time = 0, tm_vector =
       [\<lparr>ti_timeout = 1000, ti_timerid = 0, ti_last_signal_time = 0, ti_callback = ()\<rparr>,
        \<lparr>ti_timeout = 50000, ti_timerid = 1, ti_last_signal_time = 0, ti_callback = ()\<rparr>]\<rparr> [] =
   Inr (clock, tm, [((), 0), ((), 0), ((), 1)])"
proof -
  let ?es = "[Timer_Tick None, Timer_Tick (Some (1, 0)), Timer_Tick None, Server_Tick (Some (2, 100000)),
       Timer_Tick None, Timer_Tick None, Server_Tick (Some (2, 900000)), Timer_Tick None, Server_Tick (Some (51, 0)), Timer_Tick None]"
  have "readings ?es SystemTime_new = replicate 1 0 @ 1000 # [1000, 2100, 2100, 2900, 51000]"
    by (simp add: get_system_time_ms_def update_system_time_ms_def SystemTime_new_def)
  from timers_keep_period[OF this, of "\<lparr>tm_thread_start_flag = True, tm_last_thread_time = 0, tm_vector =
       [\<lparr>ti_timeout = 1000, ti_timerid = 0, ti_last_signal_time = 0, ti_callback = ()\<rparr>,
        \<lparr>ti_timeout = 50000, ti_timerid = 1, ti_last_signal_time = 0, ti_callback = ()\<rparr>]\<rparr>"]
  show ?thesis by (simp add: upt_rec)
qed

section \<open>Edge cases\<close>

text \<open>A timer added after the first round is called back at the next one.\<close>

lemma late_timer_fires_at_once:
  assumes "add_timer timeout timerid (Some cb) tm = Inr tm'" "tm_last_thread_time tm \<noteq> 0" "timeout \<le> t"
  shows "\<exists>tm'' calls. check_timeout call_log t tm' [] = Inr (tm'', calls @ [(cb, timerid)])"
  using assms by (auto simp: add_timer_def check_timeout_def signal_timers_log)

text \<open>
  Deleting a timer that is there once removes it and keeps the order of the others; deleting
  one that is not there erases the end of the vector.
\<close>

lemma delete_timer_once:
  assumes "tm_vector tm = a @ x # b" "timer_item_eq x (\<lparr>ti_timeout = timeout, ti_timerid = timerid, ti_last_signal_time = 0, ti_callback = cb\<rparr>)"
    and "\<forall>y\<in>set (a @ b). \<not> timer_item_eq y x"
  shows "delete_timer timeout timerid cb tm = Inr (tm\<lparr>tm_vector := a @ b\<rparr>)"
proof -
  let ?i = "\<lparr>ti_timeout = timeout, ti_timerid = timerid, ti_last_signal_time = 0, ti_callback = cb\<rparr>"
  have "timer_item_eq y ?i \<longleftrightarrow> timer_item_eq y x" for y using assms(2) by (auto simp: timer_item_eq_def)
  then have "filter (\<lambda>x. \<not> timer_item_eq x ?i) (tm_vector tm) = a @ b"
    using assms by (auto simp: timer_item_eq_def)
  then have rem: "std_remove (\<lambda>x. timer_item_eq x ?i) (tm_vector tm) = ((a @ b) @ [last (x # b)], length (a @ b))"
    using assms(1) by (cases b rule: rev_cases) (simp_all add: std_remove_def)
  show ?thesis unfolding delete_timer_def Let_def rem by simp
qed

lemma delete_timer_missing:
  "\<forall>y\<in>set (tm_vector tm). \<not> timer_item_eq y (\<lparr>ti_timeout = timeout, ti_timerid = timerid, ti_last_signal_time = 0, ti_callback = cb\<rparr>) \<Longrightarrow>
   delete_timer timeout timerid cb tm = Inl Out_Of_Bounds"
  by (simp add: delete_timer_def std_remove_def Let_def filter_id_conv[THEN iffD2])

end
