(* ===== verification/Sp_Client.thy ===== *)
theory Sp_Client
  imports Message_Stream Source_Props Messages_Sp Timer
begin

text \<open>
  \<open>protocol/sp/sp_tracker_connector.h\<close> and \<open>.cpp\<close>: the super peer's side of the protocol
  with the tracker. It registers until a welcome arrives, then announces its channels every
  second and asks for other super peers every 50 seconds.

  \<open>spc_recv_mem\<close> is the block of memory allocated for received packets, \<open>spc_recv_buf\<close> the
  offset the pointer \<open>recv_buf\<close> has in it. \<open>spc_sent\<close> collects the payloads handed to the
  socket; \<open>sce_write\<close> says what a write of them returns.
\<close>

abbreviation UDP_MAX_PACKET_SIZE :: nat where "UDP_MAX_PACKET_SIZE \<equiv> 65535"
abbreviation TRACKER_TIMEOUT :: int where "TRACKER_TIMEOUT \<equiv> 1000"
abbreviation TRACKER_GET_SP_LIST_TIMEOUT :: int where "TRACKER_GET_SP_LIST_TIMEOUT \<equiv> 50 * 1000"
abbreviation TRACKER_TIMER_ID :: int where "TRACKER_TIMER_ID \<equiv> 0"
abbreviation TRACKER_GET_SP_LIST_TIMER_ID :: int where "TRACKER_GET_SP_LIST_TIMER_ID \<equiv> 1"

record spc_env =
  sce_junk :: "nat \<Rightarrow> u8"
  sce_write :: "bytes \<Rightarrow> st_written"

record RsSpTrackerProtocol =
  spc_recv_mem :: bytes
  spc_recv_buf :: int
  spc_buf_size :: int
  spc_register_flag :: bool
  spc_io :: "RsSocket option"
  spc_sp_id :: bytes
  spc_sp_port :: u16
  spc_sent :: "bytes list"

definition RsSpTrackerProtocol_new :: "(nat \<Rightarrow> u8) \<Rightarrow> RsSpTrackerProtocol" where
  "RsSpTrackerProtocol_new junk = \<lparr>spc_recv_mem = map junk [0..<UDP_MAX_PACKET_SIZE], spc_recv_buf = 0,
     spc_buf_size = int UDP_MAX_PACKET_SIZE, spc_register_flag = False, spc_io = None,
     spc_sp_id = map junk [0..<UUID_LENGTH], spc_sp_port = 2222, spc_sent = []\<rparr>"

text \<open>\<open>connected\<close> is the result of \<open>socket_connect\<close>. The timers run whatever it is.\<close>

definition start_connect :: "int \<Rightarrow> 'cb \<Rightarrow> 'cb RsTimer \<Rightarrow> RsSpTrackerProtocol \<Rightarrow>
    (int \<times> 'cb RsTimer \<times> RsSpTrackerProtocol) res" where
  "start_connect connected this tm c =
     bindE (add_timer TRACKER_TIMEOUT TRACKER_TIMER_ID (Some this) tm) (\<lambda>tm.
     bindE (add_timer TRACKER_GET_SP_LIST_TIMEOUT TRACKER_GET_SP_LIST_TIMER_ID (Some this) tm) (\<lambda>tm.
     if connected = 0 then Inr (connected, tm, c\<lparr>spc_io := Some RsSocket_new\<rparr>)
     else Inr (connected, tm, c)))"

definition spc_write :: "spc_env \<Rightarrow> bytes \<Rightarrow> int \<Rightarrow> RsSpTrackerProtocol \<Rightarrow> RsSpTrackerProtocol res" where
  "spc_write env payload payload_nb c =
     (if payload_nb \<noteq> 0 then
        case spc_io c of None \<Rightarrow> Inl Null_Pointer
        | Some io \<Rightarrow>
            let (_, nsize, io) = socket_write (sce_write env payload) io
            in Inr (c\<lparr>spc_io := Some io, spc_sent := spc_sent c @ [payload]\<rparr>)
      else Inr c)"

definition spc_send_register :: "spc_env \<Rightarrow> RsSpTrackerProtocol \<Rightarrow> RsSpTrackerProtocol res" where
  "spc_send_register env c =
     (let register_msg = Sp2TsRegister_new\<lparr>register_service_port := spc_sp_port c\<rparr>
      in bindE (RsMessage_pack (sce_junk env) (Sp2TsRegister_reserve register_msg) (Sp2TsRegister_submsg register_msg))
           (\<lambda>(payload, payload_nb). spc_write env payload payload_nb c))"

definition status_info :: "source_status \<Rightarrow> resource_info" where
  "status_info st = \<lparr>res_md5 = take MD5_LEN (md5_hash (ss_chnl_hash st)), res_block_interval = ss_block_inter st\<rparr>"

definition spc_send_res_list :: "spc_env \<Rightarrow> RsSourceManager \<Rightarrow> RsSpTrackerProtocol \<Rightarrow> RsSpTrackerProtocol res" where
  "spc_send_res_list env mgr c =
     bindE (get_source_list mgr []) (\<lambda>source_list.
     let resource_count = word_of_nat (length source_list) :: u32
     in if resource_count = 0 then Inr c
        else
          bindE (guardE Out_Of_Bounds (length source_list \<le> unat resource_count)) (\<lambda>_.
          let res_list = \<lparr>reslist_uuid = spc_sp_id c, reslist_count = resource_count,
                reslist_info = map status_info source_list\<rparr>
          in bindE (RsMessage_pack (sce_junk env) (Sp2TsResList_reserve res_list) (Sp2TsResList_submsg res_list))
               (\<lambda>(payload, payload_nb). spc_write env payload payload_nb c)))"

definition spc_send_sp_list :: "spc_env \<Rightarrow> RsSpTrackerProtocol \<Rightarrow> RsSpTrackerProtocol res" where
  "spc_send_sp_list env c =
     (let sp_list = \<lparr>getsp_uuid = spc_sp_id c\<rparr>
      in bindE (RsMessage_pack (sce_junk env) (Sp2TsSpList_reserve sp_list) (Sp2TsSpList_submsg sp_list))
           (\<lambda>(payload, payload_nb). spc_write env payload payload_nb c))"

definition spc_get_welcome :: "bytes \<Rightarrow> int \<Rightarrow> RsSpTrackerProtocol \<Rightarrow> RsSpTrackerProtocol res" where
  "spc_get_welcome msg n c =
     bindE (Ts2SpWelcome_parse (initialize msg n)) (\<lambda>(welcome_msg, _).
     Inr (c\<lparr>spc_sp_id := welcome_uuid welcome_msg, spc_register_flag := True\<rparr>))"

definition spc_get_sp_list :: "RsSpTrackerProtocol \<Rightarrow> RsSpTrackerProtocol res" where
  "spc_get_sp_list c = Inr c"

definition spc_get_res_interval :: "spc_env \<Rightarrow> RsSourceManager \<Rightarrow> RsSpTrackerProtocol \<Rightarrow> RsSpTrackerProtocol res" where
  "spc_get_res_interval env mgr c =
     (if spc_register_flag c then spc_send_res_list env mgr c else spc_send_register env c)"

definition spc_dispatch :: "spc_env \<Rightarrow> RsSourceManager \<Rightarrow> u8 \<Rightarrow> bytes \<Rightarrow> int \<Rightarrow> RsSpTrackerProtocol \<Rightarrow> RsSpTrackerProtocol res" where
  "spc_dispatch env mgr msg_type msg msg_size c =
     (if msg_type \<in> {msg_code TS2SP_WELCOME, msg_code TS2SP_SP_LIST, msg_code TS2SP_GET_RES_LIST} then
        bindE (guardE Signed_Overflow (- int_max \<le> msg_size - 4)) (\<lambda>_.
        if msg_type = msg_code TS2SP_WELCOME then spc_get_welcome msg (msg_size - 5) c
        else if msg_type = msg_code TS2SP_SP_LIST then spc_get_sp_list c
        else spc_get_res_interval env mgr c)
      else Inr c)"

text \<open>
  One datagram, \<open>None\<close> when \<open>st_recvfrom\<close> fails. It is written to where \<open>recv_buf\<close> points,
  with the size of the whole block as its limit, and \<open>recv_buf\<close> is left behind the header.
\<close>

definition spc_loop :: "spc_env \<Rightarrow> bytes option \<Rightarrow> RsSourceManager \<Rightarrow> RsSpTrackerProtocol \<Rightarrow> (int \<times> RsSpTrackerProtocol) res" where
  "spc_loop env datagram mgr c =
     (case datagram of None \<Rightarrow> Inr (0, c)
      | Some bs \<Rightarrow>
          let bs = take (nat (spc_buf_size c)) bs; temp = spc_recv_buf c
          in if bs = [] then Inr (0, c)
             else
               bindE (guardE Out_Of_Bounds (0 \<le> temp \<and> temp + int (length bs) \<le> int (length (spc_recv_mem c)))) (\<lambda>_.
               let mem = take (nat temp) (spc_recv_mem c) @ bs @ drop (nat temp + length bs) (spc_recv_mem c)
               in bindE (peek_int mem temp) (\<lambda>msg_size.
                  bindE (peek_char mem (temp + 4)) (\<lambda>msg_type.
                  bindE (spc_dispatch env mgr msg_type (drop (nat (temp + 5)) mem) msg_size
                      (c\<lparr>spc_recv_mem := mem, spc_recv_buf := temp + 5\<rparr>)) (\<lambda>c. Inr (0, c))))))"

definition spc_handle_timeout :: "spc_env \<Rightarrow> RsSourceManager \<Rightarrow> int \<Rightarrow> RsSpTrackerProtocol \<Rightarrow> RsSpTrackerProtocol res" where
  "spc_handle_timeout env mgr timerid c =
     (if \<not> spc_register_flag c then spc_send_register env c
      else if timerid = TRACKER_TIMER_ID then spc_send_res_list env mgr c
      else if timerid = TRACKER_GET_SP_LIST_TIMER_ID then spc_send_sp_list env c
      else Inr c)"

section \<open>What the client sends\<close>

definition register_packet :: "u16 \<Rightarrow> bytes" where
  "register_packet port = packet SP2TS_REGISTER (Sp2TsRegister_content (Sp2TsRegister_new\<lparr>register_service_port := port\<rparr>))"

definition sent_one :: "spc_env \<Rightarrow> bytes \<Rightarrow> RsSocket \<Rightarrow> RsSpTrackerProtocol \<Rightarrow> RsSpTrackerProtocol" where
  "sent_one env payload io c =
     c\<lparr>spc_io := Some (snd (snd (socket_write (sce_write env payload) io))), spc_sent := spc_sent c @ [payload]\<rparr>"

lemma spc_write_one: "spc_io c = Some io \<Longrightarrow> n \<noteq> 0 \<Longrightarrow> spc_write env payload n c = Inr (sent_one env payload io c)"
  by (simp add: spc_write_def sent_one_def split: prod.splits)

lemma register_wf: "Sp2TsRegister_wf (Sp2TsRegister_new\<lparr>register_service_port := port\<rparr>)"
  by (simp add: Sp2TsRegister_wf_def Sp2TsRegister_new_def)

lemma spc_send_register_sends:
  "spc_send_register env c = (case spc_io c of None \<Rightarrow> Inl Null_Pointer
     | Some io \<Rightarrow> Inr (sent_one env (register_packet (spc_sp_port c)) io c))"
proof -
  let ?m = "Sp2TsRegister_new\<lparr>register_service_port := spc_sp_port c\<rparr>"
  have "Sp2TsRegister_reserve ?m \<noteq> 0" using sp2ts_register.reserve_exact[OF register_wf] by simp
  then show ?thesis
    using sp2ts_register.pack_packet[OF register_wf, of "sce_junk env"] spc_write_one[of c]
    by (auto simp: spc_send_register_def register_packet_def spc_write_def split: option.splits)
qed

text \<open>The channels and their rings: \<open>rings\<close> gives, per channel, the size and history of its ring.\<close>

definition channel_info :: "nat \<Rightarrow> bytes list \<Rightarrow> RsBufferQueue \<Rightarrow> resource_info" where
  "channel_info N h q = \<lparr>res_md5 = take MD5_LEN (md5_hash (bq_source_hash q)),
     res_block_interval = \<lparr>bi_start = word_of_nat (length h - N), bi_size = word_of_nat (min N (length h))\<rparr>\<rparr>"

definition channels_hold :: "RsSourceManager \<Rightarrow> (nat \<times> bytes list) list \<Rightarrow> bool" where
  "channels_hold mgr rings \<longleftrightarrow>
     list_all2 (\<lambda>(k, q) (N, h). ring_ok N h q \<and> length h < 2 ^ 31 \<and> MD5_LEN \<le> length (md5_hash (bq_source_hash q)))
       (sm_source_hashmap mgr) rings"

definition channel_infos :: "RsSourceManager \<Rightarrow> (nat \<times> bytes list) list \<Rightarrow> resource_info list" where
  "channel_infos mgr rings = map2 (\<lambda>(k, q) (N, h). channel_info N h q) (sm_source_hashmap mgr) rings"

lemma source_statuses_hold:
  assumes "list_all2 (\<lambda>(k, q) (N, h). ring_ok N h q \<and> length h < 2 ^ 31 \<and> MD5_LEN \<le> length (md5_hash (bq_source_hash q))) m rings"
  shows "\<exists>l. source_statuses m acc = Inr (acc @ l) \<and> map status_info l = map2 (\<lambda>(k, q) (N, h). channel_info N h q) m rings"
  using assms
proof (induction m rings arbitrary: acc rule: list_all2_induct)
  case (Cons kq m Nh rings)
  obtain k q N h where p: "kq = (k, q)" "Nh = (N, h)" by fastforce
  then have ring: "ring_ok N h q" "length h < 2 ^ 31" using Cons.hyps(1) by simp_all
  let ?st = "\<lparr>ss_chnl_hash = bq_source_hash q, ss_chnl_name = bq_source_name q, ss_created_time = bq_create_time q,
    ss_block_inter = \<lparr>bi_start = word_of_int (int (length h - N)), bi_size = word_of_int (int (length h) - int (length h - N))\<rparr>\<rparr>"
  have status: "queue_status q = Inr ?st"
    using interval_ring_ok[OF ring] by (simp add: queue_status_def)
  have "int (length h) - int (length h - N) = int (min N (length h))" by auto
  then have info: "status_info ?st = channel_info N h q" by (simp add: status_info_def channel_info_def)
  obtain l where "source_statuses m (acc @ [?st]) = Inr ((acc @ [?st]) @ l)"
    "map status_info l = map2 (\<lambda>(k, q) (N, h). channel_info N h q) m rings" using Cons.IH by blast
  then show ?case using status info by (intro exI[of _ "?st # l"]) (simp add: p)
qed simp

definition res_list_of :: "bytes \<Rightarrow> resource_info list \<Rightarrow> Sp2TsResList" where
  "res_list_of uuid infos = \<lparr>reslist_uuid = uuid, reslist_count = word_of_nat (length infos), reslist_info = infos\<rparr>"

lemma res_list_wf:
  assumes "channels_hold mgr rings" "length rings < 53687090" "length uuid = UUID_LENGTH"
  shows "Sp2TsResList_wf (res_list_of uuid (channel_infos mgr rings))"
proof -
  have len: "length (channel_infos mgr rings) = length rings"
    using list_all2_lengthD[OF assms(1)[unfolded channels_hold_def]] by (simp add: channel_infos_def)
  have "length (res_md5 r) = MD5_LEN" if "r \<in> set (channel_infos mgr rings)" for r
    using assms(1) that by (auto simp: channels_hold_def channel_infos_def list_all2_iff channel_info_def)
  moreover have "unat (word_of_nat (length rings) :: u32) = length rings"
    using assms(2) by (simp add: unsigned_of_nat take_bit_nat_eq_self)
  ultimately show ?thesis using assms(2,3) len by (simp add: Sp2TsResList_wf_def res_list_of_def)
qed

lemma spc_send_res_list_sends:
  assumes "channels_hold mgr rings" "rings \<noteq> []" "length rings < 53687090" "length (spc_sp_id c) = UUID_LENGTH" "spc_io c = Some io"
  shows "spc_send_res_list env mgr c = Inr (sent_one env
    (packet SP2TS_RES_LIST (Sp2TsResList_content (res_list_of (spc_sp_id c) (channel_infos mgr rings)))) io c)"
proof -
  let ?m = "res_list_of (spc_sp_id c) (channel_infos mgr rings)"
  obtain l where l: "get_source_list mgr [] = Inr l" "map status_info l = channel_infos mgr rings"
    using source_statuses_hold[OF assms(1)[unfolded channels_hold_def], of "[]"]
    by (auto simp: get_source_list_def channel_infos_def)
  have len: "length l = length rings" "length (channel_infos mgr rings) = length rings"
    using arg_cong[OF l(2), of length] list_all2_lengthD[OF assms(1)[unfolded channels_hold_def]]
    by (simp_all add: channel_infos_def)
  have count: "unat (word_of_nat (length rings) :: u32) = length rings"
    using assms(3) by (simp add: unsigned_of_nat take_bit_nat_eq_self)
  then have nz: "(word_of_nat (length rings) :: u32) \<noteq> 0" using assms(2) by (metis length_0_conv unsigned_0)
  have wf: "Sp2TsResList_wf ?m" by (rule res_list_wf[OF assms(1,3,4)])
  then have "Sp2TsResList_reserve ?m \<noteq> 0" using sp2ts_res_list.reserve_exact[OF wf] by simp
  then show ?thesis
    using sp2ts_res_list.pack_packet[OF wf, of "sce_junk env"] spc_write_one[OF assms(5)] nz count len l
    by (simp add: spc_send_res_list_def res_list_of_def Let_def)
qed

section \<open>The receive buffer\<close>

definition client_ok :: "RsSpTrackerProtocol \<Rightarrow> bool" where
  "client_ok c \<longleftrightarrow> spc_buf_size c = int UDP_MAX_PACKET_SIZE \<and> length (spc_recv_mem c) = UDP_MAX_PACKET_SIZE \<and> 0 \<le> spc_recv_buf c"

definition same_buffer :: "RsSpTrackerProtocol \<Rightarrow> RsSpTrackerProtocol \<Rightarrow> bool" where
  "same_buffer c c' \<longleftrightarrow> spc_recv_mem c' = spc_recv_mem c \<and> spc_recv_buf c' = spc_recv_buf c \<and> spc_buf_size c' = spc_buf_size c"

lemma same_buffer_refl [simp]: "same_buffer c c"
  by (simp add: same_buffer_def)

lemma spc_write_keeps: "spc_write env payload n c = Inr c' \<Longrightarrow> same_buffer c c'"
  by (auto simp: spc_write_def same_buffer_def split: if_splits option.splits prod.splits)

lemma spc_handlers_keep:
  "spc_send_register env c = Inr c' \<Longrightarrow> same_buffer c c'"
  "spc_send_res_list env mgr c = Inr c' \<Longrightarrow> same_buffer c c'"
  "spc_get_welcome msg n c = Inr c' \<Longrightarrow> same_buffer c c'"
  by (auto simp: spc_send_register_def spc_send_res_list_def spc_get_welcome_def Let_def
      res_invert same_buffer_def[of c "c\<lparr>spc_sp_id := _, spc_register_flag := _\<rparr>"] dest: spc_write_keeps split: if_splits)

lemma spc_dispatch_keeps: "spc_dispatch env mgr msg_type msg n c = Inr c' \<Longrightarrow> same_buffer c c'"
  by (auto simp: spc_dispatch_def spc_get_sp_list_def spc_get_res_interval_def res_invert
      dest: spc_handlers_keep split: if_splits)

text \<open>A packet of the protocol that fits behind \<open>recv_buf\<close> reaches its handler.\<close>

lemma spc_loop_packet:
  assumes "client_ok c" "spc_recv_buf c + int (length (packet tag content)) \<le> int UDP_MAX_PACKET_SIZE"
  shows "\<exists>mem rest. length mem = UDP_MAX_PACKET_SIZE \<and> spc_loop env (Some (packet tag content)) mgr c =
    bindE (spc_dispatch env mgr (msg_code tag) (content @ rest) (5 + int (length content))
        (c\<lparr>spc_recv_mem := mem, spc_recv_buf := spc_recv_buf c + 5\<rparr>)) (\<lambda>c. Inr (0, c))"
proof -
  let ?bs = "packet tag content"
  obtain off where off: "spc_recv_buf c = int off" using assms(1) by (auto simp: client_ok_def elim: nonneg_int_cases)
  define rest where "rest = drop (off + length ?bs) (spc_recv_mem c)"
  define mem where "mem = take off (spc_recv_mem c) @ ?bs @ rest"
  have len: "length ?bs = 5 + length content" by (simp add: packet_def)
  have p: "spc_recv_buf c = int off" "off + length ?bs \<le> UDP_MAX_PACKET_SIZE" using assms(2) off by simp_all
  have sizes: "length (spc_recv_mem c) = UDP_MAX_PACKET_SIZE" "spc_buf_size c = int UDP_MAX_PACKET_SIZE"
    using assms(1) by (simp_all add: client_ok_def)
  have mem: "length mem = UDP_MAX_PACKET_SIZE" using p(2) sizes by (simp add: mem_def rest_def)
  have at: "drop off mem = ?bs @ rest" using p(2) sizes by (simp add: mem_def)
  have peeks: "peek mem (int off + int k) m = Inr (take m (drop k (?bs @ rest)))" if "k + m \<le> length ?bs" for k m
  proof -
    have "drop (off + k) mem = drop k (?bs @ rest)" using at by (metis add.commute drop_drop)
    then show ?thesis using that p(2) mem by (simp add: peek_def nat_add_distrib)
  qed
  have small: "5 + int (length content) < 2 ^ 31" using p(2) len by simp
  have size: "peek_int mem (int off) = Inr (5 + int (length content))"
    using peeks[of 0 4] len packet_size[OF small] packet_head(1)[of tag content rest] by (simp add: peek_int_def)
  have type: "peek_char mem (int off + 4) = Inr (msg_code tag)"
    using peeks[of 4 1] len packet_head(3)[of tag content rest]
    by (simp add: peek_char_def packet_def)
  have msg: "drop (nat (int off + 5)) mem = content @ rest"
    using arg_cong[OF at, of "drop 5"] packet_head(2)[of tag content rest] by (simp add: nat_add_distrib add.commute)
  have bs: "take (nat (spc_buf_size c)) ?bs = ?bs" using p(2) sizes len by simp
  have ne: "?bs \<noteq> []" by (simp add: packet_def)
  have "spc_loop env (Some ?bs) mgr c = bindE (spc_dispatch env mgr (msg_code tag) (content @ rest) (5 + int (length content))
        (c\<lparr>spc_recv_mem := mem, spc_recv_buf := int off + 5\<rparr>)) (\<lambda>c. Inr (0, c))"
    unfolding spc_loop_def option.case bs Let_def p(1) nat_int rest_def[symmetric] mem_def[symmetric] size type msg
    using ne p(2) sizes(1) by simp
  then show ?thesis using mem p(1) by auto
qed

text \<open>Whatever a datagram holds: if the round returns, five more bytes of the block are gone.\<close>

lemma spc_loop_consumes:
  assumes "client_ok c" "bs \<noteq> []" "spc_loop env (Some bs) mgr c = Inr (ret, c')"
  shows "client_ok c'" "spc_recv_buf c' = spc_recv_buf c + 5" "spc_recv_buf c' \<le> int UDP_MAX_PACKET_SIZE"
proof -
  define bs' where "bs' = take (nat (spc_buf_size c)) bs"
  define mem where "mem = take (nat (spc_recv_buf c)) (spc_recv_mem c) @ bs' @ drop (nat (spc_recv_buf c) + length bs') (spc_recv_mem c)"
  let ?c = "c\<lparr>spc_recv_mem := mem, spc_recv_buf := spc_recv_buf c + 5\<rparr>"
  have "bs' \<noteq> []" using assms(1,2) by (simp add: bs'_def client_ok_def)
  then have "bindE (guardE Out_Of_Bounds (0 \<le> spc_recv_buf c \<and> spc_recv_buf c + int (length bs') \<le> int (length (spc_recv_mem c)))) (\<lambda>_.
      bindE (peek_int mem (spc_recv_buf c)) (\<lambda>msg_size. bindE (peek_char mem (spc_recv_buf c + 4)) (\<lambda>msg_type.
      bindE (spc_dispatch env mgr msg_type (drop (nat (spc_recv_buf c + 5)) mem) msg_size ?c) (\<lambda>c. Inr (0, c))))) = Inr (ret, c')"
    using assms(3) unfolding spc_loop_def option.case Let_def bs'_def[symmetric] mem_def[symmetric] by simp
  then obtain msg_size msg_type where
    r: "spc_recv_buf c + int (length bs') \<le> int (length (spc_recv_mem c))" "peek_char mem (spc_recv_buf c + 4) = Inr msg_type"
      "spc_dispatch env mgr msg_type (drop (nat (spc_recv_buf c + 5)) mem) msg_size ?c = Inr c'"
    by (auto simp: res_invert)
  have "0 \<le> spc_recv_buf c" "length (spc_recv_mem c) = UDP_MAX_PACKET_SIZE" using assms(1) by (simp_all add: client_ok_def)
  moreover from this have "nat (spc_recv_buf c) + length bs' \<le> UDP_MAX_PACKET_SIZE" using r(1) by linarith
  ultimately have len: "length mem = UDP_MAX_PACKET_SIZE" by (simp add: mem_def)
  note keeps = spc_dispatch_keeps[OF r(3)]
  show "client_ok c'" "spc_recv_buf c' = spc_recv_buf c + 5" using keeps len assms(1) by (simp_all add: same_buffer_def client_ok_def)
  then show "spc_recv_buf c' \<le> int UDP_MAX_PACKET_SIZE"
    using r(2) len by (auto simp: peek_char_def peek_def res_invert)
qed

text \<open>The rounds for a list of datagrams, and a connected client at the start.\<close>

fun spc_rounds :: "spc_env \<Rightarrow> RsSourceManager \<Rightarrow> bytes list \<Rightarrow> RsSpTrackerProtocol \<Rightarrow> RsSpTrackerProtocol res" where
  "spc_rounds env mgr [] c = Inr c"
| "spc_rounds env mgr (bs # datagrams) c =
     bindE (spc_loop env (Some bs) mgr c) (\<lambda>(_, c). spc_rounds env mgr datagrams c)"

definition connected_client :: "(nat \<Rightarrow> u8) \<Rightarrow> RsSpTrackerProtocol" where
  "connected_client junk = (RsSpTrackerProtocol_new junk)\<lparr>spc_io := Some RsSocket_new\<rparr>"

lemma spc_rounds_consume:
  "client_ok c \<Longrightarrow> [] \<notin> set datagrams \<Longrightarrow> spc_rounds env mgr datagrams c = Inr c' \<Longrightarrow>
   spc_recv_buf c \<le> int UDP_MAX_PACKET_SIZE \<Longrightarrow>
   spc_recv_buf c' = spc_recv_buf c + 5 * int (length datagrams) \<and> spc_recv_buf c' \<le> int UDP_MAX_PACKET_SIZE"
proof (induction datagrams arbitrary: c)
  case (Cons bs datagrams)
  then obtain ret c1 where "spc_loop env (Some bs) mgr c = Inr (ret, c1)" "spc_rounds env mgr datagrams c1 = Inr c'"
    by (auto simp: res_invert)
  then show ?case
    using Cons.IH[of c1] spc_loop_consumes[of c bs env mgr ret c1] Cons.prems by auto
qed simp

definition request_packet :: bytes where
  "request_packet = packet TS2SP_GET_RES_LIST []"

lemma spc_rounds_requests:
  "client_ok c \<Longrightarrow> \<not> spc_register_flag c \<Longrightarrow> spc_io c \<noteq> None \<Longrightarrow>
   spc_recv_buf c + 5 * int k \<le> int UDP_MAX_PACKET_SIZE \<Longrightarrow>
   \<exists>c'. spc_rounds env mgr (replicate k request_packet) c = Inr c' \<and>
     spc_sent c' = spc_sent c @ replicate k (register_packet (spc_sp_port c))"
proof (induction k arbitrary: c)
  case (Suc k)
  obtain io where io: "spc_io c = Some io" using Suc.prems(3) by blast
  have fits: "spc_recv_buf c + int (length (packet TS2SP_GET_RES_LIST [])) \<le> int UDP_MAX_PACKET_SIZE"
    using Suc.prems(4) by (simp add: packet_def)
  obtain mem rest where mem: "length mem = UDP_MAX_PACKET_SIZE"
    "spc_loop env (Some request_packet) mgr c = bindE (spc_dispatch env mgr (msg_code TS2SP_GET_RES_LIST) ([] @ rest) (5 + int (length ([] :: bytes)))
        (c\<lparr>spc_recv_mem := mem, spc_recv_buf := spc_recv_buf c + 5\<rparr>)) (\<lambda>c. Inr (0, c))"
    using spc_loop_packet[OF Suc.prems(1) fits, of env mgr] unfolding request_packet_def by blast
  let ?c = "c\<lparr>spc_recv_mem := mem, spc_recv_buf := spc_recv_buf c + 5\<rparr>"
  let ?c1 = "sent_one env (register_packet (spc_sp_port c)) io ?c"
  have one: "spc_loop env (Some request_packet) mgr c = Inr (0, ?c1)"
    using mem(2) Suc.prems(2) io
    by (simp add: spc_dispatch_def msg_code_inj spc_get_res_interval_def spc_send_register_sends)
  have "client_ok ?c1" "\<not> spc_register_flag ?c1" "spc_io ?c1 \<noteq> None" "spc_recv_buf ?c1 + 5 * int k \<le> int UDP_MAX_PACKET_SIZE"
    "spc_sent ?c1 = spc_sent c @ [register_packet (spc_sp_port c)]" "spc_sp_port ?c1 = spc_sp_port c"
    using Suc.prems mem(1) by (simp_all add: sent_one_def client_ok_def)
  then show ?case using one Suc.IH[of ?c1] by auto
qed simp

text \<open>
  C33. \<open>recv_buf\<close> is moved by each packet and never moved back: a client whose rounds all
  return has read at most 13,107 datagrams, whatever they hold and however short they are;
  up to that number it answers each request of the tracker, and the next one is outside its
  buffer.
\<close>

theorem receive_buffer_consumed:
  "(\<forall>datagrams c. [] \<notin> set datagrams \<longrightarrow> spc_rounds env mgr datagrams (connected_client junk) = Inr c \<longrightarrow>
      spc_recv_buf c = 5 * int (length datagrams) \<and> length datagrams \<le> 13107) \<and>
   (\<forall>k. k \<le> 13107 \<longrightarrow> (\<exists>c. spc_rounds env mgr (replicate k request_packet) (connected_client junk) = Inr c \<and>
      spc_sent c = replicate k (register_packet 2222))) \<and>
   \<not> (\<exists>c. spc_rounds env mgr (replicate 13108 request_packet) (connected_client junk) = Inr c)"
proof (intro conjI allI impI notI)
  have ok: "client_ok (connected_client junk)" "spc_recv_buf (connected_client junk) = 0" "spc_io (connected_client junk) \<noteq> None"
    "\<not> spc_register_flag (connected_client junk)" "spc_sent (connected_client junk) = []" "spc_sp_port (connected_client junk) = 2222"
    by (simp_all add: connected_client_def RsSpTrackerProtocol_new_def client_ok_def)
  have bound: "spc_recv_buf c = 5 * int (length datagrams) \<and> length datagrams \<le> 13107"
    if "[] \<notin> set datagrams" "spc_rounds env mgr datagrams (connected_client junk) = Inr c" for datagrams c
    using spc_rounds_consume[OF ok(1) that] ok(2) by auto
  show "spc_recv_buf c = 5 * int (length datagrams)" "length datagrams \<le> 13107"
    if "[] \<notin> set datagrams" "spc_rounds env mgr datagrams (connected_client junk) = Inr c" for datagrams c
    using bound[OF that] by simp_all
  show "\<exists>c. spc_rounds env mgr (replicate k request_packet) (connected_client junk) = Inr c \<and>
      spc_sent c = replicate k (register_packet 2222)" if "k \<le> 13107" for k
    using spc_rounds_requests[of "connected_client junk" k env mgr] ok that by simp
  have ne: "[] \<notin> set (replicate 13108 request_packet)" by (simp add: request_packet_def packet_def)
  show False if many: "\<exists>c. spc_rounds env mgr (replicate 13108 request_packet) (connected_client junk) = Inr c"
  proof -
    obtain c where "spc_rounds env mgr (replicate 13108 request_packet) (connected_client junk) = Inr c" using many by blast
    from bound[OF ne this] show False unfolding length_replicate by simp
  qed
qed

lemma receive_buffer_consumed_witness:
  "\<exists>c. spc_rounds \<lparr>sce_junk = \<lambda>_. 0, sce_write = \<lambda>bs. Wrote (length bs)\<rparr> RsSourceManager_new
      (replicate 3 request_packet) (connected_client (\<lambda>_. 0)) = Inr c \<and>
    spc_sent c = replicate 3 (register_packet 2222)"
  using receive_buffer_consumed[of "\<lparr>sce_junk = \<lambda>_. 0, sce_write = \<lambda>bs. Wrote (length bs)\<rparr>" RsSourceManager_new "\<lambda>_. 0"]
  by (elim conjE) (erule allE[of _ 3], erule impE, simp)

end
