(* ===== verification/Sp_Tracker.thy ===== *)
theory Sp_Tracker
  imports Stream_Select Messages_Sp
begin

text \<open>
  \<open>protocol/tracker/tracker_sp_connector.h\<close> and \<open>.cpp\<close>: the tracker's side of the
  protocol with super peers. A UDP packet is dispatched on its type byte to a handler that
  parses it, updates the table of \<open>Stream_Manager\<close> and answers to the address the packet
  came from.

  The state is the table, the last sender and the packets sent so far. What a handler reads
  from outside is in \<open>env\<close>: the clock, the numbers \<open>rand()\<close> returns and the bytes of
  fresh buffers; a handler runs at one instant. \<open>buf\<close> is the memory from the start of the
  packet on: the receive buffer, which is longer than the packet. Replies go out through
  \<open>st_sendto\<close>, whose result is not used.

  The member \<open>io\<close> is built in the constructor from \<open>sp_fd\<close> before \<open>sp_fd\<close> has a value:
  writing through it is the fault \<open>Uninitialised\<close>. A function of non-void type that ends
  without \<open>return\<close> is taken to return a value that is not looked at.
\<close>

record env =
  e_now :: int
  e_rand :: "nat \<Rightarrow> nat"
  e_junk :: "nat \<Rightarrow> u8"

section \<open>The uuid\<close>

text \<open>\<open>sprintf\<close> into the \<open>UUID_LENGTH + 1\<close> bytes of a \<open>map_str\<close>.\<close>

definition generate_uuid :: "nat \<Rightarrow> nat \<Rightarrow> nat \<Rightarrow> nat \<Rightarrow> map_str res" where
  "generate_uuid r1 r2 r3 r4 =
     (let digits = format_04x r1 @ format_04x r2 @ format_04x r3 @ format_04x r4
      in bindE (guardE Out_Of_Bounds (length digits + 1 \<le> UUID_LENGTH + 1)) (\<lambda>_. Inr (digits @ [0])))"

section \<open>The connector\<close>

record RsSpTracker =
  spt_last_receive_addr :: NetAddress
  spt_mgr :: RsTrackerStreamManager
  spt_sent :: "(NetAddress \<times> bytes) list"

definition c_strncpy :: "nat \<Rightarrow> bytes \<Rightarrow> bytes" where
  "c_strncpy n src = (let s = takeWhile (\<lambda>c. c \<noteq> 0) (take n src) in s @ replicate (n - length s) 0)"

definition sp_send_buffer :: "bytes \<Rightarrow> int \<Rightarrow> RsSpTracker \<Rightarrow> RsSpTracker" where
  "sp_send_buffer buf n t =
     (if n \<noteq> 0 then t\<lparr>spt_sent := spt_sent t @ [(spt_last_receive_addr t, buf)]\<rparr> else t)"

definition sp_send_welcome :: "env \<Rightarrow> map_str \<Rightarrow> RsSpTracker \<Rightarrow> RsSpTracker res" where
  "sp_send_welcome env uuid t =
     (let welcome_msg = \<lparr>welcome_uuid = take UUID_LENGTH uuid\<rparr>
      in bindE (RsMessage_pack (e_junk env) (Ts2SpWelcome_reserve welcome_msg) (Ts2SpWelcome_submsg welcome_msg))
           (\<lambda>(payload, payload_nb). Inr (sp_send_buffer payload payload_nb t)))"

definition send_errormsg :: "RsSpTracker \<Rightarrow> RsSpTracker res" where
  "send_errormsg t = Inr t"

definition send_sp_list :: "env \<Rightarrow> map_str \<Rightarrow> RsSpTracker \<Rightarrow> RsSpTracker res" where
  "send_sp_list env uuid t =
     bindE (get_cp_address_others uuid (spt_mgr t)) (\<lambda>(count, spaddr).
     if count = 0 then Inr t
     else
       let sp_list = \<lparr>splist_count = word_of_nat count, splist_addr = spaddr\<rparr>
       in bindE (RsMessage_pack (e_junk env) (Ts2SpSpList_reserve sp_list) (Ts2SpSpList_submsg sp_list))
            (\<lambda>(payload, payload_nb). if payload_nb \<noteq> 0 then Inl Uninitialised else Inr t))"

definition get_register :: "env \<Rightarrow> bytes \<Rightarrow> int \<Rightarrow> RsSpTracker \<Rightarrow> RsSpTracker res" where
  "get_register env msg n t =
     bindE (Sp2TsRegister_parse (initialize msg n)) (\<lambda>(m, _).
     bindE (generate_uuid (e_rand env 0) (e_rand env 1) (e_rand env 2) (e_rand env 3)) (\<lambda>uuid.
     let pNode = (ChannelNode_new (e_now env) [])\<lparr>
           cn_userID := register_user_id m,
           cn_pswd := c_strncpy MD5_LEN (register_password m) @ [0],
           cn_servicePort := register_service_port m,
           cn_spAddress := \<lparr>sin_family = 0, sin_port = sin_port (spt_last_receive_addr t),
             s_addr = s_addr (spt_last_receive_addr t)\<rparr>,
           cn_spService := Some 0\<rparr>
     in bindE (insert_channel (e_now env) uuid pNode (spt_mgr t)) (\<lambda>mgr.
        sp_send_welcome env uuid (t\<lparr>spt_mgr := mgr\<rparr>))))"

definition hash_of_info :: "resource_info \<Rightarrow> MD5_Hash_Str" where
  "hash_of_info r = \<lparr>md5_hash = res_md5 r @ [0], md5_interval = res_block_interval r\<rparr>"

definition get_res_list :: "env \<Rightarrow> bytes \<Rightarrow> int \<Rightarrow> RsSpTracker \<Rightarrow> RsSpTracker res" where
  "get_res_list env msg n t =
     bindE (Sp2TsResList_parse (initialize msg n)) (\<lambda>(m, _).
     let uuid = reslist_uuid m @ [0]
     in bindE (get_channel (e_now env) uuid (spt_mgr t)) (\<lambda>found.
     case found of None \<Rightarrow> send_errormsg t
     | Some node \<Rightarrow>
         let pNode = node\<lparr>cn_last_recv_report_time := e_now env, cn_resourceCount := reslist_count m,
               cn_pHash := map hash_of_info (take (unat (reslist_count m)) (reslist_info m))\<rparr>
         in bindE (insert_channel (e_now env) uuid pNode (spt_mgr t)) (\<lambda>mgr. Inr (t\<lparr>spt_mgr := mgr\<rparr>))))"

definition get_sp_list :: "env \<Rightarrow> bytes \<Rightarrow> int \<Rightarrow> RsSpTracker \<Rightarrow> RsSpTracker res" where
  "get_sp_list env msg n t =
     bindE (Sp2TsSpList_parse (initialize msg n)) (\<lambda>(m, _). send_sp_list env (getsp_uuid m @ [0]) t)"

text \<open>\<open>get_status\<close> changes the count of resources and leaves the array of hashes as it is.\<close>

definition get_status :: "env \<Rightarrow> bytes \<Rightarrow> int \<Rightarrow> RsSpTracker \<Rightarrow> RsSpTracker res" where
  "get_status env msg n t =
     bindE (Sp2TsStatus_parse (initialize msg n)) (\<lambda>(m, _).
     let uuid = status_uuid m @ [0]
     in bindE (get_channel (e_now env) uuid (spt_mgr t)) (\<lambda>found.
     case found of None \<Rightarrow> send_errormsg t
     | Some node \<Rightarrow>
         let pNode = node\<lparr>cn_last_recv_report_time := e_now env,
               cn_resourceCount := status_resource_count m, cn_conNum := status_connection_num m,
               cn_bandwidth := status_bandwidth m, cn_exceedMaxConn := (status_exceed_max_connection m \<noteq> 0)\<rparr>
         in bindE (insert_channel (e_now env) uuid pNode (spt_mgr t)) (\<lambda>mgr. Inr (t\<lparr>spt_mgr := mgr\<rparr>))))"

definition get_logout :: "bytes \<Rightarrow> int \<Rightarrow> RsSpTracker \<Rightarrow> RsSpTracker res" where
  "get_logout msg n t = bindE (Sp2TsLogout_parse (initialize msg n)) (\<lambda>_. Inr t)"

text \<open>The type byte is a \<open>char\<close>; the dispatch for \<open>SP2TS_LOGOUT\<close> is empty.\<close>

definition sp_handle_udp_packet :: "env \<Rightarrow> NetAddress \<Rightarrow> bytes \<Rightarrow> int \<Rightarrow> RsSpTracker \<Rightarrow> (int \<times> RsSpTracker) res" where
  "sp_handle_udp_packet env fromaddr buf nb_buf t =
     (if nb_buf = 0 then Inr (-1, t)
      else
        let t = t\<lparr>spt_last_receive_addr := fromaddr\<rparr>
        in bindE (guardE Out_Of_Bounds (5 \<le> length buf)) (\<lambda>_.
           let msg_size = sint (dec (take 4 buf) :: u32); msg_type = buf ! 4;
               msg = drop 5 buf; sz = msg_size - 5
           in bindE
             (if msg_type = msg_code SP2TS_REGISTER then get_register env msg sz t
              else if msg_type = msg_code SP2TS_STATUS then get_status env msg sz t
              else if msg_type = msg_code SP2TS_RES_LIST then get_res_list env msg sz t
              else if msg_type = msg_code SP2TS_GET_SP then get_sp_list env msg sz t
              else Inr t)
             (\<lambda>t. Inr (0, t))))"

section \<open>The uuid fits only four small numbers\<close>

lemma generate_uuid_iff:
  "generate_uuid r1 r2 r3 r4 =
    (if r1 < 65536 \<and> r2 < 65536 \<and> r3 < 65536 \<and> r4 < 65536
     then Inr (format_04x r1 @ format_04x r2 @ format_04x r3 @ format_04x r4 @ [0]) else Inl Out_Of_Bounds)"
proof -
  let ?l = "\<lambda>r. length (format_04x r)"
  have "?l r1 + (?l r2 + (?l r3 + ?l r4)) \<le> 16 \<longleftrightarrow> ?l r1 = 4 \<and> ?l r2 = 4 \<and> ?l r3 = 4 \<and> ?l r4 = 4"
    using length_format_04x(1)[of r1] length_format_04x(1)[of r2] length_format_04x(1)[of r3]
      length_format_04x(1)[of r4] by linarith
  then show ?thesis
    using length_format_04x(2) by (simp add: generate_uuid_def Let_def guardE_def)
qed

lemma generate_uuid_length: "generate_uuid r1 r2 r3 r4 = Inr uuid \<Longrightarrow> length uuid = UUID_LENGTH + 1"
  by (auto simp: generate_uuid_iff length_format_04x(2)[THEN iffD2] split: if_splits)

lemma all_less_4: "(\<forall>i<4. P i) \<longleftrightarrow> P 0 \<and> P 1 \<and> P 2 \<and> P (3 :: nat)"
  by (auto simp: numeral_eq_Suc less_Suc_eq)

text \<open>The uuid made of four random numbers: four hexadecimal digits of each, and a zero.\<close>

definition uuid_of :: "(nat \<Rightarrow> nat) \<Rightarrow> map_str" where
  "uuid_of rand = format_04x (rand 0) @ format_04x (rand 1) @ format_04x (rand 2) @ format_04x (rand 3) @ [0]"

lemma generate_uuid_of:
  "generate_uuid (r 0) (r 1) (r 2) (r 3) = (if \<forall>i<4. r i < 65536 then Inr (uuid_of r) else Inl Out_Of_Bounds)"
  unfolding generate_uuid_iff all_less_4 uuid_of_def by simp

section \<open>The handlers on packets of the protocol\<close>

lemma sp_dispatch:
  assumes "nb \<noteq> 0" "5 + int (length c) < 2 ^ 31"
  shows "sp_handle_udp_packet env fromaddr (packet tag c @ rest) nb t =
    (let t = t\<lparr>spt_last_receive_addr := fromaddr\<rparr>; msg = c @ rest; sz = int (length c)
     in bindE (if tag = SP2TS_REGISTER then get_register env msg sz t
               else if tag = SP2TS_STATUS then get_status env msg sz t
               else if tag = SP2TS_RES_LIST then get_res_list env msg sz t
               else if tag = SP2TS_GET_SP then get_sp_list env msg sz t
               else Inr t) (\<lambda>t. Inr (0, t)))"
  unfolding sp_handle_udp_packet_def Let_def packet_head packet_size[OF assms(2)] msg_code_inj
    guardE_True[OF packet_head(4)] bindE_Inr
  using assms(1) by simp

lemma sp_send_welcome_packet:
  assumes "UUID_LENGTH \<le> length uuid"
  shows "sp_send_welcome env uuid t =
    Inr (t\<lparr>spt_sent := spt_sent t @ [(spt_last_receive_addr t, packet TS2SP_WELCOME (take UUID_LENGTH uuid))]\<rparr>)"
proof -
  have "Ts2SpWelcome_wf \<lparr>welcome_uuid = take UUID_LENGTH uuid\<rparr>"
    using assms by (simp add: Ts2SpWelcome_wf_def)
  then show ?thesis
    using ts2spwelcome.pack_packet[of "\<lparr>welcome_uuid = take UUID_LENGTH uuid\<rparr>" "e_junk env"]
    by (simp add: sp_send_welcome_def sp_send_buffer_def Ts2SpWelcome_reserve_def RsMessage_reserve_pack_size_def)
qed

text \<open>The node a registration makes.\<close>

definition registered_node :: "int \<Rightarrow> NetAddress \<Rightarrow> Sp2TsRegister \<Rightarrow> ChannelNode" where
  "registered_node now fromaddr m = (ChannelNode_new now [])\<lparr>
     cn_userID := register_user_id m, cn_pswd := c_strncpy MD5_LEN (register_password m) @ [0],
     cn_servicePort := register_service_port m,
     cn_spAddress := \<lparr>sin_family = 0, sin_port = sin_port fromaddr, s_addr = s_addr fromaddr\<rparr>,
     cn_spService := Some 0\<rparr>"

lemma registered_node_ok [simp]: "node_ok (registered_node now fromaddr m)"
  by (simp add: node_ok_def registered_node_def ChannelNode_new_def)

lemma registered_node_time [simp]:
  "registered_node now fromaddr m\<lparr>cn_last_recv_report_time := now\<rparr> = registered_node now fromaddr m"
  by (simp add: registered_node_def ChannelNode_new_def)

lemma get_register_packet:
  assumes "Sp2TsRegister_wf m" "table_ok (spt_mgr t)" "generate_uuid (e_rand env 0) (e_rand env 1) (e_rand env 2) (e_rand env 3) = Inr uuid"
  shows "\<exists>mgr. get_register env (Sp2TsRegister_content m @ rest) (int (length (Sp2TsRegister_content m))) t =
      Inr (t\<lparr>spt_mgr := mgr, spt_sent := spt_sent t @
        [(spt_last_receive_addr t, packet TS2SP_WELCOME (take UUID_LENGTH uuid))]\<rparr>) \<and> table_ok mgr \<and>
    (\<forall>u. registered u mgr = (if key_equiv map_str_lt u uuid
       then Some (registered_node (e_now env) (spt_last_receive_addr t) m) else registered u (spt_mgr t)))"
proof -
  let ?n = "int (length (Sp2TsRegister_content m))"
  let ?s = "initialize (Sp2TsRegister_content m @ rest) ?n"
  have parse: "Sp2TsRegister_parse ?s = Inr (m, adv (length (Sp2TsRegister_content m)) ?s)"
    using sp2ts_register.parse_content[OF assms(1), where post = "[]"] by simp
  have uuid: "UUID_LENGTH \<le> length uuid"
    using generate_uuid_length[OF assms(3)] by simp
  obtain mgr where mgr: "insert_channel (e_now env) uuid (registered_node (e_now env) (spt_last_receive_addr t) m) (spt_mgr t) = Inr mgr"
    "table_ok mgr" "\<forall>u. registered u mgr = (if key_equiv map_str_lt u uuid
       then Some (registered_node (e_now env) (spt_last_receive_addr t) m) else registered u (spt_mgr t))"
    using insert_channel_ok[OF assms(2) registered_node_ok] by (metis registered_node_time)
  have "get_register env (Sp2TsRegister_content m @ rest) ?n t = sp_send_welcome env uuid (t\<lparr>spt_mgr := mgr\<rparr>)"
    using mgr(1) by (simp add: get_register_def parse assms(3) registered_node_def Let_def del: One_nat_def)
  then show ?thesis
    using mgr(2,3) by (intro exI[of _ mgr]) (simp add: sp_send_welcome_packet[OF uuid])
qed

lemma insert_existing:
  assumes "table_ok mgr" "node_ok n"
  obtains mgr' where "insert_channel now uuid n mgr = Inr mgr'" "table_ok mgr'"
    "\<And>u. registered u mgr' = (if key_equiv map_str_lt u uuid then Some (n\<lparr>cn_last_recv_report_time := now\<rparr>)
      else registered u mgr)"
  using insert_channel_ok[OF assms] by blast

text \<open>The node of a super peer after it announced its resources, and after a status.\<close>

definition announced :: "int \<Rightarrow> Sp2TsResList \<Rightarrow> ChannelNode \<Rightarrow> ChannelNode" where
  "announced now m n = n\<lparr>cn_last_recv_report_time := now, cn_resourceCount := reslist_count m,
     cn_pHash := map hash_of_info (reslist_info m)\<rparr>"

definition reported :: "int \<Rightarrow> Sp2TsStatus \<Rightarrow> ChannelNode \<Rightarrow> ChannelNode" where
  "reported now m n = n\<lparr>cn_resourceCount := status_resource_count m, cn_conNum := status_connection_num m,
     cn_bandwidth := status_bandwidth m, cn_exceedMaxConn := (status_exceed_max_connection m \<noteq> 0),
     cn_last_recv_report_time := now,
     cn_pHash := take (unat (status_resource_count m)) (cn_pHash n)\<rparr>"

lemma get_res_list_packet:
  assumes "Sp2TsResList_wf m" "table_ok (spt_mgr t)"
  defines "uuid \<equiv> reslist_uuid m @ [0]"
  shows "\<exists>mgr. get_res_list env (Sp2TsResList_content m @ rest) (int (length (Sp2TsResList_content m))) t =
      Inr (t\<lparr>spt_mgr := mgr\<rparr>) \<and> table_ok mgr \<and>
    (\<forall>u. registered u mgr = (if key_equiv map_str_lt u uuid
       then map_option (announced (e_now env) m) (registered uuid (spt_mgr t)) else registered u (spt_mgr t)))"
proof -
  let ?n = "int (length (Sp2TsResList_content m))"
  let ?s = "initialize (Sp2TsResList_content m @ rest) ?n"
  have parse: "Sp2TsResList_parse ?s = Inr (m, adv (length (Sp2TsResList_content m)) ?s)"
    using sp2ts_res_list.parse_content[OF assms(1), where post = "[]"] by simp
  have len: "length (reslist_info m) = unat (reslist_count m)"
    using assms(1) by (simp add: Sp2TsResList_wf_def)
  show ?thesis
  proof (cases "registered uuid (spt_mgr t)")
    case None
    then have "registered u (spt_mgr t) = None" if "key_equiv map_str_lt u uuid" for u
      using None mapstr.find_equiv[OF that, of "channel_map (spt_mgr t)"] by (simp add: registered_def)
    then show ?thesis
      using None assms(2) by (intro exI[of _ "spt_mgr t"])
        (auto simp: get_res_list_def parse get_channel_ok send_errormsg_def Let_def uuid_def)
  next
    case (Some n)
    have "node_ok (announced (e_now env) m n)" using len by (simp add: node_ok_def announced_def)
    then obtain mgr where mgr: "insert_channel (e_now env) uuid (announced (e_now env) m n) (spt_mgr t) = Inr mgr"
      "table_ok mgr" "\<And>u. registered u mgr = (if key_equiv map_str_lt u uuid
        then Some (announced (e_now env) m n\<lparr>cn_last_recv_report_time := e_now env\<rparr>) else registered u (spt_mgr t))"
      by (rule insert_existing[OF assms(2)]) blast
    moreover have "get_res_list env (Sp2TsResList_content m @ rest) ?n t = Inr (t\<lparr>spt_mgr := mgr\<rparr>)"
      using mgr(1) Some len assms(2)
      by (simp add: get_res_list_def parse get_channel_ok announced_def Let_def uuid_def)
    ultimately show ?thesis using Some by (auto simp: announced_def)
  qed
qed

lemma get_status_packet:
  assumes "Sp2TsStatus_wf m" "table_ok (spt_mgr t)"
  defines "uuid \<equiv> status_uuid m @ [0]"
  shows "get_status env (Sp2TsStatus_content m @ rest) (int (length (Sp2TsStatus_content m))) t =
    (case registered uuid (spt_mgr t) of None \<Rightarrow> Inr t
     | Some n \<Rightarrow> if unat (cn_resourceCount n) < unat (status_resource_count m) then Inl Out_Of_Bounds
         else Inr (t\<lparr>spt_mgr := (spt_mgr t)\<lparr>channel_map :=
           map_assign map_str_lt uuid (reported (e_now env) m n) (channel_map (spt_mgr t))\<rparr>\<rparr>))"
proof -
  let ?n = "int (length (Sp2TsStatus_content m))"
  let ?s = "initialize (Sp2TsStatus_content m @ rest) ?n"
  have parse: "Sp2TsStatus_parse ?s = Inr (m, adv (length (Sp2TsStatus_content m)) ?s)"
    using sp2ts_status.parse_content[OF assms(1), where post = "[]"] by simp
  show ?thesis
  proof (cases "registered uuid (spt_mgr t)")
    case None
    then show ?thesis
      using assms(2) by (simp add: get_status_def parse get_channel_ok send_errormsg_def Let_def uuid_def)
  next
    case (Some n)
    then have "length (cn_pHash n) = unat (cn_resourceCount n)"
      using registered_ok[OF assms(2) Some] by (simp add: node_ok_def)
    then show ?thesis
      using Some assms(2) unfolding uuid_def
      by (simp add: get_status_def parse get_channel_ok insert_channel_def ChannelNode_assign_def get_node_def
          registered_def reported_def Let_def guardE_def)
  qed
qed

text \<open>Every handler that returns keeps the table in order.\<close>

lemma insert_channel_table_ok:
  assumes "table_ok mgr" "insert_channel now uuid n mgr = Inr mgr'"
  shows "table_ok mgr'"
proof -
  obtain n' where n': "ChannelNode_assign now n = Inr n'"
    using assms by (cases "ChannelNode_assign now n"; cases "registered uuid mgr")
      (auto simp: insert_channel_def get_channel_ok registered_def get_node_def)
  let ?m = "n\<lparr>cn_pHash := cn_pHash n'\<rparr>"
  have ok: "node_ok ?m" using n' by (auto simp: ChannelNode_assign_def res_invert node_ok_def)
  have same: "ChannelNode_assign now ?m = ChannelNode_assign now n"
    using n' by (cases n) (auto simp: ChannelNode_assign_def res_invert)
  have "insert_channel now uuid ?m mgr = insert_channel now uuid n mgr"
    unfolding insert_channel_def same by (rule refl)
  then show ?thesis using insert_channel_ok[OF assms(1) ok] assms(2) by (metis Inr_inject)
qed

lemma sp_send_same_mgr:
  "sp_send_welcome env uuid t = Inr t' \<Longrightarrow> spt_mgr t' = spt_mgr t"
  "send_sp_list env uuid t = Inr t' \<Longrightarrow> spt_mgr t' = spt_mgr t"
  by (auto simp: sp_send_welcome_def sp_send_buffer_def send_sp_list_def Let_def res_invert split: if_splits prod.splits)

lemma sp_handle_udp_packet_keeps:
  assumes "table_ok (spt_mgr t)" "sp_handle_udp_packet env fromaddr buf nb t = Inr (ret, t')"
  shows "table_ok (spt_mgr t')"
  using assms
  by (auto simp: sp_handle_udp_packet_def get_register_def get_status_def get_res_list_def get_sp_list_def
      send_errormsg_def Let_def res_invert insert_channel_table_ok dest: sp_send_same_mgr
      split: if_splits option.splits)

text \<open>The packet with a list of super peers is never empty, so sending it goes through \<open>io\<close>.\<close>

lemma sp_list_written:
  assumes "RsMessage_pack junk (Ts2SpSpList_reserve m) (Ts2SpSpList_submsg m) = Inr (payload, nb)"
  shows "nb \<noteq> 0"
proof -
  have "keeps_length (Ts2SpSpList_submsg m)"
    unfolding Ts2SpSpList_submsg_def by (intro keeps_intros)
  moreover have "6 \<le> Ts2SpSpList_reserve m" "Ts2SpSpList_reserve m < 2 ^ 32"
    using uint_u8[of "splist_count m"] by (simp_all add: Ts2SpSpList_reserve_def RsMessage_reserve_pack_size_def)
  ultimately show ?thesis using pack_length[OF _ assms] by simp
qed

text \<open>The constructor; the address of the last sender is not initialised.\<close>

definition RsSpTracker_new :: "NetAddress \<Rightarrow> RsSpTracker" where
  "RsSpTracker_new junk = \<lparr>spt_last_receive_addr = junk, spt_mgr = RsTrackerStreamManager_new, spt_sent = []\<rparr>"

section \<open>The properties of the connector\<close>

text \<open>
  C24. A registration packet makes the sender a registered super peer under a fresh-looking
  uuid and is answered with exactly one welcome packet that carries this uuid, provided the
  four random numbers are all below 65,536; if one is not, the uuid overflows its 17 bytes.
\<close>

theorem sp_registration:
  assumes "Sp2TsRegister_wf m" "table_ok (spt_mgr t)" "nb \<noteq> 0"
  shows "if \<forall>i<4. e_rand env i < 65536
    then \<exists>uuid mgr. length uuid = UUID_LENGTH + 1 \<and>
      sp_handle_udp_packet env fromaddr (packet SP2TS_REGISTER (Sp2TsRegister_content m) @ rest) nb t =
        Inr (0, t\<lparr>spt_last_receive_addr := fromaddr, spt_mgr := mgr,
          spt_sent := spt_sent t @ [(fromaddr, packet TS2SP_WELCOME (take UUID_LENGTH uuid))]\<rparr>) \<and>
      table_ok mgr \<and>
      (\<forall>u. registered u mgr = (if key_equiv map_str_lt u uuid
        then Some (registered_node (e_now env) fromaddr m) else registered u (spt_mgr t)))
    else sp_handle_udp_packet env fromaddr (packet SP2TS_REGISTER (Sp2TsRegister_content m) @ rest) nb t =
      Inl Out_Of_Bounds"
proof -
  let ?t = "t\<lparr>spt_last_receive_addr := fromaddr\<rparr>"
  let ?u = "generate_uuid (e_rand env 0) (e_rand env 1) (e_rand env 2) (e_rand env 3)"
  have four: "(\<forall>i<4. e_rand env i < 65536) \<longleftrightarrow> e_rand env 0 < 65536 \<and> e_rand env 1 < 65536 \<and>
      e_rand env 2 < 65536 \<and> e_rand env 3 < 65536"
    by (rule all_less_4)
  have len: "5 + int (length (Sp2TsRegister_content m)) < 2 ^ 31"
    using assms(1) by (simp add: Sp2TsRegister_content_def Sp2TsRegister_wf_def)
  note run = sp_dispatch[OF assms(3) len, of env fromaddr SP2TS_REGISTER rest t]
  show ?thesis
  proof (cases "\<forall>i<4. e_rand env i < 65536")
    case True
    then obtain uuid where u: "?u = Inr uuid" by (simp only: four generate_uuid_iff) auto
    obtain mgr where mgr: "get_register env (Sp2TsRegister_content m @ rest) (int (length (Sp2TsRegister_content m))) ?t =
        Inr (?t\<lparr>spt_mgr := mgr, spt_sent := spt_sent t @ [(fromaddr, packet TS2SP_WELCOME (take UUID_LENGTH uuid))]\<rparr>)"
      "table_ok mgr" "\<forall>u. registered u mgr = (if key_equiv map_str_lt u uuid
        then Some (registered_node (e_now env) fromaddr m) else registered u (spt_mgr t))"
      using get_register_packet[OF assms(1), of ?t env uuid rest] assms(2) u by auto
    show ?thesis
      unfolding if_P[OF True]
    proof (intro exI[of _ uuid] exI[of _ mgr] conjI)
      show "length uuid = UUID_LENGTH + 1" using generate_uuid_length[OF u] .
    qed (use mgr run in \<open>simp_all add: Let_def\<close>)
  next
    case False
    have "?u = Inl Out_Of_Bounds" using False by (simp only: four generate_uuid_iff if_False)
    moreover have "Sp2TsRegister_parse (initialize (Sp2TsRegister_content m @ rest) (int (length (Sp2TsRegister_content m)))) =
        Inr (m, adv (length (Sp2TsRegister_content m))
          (initialize (Sp2TsRegister_content m @ rest) (int (length (Sp2TsRegister_content m)))))"
      using sp2ts_register.parse_content[OF assms(1), where post = "[]"] by simp
    ultimately show ?thesis
      using False run by (simp only: get_register_def Let_def bindE_Inr bindE_Inl prod.case if_False if_True
        simp_thms(6))
  qed
qed

definition sample_env :: env where
  "sample_env = \<lparr>e_now = 50, e_rand = (\<lambda>_. 7), e_junk = (\<lambda>_. 0)\<rparr>"

lemma sp_registration_witness:
  "\<exists>uuid mgr. sp_handle_udp_packet sample_env NetAddress_new
      (packet SP2TS_REGISTER (Sp2TsRegister_content Sp2TsRegister_new) @ [0]) 43 (RsSpTracker_new NetAddress_new) =
    Inr (0, (RsSpTracker_new NetAddress_new)\<lparr>spt_last_receive_addr := NetAddress_new, spt_mgr := mgr,
      spt_sent := [(NetAddress_new, packet TS2SP_WELCOME (take UUID_LENGTH uuid))]\<rparr>) \<and> table_ok mgr"
proof -
  have "Sp2TsRegister_wf Sp2TsRegister_new" "table_ok (spt_mgr (RsSpTracker_new NetAddress_new))"
    "\<forall>i<4. e_rand sample_env i < 65536" "spt_sent (RsSpTracker_new NetAddress_new) = []"
    by (simp_all add: Sp2TsRegister_wf_def Sp2TsRegister_new_def RsSpTracker_new_def RsTrackerStreamManager_new_def
        table_ok_def sample_env_def)
  then show ?thesis
    using sp_registration[of Sp2TsRegister_new "RsSpTracker_new NetAddress_new" 43 sample_env NetAddress_new "[0]"]
    by (simp only: if_True append_Nil) auto
qed

text \<open>
  A resource list from a registered super peer replaces its resources by exactly the
  ones listed, stamps it, sends nothing and changes no other entry; from an unknown uuid it
  changes nothing.
\<close>

theorem sp_resource_list:
  assumes "Sp2TsResList_wf m" "table_ok (spt_mgr t)" "nb \<noteq> 0"
  shows "\<exists>mgr. sp_handle_udp_packet env fromaddr (packet SP2TS_RES_LIST (Sp2TsResList_content m) @ rest) nb t =
      Inr (0, t\<lparr>spt_last_receive_addr := fromaddr, spt_mgr := mgr\<rparr>) \<and> table_ok mgr \<and>
    (\<forall>u. registered u mgr = (if key_equiv map_str_lt u (reslist_uuid m @ [0])
       then map_option (announced (e_now env) m) (registered (reslist_uuid m @ [0]) (spt_mgr t))
       else registered u (spt_mgr t)))"
proof -
  have "5 + int (length (Sp2TsResList_content m)) < 2 ^ 31"
    using assms(1) uint_less_nat[of "reslist_count m" 53687090]
    unfolding length_Sp2TsResList_content[OF assms(1)] by (simp add: Sp2TsResList_wf_def)
  note run = sp_dispatch[OF assms(3) this, of env fromaddr SP2TS_RES_LIST rest t]
  show ?thesis
    using get_res_list_packet[OF assms(1), of "t\<lparr>spt_last_receive_addr := fromaddr\<rparr>" env rest] assms(2) run
    by (auto simp: Let_def)
qed

text \<open>
  C37. A status packet from a registered super peer whose count of resources is larger than
  the one it announced makes the tracker read past the stored array of hashes; otherwise it
  updates that entry, and drops the hashes beyond the count.
\<close>

theorem sp_status:
  assumes "Sp2TsStatus_wf m" "table_ok (spt_mgr t)" "nb \<noteq> 0" "registered (status_uuid m @ [0]) (spt_mgr t) = Some n"
  shows "sp_handle_udp_packet env fromaddr (packet SP2TS_STATUS (Sp2TsStatus_content m) @ rest) nb t =
    (if unat (cn_resourceCount n) < unat (status_resource_count m) then Inl Out_Of_Bounds
     else Inr (0, t\<lparr>spt_last_receive_addr := fromaddr, spt_mgr := (spt_mgr t)\<lparr>channel_map :=
       map_assign map_str_lt (status_uuid m @ [0]) (reported (e_now env) m n) (channel_map (spt_mgr t))\<rparr>\<rparr>))"
proof -
  have "5 + int (length (Sp2TsStatus_content m)) < 2 ^ 31"
    using assms(1) by (simp add: Sp2TsStatus_content_def Sp2TsStatus_wf_def)
  note run = sp_dispatch[OF assms(3) this, of env fromaddr SP2TS_STATUS rest t]
  show ?thesis
    using get_status_packet[OF assms(1), of "t\<lparr>spt_last_receive_addr := fromaddr\<rparr>" env rest] assms(2,4) run
    by (simp add: Let_def)
qed

definition sample_status :: Sp2TsStatus where
  "sample_status = \<lparr>status_uuid = replicate UUID_LENGTH 65, status_resource_count = 2, status_connection_num = 0,
     status_bandwidth = 0, status_exceed_max_connection = 0\<rparr>"

definition sample_tracker :: RsSpTracker where
  "sample_tracker = (RsSpTracker_new NetAddress_new)\<lparr>spt_mgr :=
     \<lparr>channel_map = [(replicate UUID_LENGTH 65 @ [0], sample_node)]\<rparr>\<rparr>"

lemma sample_tracker_ok: "table_ok (spt_mgr sample_tracker)"
  using sample_node_ok by (simp add: sample_tracker_def table_ok_def)

lemma sp_status_witness:
  "sp_handle_udp_packet sample_env NetAddress_new (packet SP2TS_STATUS (Sp2TsStatus_content sample_status) @ []) 32
     sample_tracker = Inl Out_Of_Bounds"
proof -
  have "registered (status_uuid sample_status @ [0]) (spt_mgr sample_tracker) = Some sample_node"
    by (simp add: registered_def sample_tracker_def sample_status_def)
  moreover have "Sp2TsStatus_wf sample_status" by (simp add: Sp2TsStatus_wf_def sample_status_def)
  moreover have "unat (cn_resourceCount sample_node) < unat (status_resource_count sample_status)"
    by (simp add: sample_node_def sample_status_def)
  ultimately show ?thesis
    using sp_status[OF _ sample_tracker_ok, of sample_status 32 sample_node sample_env NetAddress_new "[]"] by simp
qed

lemma sp_resource_list_witness:
  "\<exists>mgr. sp_handle_udp_packet sample_env NetAddress_new
      (packet SP2TS_RES_LIST (Sp2TsResList_content \<lparr>reslist_uuid = replicate UUID_LENGTH 65, reslist_count = 0,
        reslist_info = []\<rparr>) @ []) 25 sample_tracker =
      Inr (0, sample_tracker\<lparr>spt_last_receive_addr := NetAddress_new, spt_mgr := mgr\<rparr>) \<and> table_ok mgr"
  using sp_resource_list[of "\<lparr>reslist_uuid = replicate UUID_LENGTH 65, reslist_count = 0, reslist_info = []\<rparr>",
      OF _ sample_tracker_ok, of 25 sample_env NetAddress_new "[]"]
  by (auto simp: Sp2TsResList_wf_def)

text \<open>A logout is ignored: the super peer stays registered until it times out.\<close>

lemma sp_logout_ignored:
  assumes "nb \<noteq> 0" "5 + int (length c) < 2 ^ 31"
  shows "sp_handle_udp_packet env fromaddr (packet SP2TS_LOGOUT c @ rest) nb t =
    Inr (0, t\<lparr>spt_last_receive_addr := fromaddr\<rparr>)"
  unfolding sp_dispatch[OF assms] by (simp add: Let_def)

end
