(* ===== verification/Sp_Session.thy ===== *)
theory Sp_Session
  imports Sp_Client Sp_Tracker
begin

text \<open>
  The two ends of the protocol between super peer and tracker together: what the connector of
  the super peer (\<open>Sp_Client\<close>) sends is what the connector of the tracker (\<open>Sp_Tracker\<close>) gets,
  and back.
\<close>

lemma generate_uuid_ends: "generate_uuid r1 r2 r3 r4 = Inr uuid \<Longrightarrow> take UUID_LENGTH uuid @ [0] = uuid"
  by (auto simp: generate_uuid_iff length_format_04x(2)[THEN iffD2] split: if_splits)

lemma spc_welcomed:
  assumes "client_ok c" "spc_recv_buf c + 21 \<le> int UDP_MAX_PACKET_SIZE" "length uuid = UUID_LENGTH"
  shows "\<exists>c'. spc_loop env (Some (packet TS2SP_WELCOME uuid)) mgr c = Inr (0, c') \<and>
    spc_register_flag c' \<and> spc_sp_id c' = uuid \<and> client_ok c' \<and> spc_io c' = spc_io c"
proof -
  have "spc_recv_buf c + int (length (packet TS2SP_WELCOME uuid)) \<le> int UDP_MAX_PACKET_SIZE"
    using assms(2,3) by (simp add: packet_def)
  from spc_loop_packet[OF assms(1) this, of env mgr] obtain mem rest where mem: "length mem = UDP_MAX_PACKET_SIZE"
    "spc_loop env (Some (packet TS2SP_WELCOME uuid)) mgr c = bindE (spc_dispatch env mgr (msg_code TS2SP_WELCOME) (uuid @ rest) (5 + int (length uuid))
        (c\<lparr>spc_recv_mem := mem, spc_recv_buf := spc_recv_buf c + 5\<rparr>)) (\<lambda>c. Inr (0, c))"
    by blast
  have "Ts2SpWelcome_parse (initialize (uuid @ rest) (int (length uuid))) =
      Inr (\<lparr>welcome_uuid = uuid\<rparr>, adv (length uuid) (initialize (uuid @ rest) (int (length uuid))))"
    using ts2spwelcome.parse_content[of "\<lparr>welcome_uuid = uuid\<rparr>" _ "[]"] assms(3) by (simp add: Ts2SpWelcome_wf_def)
  then show ?thesis
    using mem assms(1) by (simp add: spc_dispatch_def spc_get_welcome_def client_ok_def)
qed

text \<open>
  C10. The handshake works: when a timer of an unregistered, connected super peer fires, it
  sends one packet; the tracker answers this packet with one packet; and that makes the
  super peer registered on both sides: it carries the uuid under which the tracker has the
  node with its address and port. (The random numbers must fit the uuid, and the receive
  buffer of the super peer must not be used up.)
\<close>

theorem sp_handshake:
  assumes "client_ok c" "\<not> spc_register_flag c" "spc_io c = Some io" "spc_recv_buf c + 21 \<le> int UDP_MAX_PACKET_SIZE"
    and "table_ok (spt_mgr t)" "\<forall>i<4. e_rand env i < 65536" "nb \<noteq> 0"
  shows "\<exists>c1 p t' w c2. spc_handle_timeout cenv mgr timerid c = Inr c1 \<and> spc_sent c1 = spc_sent c @ [p] \<and>
    sp_handle_udp_packet env fromaddr (p @ rest) nb t = Inr (0, t') \<and> spt_sent t' = spt_sent t @ [(fromaddr, w)] \<and>
    spc_loop cenv (Some w) mgr c1 = Inr (0, c2) \<and> spc_register_flag c2 \<and>
    registered (spc_sp_id c2 @ [0]) (spt_mgr t') =
      Some (registered_node (e_now env) fromaddr (Sp2TsRegister_new\<lparr>register_service_port := spc_sp_port c\<rparr>))"
proof -
  let ?m = "Sp2TsRegister_new\<lparr>register_service_port := spc_sp_port c\<rparr>"
  let ?p = "register_packet (spc_sp_port c)" and ?t = "t\<lparr>spt_last_receive_addr := fromaddr\<rparr>"
  let ?c1 = "sent_one cenv ?p io c"
  have sent: "spc_handle_timeout cenv mgr timerid c = Inr ?c1" "spc_sent ?c1 = spc_sent c @ [?p]"
    "client_ok ?c1" "spc_recv_buf ?c1 = spc_recv_buf c"
    using assms(1-3) by (simp_all add: spc_handle_timeout_def spc_send_register_sends sent_one_def client_ok_def)
  obtain uuid where u: "generate_uuid (e_rand env 0) (e_rand env 1) (e_rand env 2) (e_rand env 3) = Inr uuid"
    using assms(6) by (simp only: all_less_4 generate_uuid_iff) auto
  have len: "5 + int (length (Sp2TsRegister_content ?m)) < 2 ^ 31"
    by (simp add: Sp2TsRegister_content_def Sp2TsRegister_new_def)
  obtain tmgr where tmgr: "get_register env (Sp2TsRegister_content ?m @ rest) (int (length (Sp2TsRegister_content ?m))) ?t =
      Inr (?t\<lparr>spt_mgr := tmgr, spt_sent := spt_sent t @ [(fromaddr, packet TS2SP_WELCOME (take UUID_LENGTH uuid))]\<rparr>)"
    "\<forall>u. registered u tmgr = (if key_equiv map_str_lt u uuid then Some (registered_node (e_now env) fromaddr ?m)
       else registered u (spt_mgr t))"
    using get_register_packet[OF register_wf, of ?t env uuid "spc_sp_port c" rest] assms(5) u by auto
  let ?t' = "?t\<lparr>spt_mgr := tmgr, spt_sent := spt_sent t @ [(fromaddr, packet TS2SP_WELCOME (take UUID_LENGTH uuid))]\<rparr>"
  have handled: "sp_handle_udp_packet env fromaddr (?p @ rest) nb t = Inr (0, ?t')"
    unfolding register_packet_def sp_dispatch[OF assms(7) len] using tmgr(1) by (simp add: Let_def)
  have "length (take UUID_LENGTH uuid) = UUID_LENGTH" using generate_uuid_length[OF u] by simp
  then obtain c2 where c2: "spc_loop cenv (Some (packet TS2SP_WELCOME (take UUID_LENGTH uuid))) mgr ?c1 = Inr (0, c2)"
    "spc_register_flag c2" "spc_sp_id c2 = take UUID_LENGTH uuid"
    using spc_welcomed[OF sent(3), of "take UUID_LENGTH uuid" cenv mgr] sent(4) assms(4) by auto
  have "registered (spc_sp_id c2 @ [0]) (spt_mgr ?t') = Some (registered_node (e_now env) fromaddr ?m)"
    using tmgr(2) c2(3) generate_uuid_ends[OF u] by simp
  then show ?thesis using sent(1,2) handled c2(1,2)
    by (intro exI[of _ ?c1] exI[of _ ?p] exI[of _ ?t'] exI[of _ "packet TS2SP_WELCOME (take UUID_LENGTH uuid)"] exI[of _ c2]) simp
qed

definition sample_cenv :: spc_env where
  "sample_cenv = \<lparr>sce_junk = \<lambda>_. 0, sce_write = \<lambda>bs. Wrote (length bs)\<rparr>"

lemma sp_handshake_witness:
  "\<exists>c1 p t' w c2. spc_handle_timeout sample_cenv RsSourceManager_new 0 (connected_client (\<lambda>_. 0)) = Inr c1 \<and>
    spc_sent c1 = [p] \<and> sp_handle_udp_packet sample_env NetAddress_new (p @ []) 43 (RsSpTracker_new NetAddress_new) = Inr (0, t') \<and>
    spt_sent t' = [(NetAddress_new, w)] \<and> spc_loop sample_cenv (Some w) RsSourceManager_new c1 = Inr (0, c2) \<and>
    registered (spc_sp_id c2 @ [0]) (spt_mgr t') =
      Some (registered_node 50 NetAddress_new (Sp2TsRegister_new\<lparr>register_service_port := 2222\<rparr>))"
proof -
  let ?c = "connected_client (\<lambda>_. 0)" and ?t = "RsSpTracker_new NetAddress_new"
  have "client_ok ?c" "\<not> spc_register_flag ?c" "spc_io ?c = Some RsSocket_new" "spc_recv_buf ?c + 21 \<le> int UDP_MAX_PACKET_SIZE"
    "spc_sent ?c = []" "spc_sp_port ?c = 2222"
    by (simp_all add: connected_client_def RsSpTrackerProtocol_new_def client_ok_def)
  moreover have "table_ok (spt_mgr ?t)" "spt_sent ?t = []" "\<forall>i<4. e_rand sample_env i < 65536" "e_now sample_env = 50"
    by (simp_all add: RsSpTracker_new_def RsTrackerStreamManager_new_def table_ok_def sample_env_def)
  ultimately show ?thesis
    using sp_handshake[of ?c RsSocket_new ?t sample_env 43 sample_cenv RsSourceManager_new 0 NetAddress_new "[]"]
    by (simp only: append_Nil zero_neq_numeral[symmetric] not_False_eq_True simp_thms) blast
qed

lemma channels_published:
  assumes "spc_register_flag c" "spc_io c = Some io" "length (spc_sp_id c) = UUID_LENGTH"
    and "channels_hold mgr rings" "rings \<noteq> []" "length rings < 53687090"
    and "table_ok (spt_mgr t)" "registered (spc_sp_id c @ [0]) (spt_mgr t) = Some n" "nb \<noteq> 0"
  shows "\<exists>c1 p tmgr n'. spc_handle_timeout cenv mgr TRACKER_TIMER_ID c = Inr c1 \<and> spc_sent c1 = spc_sent c @ [p] \<and>
    sp_handle_udp_packet env fromaddr (p @ rest) nb t = Inr (0, t\<lparr>spt_last_receive_addr := fromaddr, spt_mgr := tmgr\<rparr>) \<and> table_ok tmgr \<and>
    (\<forall>u. registered u tmgr = (if key_equiv map_str_lt u (spc_sp_id c @ [0]) then Some n' else registered u (spt_mgr t))) \<and>
    cn_last_recv_report_time n' = e_now env \<and> unat (cn_resourceCount n') = length rings \<and>
    cn_pHash n' = map hash_of_info (channel_infos mgr rings)"
proof -
  let ?m = "res_list_of (spc_sp_id c) (channel_infos mgr rings)"
  let ?p = "packet SP2TS_RES_LIST (Sp2TsResList_content ?m)" and ?t = "t\<lparr>spt_last_receive_addr := fromaddr\<rparr>"
  have wf: "Sp2TsResList_wf ?m" by (rule res_list_wf[OF assms(4,6,3)])
  have uuid: "reslist_uuid ?m = spc_sp_id c" "reslist_info ?m = channel_infos mgr rings" by (simp_all add: res_list_of_def)
  have "length (channel_infos mgr rings) = length rings"
    using list_all2_lengthD[OF assms(4)[unfolded channels_hold_def]] by (simp add: channel_infos_def)
  then have count: "unat (reslist_count ?m) = length rings"
    using wf unfolding Sp2TsResList_wf_def uuid by simp
  have sent: "spc_handle_timeout cenv mgr TRACKER_TIMER_ID c = Inr (sent_one cenv ?p io c)" "spc_sent (sent_one cenv ?p io c) = spc_sent c @ [?p]"
    using assms(1) spc_send_res_list_sends[OF assms(4,5,6,3,2), of cenv] by (simp_all add: spc_handle_timeout_def sent_one_def)
  have len: "5 + int (length (Sp2TsResList_content ?m)) < 2 ^ 31"
    unfolding length_Sp2TsResList_content[OF wf] count using assms(6) by simp
  obtain tmgr where ok: "table_ok tmgr" and tmgr: "get_res_list env (Sp2TsResList_content ?m @ rest) (int (length (Sp2TsResList_content ?m))) ?t = Inr (?t\<lparr>spt_mgr := tmgr\<rparr>)"
    "\<forall>u. registered u tmgr = (if key_equiv map_str_lt u (spc_sp_id c @ [0])
       then map_option (announced (e_now env) ?m) (registered (spc_sp_id c @ [0]) (spt_mgr t)) else registered u (spt_mgr t))"
    using get_res_list_packet[OF wf, of ?t env rest] assms(7) uuid(1) by auto
  have "sp_handle_udp_packet env fromaddr (?p @ rest) nb t = Inr (0, ?t\<lparr>spt_mgr := tmgr\<rparr>)"
    unfolding sp_dispatch[OF assms(9) len] using tmgr(1) by (simp add: Let_def)
  then show ?thesis
    using sent ok tmgr(2) assms(8) uuid(2) count
    by (intro exI[of _ "sent_one cenv ?p io c"] exI[of _ ?p] exI[of _ tmgr] exI[of _ "announced (e_now env) ?m n"])
      (simp add: announced_def)
qed

text \<open>
  C3. What a super peer has is what the tracker knows of it: the packet a registered super
  peer sends each second makes the tracker's node list exactly its channels, each with the
  interval of the blocks its ring holds, and changes no other super peer's node.
\<close>

theorem sp_channels_published:
  assumes "spc_register_flag c" "spc_io c = Some io" "length (spc_sp_id c) = UUID_LENGTH"
    and "channels_hold mgr rings" "rings \<noteq> []" "length rings < 53687090"
    and "table_ok (spt_mgr t)" "registered (spc_sp_id c @ [0]) (spt_mgr t) = Some n" "nb \<noteq> 0"
  shows "\<exists>c1 p tmgr n'. spc_handle_timeout cenv mgr TRACKER_TIMER_ID c = Inr c1 \<and> spc_sent c1 = spc_sent c @ [p] \<and>
    sp_handle_udp_packet env fromaddr (p @ rest) nb t = Inr (0, t\<lparr>spt_last_receive_addr := fromaddr, spt_mgr := tmgr\<rparr>) \<and>
    (\<forall>u. registered u tmgr = (if key_equiv map_str_lt u (spc_sp_id c @ [0]) then Some n' else registered u (spt_mgr t))) \<and>
    cn_last_recv_report_time n' = e_now env \<and> unat (cn_resourceCount n') = length rings \<and>
    cn_pHash n' = map hash_of_info (channel_infos mgr rings)"
  using channels_published[OF assms] by blast

text \<open>A super peer with one channel, whose ring of two buffers holds one block.\<close>

definition publish_hash :: MD5_Hash_Str where
  "publish_hash = \<lparr>md5_hash = replicate MD5_LEN 97 @ [0], md5_interval = \<lparr>bi_start = 0, bi_size = 0\<rparr>\<rparr>"

lemma published_queue:
  "\<exists>q. produce 0 [9] (reserve_buffer (\<lambda>_ _. 0) (int 2) (RsBufferQueue_new 0 publish_hash [] True)) = Inr q \<and>
    ring_ok 2 [[9]] q \<and> md5_hash (bq_source_hash q) = replicate MD5_LEN 97 @ [0]"
proof -
  let ?q0 = "reserve_buffer (\<lambda>_ _. 0) (int 2) (RsBufferQueue_new 0 publish_hash [] True)"
  have fresh: "ring_ok 2 [] ?q0" by (rule ring_ok_fresh) simp
  have hash: "bq_source_hash ?q0 = publish_hash" by (simp add: reserve_buffer_def RsBufferQueue_new_def)
  have small: "length ([] :: bytes list) < 2 ^ 31 - 1" "length [9 :: u8] \<le> MEDIA_BLOCK_SIZE" by simp_all
  obtain q where q: "produce 0 [9] ?q0 = Inr q" "ring_ok 2 [[9]] q"
    using produce_ring_ok[OF fresh small] by auto
  moreover have "bq_source_hash q = publish_hash"
    using produce_eq[OF fresh small, of 0] q(1) hash by auto
  ultimately show ?thesis by (simp add: publish_hash_def)
qed

lemma sp_channels_published_witness:
  "\<exists>q c1 p tmgr n'. produce 0 [9] (reserve_buffer (\<lambda>_ _. 0) (int 2) (RsBufferQueue_new 0 publish_hash [] True)) = Inr q \<and>
    spc_handle_timeout sample_cenv \<lparr>sm_source_hashmap = [(publish_hash, q)], sm_tracker_address = []\<rparr> 0
      ((connected_client (\<lambda>_. 0))\<lparr>spc_register_flag := True, spc_sp_id := replicate UUID_LENGTH 65\<rparr>) = Inr c1 \<and>
    spc_sent c1 = [p] \<and> sp_handle_udp_packet sample_env NetAddress_new (p @ []) 65 sample_tracker =
      Inr (0, sample_tracker\<lparr>spt_last_receive_addr := NetAddress_new, spt_mgr := tmgr\<rparr>) \<and>
    registered (replicate UUID_LENGTH 65 @ [0]) tmgr = Some n' \<and>
    cn_pHash n' = [\<lparr>md5_hash = replicate MD5_LEN 97 @ [0], md5_interval = \<lparr>bi_start = 0, bi_size = 1\<rparr>\<rparr>]"
proof -
  let ?c = "(connected_client (\<lambda>_. 0))\<lparr>spc_register_flag := True, spc_sp_id := replicate UUID_LENGTH 65\<rparr>"
  obtain q where q: "produce 0 [9] (reserve_buffer (\<lambda>_ _. 0) (int 2) (RsBufferQueue_new 0 publish_hash [] True)) = Inr q"
    "ring_ok 2 [[9]] q" and md5: "md5_hash (bq_source_hash q) = replicate MD5_LEN 97 @ [0]"
    using published_queue by blast
  let ?mgr = "\<lparr>sm_source_hashmap = [(publish_hash, q)], sm_tracker_address = []\<rparr>"
  have "channels_hold ?mgr [(2, [[9]])]" using q(2) md5 by (simp add: channels_hold_def)
  moreover have infos: "map hash_of_info (channel_infos ?mgr [(2, [[9]])]) =
      [\<lparr>md5_hash = replicate MD5_LEN 97 @ [0], md5_interval = \<lparr>bi_start = 0, bi_size = 1\<rparr>\<rparr>]"
    by (simp add: channel_infos_def channel_info_def hash_of_info_def md5)
  moreover have "spc_register_flag ?c" "spc_io ?c = Some RsSocket_new" "spc_sp_id ?c = replicate UUID_LENGTH 65" "spc_sent ?c = []"
    by (simp_all add: connected_client_def RsSpTrackerProtocol_new_def)
  moreover have "registered (replicate UUID_LENGTH 65 @ [0]) (spt_mgr sample_tracker) = Some sample_node"
    by (simp add: registered_def sample_tracker_def)
  ultimately obtain c1 p tmgr n' where
    "spc_handle_timeout sample_cenv ?mgr 0 ?c = Inr c1" "spc_sent c1 = [p]"
    "sp_handle_udp_packet sample_env NetAddress_new (p @ []) 65 sample_tracker =
      Inr (0, sample_tracker\<lparr>spt_last_receive_addr := NetAddress_new, spt_mgr := tmgr\<rparr>)"
    "\<forall>u. registered u tmgr = (if key_equiv map_str_lt u (replicate UUID_LENGTH 65 @ [0]) then Some n' else registered u (spt_mgr sample_tracker))"
    "cn_pHash n' = [\<lparr>md5_hash = replicate MD5_LEN 97 @ [0], md5_interval = \<lparr>bi_start = 0, bi_size = 1\<rparr>\<rparr>]"
    using sp_channels_published[of ?c RsSocket_new ?mgr "[(2, [[9]])]" sample_tracker sample_node 65 sample_cenv sample_env NetAddress_new "[]"]
      sample_tracker_ok
    by (simp only: infos append_Nil length_replicate list.size list.distinct simp_thms) auto
  then show ?thesis using q(1) by (intro exI[of _ q] exI[of _ c1] exI[of _ p] exI[of _ tmgr] exI[of _ n']) simp
qed

end
