(* ===== verification/Np_Manager.thy ===== *)
theory Np_Manager
  imports Interval_Query
begin

text \<open>
  The class \<open>NPNode\<close> of \<open>core/struct_define.h\<close> and
  \<open>protocol/tracker/tracker_np_manager.h\<close>, \<open>.cpp\<close>: the tracker's table of normal peers
  and the choice of peers it recommends. As in \<open>Stream_Manager\<close> the table owns its nodes
  and holds them by value.

  \<open>get_np_address\<close> draws groups of 30 nodes with \<open>rand()\<close> in a loop that ends only when a
  draw fails or enough peers are found. The numbers \<open>rand()\<close> returns are the argument
  \<open>rand\<close>, indexed by a counter of calls; the loop takes fuel, and \<open>None\<close> means that the
  fuel ran out. If \<open>rand()\<close> keeps returning 0 the loop of the code does not end.
\<close>

section \<open>NPNode\<close>

record NPNode =
  np_digits :: map_str
  np_last_recv_report_time :: int
  np_fVersion :: float32
  np_port :: u16
  np_clientAddress :: P2PAddress
  np_coreInfo :: CorePeerInfo
  np_transInfo :: TransferInfo
  np_playingBlock :: u32
  np_currentBufferingTime :: u16
  np_bufferedCount :: u16
  np_bufferedTime :: u16
  np_connectFailCount :: u16
  np_incomingConnectionCount :: u16
  np_outgoingConnectionCount :: u16
  np_AvgincomingConnectionElapsedTime :: u16
  np_AvgoutgoingConnectionElapsedTime :: u16
  np_msgPercent :: float32
  np_countInterval :: u8
  np_intervalArray :: IntervalArray
  np_channelID_md5 :: MD5_Hash_Str

text \<open>The constructor clears the whole object, members with constructors included.\<close>

definition NPNode_new :: "int \<Rightarrow> NPNode" where
  "NPNode_new now = (let zero_addr = \<lparr>sin_family = 0, sin_port = 0, s_addr = 0\<rparr> in
   \<lparr>np_digits = replicate (UUID_LENGTH + 1) 0, np_last_recv_report_time = now, np_fVersion = 0, np_port = 0,
    np_clientAddress = \<lparr>outerIP = zero_addr, subnetIP = zero_addr\<rparr>,
    np_coreInfo = CorePeerInfo_new, np_transInfo = TransferInfo_new, np_playingBlock = 0,
    np_currentBufferingTime = 0, np_bufferedCount = 0, np_bufferedTime = 0, np_connectFailCount = 0,
    np_incomingConnectionCount = 0, np_outgoingConnectionCount = 0, np_AvgincomingConnectionElapsedTime = 0,
    np_AvgoutgoingConnectionElapsedTime = 0, np_msgPercent = 0, np_countInterval = 0,
    np_intervalArray = IntervalArray_new,
    np_channelID_md5 = \<lparr>md5_hash = replicate (MD5_LEN + 1) 0, md5_interval = \<lparr>bi_start = 0, bi_size = 0\<rparr>\<rparr>\<rparr>)"

text \<open>
  \<open>operator=\<close> copies the average elapsed time of incoming connections into their count.
\<close>

definition NPNode_assign :: "NPNode \<Rightarrow> NPNode" where
  "NPNode_assign node = node\<lparr>np_incomingConnectionCount := np_AvgincomingConnectionElapsedTime node,
     np_intervalArray := IntervalArray_assign (np_intervalArray node)\<rparr>"

section \<open>The table\<close>

record RsTrackerNpCoordinator =
  npnode_map :: "(map_str, NPNode) cmap"

definition RsTrackerNpCoordinator_new :: RsTrackerNpCoordinator where
  "RsTrackerNpCoordinator_new = \<lparr>npnode_map = []\<rparr>"

abbreviation NP_MAX_IDLE_TIME_SEC :: int where "NP_MAX_IDLE_TIME_SEC \<equiv> 600"

fun check_nodes :: "int \<Rightarrow> (map_str, NPNode) cmap \<Rightarrow> (map_str, NPNode) cmap" where
  "check_nodes now [] = []"
| "check_nodes now ((k, n) # m) =
     (if now - np_last_recv_report_time n > NP_MAX_IDLE_TIME_SEC then check_nodes now m
      else (k, n) # check_nodes now m)"

definition np_timer_check :: "int \<Rightarrow> RsTrackerNpCoordinator \<Rightarrow> RsTrackerNpCoordinator" where
  "np_timer_check now mgr = mgr\<lparr>npnode_map := check_nodes now (npnode_map mgr)\<rparr>"

definition find_Node :: "map_str \<Rightarrow> RsTrackerNpCoordinator \<Rightarrow> NPNode option" where
  "find_Node digits mgr = map_find map_str_lt digits (npnode_map mgr)"

definition get_Node :: "map_str \<Rightarrow> RsTrackerNpCoordinator \<Rightarrow> NPNode option" where
  "get_Node digits mgr = map_option NPNode_assign (map_find map_str_lt digits (npnode_map mgr))"

definition insert_Node :: "map_str \<Rightarrow> NPNode \<Rightarrow> RsTrackerNpCoordinator \<Rightarrow> RsTrackerNpCoordinator" where
  "insert_Node digits node mgr =
     (case find_Node digits mgr of
        None \<Rightarrow> mgr\<lparr>npnode_map := fst (map_insert map_str_lt digits (NPNode_assign node) (npnode_map mgr))\<rparr>
      | Some _ \<Rightarrow> mgr\<lparr>npnode_map := map_assign map_str_lt digits (NPNode_assign node) (npnode_map mgr)\<rparr>)"

definition deleteNode :: "map_str \<Rightarrow> RsTrackerNpCoordinator \<Rightarrow> RsTrackerNpCoordinator" where
  "deleteNode digits mgr =
     (case map_find map_str_lt digits (npnode_map mgr) of
        None \<Rightarrow> mgr
      | Some _ \<Rightarrow> mgr\<lparr>npnode_map := map_erase map_str_lt digits (npnode_map mgr)\<rparr>)"

section \<open>Choosing peers\<close>

definition PeerInfoWithAddr_new :: PeerInfoWithAddr where
  "PeerInfoWithAddr_new = \<lparr>peer_core = CorePeerInfo_new, peer_p2p = P2PAddress_new\<rparr>"

definition peer_of :: "NPNode \<Rightarrow> PeerInfoWithAddr" where
  "peer_of n = \<lparr>peer_core = np_coreInfo n, peer_p2p = np_clientAddress n\<rparr>"

definition eligible :: "MD5_Hash_Str \<Rightarrow> map_str \<Rightarrow> u32 \<Rightarrow> NPNode \<Rightarrow> bool" where
  "eligible resHash uuid block n \<longleftrightarrow> MD5_eq (np_channelID_md5 n) resHash \<and>
     map_str_neq (np_digits n) uuid \<and> FindBlock (np_intervalArray n) block"

text \<open>
  The draw: \<open>iRange\<close> calls of \<open>rand()\<close>, each of which takes a group and marks it with -1;
  the last group taken counts.
\<close>

fun pick_group :: "(nat \<Rightarrow> nat) \<Rightarrow> nat \<Rightarrow> nat \<Rightarrow> int list \<Rightarrow> int \<Rightarrow> nat \<Rightarrow> int \<times> int list \<times> nat" where
  "pick_group rand iRange 0 groupID iPos c = (iPos, groupID, c)"
| "pick_group rand iRange (Suc f) groupID iPos c =
     (let r1 = rand c
      in if r1 \<noteq> 0 then
           let id = r1 mod iRange
           in pick_group rand iRange f (groupID[id := -1]) (groupID ! id) (Suc c)
         else pick_group rand iRange f groupID iPos (Suc c))"

text \<open>
  The walk from the first node of the group, to the end of the map or until enough peers are
  found (\<open>iLimit\<close> stays 0). The flag says whether the end was reached.
\<close>

fun scan_peers :: "(NPNode \<Rightarrow> bool) \<Rightarrow> nat \<Rightarrow> (map_str, NPNode) cmap \<Rightarrow> nat \<Rightarrow> PeerInfoWithAddr list \<Rightarrow>
    (bool \<times> nat \<times> PeerInfoWithAddr list) res" where
  "scan_peers ok inCount [] index arr = Inr (True, index, arr)"
| "scan_peers ok inCount ((k, n) # m) index arr =
     (if index \<ge> inCount then Inr (False, index, arr)
      else if ok n then
        bindE (guardE Out_Of_Bounds (index < length arr)) (\<lambda>_.
        scan_peers ok inCount m (Suc index) (arr[index := peer_of n]))
      else scan_peers ok inCount m index arr)"

fun np_rounds :: "nat \<Rightarrow> (nat \<Rightarrow> nat) \<Rightarrow> (NPNode \<Rightarrow> bool) \<Rightarrow> nat \<Rightarrow> (map_str, NPNode) cmap \<Rightarrow> int list \<Rightarrow> nat \<Rightarrow>
    nat \<Rightarrow> PeerInfoWithAddr list \<Rightarrow> (nat \<times> PeerInfoWithAddr list) res option" where
  "np_rounds 0 rand ok inCount m groupID c index arr = None"
| "np_rounds (Suc fuel) rand ok inCount m groupID c index arr =
     (let iRange = length groupID; (iPos, groupID, c) = pick_group rand iRange iRange groupID 0 c
      in if iPos = -1 then Some (Inr (index, arr))
         else case scan_peers ok inCount (drop (nat iPos * 30) m) index arr of
             Inl e \<Rightarrow> Some (Inl e)
           | Inr (at_end, index, arr) \<Rightarrow>
               if \<not> at_end then Some (Inr (index, arr))
               else if index \<ge> inCount then Some (Inr (index, arr))
               else np_rounds fuel rand ok inCount m groupID c index arr)"

definition group_count :: "RsTrackerNpCoordinator \<Rightarrow> nat" where
  "group_count mgr = length (npnode_map mgr) div 30 + 1"

definition get_np_address :: "nat \<Rightarrow> (nat \<Rightarrow> nat) \<Rightarrow> MD5_Hash_Str \<Rightarrow> map_str \<Rightarrow> nat \<Rightarrow> u32 \<Rightarrow>
    RsTrackerNpCoordinator \<Rightarrow> (nat \<times> PeerInfoWithAddr list) res option" where
  "get_np_address fuel rand resHash uuid inCount block mgr =
     np_rounds fuel rand (eligible resHash uuid block) inCount (npnode_map mgr)
       (map int [0..<group_count mgr]) 1 0 (replicate inCount PeerInfoWithAddr_new)"

section \<open>The table as a map\<close>

definition np_table_ok :: "RsTrackerNpCoordinator \<Rightarrow> bool" where
  "np_table_ok mgr \<longleftrightarrow> map_ordered map_str_lt (npnode_map mgr)"

lemma check_nodes_filter:
  "check_nodes now m = filter (\<lambda>(k, n). \<not> now - np_last_recv_report_time n > NP_MAX_IDLE_TIME_SEC) m"
  by (induction now m rule: check_nodes.induct) auto

lemma np_timer_check_ok:
  assumes "np_table_ok mgr"
  shows "np_table_ok (np_timer_check now mgr)"
    and "find_Node u (np_timer_check now mgr) = (case find_Node u mgr of None \<Rightarrow> None
      | Some n \<Rightarrow> if now - np_last_recv_report_time n > NP_MAX_IDLE_TIME_SEC then None else Some n)"
  using assms map_ordered_filter mapstr.find_filter_keys[of "npnode_map mgr" u
      "\<lambda>n. \<not> now - np_last_recv_report_time n > NP_MAX_IDLE_TIME_SEC"]
  by (auto simp: np_table_ok_def np_timer_check_def check_nodes_filter find_Node_def split: option.splits)

lemma insert_Node_ok:
  assumes "np_table_ok mgr"
  shows "np_table_ok (insert_Node d n mgr)"
    and "find_Node u (insert_Node d n mgr) =
      (if key_equiv map_str_lt u d then Some (NPNode_assign n) else find_Node u mgr)"
proof -
  show "np_table_ok (insert_Node d n mgr)"
    using assms mapstr.insert_ordered[of "npnode_map mgr" d "NPNode_assign n"]
    by (simp add: np_table_ok_def insert_Node_def split: option.splits)
  show "find_Node u (insert_Node d n mgr) =
      (if key_equiv map_str_lt u d then Some (NPNode_assign n) else find_Node u mgr)"
  proof (cases "find_Node d mgr")
    case None
    then show ?thesis
      using assms mapstr.find_insert[of "npnode_map mgr" u d "NPNode_assign n"]
      by (simp add: np_table_ok_def insert_Node_def find_Node_def)
  next
    case (Some old)
    then show ?thesis
      using mapstr.find_assign[of u d "NPNode_assign n" "npnode_map mgr"]
      by (simp add: insert_Node_def find_Node_def)
  qed
qed

lemma deleteNode_ok:
  assumes "np_table_ok mgr"
  shows "np_table_ok (deleteNode d mgr)"
    and "find_Node u (deleteNode d mgr) = (if key_equiv map_str_lt u d then None else find_Node u mgr)"
proof -
  have *: "npnode_map (deleteNode d mgr) = map_erase map_str_lt d (npnode_map mgr)"
    by (auto simp: deleteNode_def map_erase_absent split: option.splits)
  show "np_table_ok (deleteNode d mgr)"
    using assms map_erase_ordered unfolding np_table_ok_def * by fast
  show "find_Node u (deleteNode d mgr) = (if key_equiv map_str_lt u d then None else find_Node u mgr)"
    using assms mapstr.find_erase[of "npnode_map mgr" u d] unfolding find_Node_def * np_table_ok_def by simp
qed

section \<open>The choice of peers\<close>

text \<open>What has been found so far: eligible nodes of the map, in the first \<open>index\<close> cells.\<close>

definition found_ok :: "(NPNode \<Rightarrow> bool) \<Rightarrow> nat \<Rightarrow> (map_str, NPNode) cmap \<Rightarrow> nat \<Rightarrow> PeerInfoWithAddr list \<Rightarrow> bool" where
  "found_ok ok inCount m index arr \<longleftrightarrow> index \<le> inCount \<and> length arr = inCount \<and>
     set (take index arr) \<subseteq> peer_of ` {n \<in> snd ` set m. ok n}"

lemma scan_peers_found:
  assumes "found_ok ok inCount all index arr" "set m \<subseteq> set all"
  shows "\<exists>e i a. scan_peers ok inCount m index arr = Inr (e, i, a) \<and> found_ok ok inCount all i a"
  using assms
proof (induction m arbitrary: index arr)
  case Nil
  then show ?case by (intro exI[of _ True]) simp
next
  case (Cons p m)
  obtain k n where p: "p = (k, n)" by fastforce
  have sub: "set m \<subseteq> set all" "n \<in> snd ` set all" using Cons.prems(2) p by force+
  consider "inCount \<le> index" | "index < inCount" "ok n" | "index < inCount" "\<not> ok n" by linarith
  then show ?case
  proof cases
    case 1
    then show ?thesis using Cons.prems(1) p by (intro exI[of _ False]) simp
  next
    case 2
    then have "found_ok ok inCount all (Suc index) (arr[index := peer_of n])"
      using Cons.prems(1) sub(2) by (simp add: found_ok_def take_Suc_conv_app_nth)
    moreover have "index < length arr" using 2 Cons.prems(1) by (simp add: found_ok_def)
    ultimately show ?thesis using 2 p Cons.IH[OF _ sub(1)] by simp
  next
    case 3
    then show ?thesis using p Cons.IH[OF Cons.prems(1) sub(1)] by simp
  qed
qed

text \<open>The groups not yet tried.\<close>

definition fresh :: "int list \<Rightarrow> nat" where
  "fresh g = length (filter (\<lambda>x. x \<noteq> -1) g)"

lemma fresh_mark: "i < length g \<Longrightarrow> fresh (g[i := -1]) \<le> fresh g \<and> (g ! i \<noteq> -1 \<longrightarrow> fresh (g[i := -1]) < fresh g)"
proof (induction g arbitrary: i)
  case (Cons x g)
  then show ?case by (cases i) (auto simp: fresh_def)
qed simp

lemma pick_group_ok:
  assumes "\<forall>c. rand c \<noteq> 0" "length g = r" "0 < r" "\<forall>x\<in>set g. x = -1 \<or> (0 \<le> x \<and> x < N)"
    and "pick_group rand r f g p c = (p', g', c')"
  shows "length g' = r \<and> (\<forall>x\<in>set g'. x = -1 \<or> (0 \<le> x \<and> x < N)) \<and> fresh g' \<le> fresh g \<and>
    (0 < f \<longrightarrow> p' = -1 \<or> (0 \<le> p' \<and> p' < N \<and> fresh g' < fresh g))"
  using assms
proof (induction rand r f g p c arbitrary: p' g' c' rule: pick_group.induct)
  case (2 rand r f g p c)
  let ?id = "rand c mod r"
  have id: "?id < length g" using "2.prems"(2,3) by simp
  then have mem: "g ! ?id \<in> set g" by simp
  have upd: "\<forall>x\<in>set (g[?id := -1]). x = -1 \<or> (0 \<le> x \<and> x < N)"
    using "2.prems"(4) set_update_subset_insert[of g ?id "-1"] by blast
  have rec: "pick_group rand r f (g[?id := -1]) (g ! ?id) (Suc c) = (p', g', c')"
    using "2.prems"(1,5) by (simp add: Let_def)
  have IH: "length g' = r \<and> (\<forall>x\<in>set g'. x = -1 \<or> (0 \<le> x \<and> x < N)) \<and> fresh g' \<le> fresh (g[?id := -1]) \<and>
      (0 < f \<longrightarrow> p' = -1 \<or> (0 \<le> p' \<and> p' < N \<and> fresh g' < fresh (g[?id := -1])))"
    using "2.prems"(1-3) upd rec by (intro "2.IH"(1)[OF refl _ refl]) auto
  moreover have "p' = g ! ?id \<and> g' = g[?id := -1]" if "f = 0" using rec that by simp
  ultimately show ?case
    using fresh_mark[OF id] mem "2.prems"(4) by (cases "f = 0") auto
qed simp

lemma np_rounds_ends:
  assumes "\<forall>c. rand c \<noteq> 0" "g \<noteq> []" "\<forall>x\<in>set g. x = -1 \<or> (0 \<le> x \<and> x < N)"
    and "found_ok ok inCount m index arr" "fresh g < fuel"
  shows "\<exists>i a. np_rounds fuel rand ok inCount m g c index arr = Some (Inr (i, a)) \<and> found_ok ok inCount m i a"
  using assms
proof (induction fuel arbitrary: g c index arr)
  case (Suc fuel)
  obtain p' g' c' where p: "pick_group rand (length g) (length g) g 0 c = (p', g', c')"
    by (metis prod_cases3)
  have ok: "length g' = length g" "\<forall>x\<in>set g'. x = -1 \<or> (0 \<le> x \<and> x < N)"
    "p' = -1 \<or> fresh g' < fresh g"
    using pick_group_ok[OF Suc.prems(1) refl _ Suc.prems(3) p] Suc.prems(2) by auto
  obtain e i a where s: "scan_peers ok inCount (drop (nat p' * 30) m) index arr = Inr (e, i, a)"
    "found_ok ok inCount m i a"
    using scan_peers_found[OF Suc.prems(4), of "drop (nat p' * 30) m"] set_drop_subset[of "nat p' * 30" m] by blast
  show ?case
  proof (cases "p' = -1 \<or> \<not> e \<or> inCount \<le> i")
    case True
    then show ?thesis using p s Suc.prems(4) by auto
  next
    case False
    have "\<exists>i' a'. np_rounds fuel rand ok inCount m g' c' i a = Some (Inr (i', a')) \<and> found_ok ok inCount m i' a'"
      using False ok s(2) Suc.prems by (intro Suc.IH) auto
    then show ?thesis using False p s by simp
  qed
qed simp

lemma fresh_initial: "fresh (map int [0..<n]) = n"
  by (induction n) (simp_all add: fresh_def)

lemma get_np_address_ends:
  assumes "\<forall>c. rand c \<noteq> 0" "group_count mgr < fuel"
  shows "\<exists>k peers. get_np_address fuel rand resHash uuid inCount block mgr = Some (Inr (k, peers)) \<and>
    found_ok (eligible resHash uuid block) inCount (npnode_map mgr) k peers"
proof -
  let ?g = "map int [0..<group_count mgr]"
  have "found_ok (eligible resHash uuid block) inCount (npnode_map mgr) 0 (replicate inCount PeerInfoWithAddr_new)"
    by (simp add: found_ok_def)
  moreover have "\<forall>x\<in>set ?g. x = -1 \<or> (0 \<le> x \<and> x < int (group_count mgr))" by auto
  moreover have "?g \<noteq> []" by (simp add: group_count_def)
  ultimately show ?thesis
    unfolding get_np_address_def using np_rounds_ends[OF assms(1)] assms(2) fresh_initial by metis
qed

text \<open>
  A draw that takes a group twice comes up with -1 at its second visit: the round is lost,
  and with it the search.
\<close>

section \<open>The properties of the coordinator\<close>

text \<open>
  C32. Logging in, reporting, logging out and expiring normal peers is what a table keyed by
  uuid does: \<open>insert_Node\<close> stores the copy \<open>operator=\<close> makes, \<open>deleteNode\<close> forgets the
  uuid, \<open>timer_check\<close> forgets exactly the peers silent for more than 600 seconds; no other
  entry changes and the keys stay ordered.
\<close>

theorem np_table:
  assumes "np_table_ok mgr"
  shows "np_table_ok (insert_Node d n mgr) \<and>
    find_Node u (insert_Node d n mgr) = (if key_equiv map_str_lt u d then Some (NPNode_assign n) else find_Node u mgr) \<and>
    np_table_ok (deleteNode d mgr) \<and>
    find_Node u (deleteNode d mgr) = (if key_equiv map_str_lt u d then None else find_Node u mgr) \<and>
    np_table_ok (np_timer_check now mgr) \<and>
    find_Node u (np_timer_check now mgr) = (case find_Node u mgr of None \<Rightarrow> None
      | Some n \<Rightarrow> if now - np_last_recv_report_time n > 600 then None else Some n)"
  using insert_Node_ok[OF assms] deleteNode_ok[OF assms] np_timer_check_ok[OF assms] by simp

lemma np_table_witness:
  "find_Node [1] (insert_Node [1] (NPNode_new 3) RsTrackerNpCoordinator_new) = Some (NPNode_assign (NPNode_new 3))"
proof -
  have "np_table_ok RsTrackerNpCoordinator_new"
    by (simp add: np_table_ok_def RsTrackerNpCoordinator_new_def)
  then show ?thesis using np_table[of RsTrackerNpCoordinator_new "[1]" "NPNode_new 3" "[1]" 0] by simp
qed

text \<open>
  C27. The choice of peers ends and is sound: as long as \<open>rand()\<close> does not return 0, the loop
  ends after at most one more round than there are groups, for any number of peers and any
  draw; it writes only inside its array, returns at most \<open>inCount\<close> peers, and every peer
  returned is a registered one of the same channel, other than the asking peer, that holds
  the block.
\<close>

theorem np_choice:
  assumes "\<forall>c. rand c \<noteq> 0" "group_count mgr < fuel"
  shows "\<exists>k peers. get_np_address fuel rand resHash uuid inCount block mgr = Some (Inr (k, peers)) \<and>
    k \<le> inCount \<and> length peers = inCount \<and>
    (\<forall>p\<in>set (take k peers). \<exists>n. n \<in> snd ` set (npnode_map mgr) \<and> p = peer_of n \<and>
       MD5_eq (np_channelID_md5 n) resHash \<and> map_str_neq (np_digits n) uuid \<and>
       FindBlock (np_intervalArray n) block)"
  using get_np_address_ends[OF assms, of resHash uuid inCount block] unfolding found_ok_def eligible_def by fastforce

definition sample_peer :: NPNode where
  "sample_peer = (NPNode_new 0)\<lparr>np_digits := [2],
     np_intervalArray := \<lparr>ia_blocks = [\<lparr>bi_start = 0, bi_size = 10\<rparr>], ia_total = 1\<rparr>\<rparr>"

definition sample_peers :: RsTrackerNpCoordinator where
  "sample_peers = \<lparr>npnode_map = [([2], sample_peer)]\<rparr>"

lemma np_choice_witness:
  "\<exists>k peers. get_np_address 9 (\<lambda>_. 1) (np_channelID_md5 sample_peer) [1] 20 5 sample_peers = Some (Inr (k, peers)) \<and>
    k \<le> 20 \<and> length peers = 20"
  using np_choice[of "\<lambda>_. 1" sample_peers 9 "np_channelID_md5 sample_peer" "[1]" 20 5]
  by (fastforce simp: group_count_def sample_peers_def)

text \<open>The same call does find the peer.\<close>

lemma np_choice_finds:
  "get_np_address 9 (\<lambda>_. 1) (np_channelID_md5 sample_peer) [1] 1 5 sample_peers = Some (Inr (1, [peer_of sample_peer]))"
  by code_simp

text \<open>
  When \<open>rand()\<close> returns 0 in every call, the loop goes on for ever as soon as fewer peers
  than asked for are found in one walk over the table and none of them is eligible: no
  amount of fuel ends it.
\<close>

theorem np_choice_can_diverge:
  assumes "\<forall>c. rand c = 0" "0 < inCount" "\<forall>n\<in>snd ` set (npnode_map mgr). \<not> eligible resHash uuid block n"
  shows "get_np_address fuel rand resHash uuid inCount block mgr = None"
proof -
  let ?ok = "eligible resHash uuid block"
  have pick: "pick_group rand r f g p c = (p, g, c + f)" for r f g p c
    using assms(1) by (induction f arbitrary: c) (simp_all add: Let_def)
  have "\<forall>n\<in>snd ` set m. \<not> ?ok n \<Longrightarrow> scan_peers ?ok inCount m 0 arr = Inr (True, 0, arr)" for m arr
    using assms(2) by (induction m) auto
  then have scan: "scan_peers ?ok inCount (npnode_map mgr) 0 arr = Inr (True, 0, arr)" for arr
    using assms(3) by blast
  have "np_rounds fuel rand ?ok inCount (npnode_map mgr) g c 0 arr = None" for g c arr
    using assms(2) by (induction fuel arbitrary: c) (simp_all add: pick scan Let_def)
  then show ?thesis by (simp add: get_np_address_def)
qed

lemma np_choice_can_diverge_witness:
  "get_np_address 1000 (\<lambda>_. 0) (np_channelID_md5 sample_peer) [1] 20 5 RsTrackerNpCoordinator_new = None"
  by (rule np_choice_can_diverge) (simp_all add: RsTrackerNpCoordinator_new_def)

end
