(* ===== verification/Messages_Np.thy ===== *)
theory Messages_Np
  imports Message_Base
begin

text \<open>
  The messages between a normal peer and the tracker (\<open>core/message.h\<close>,
  \<open>core/message.cpp\<close>), laid out as in \<open>Messages_Sp\<close>.

  Two classes break the contract of \<open>RsMessage\<close>. \<open>Np2TsReport\<close> reserves four bytes
  fewer than it writes, writes no message percent although \<open>parse\<close> reads one, and
  \<open>parse\<close> stores the intervals through a pointer nothing has set. \<open>Ts2NpPeers\<close> keeps
  the contract only when its two counts are equal: its second loop runs to the first count.
\<close>

section \<open>NP2TS_LOGIN\<close>

text \<open>An \<open>in_addr\<close> is its 32-bit address.\<close>

record Np2TsLogin =
  login_id :: u32
  login_password :: bytes
  login_client_version :: float32
  login_listening_port :: u16
  login_ip_list_size :: u8
  login_ip_addr :: "u32 list"

definition Np2TsLogin_parse :: "Np2TsLogin \<Rightarrow> streamer \<Rightarrow> (Np2TsLogin \<times> streamer) res" where
  "Np2TsLogin_parse m s =
     bindE (read_int s) (\<lambda>(login_id, s).
     bindE (read_nbytes MD5_LEN s) (\<lambda>(password, s).
     bindE (read_object 4 dec s) (\<lambda>(client_version, s).
     bindE (read_short s) (\<lambda>(listening_port, s).
     bindE (read_char s) (\<lambda>(ip_list_size, s).
     bindE (read_array (unat ip_list_size) (read_object 4 dec) s) (\<lambda>(ips, s).
     Inr (\<lparr>login_id = login_id, login_password = password, login_client_version = client_version,
           login_listening_port = listening_port, login_ip_list_size = ip_list_size,
           login_ip_addr = (if ip_list_size \<noteq> 0 then ips else login_ip_addr m)\<rparr>, s)))))))"

definition Np2TsLogin_submsg :: "Np2TsLogin \<Rightarrow> streamer \<Rightarrow> streamer res" where
  "Np2TsLogin_submsg m = seqW [
     write_char (msg_code NP2TS_LOGIN),
     write_int (login_id m),
     write_nbytes (login_password m) MD5_LEN,
     write_nbytes (enc (login_client_version m)) 4,
     write_short (login_listening_port m),
     write_char (login_ip_list_size m),
     write_array (unat (login_ip_list_size m)) (\<lambda>ip. write_nbytes (enc ip) 4) (login_ip_addr m)]"

definition Np2TsLogin_reserve :: "Np2TsLogin \<Rightarrow> int" where
  "Np2TsLogin_reserve m = RsMessage_reserve_pack_size + 4 + int MD5_LEN + 4 + 2 + 1 + int (unat (login_ip_list_size m)) * 4"

definition Np2TsLogin_content :: "Np2TsLogin \<Rightarrow> bytes" where
  "Np2TsLogin_content m = enc (login_id m) @ login_password m @ enc (login_client_version m) @
     enc (login_listening_port m) @ [login_ip_list_size m] @ concat (map enc (login_ip_addr m))"

definition Np2TsLogin_wf :: "Np2TsLogin \<Rightarrow> bool" where
  "Np2TsLogin_wf m \<longleftrightarrow> length (login_password m) = MD5_LEN \<and> length (login_ip_addr m) = unat (login_ip_list_size m)"

interpretation np2ts_login: wire_message Np2TsLogin_wf Np2TsLogin_reserve Np2TsLogin_submsg
  NP2TS_LOGIN Np2TsLogin_content "Np2TsLogin_parse (junk\<lparr>login_ip_addr := []\<rparr>)"
proof
  fix m :: Np2TsLogin
  assume wf: "Np2TsLogin_wf m"
  then show "emits (Np2TsLogin_submsg m) (msg_code NP2TS_LOGIN # Np2TsLogin_content m)"
    unfolding Np2TsLogin_submsg_def Np2TsLogin_content_def Np2TsLogin_wf_def
    by (intro emits_intros) simp_all
  show "Np2TsLogin_reserve m = 5 + int (length (Np2TsLogin_content m))" "Np2TsLogin_reserve m < 2 ^ 31"
    using wf uint_u8[of "login_ip_list_size m"]
    by (simp_all add: Np2TsLogin_reserve_def RsMessage_reserve_pack_size_def Np2TsLogin_content_def Np2TsLogin_wf_def
        length_concat_const[where k = 4])
next
  fix m s post
  assume "Np2TsLogin_wf m" "avail s = Np2TsLogin_content m @ post"
  then show "Np2TsLogin_parse (junk\<lparr>login_ip_addr := []\<rparr>) s = Inr (m, adv (length (Np2TsLogin_content m)) s)"
    using read_objects_ok[of "adv 43 s" enc "login_ip_addr m" post 4 dec]
    by (auto simp: Np2TsLogin_parse_def Np2TsLogin_content_def Np2TsLogin_wf_def
        read_object_def[of 4 dec s] read_object_def[of 4 dec "adv 36 s"] wire_simps length_concat_const[where k = 4])
qed

section \<open>NP2TS_REQ_RES\<close>

record Np2TsReqRes =
  reqres_uuid :: bytes
  reqres_resource_md5 :: bytes

definition Np2TsReqRes_parse :: "streamer \<Rightarrow> (Np2TsReqRes \<times> streamer) res" where
  "Np2TsReqRes_parse s =
     bindE (read_nbytes UUID_LENGTH s) (\<lambda>(uuid, s).
     bindE (read_nbytes MD5_LEN s) (\<lambda>(resource_md5, s).
     Inr (\<lparr>reqres_uuid = uuid, reqres_resource_md5 = resource_md5\<rparr>, s)))"

definition Np2TsReqRes_submsg :: "Np2TsReqRes \<Rightarrow> streamer \<Rightarrow> streamer res" where
  "Np2TsReqRes_submsg m = seqW [
     write_char (msg_code NP2TS_REQ_RES),
     write_nbytes (reqres_uuid m) UUID_LENGTH,
     write_nbytes (reqres_resource_md5 m) MD5_LEN]"

definition Np2TsReqRes_reserve :: "Np2TsReqRes \<Rightarrow> int" where
  "Np2TsReqRes_reserve m = RsMessage_reserve_pack_size + int UUID_LENGTH + int MD5_LEN"

definition Np2TsReqRes_content :: "Np2TsReqRes \<Rightarrow> bytes" where
  "Np2TsReqRes_content m = reqres_uuid m @ reqres_resource_md5 m"

definition Np2TsReqRes_wf :: "Np2TsReqRes \<Rightarrow> bool" where
  "Np2TsReqRes_wf m \<longleftrightarrow> length (reqres_uuid m) = UUID_LENGTH \<and> length (reqres_resource_md5 m) = MD5_LEN"

interpretation np2tsreqres: wire_message Np2TsReqRes_wf Np2TsReqRes_reserve Np2TsReqRes_submsg
  NP2TS_REQ_RES Np2TsReqRes_content Np2TsReqRes_parse
proof
  fix m :: Np2TsReqRes
  assume "Np2TsReqRes_wf m"
  then show "emits (Np2TsReqRes_submsg m) (msg_code NP2TS_REQ_RES # Np2TsReqRes_content m)"
    unfolding Np2TsReqRes_submsg_def Np2TsReqRes_content_def Np2TsReqRes_wf_def by (intro emits_intros) simp_all
  show "Np2TsReqRes_reserve m = 5 + int (length (Np2TsReqRes_content m))" "Np2TsReqRes_reserve m < 2 ^ 31"
    using \<open>Np2TsReqRes_wf m\<close>
    by (simp_all add: Np2TsReqRes_reserve_def RsMessage_reserve_pack_size_def Np2TsReqRes_content_def Np2TsReqRes_wf_def)
next
  fix m s post
  assume "Np2TsReqRes_wf m" "avail s = Np2TsReqRes_content m @ post"
  then show "Np2TsReqRes_parse s = Inr (m, adv (length (Np2TsReqRes_content m)) s)"
    by (simp add: Np2TsReqRes_parse_def Np2TsReqRes_content_def Np2TsReqRes_wf_def read_object_def wire_simps)
qed

section \<open>NP2TS_NEED_PEERS\<close>

record Np2TsNeedPeers =
  needpeers_uuid :: bytes
  needpeers_current_block :: u32

definition Np2TsNeedPeers_parse :: "streamer \<Rightarrow> (Np2TsNeedPeers \<times> streamer) res" where
  "Np2TsNeedPeers_parse s =
     bindE (read_nbytes UUID_LENGTH s) (\<lambda>(uuid, s).
     bindE (read_int s) (\<lambda>(current_block, s).
     Inr (\<lparr>needpeers_uuid = uuid, needpeers_current_block = current_block\<rparr>, s)))"

definition Np2TsNeedPeers_submsg :: "Np2TsNeedPeers \<Rightarrow> streamer \<Rightarrow> streamer res" where
  "Np2TsNeedPeers_submsg m = seqW [
     write_char (msg_code NP2TS_NEED_PEERS),
     write_nbytes (needpeers_uuid m) UUID_LENGTH,
     write_int (needpeers_current_block m)]"

definition Np2TsNeedPeers_reserve :: "Np2TsNeedPeers \<Rightarrow> int" where
  "Np2TsNeedPeers_reserve m = RsMessage_reserve_pack_size + int UUID_LENGTH + 4"

definition Np2TsNeedPeers_content :: "Np2TsNeedPeers \<Rightarrow> bytes" where
  "Np2TsNeedPeers_content m = needpeers_uuid m @ enc (needpeers_current_block m)"

definition Np2TsNeedPeers_wf :: "Np2TsNeedPeers \<Rightarrow> bool" where
  "Np2TsNeedPeers_wf m \<longleftrightarrow> length (needpeers_uuid m) = UUID_LENGTH"

interpretation np2tsneedpeers: wire_message Np2TsNeedPeers_wf Np2TsNeedPeers_reserve Np2TsNeedPeers_submsg
  NP2TS_NEED_PEERS Np2TsNeedPeers_content Np2TsNeedPeers_parse
proof
  fix m :: Np2TsNeedPeers
  assume "Np2TsNeedPeers_wf m"
  then show "emits (Np2TsNeedPeers_submsg m) (msg_code NP2TS_NEED_PEERS # Np2TsNeedPeers_content m)"
    unfolding Np2TsNeedPeers_submsg_def Np2TsNeedPeers_content_def Np2TsNeedPeers_wf_def by (intro emits_intros) simp_all
  show "Np2TsNeedPeers_reserve m = 5 + int (length (Np2TsNeedPeers_content m))" "Np2TsNeedPeers_reserve m < 2 ^ 31"
    using \<open>Np2TsNeedPeers_wf m\<close>
    by (simp_all add: Np2TsNeedPeers_reserve_def RsMessage_reserve_pack_size_def Np2TsNeedPeers_content_def Np2TsNeedPeers_wf_def)
next
  fix m s post
  assume "Np2TsNeedPeers_wf m" "avail s = Np2TsNeedPeers_content m @ post"
  then show "Np2TsNeedPeers_parse s = Inr (m, adv (length (Np2TsNeedPeers_content m)) s)"
    by (simp add: Np2TsNeedPeers_parse_def Np2TsNeedPeers_content_def Np2TsNeedPeers_wf_def read_object_def wire_simps)
qed

section \<open>NP2TS_RES_INTERVAL\<close>

record Np2TsReqInterval =
  reqinterval_uuid :: bytes

definition Np2TsReqInterval_parse :: "streamer \<Rightarrow> (Np2TsReqInterval \<times> streamer) res" where
  "Np2TsReqInterval_parse s = bindE (read_nbytes UUID_LENGTH s) (\<lambda>(uuid, s). Inr (\<lparr>reqinterval_uuid = uuid\<rparr>, s))"

definition Np2TsReqInterval_submsg :: "Np2TsReqInterval \<Rightarrow> streamer \<Rightarrow> streamer res" where
  "Np2TsReqInterval_submsg m = seqW [write_char (msg_code NP2TS_RES_INTERVAL), write_nbytes (reqinterval_uuid m) UUID_LENGTH]"

definition Np2TsReqInterval_reserve :: "Np2TsReqInterval \<Rightarrow> int" where
  "Np2TsReqInterval_reserve m = RsMessage_reserve_pack_size + int UUID_LENGTH"

definition Np2TsReqInterval_wf :: "Np2TsReqInterval \<Rightarrow> bool" where
  "Np2TsReqInterval_wf m \<longleftrightarrow> length (reqinterval_uuid m) = UUID_LENGTH"

interpretation np2tsreqinterval: wire_message Np2TsReqInterval_wf Np2TsReqInterval_reserve Np2TsReqInterval_submsg
  NP2TS_RES_INTERVAL reqinterval_uuid Np2TsReqInterval_parse
proof
  fix m :: Np2TsReqInterval
  assume "Np2TsReqInterval_wf m"
  then show "emits (Np2TsReqInterval_submsg m) (msg_code NP2TS_RES_INTERVAL # reqinterval_uuid m)"
    unfolding Np2TsReqInterval_submsg_def Np2TsReqInterval_wf_def by (intro emits_intros)
  show "Np2TsReqInterval_reserve m = 5 + int (length (reqinterval_uuid m))" "Np2TsReqInterval_reserve m < 2 ^ 31"
    using \<open>Np2TsReqInterval_wf m\<close> by (simp_all add: Np2TsReqInterval_reserve_def RsMessage_reserve_pack_size_def Np2TsReqInterval_wf_def)
next
  fix m s post
  assume "Np2TsReqInterval_wf m" "avail s = reqinterval_uuid m @ post"
  then show "Np2TsReqInterval_parse s = Inr (m, adv (length (reqinterval_uuid m)) s)"
    by (simp add: Np2TsReqInterval_parse_def Np2TsReqInterval_wf_def wire_simps)
qed

section \<open>NP2TS_LOGOUT\<close>

record Np2TsLogout =
  np_logout_uuid :: bytes

definition Np2TsLogout_parse :: "streamer \<Rightarrow> (Np2TsLogout \<times> streamer) res" where
  "Np2TsLogout_parse s = bindE (read_nbytes UUID_LENGTH s) (\<lambda>(uuid, s). Inr (\<lparr>np_logout_uuid = uuid\<rparr>, s))"

definition Np2TsLogout_submsg :: "Np2TsLogout \<Rightarrow> streamer \<Rightarrow> streamer res" where
  "Np2TsLogout_submsg m = seqW [write_char (msg_code NP2TS_LOGOUT), write_nbytes (np_logout_uuid m) UUID_LENGTH]"

definition Np2TsLogout_reserve :: "Np2TsLogout \<Rightarrow> int" where
  "Np2TsLogout_reserve m = RsMessage_reserve_pack_size + int UUID_LENGTH"

definition Np2TsLogout_wf :: "Np2TsLogout \<Rightarrow> bool" where
  "Np2TsLogout_wf m \<longleftrightarrow> length (np_logout_uuid m) = UUID_LENGTH"

interpretation np2tslogout: wire_message Np2TsLogout_wf Np2TsLogout_reserve Np2TsLogout_submsg
  NP2TS_LOGOUT np_logout_uuid Np2TsLogout_parse
proof
  fix m :: Np2TsLogout
  assume "Np2TsLogout_wf m"
  then show "emits (Np2TsLogout_submsg m) (msg_code NP2TS_LOGOUT # np_logout_uuid m)"
    unfolding Np2TsLogout_submsg_def Np2TsLogout_wf_def by (intro emits_intros)
  show "Np2TsLogout_reserve m = 5 + int (length (np_logout_uuid m))" "Np2TsLogout_reserve m < 2 ^ 31"
    using \<open>Np2TsLogout_wf m\<close> by (simp_all add: Np2TsLogout_reserve_def RsMessage_reserve_pack_size_def Np2TsLogout_wf_def)
next
  fix m s post
  assume "Np2TsLogout_wf m" "avail s = np_logout_uuid m @ post"
  then show "Np2TsLogout_parse s = Inr (m, adv (length (np_logout_uuid m)) s)"
    by (simp add: Np2TsLogout_parse_def Np2TsLogout_wf_def wire_simps)
qed

section \<open>TS2NP_WELCOME\<close>

record Ts2NpWelcome =
  npwelcome_uuid :: bytes
  npwelcome_peer_ip :: P2PAddress

definition Ts2NpWelcome_parse :: "streamer \<Rightarrow> (Ts2NpWelcome \<times> streamer) res" where
  "Ts2NpWelcome_parse s =
     bindE (read_nbytes UUID_LENGTH s) (\<lambda>(uuid, s).
     bindE (read_object 16 P2PAddress_of_bytes s) (\<lambda>(peer_ip, s).
     Inr (\<lparr>npwelcome_uuid = uuid, npwelcome_peer_ip = peer_ip\<rparr>, s)))"

definition Ts2NpWelcome_submsg :: "Ts2NpWelcome \<Rightarrow> streamer \<Rightarrow> streamer res" where
  "Ts2NpWelcome_submsg m = seqW [
     write_char (msg_code TS2NP_WELCOME),
     write_nbytes (npwelcome_uuid m) UUID_LENGTH,
     write_nbytes (bytes_of_P2PAddress (npwelcome_peer_ip m)) 16]"

definition Ts2NpWelcome_reserve :: "Ts2NpWelcome \<Rightarrow> int" where
  "Ts2NpWelcome_reserve m = RsMessage_reserve_pack_size + int UUID_LENGTH + 16"

definition Ts2NpWelcome_content :: "Ts2NpWelcome \<Rightarrow> bytes" where
  "Ts2NpWelcome_content m = npwelcome_uuid m @ bytes_of_P2PAddress (npwelcome_peer_ip m)"

definition Ts2NpWelcome_wf :: "Ts2NpWelcome \<Rightarrow> bool" where
  "Ts2NpWelcome_wf m \<longleftrightarrow> length (npwelcome_uuid m) = UUID_LENGTH"

interpretation ts2npwelcome: wire_message Ts2NpWelcome_wf Ts2NpWelcome_reserve Ts2NpWelcome_submsg
  TS2NP_WELCOME Ts2NpWelcome_content Ts2NpWelcome_parse
proof
  fix m :: Ts2NpWelcome
  assume "Ts2NpWelcome_wf m"
  then show "emits (Ts2NpWelcome_submsg m) (msg_code TS2NP_WELCOME # Ts2NpWelcome_content m)"
    unfolding Ts2NpWelcome_submsg_def Ts2NpWelcome_content_def Ts2NpWelcome_wf_def by (intro emits_intros) simp_all
  show "Ts2NpWelcome_reserve m = 5 + int (length (Ts2NpWelcome_content m))" "Ts2NpWelcome_reserve m < 2 ^ 31"
    using \<open>Ts2NpWelcome_wf m\<close>
    by (simp_all add: Ts2NpWelcome_reserve_def RsMessage_reserve_pack_size_def Ts2NpWelcome_content_def Ts2NpWelcome_wf_def)
next
  fix m s post
  assume "Ts2NpWelcome_wf m" "avail s = Ts2NpWelcome_content m @ post"
  then show "Ts2NpWelcome_parse s = Inr (m, adv (length (Ts2NpWelcome_content m)) s)"
    by (simp add: Ts2NpWelcome_parse_def Ts2NpWelcome_content_def Ts2NpWelcome_wf_def read_object_def wire_simps)
qed

section \<open>TS2NP_RES_INTERVAL\<close>

record Ts2NpResInterval =
  resinterval_block :: BlockInterval

definition Ts2NpResInterval_parse :: "streamer \<Rightarrow> (Ts2NpResInterval \<times> streamer) res" where
  "Ts2NpResInterval_parse s =
     bindE (read_object 8 BlockInterval_of_bytes s) (\<lambda>(block, s).
     Inr (\<lparr>resinterval_block = block\<rparr>, s))"

definition Ts2NpResInterval_submsg :: "Ts2NpResInterval \<Rightarrow> streamer \<Rightarrow> streamer res" where
  "Ts2NpResInterval_submsg m = seqW [
     write_char (msg_code TS2NP_RES_INTERVAL),
     write_nbytes (bytes_of_BlockInterval (resinterval_block m)) 8]"

definition Ts2NpResInterval_reserve :: "Ts2NpResInterval \<Rightarrow> int" where
  "Ts2NpResInterval_reserve m = RsMessage_reserve_pack_size + 8"

definition Ts2NpResInterval_content :: "Ts2NpResInterval \<Rightarrow> bytes" where
  "Ts2NpResInterval_content m = bytes_of_BlockInterval (resinterval_block m)"

definition Ts2NpResInterval_wf :: "Ts2NpResInterval \<Rightarrow> bool" where
  "Ts2NpResInterval_wf m \<longleftrightarrow> True"

interpretation ts2npresinterval: wire_message Ts2NpResInterval_wf Ts2NpResInterval_reserve Ts2NpResInterval_submsg
  TS2NP_RES_INTERVAL Ts2NpResInterval_content Ts2NpResInterval_parse
proof
  fix m :: Ts2NpResInterval
  assume "Ts2NpResInterval_wf m"
  then show "emits (Ts2NpResInterval_submsg m) (msg_code TS2NP_RES_INTERVAL # Ts2NpResInterval_content m)"
    unfolding Ts2NpResInterval_submsg_def Ts2NpResInterval_content_def Ts2NpResInterval_wf_def by (intro emits_intros) simp_all
  show "Ts2NpResInterval_reserve m = 5 + int (length (Ts2NpResInterval_content m))" "Ts2NpResInterval_reserve m < 2 ^ 31"
    using \<open>Ts2NpResInterval_wf m\<close>
    by (simp_all add: Ts2NpResInterval_reserve_def RsMessage_reserve_pack_size_def Ts2NpResInterval_content_def Ts2NpResInterval_wf_def)
next
  fix m s post
  assume "Ts2NpResInterval_wf m" "avail s = Ts2NpResInterval_content m @ post"
  then show "Ts2NpResInterval_parse s = Inr (m, adv (length (Ts2NpResInterval_content m)) s)"
    by (simp add: Ts2NpResInterval_parse_def Ts2NpResInterval_content_def Ts2NpResInterval_wf_def read_object_def wire_simps)
qed

section \<open>TS2NP_MSG\<close>

text \<open>A \<open>bool\<close> is written as one byte, 0 or 1, and read back as \<open>nonzero\<close>.\<close>

record Ts2NpMsg =
  npmsg_err_type :: u16
  npmsg_should_quit :: bool

definition Ts2NpMsg_parse :: "streamer \<Rightarrow> (Ts2NpMsg \<times> streamer) res" where
  "Ts2NpMsg_parse s =
     bindE (read_short s) (\<lambda>(err_type, s).
     bindE (read_char s) (\<lambda>(should_quit, s).
     Inr (\<lparr>npmsg_err_type = err_type, npmsg_should_quit = (should_quit \<noteq> 0)\<rparr>, s)))"

definition Ts2NpMsg_submsg :: "Ts2NpMsg \<Rightarrow> streamer \<Rightarrow> streamer res" where
  "Ts2NpMsg_submsg m = seqW [
     write_char (msg_code TS2NP_MSG),
     write_short (npmsg_err_type m),
     write_char (if npmsg_should_quit m then 1 else 0)]"

definition Ts2NpMsg_reserve :: "Ts2NpMsg \<Rightarrow> int" where
  "Ts2NpMsg_reserve m = RsMessage_reserve_pack_size + 2 + 1"

definition Ts2NpMsg_content :: "Ts2NpMsg \<Rightarrow> bytes" where
  "Ts2NpMsg_content m = enc (npmsg_err_type m) @ [if npmsg_should_quit m then 1 else 0]"

interpretation ts2npmsg: wire_message "\<lambda>_. True" Ts2NpMsg_reserve Ts2NpMsg_submsg
  TS2NP_MSG Ts2NpMsg_content Ts2NpMsg_parse
proof
  fix m :: Ts2NpMsg
  show "emits (Ts2NpMsg_submsg m) (msg_code TS2NP_MSG # Ts2NpMsg_content m)"
    unfolding Ts2NpMsg_submsg_def Ts2NpMsg_content_def by (intro emits_intros)
  show "Ts2NpMsg_reserve m = 5 + int (length (Ts2NpMsg_content m))" "Ts2NpMsg_reserve m < 2 ^ 31"
    by (simp_all add: Ts2NpMsg_reserve_def RsMessage_reserve_pack_size_def Ts2NpMsg_content_def)
next
  fix m s post
  assume "avail s = Ts2NpMsg_content m @ post"
  then show "Ts2NpMsg_parse s = Inr (m, adv (length (Ts2NpMsg_content m)) s)"
    by (simp add: Ts2NpMsg_parse_def Ts2NpMsg_content_def wire_simps)
qed

section \<open>TS2NP_PEERS\<close>

record Ts2NpPeers =
  peers_sp_list_size :: u8
  peers_sp_addr :: "NetAddress list"
  peers_peer_list_size :: u8
  peers_peer_addr :: "PeerInfoWithAddr list"
  peers_np_addr :: NetAddress

definition Ts2NpPeers_parse :: "Ts2NpPeers \<Rightarrow> streamer \<Rightarrow> (Ts2NpPeers \<times> streamer) res" where
  "Ts2NpPeers_parse m s =
     bindE (read_char s) (\<lambda>(sp_size, s).
     bindE (read_array (unat sp_size) (read_object 8 NetAddress_of_bytes) s) (\<lambda>(sps, s).
     bindE (read_char s) (\<lambda>(peer_size, s).
     bindE (read_array (unat peer_size) (read_object 20 Peer_of_bytes) s) (\<lambda>(peers, s).
     bindE (read_object 8 NetAddress_of_bytes s) (\<lambda>(np, s).
     Inr (\<lparr>peers_sp_list_size = sp_size,
           peers_sp_addr = (if sp_size \<noteq> 0 then sps else peers_sp_addr m),
           peers_peer_list_size = peer_size,
           peers_peer_addr = (if peer_size \<noteq> 0 then peers else peers_peer_addr m),
           peers_np_addr = np\<rparr>, s))))))"

text \<open>The second loop of \<open>pack_submsg\<close> runs to \<open>sp_list_size\<close> too.\<close>

definition Ts2NpPeers_submsg :: "Ts2NpPeers \<Rightarrow> streamer \<Rightarrow> streamer res" where
  "Ts2NpPeers_submsg m = seqW [
     write_char (msg_code TS2NP_PEERS),
     write_char (peers_sp_list_size m),
     write_array (unat (peers_sp_list_size m)) (\<lambda>a. write_nbytes (bytes_of_NetAddress a) 8) (peers_sp_addr m),
     write_char (peers_peer_list_size m),
     write_array (unat (peers_sp_list_size m)) (\<lambda>p. write_nbytes (bytes_of_Peer p) 20) (peers_peer_addr m),
     write_nbytes (bytes_of_NetAddress (peers_np_addr m)) 8]"

text \<open>\<open>sizeof(sizeof(NetAddress))\<close> is 8, as \<open>sizeof(NetAddress)\<close> happens to be.\<close>

definition Ts2NpPeers_reserve :: "Ts2NpPeers \<Rightarrow> int" where
  "Ts2NpPeers_reserve m = RsMessage_reserve_pack_size + 1 + int (unat (peers_sp_list_size m)) * 8 +
     1 + int (unat (peers_peer_list_size m)) * 20 + 8"

definition Ts2NpPeers_content :: "Ts2NpPeers \<Rightarrow> bytes" where
  "Ts2NpPeers_content m = [peers_sp_list_size m] @ concat (map bytes_of_NetAddress (peers_sp_addr m)) @
     [peers_peer_list_size m] @ concat (map bytes_of_Peer (peers_peer_addr m)) @ bytes_of_NetAddress (peers_np_addr m)"

definition Ts2NpPeers_wf :: "Ts2NpPeers \<Rightarrow> bool" where
  "Ts2NpPeers_wf m \<longleftrightarrow> length (peers_sp_addr m) = unat (peers_sp_list_size m) \<and>
     length (peers_peer_addr m) = unat (peers_peer_list_size m)"

lemma Ts2NpPeers_parse_content:
  assumes "Ts2NpPeers_wf m" "avail s = Ts2NpPeers_content m @ post"
  shows "Ts2NpPeers_parse (junk\<lparr>peers_sp_addr := [], peers_peer_addr := []\<rparr>) s =
    Inr (m, adv (length (Ts2NpPeers_content m)) s)"
proof -
  let ?n = "length (peers_sp_addr m)" and ?k = "length (peers_peer_addr m)"
  have len: "length (concat (map bytes_of_NetAddress (peers_sp_addr m))) = 8 * ?n"
    "length (concat (map bytes_of_Peer (peers_peer_addr m))) = 20 * ?k"
    by (simp_all add: length_concat_const[where k = 8] length_concat_const[where k = 20])
  have "read_array ?n (read_object 8 NetAddress_of_bytes) (adv 1 s) = Inr (peers_sp_addr m, adv (8 * ?n) (adv 1 s))"
    using assms(2) by (simp add: Ts2NpPeers_content_def read_objects_ok[OF _ _ length_NetAddress NetAddress_of_bytes_of])
  moreover have "read_array ?k (read_object 20 Peer_of_bytes) (adv (2 + 8 * ?n) s) =
      Inr (peers_peer_addr m, adv (20 * ?k) (adv (2 + 8 * ?n) s))"
    using assms(2) len by (simp add: Ts2NpPeers_content_def read_objects_ok[OF _ _ length_Peer Peer_of_bytes_of])
  ultimately show ?thesis
    using assms len
    by (auto simp: Ts2NpPeers_parse_def Ts2NpPeers_content_def Ts2NpPeers_wf_def read_object_def[of 8 _ "adv _ s"] wire_simps)
qed

text \<open>With equal counts the class keeps the contract.\<close>

interpretation ts2np_peers: wire_message
  "\<lambda>m. Ts2NpPeers_wf m \<and> peers_sp_list_size m = peers_peer_list_size m"
  Ts2NpPeers_reserve Ts2NpPeers_submsg TS2NP_PEERS Ts2NpPeers_content
  "Ts2NpPeers_parse (junk\<lparr>peers_sp_addr := [], peers_peer_addr := []\<rparr>)"
proof
  fix m
  assume wf: "Ts2NpPeers_wf m \<and> peers_sp_list_size m = peers_peer_list_size m"
  then show "emits (Ts2NpPeers_submsg m) (msg_code TS2NP_PEERS # Ts2NpPeers_content m)"
    unfolding Ts2NpPeers_submsg_def Ts2NpPeers_content_def Ts2NpPeers_wf_def
    by (intro emits_intros) simp_all
  show "Ts2NpPeers_reserve m = 5 + int (length (Ts2NpPeers_content m))" "Ts2NpPeers_reserve m < 2 ^ 31"
    using wf uint_u8[of "peers_peer_list_size m"]
    by (simp_all add: Ts2NpPeers_reserve_def RsMessage_reserve_pack_size_def Ts2NpPeers_content_def Ts2NpPeers_wf_def
        length_concat_const[where k = 8] length_concat_const[where k = 20])
qed (use Ts2NpPeers_parse_content in blast)

text \<open>With more super peers than peers, packing reads past the array of peers.\<close>

lemma Ts2NpPeers_pack_short:
  assumes "Ts2NpPeers_wf m" "unat (peers_peer_list_size m) < unat (peers_sp_list_size m)"
  shows "\<exists>e. RsMessage_pack junk (Ts2NpPeers_reserve m) (Ts2NpPeers_submsg m) = Inl e"
proof -
  have "length (peers_peer_addr m) < unat (peers_sp_list_size m)"
    using assms by (simp add: Ts2NpPeers_wf_def)
  then have "\<exists>e. Ts2NpPeers_submsg m s = Inl e" for s
    unfolding Ts2NpPeers_submsg_def
    by (intro seqW_fails[where w = "write_array (unat (peers_sp_list_size m))
      (\<lambda>p. write_nbytes (bytes_of_Peer p) 20) (peers_peer_addr m)"] write_array_short) simp
  then show ?thesis by (rule pack_fails)
qed

section \<open>NP2TS_REPORT\<close>

text \<open>No constructor sets the pointer \<open>blockinterval\<close>: \<open>None\<close> is the indeterminate pointer.\<close>

record Np2TsReport =
  report_uuid :: bytes
  report_coreinfo :: CorePeerInfo
  report_interval_count :: u8
  report_blockinterval :: "BlockInterval list option"
  report_transferinfo :: TransferInfo
  report_playing_block :: u32
  report_current_buffering_time :: u16
  report_buffered_count :: u16
  report_buffered_time :: u16
  report_connect_fail_count :: u16
  report_incoming_connection_count :: u16
  report_outgoing_connection_count :: u16
  report_avg_incoming_elapsed :: u16
  report_avg_outgoing_elapsed :: u16
  report_message_percent :: float32

fun report_blocks :: "nat \<Rightarrow> nat \<Rightarrow> BlockInterval list option \<Rightarrow> streamer \<Rightarrow>
    (BlockInterval list option \<times> streamer) res" where
  "report_blocks 0 i bs s = Inr (bs, s)"
| "report_blocks (Suc n) i bs s =
     bindE (read_object 8 BlockInterval_of_bytes s) (\<lambda>(b, s).
     case bs of None \<Rightarrow> Inl Uninitialised
     | Some xs \<Rightarrow>
         bindE (guardE Out_Of_Bounds (i < length xs)) (\<lambda>_. report_blocks n (Suc i) (Some (xs[i := b])) s))"

definition Np2TsReport_parse :: "Np2TsReport \<Rightarrow> streamer \<Rightarrow> (Np2TsReport \<times> streamer) res" where
  "Np2TsReport_parse m s =
     bindE (read_nbytes UUID_LENGTH s) (\<lambda>(uuid, s).
     bindE (read_object 4 CorePeerInfo_of_bytes s) (\<lambda>(coreinfo, s).
     bindE (read_char s) (\<lambda>(interval_count, s).
     bindE (report_blocks (unat interval_count) 0 (report_blockinterval m) s) (\<lambda>(blockinterval, s).
     bindE (read_object 32 TransferInfo_of_bytes s) (\<lambda>(transferinfo, s).
     bindE (read_int s) (\<lambda>(playing_block, s).
     bindE (read_short s) (\<lambda>(current_buffering_time, s).
     bindE (read_short s) (\<lambda>(buffered_count, s).
     bindE (read_short s) (\<lambda>(buffered_time, s).
     bindE (read_short s) (\<lambda>(connect_fail_count, s).
     bindE (read_short s) (\<lambda>(incoming_connection_count, s).
     bindE (read_short s) (\<lambda>(outgoing_connection_count, s).
     bindE (read_short s) (\<lambda>(avg_incoming, s).
     bindE (read_short s) (\<lambda>(avg_outgoing, s).
     bindE (read_object 4 dec s) (\<lambda>(message_percent, s).
     Inr (\<lparr>report_uuid = uuid, report_coreinfo = coreinfo, report_interval_count = interval_count,
           report_blockinterval = blockinterval, report_transferinfo = transferinfo,
           report_playing_block = playing_block, report_current_buffering_time = current_buffering_time,
           report_buffered_count = buffered_count, report_buffered_time = buffered_time,
           report_connect_fail_count = connect_fail_count,
           report_incoming_connection_count = incoming_connection_count,
           report_outgoing_connection_count = outgoing_connection_count,
           report_avg_incoming_elapsed = avg_incoming, report_avg_outgoing_elapsed = avg_outgoing,
           report_message_percent = message_percent\<rparr>, s))))))))))))))))"

definition report_write_blocks :: "nat \<Rightarrow> BlockInterval list option \<Rightarrow> streamer \<Rightarrow> streamer res" where
  "report_write_blocks n bs s =
     (case bs of None \<Rightarrow> if n = 0 then Inr s else Inl Uninitialised
      | Some xs \<Rightarrow> write_array n (\<lambda>b. write_nbytes (bytes_of_BlockInterval b) 8) xs s)"

definition Np2TsReport_submsg :: "Np2TsReport \<Rightarrow> streamer \<Rightarrow> streamer res" where
  "Np2TsReport_submsg m = seqW [
     write_char (msg_code NP2TS_REPORT),
     write_nbytes (report_uuid m) UUID_LENGTH,
     write_nbytes (bytes_of_CorePeerInfo (report_coreinfo m)) 4,
     write_char (report_interval_count m),
     report_write_blocks (unat (report_interval_count m)) (report_blockinterval m),
     write_nbytes (bytes_of_TransferInfo (report_transferinfo m)) 32,
     write_int (report_playing_block m),
     write_short (report_current_buffering_time m),
     write_short (report_buffered_count m),
     write_short (report_buffered_time m),
     write_short (report_connect_fail_count m),
     write_short (report_incoming_connection_count m),
     write_short (report_outgoing_connection_count m),
     write_short (report_avg_incoming_elapsed m),
     write_short (report_avg_outgoing_elapsed m)]"

text \<open>The \<open>CorePeerInfo\<close> is missing from the sum.\<close>

definition Np2TsReport_reserve :: "Np2TsReport \<Rightarrow> int" where
  "Np2TsReport_reserve m = RsMessage_reserve_pack_size + int UUID_LENGTH + 1 +
     int (unat (report_interval_count m)) * 8 + 32 + 4 + 2 + 2 + 2 + 2 + 2 + 2 + 2 + 2"

definition report_array :: "Np2TsReport \<Rightarrow> BlockInterval list" where
  "report_array m = (case report_blockinterval m of None \<Rightarrow> [] | Some xs \<Rightarrow> xs)"

definition Np2TsReport_wf :: "Np2TsReport \<Rightarrow> bool" where
  "Np2TsReport_wf m \<longleftrightarrow> length (report_uuid m) = UUID_LENGTH \<and>
     length (report_array m) = unat (report_interval_count m)"

text \<open>The last two short writes meet the end of the announced size.\<close>

lemma Np2TsReport_pack_aborts:
  assumes "Np2TsReport_wf m"
  shows "RsMessage_pack junk (Np2TsReport_reserve m) (Np2TsReport_submsg m) = Inl Assertion"
proof -
  let ?n = "unat (report_interval_count m)"
  let ?head = "[write_char (msg_code NP2TS_REPORT), write_nbytes (report_uuid m) UUID_LENGTH,
     write_nbytes (bytes_of_CorePeerInfo (report_coreinfo m)) 4, write_char (report_interval_count m),
     report_write_blocks ?n (report_blockinterval m),
     write_nbytes (bytes_of_TransferInfo (report_transferinfo m)) 32, write_int (report_playing_block m),
     write_short (report_current_buffering_time m), write_short (report_buffered_count m),
     write_short (report_buffered_time m), write_short (report_connect_fail_count m),
     write_short (report_incoming_connection_count m), write_short (report_outgoing_connection_count m)]"
  let ?bytes = "msg_code NP2TS_REPORT # report_uuid m @ bytes_of_CorePeerInfo (report_coreinfo m) @
     [report_interval_count m] @ concat (map bytes_of_BlockInterval (report_array m)) @
     bytes_of_TransferInfo (report_transferinfo m) @ enc (report_playing_block m) @
     enc (report_current_buffering_time m) @ enc (report_buffered_count m) @ enc (report_buffered_time m) @
     enc (report_connect_fail_count m) @ enc (report_incoming_connection_count m) @
     enc (report_outgoing_connection_count m)"
  let ?size = "Np2TsReport_reserve m"
  let ?s = "put (enc (word_of_int ?size :: u32)) (initialize (map junk [0..<nat ?size]) ?size)"
  have "emits (report_write_blocks ?n (report_blockinterval m)) (concat (map bytes_of_BlockInterval (report_array m)))"
    using assms emits_write_array[of _ ?n "\<lambda>b. write_nbytes (bytes_of_BlockInterval b) 8" bytes_of_BlockInterval]
    by (auto simp: report_write_blocks_def[abs_def] Np2TsReport_wf_def report_array_def emits_id emits_write_nbytes
        split: option.splits)
  then have head: "emits (seqW ?head) ?bytes"
    using assms by (intro emits_intros) (simp_all add: Np2TsReport_wf_def)
  have len: "length ?bytes = 70 + 8 * ?n" "?size = 74 + 8 * int ?n" "?n < 256"
    using assms uint_u8[of "report_interval_count m"]
    by (simp_all add: length_concat_const[where k = 8] Np2TsReport_wf_def Np2TsReport_reserve_def
        RsMessage_reserve_pack_size_def unat_u8)
  have nat_size: "nat ?size = 74 + 8 * ?n" using len(2) by (simp add: nat_add_distrib nat_mult_distrib flip: unat_eq_nat_uint)
  have "length (smem ?s) = nat ?size" "scurr ?s = 4" "ssize ?s = ?size"
    using nat_size by (simp_all add: put_def initialize_def)
  then have "room (length ?bytes) ?s"
    unfolding len(1) room_def nat_size using len(2) by simp
  then have "seqW ?head ?s = Inr (put ?bytes ?s)"
    using head by (simp only: emits_def)
  moreover have "scurr (put ?bytes ?s) = 74 + 8 * ?n" "ssize (put ?bytes ?s) = 74 + 8 * int ?n"
    using len by (simp_all add: put_def initialize_def)
  then have "write_short v (put ?bytes ?s) = Inl Assertion" for v
    by (simp add: write_short_def set_as_type_def)
  moreover have "Np2TsReport_submsg m =
      seqW (?head @ [write_short (report_avg_incoming_elapsed m), write_short (report_avg_outgoing_elapsed m)])"
    by (simp add: Np2TsReport_submsg_def)
  ultimately have "Np2TsReport_submsg m ?s = Inl Assertion"
    by (simp only: seqW_append bindE_Inr seqW.simps bindE_Inl)
  moreover have "0 \<le> ?size" "?size < 2 ^ 31" "4 \<le> ?size"
    using len(2) uint_u8[of "report_interval_count m"] by simp_all
  ultimately show ?thesis by (simp only: pack_prefix bindE_Inl)
qed

text \<open>On a fresh object \<open>parse\<close> stops at the first interval.\<close>

lemma Np2TsReport_parse_interval:
  assumes "report_blockinterval m = None" "21 \<le> length (avail s)" "avail s ! 20 \<noteq> 0"
    and "honest s"
  shows "Np2TsReport_parse m s = Inl (if length (avail s) < 29 then Assertion else Uninitialised)"
proof -
  have dec_nth: "dec (take 1 (drop 20 (avail s))) = avail s ! 20"
    using assms(2) by (cases "drop 20 (avail s)") (auto simp: nth_via_drop)
  obtain n where "unat (avail s ! 20) = Suc n"
    using assms(3) by (metis not0_implies_Suc unat_eq_zero)
  then show ?thesis
    using assms dec_nth
    by (simp add: Np2TsReport_parse_def read_object_def wire_simps read_short_input)
qed

end
