(* ===== verification/Np_Tracker.thy ===== *)
theory Np_Tracker
  imports Sp_Tracker Np_Manager Messages_Np
begin

text \<open>
  \<open>protocol/tracker/tracker_np_connector.h\<close> and \<open>.cpp\<close>: the tracker's side of the protocol
  with normal peers, over the tables of \<open>Np_Manager\<close> and \<open>Stream_Manager\<close>. The
  conventions are those of \<open>Sp_Tracker\<close>. A handler that answers with peers runs the loop of
  \<open>get_np_address\<close>, which may not end: such a handler takes fuel, and \<open>None\<close> means that
  the fuel ran out.

  The member \<open>should_quit\<close> of the message \<open>send_msg\<close> packs is never set: the value it
  happens to have is the field \<open>e_quit\<close> of the environment.
\<close>

text \<open>\<open>e_seeded\<close> is what \<open>rand()\<close> returns after \<open>srand\<close> of the current time.\<close>

record np_env = env +
  e_seeded :: nat
  e_memcpy :: memcpy_impl
  e_quit :: bool

section \<open>The connector\<close>

record RsNpTracker =
  npt_last_receive_addr :: NetAddress
  npt_np_mgr :: RsTrackerNpCoordinator
  npt_sp_mgr :: RsTrackerStreamManager
  npt_last_send_blockinterval :: BlockInterval
  npt_sent :: "(NetAddress \<times> bytes) list"

definition np_send_buffer :: "bytes \<Rightarrow> int \<Rightarrow> RsNpTracker \<Rightarrow> RsNpTracker" where
  "np_send_buffer buf n t =
     (if n \<noteq> 0 then t\<lparr>npt_sent := npt_sent t @ [(npt_last_receive_addr t, buf)]\<rparr> else t)"

definition np_send_welcome :: "np_env \<Rightarrow> map_str \<Rightarrow> P2PAddress \<Rightarrow> RsNpTracker \<Rightarrow> RsNpTracker res" where
  "np_send_welcome env digits p2pAddr t =
     (let welcome_msg = \<lparr>npwelcome_uuid = take UUID_LENGTH digits, npwelcome_peer_ip = p2pAddr\<rparr>
      in bindE (RsMessage_pack (e_junk env) (Ts2NpWelcome_reserve welcome_msg) (Ts2NpWelcome_submsg welcome_msg))
           (\<lambda>(payload, payload_nb). Inr (np_send_buffer payload payload_nb t)))"

definition send_msg :: "np_env \<Rightarrow> RsNpTracker \<Rightarrow> RsNpTracker res" where
  "send_msg env t =
     (let m = \<lparr>npmsg_err_type = 1, npmsg_should_quit = e_quit env\<rparr>
      in bindE (RsMessage_pack (e_junk env) (Ts2NpMsg_reserve m) (Ts2NpMsg_submsg m))
           (\<lambda>(payload, payload_nb). Inr (np_send_buffer payload payload_nb t)))"

definition send_res_interval :: "np_env \<Rightarrow> MD5_Hash_Str \<Rightarrow> RsNpTracker \<Rightarrow> RsNpTracker res" where
  "send_res_interval env channel_hash t =
     bindE (get_channel_interval channel_hash (npt_sp_mgr t)) (\<lambda>found.
     case found of None \<Rightarrow> Inr t
     | Some blockInterval \<Rightarrow>
         if BlockInterval_eq (npt_last_send_blockinterval t) blockInterval then
           bindE (signal_get_res_interval channel_hash (npt_sp_mgr t)) (\<lambda>_.
           Inr (t\<lparr>npt_last_send_blockinterval := blockInterval\<rparr>))
         else
           let m = \<lparr>resinterval_block = blockInterval\<rparr>;
               t = t\<lparr>npt_last_send_blockinterval := blockInterval\<rparr>
           in bindE (RsMessage_pack (e_junk env) (Ts2NpResInterval_reserve m) (Ts2NpResInterval_submsg m))
                (\<lambda>(payload, payload_nb). Inr (np_send_buffer payload payload_nb t)))"

definition send_peers :: "nat \<Rightarrow> np_env \<Rightarrow> map_str \<Rightarrow> MD5_Hash_Str \<Rightarrow> u32 \<Rightarrow> RsNpTracker \<Rightarrow> RsNpTracker res option" where
  "send_peers fuel env uuid resHash currentblockID t =
     bindO (get_np_address fuel (e_rand env) resHash uuid 20 currentblockID (npt_np_mgr t)) (\<lambda>(npCount, nps).
     Some (
       bindE (get_cp_address (e_seeded env) 10 (npt_sp_mgr t)) (\<lambda>(cpCount, cps).
       bindE (get_sp_address resHash 1 (npt_sp_mgr t)) (\<lambda>(spCount, sps).
       if cpCount = 0 \<or> spCount = 0 then Inr t
       else case get_Node uuid (npt_np_mgr t) of
         None \<Rightarrow> send_msg env t
       | Some node \<Rightarrow>
           let pNode = node\<lparr>np_last_recv_report_time := e_now env, np_channelID_md5 := resHash\<rparr>;
               peers_msg = \<lparr>peers_sp_list_size = word_of_nat cpCount, peers_sp_addr = take cpCount cps,
                 peers_peer_list_size = word_of_nat npCount, peers_peer_addr = take npCount nps,
                 peers_np_addr = sps ! 0\<rparr>;
               t = t\<lparr>npt_np_mgr := insert_Node uuid pNode (npt_np_mgr t)\<rparr>
           in bindE (RsMessage_pack (e_junk env) (Ts2NpPeers_reserve peers_msg) (Ts2NpPeers_submsg peers_msg))
                (\<lambda>(payload, payload_nb). Inr (np_send_buffer payload payload_nb t))))))"

text \<open>
  The address of a client behind a NAT: the loop over its local addresses. The four bytes
  \<open>IsNatIP\<close> reads beyond the address do not matter.
\<close>

definition nat_ip :: "NetAddress \<Rightarrow> bool" where
  "nat_ip = IsNatIP [0, 0, 0, 0]"

fun local_addresses :: "u16 \<Rightarrow> NetAddress \<Rightarrow> NetAddress list \<Rightarrow> P2PAddress \<Rightarrow> NetAddress \<Rightarrow> P2PAddress \<times> NetAddress" where
  "local_addresses port remoteNormal [] client natAddr = (client, natAddr)"
| "local_addresses port remoteNormal (a # as) client natAddr =
     (let (client, natAddr) =
        (if s_addr a = s_addr remoteNormal
         then (client\<lparr>subnetIP := (subnetIP client)\<lparr>sin_port := port, s_addr := 0xffffffff\<rparr>\<rparr>, remoteNormal)
         else (client, natAddr));
        natAddr = (if nat_ip a then a\<lparr>sin_port := port\<rparr> else natAddr)
      in local_addresses port remoteNormal as client natAddr)"

definition client_address :: "u16 \<Rightarrow> NetAddress \<Rightarrow> u32 list \<Rightarrow> P2PAddress \<Rightarrow> P2PAddress" where
  "client_address port remoteNormal ips client =
     (let (client, natAddr) = local_addresses port remoteNormal (map (\<lambda>ip. NetAddress_new\<lparr>s_addr := ip\<rparr>) ips)
            (client\<lparr>outerIP := remoteNormal\<rparr>) NetAddress_new
      in if nat_ip natAddr then client\<lparr>subnetIP := natAddr\<rparr> else client)"

definition Np2TsLogin_fresh :: Np2TsLogin where
  "Np2TsLogin_fresh = \<lparr>login_id = 0, login_password = [], login_client_version = 0, login_listening_port = 0,
     login_ip_list_size = 0, login_ip_addr = []\<rparr>"

definition get_login :: "np_env \<Rightarrow> bytes \<Rightarrow> int \<Rightarrow> RsNpTracker \<Rightarrow> RsNpTracker res" where
  "get_login env msg n t =
     bindE (Np2TsLogin_parse Np2TsLogin_fresh (initialize msg n)) (\<lambda>(m, _).
     bindE (generate_uuid (e_rand env 0) (e_rand env 1) (e_rand env 2) (e_rand env 3)) (\<lambda>digits.
     if login_ip_list_size m = 0 then Inr t
     else
       let node = NPNode_new (e_now env);
           remoteNormal = NetAddress_new\<lparr>sin_port := sin_port (npt_last_receive_addr t),
             s_addr := s_addr (npt_last_receive_addr t)\<rparr>;
           client = client_address (login_listening_port m) remoteNormal (login_ip_addr m) (np_clientAddress node);
           node = node\<lparr>np_fVersion := login_client_version m, np_port := login_listening_port m,
             np_clientAddress := client, np_digits := digits\<rparr>
       in np_send_welcome env digits client (t\<lparr>npt_np_mgr := insert_Node digits node (npt_np_mgr t)\<rparr>)))"

definition get_req_res :: "nat \<Rightarrow> np_env \<Rightarrow> bytes \<Rightarrow> int \<Rightarrow> RsNpTracker \<Rightarrow> RsNpTracker res option" where
  "get_req_res fuel env msg n t =
     bindO (Some (Np2TsReqRes_parse (initialize msg n))) (\<lambda>(m, _).
     let hash = \<lparr>md5_hash = reqres_resource_md5 m @ [0], md5_interval = BlockInterval_new (dec (map (e_junk env) [0..<4]))\<rparr>
     in send_peers fuel env (reqres_uuid m @ [0]) hash 0 t)"

text \<open>The object the report is parsed into is fresh: its pointer to intervals has no value.\<close>

definition Np2TsReport_fresh :: Np2TsReport where
  "Np2TsReport_fresh = \<lparr>report_uuid = [], report_coreinfo = CorePeerInfo_new, report_interval_count = 0,
     report_blockinterval = None, report_transferinfo = TransferInfo_new, report_playing_block = 0,
     report_current_buffering_time = 0, report_buffered_count = 0, report_buffered_time = 0,
     report_connect_fail_count = 0, report_incoming_connection_count = 0, report_outgoing_connection_count = 0,
     report_avg_incoming_elapsed = 0, report_avg_outgoing_elapsed = 0, report_message_percent = 0\<rparr>"

definition get_report :: "np_env \<Rightarrow> bytes \<Rightarrow> int \<Rightarrow> RsNpTracker \<Rightarrow> RsNpTracker res" where
  "get_report env msg n t =
     bindE (Np2TsReport_parse Np2TsReport_fresh (initialize msg n)) (\<lambda>(m, _).
     let digits = report_uuid m @ [0]
     in case get_Node digits (npt_np_mgr t) of
          None \<Rightarrow> send_msg env t
        | Some node \<Rightarrow>
            if report_interval_count m = 0 then Inr t
            else (case report_blockinterval m of
              None \<Rightarrow> Inl Uninitialised
            | Some blocks \<Rightarrow>
                bindE (foldE (\<lambda>b. AddInterval (e_memcpy env) (bi_start b) (bi_size b))
                         (take (unat (report_interval_count m)) blocks) (np_intervalArray node)) (\<lambda>intervals.
                let node = node\<lparr>np_coreInfo := report_coreinfo m, np_countInterval := report_interval_count m,
                      np_intervalArray := intervals, np_transInfo := report_transferinfo m,
                      np_playingBlock := report_playing_block m,
                      np_currentBufferingTime := report_current_buffering_time m,
                      np_bufferedCount := report_buffered_count m, np_bufferedTime := report_buffered_time m,
                      np_connectFailCount := report_connect_fail_count m,
                      np_incomingConnectionCount := report_incoming_connection_count m,
                      np_outgoingConnectionCount := report_outgoing_connection_count m,
                      np_AvgincomingConnectionElapsedTime := report_avg_incoming_elapsed m,
                      np_AvgoutgoingConnectionElapsedTime := report_avg_outgoing_elapsed m,
                      np_msgPercent := report_message_percent m\<rparr>
                in Inr (t\<lparr>npt_np_mgr := insert_Node digits node (npt_np_mgr t)\<rparr>))))"

definition get_need_peers :: "nat \<Rightarrow> np_env \<Rightarrow> bytes \<Rightarrow> int \<Rightarrow> RsNpTracker \<Rightarrow> RsNpTracker res option" where
  "get_need_peers fuel env msg n t =
     bindO (Some (Np2TsNeedPeers_parse (initialize msg n))) (\<lambda>(m, _).
     let digits = needpeers_uuid m @ [0]
     in case get_Node digits (npt_np_mgr t) of
          None \<Rightarrow> Some (Inr t)
        | Some node \<Rightarrow> send_peers fuel env digits (np_channelID_md5 node) (needpeers_current_block m) t)"

definition np_get_logout :: "bytes \<Rightarrow> int \<Rightarrow> RsNpTracker \<Rightarrow> RsNpTracker res" where
  "np_get_logout msg n t =
     bindE (Np2TsLogout_parse (initialize msg n)) (\<lambda>(m, _).
     Inr (t\<lparr>npt_np_mgr := deleteNode (np_logout_uuid m @ [0]) (npt_np_mgr t)\<rparr>))"

definition get_res_interval :: "np_env \<Rightarrow> bytes \<Rightarrow> int \<Rightarrow> RsNpTracker \<Rightarrow> RsNpTracker res" where
  "get_res_interval env msg n t =
     bindE (Np2TsReqInterval_parse (initialize msg n)) (\<lambda>(m, _).
     case get_Node (reqinterval_uuid m @ [0]) (npt_np_mgr t) of
       None \<Rightarrow> send_msg env t
     | Some node \<Rightarrow> send_res_interval env (np_channelID_md5 node) t)"

definition np_handle_udp_packet :: "nat \<Rightarrow> np_env \<Rightarrow> NetAddress \<Rightarrow> bytes \<Rightarrow> int \<Rightarrow> RsNpTracker \<Rightarrow>
    (int \<times> RsNpTracker) res option" where
  "np_handle_udp_packet fuel env fromaddr buf nb_buf t =
     (if nb_buf = 0 then Some (Inr (-1, t))
      else
        let t = t\<lparr>npt_last_receive_addr := fromaddr\<rparr>
        in bindO (Some (guardE Out_Of_Bounds (5 \<le> length buf))) (\<lambda>_.
           let msg_size = sint (dec (take 4 buf) :: u32); msg_type = buf ! 4;
               msg = drop 5 buf; sz = msg_size - 5
           in bindO
             (if msg_type = msg_code NP2TS_LOGIN then Some (get_login env msg sz t)
              else if msg_type = msg_code NP2TS_REQ_RES then get_req_res fuel env msg sz t
              else if msg_type = msg_code NP2TS_REPORT then Some (get_report env msg sz t)
              else if msg_type = msg_code NP2TS_NEED_PEERS then get_need_peers fuel env msg sz t
              else if msg_type = msg_code NP2TS_RES_INTERVAL then Some (get_res_interval env msg sz t)
              else if msg_type = msg_code NP2TS_LOGOUT then Some (np_get_logout msg sz t)
              else Some (Inr t))
             (\<lambda>t. Some (Inr (0, t)))))"

lemma np_dispatch:
  assumes "nb \<noteq> 0" "5 + int (length c) < 2 ^ 31"
  shows "np_handle_udp_packet fuel env fromaddr (packet tag c @ rest) nb t =
    (let t = t\<lparr>npt_last_receive_addr := fromaddr\<rparr>; msg = c @ rest; sz = int (length c)
     in bindO (if tag = NP2TS_LOGIN then Some (get_login env msg sz t)
               else if tag = NP2TS_REQ_RES then get_req_res fuel env msg sz t
               else if tag = NP2TS_REPORT then Some (get_report env msg sz t)
               else if tag = NP2TS_NEED_PEERS then get_need_peers fuel env msg sz t
               else if tag = NP2TS_RES_INTERVAL then Some (get_res_interval env msg sz t)
               else if tag = NP2TS_LOGOUT then Some (np_get_logout msg sz t)
               else Some (Inr t)) (\<lambda>t. Some (Inr (0, t))))"
  unfolding np_handle_udp_packet_def Let_def packet_head packet_size[OF assms(2)] msg_code_inj
    guardE_True[OF packet_head(4)] bindO_simps
  using assms(1) by simp

section \<open>What every handler keeps\<close>

definition kept :: "RsNpTracker \<Rightarrow> RsNpTracker \<Rightarrow> bool" where
  "kept t t' \<longleftrightarrow> npt_sp_mgr t' = npt_sp_mgr t \<and> (np_table_ok (npt_np_mgr t) \<longrightarrow> np_table_ok (npt_np_mgr t'))"

lemma kept_refl [simp]: "kept t t"
  by (simp add: kept_def)

lemma kept_insert: "kept (t\<lparr>npt_np_mgr := insert_Node d n (npt_np_mgr t)\<rparr>) t' \<Longrightarrow> kept t t'"
  by (auto simp: kept_def insert_Node_ok)

lemma np_send_buffer_kept: "kept t (np_send_buffer buf n t)"
  by (simp add: kept_def np_send_buffer_def)

lemma np_send_welcome_kept: "np_send_welcome env d p t = Inr t' \<Longrightarrow> kept t t'"
  by (auto simp: np_send_welcome_def Let_def res_invert np_send_buffer_kept)

lemma send_msg_kept: "send_msg env t = Inr t' \<Longrightarrow> kept t t'"
  by (auto simp: send_msg_def Let_def res_invert np_send_buffer_kept)

lemma get_login_kept: "get_login env msg n t = Inr t' \<Longrightarrow> kept t t'"
proof -
  assume *: "get_login env msg n t = Inr t'"
  obtain m s digits where "Np2TsLogin_parse Np2TsLogin_fresh (initialize msg n) = Inr (m, s)"
    "generate_uuid (e_rand env 0) (e_rand env 1) (e_rand env 2) (e_rand env 3) = Inr digits"
    using * by (cases "Np2TsLogin_parse Np2TsLogin_fresh (initialize msg n)";
        cases "generate_uuid (e_rand env 0) (e_rand env 1) (e_rand env 2) (e_rand env 3)")
      (auto simp: get_login_def)
  then show ?thesis
  proof (cases "login_ip_list_size m = 0")
    case False
    then show ?thesis
      using * unfolding get_login_def Let_def \<open>Np2TsLogin_parse _ _ = _\<close> \<open>generate_uuid _ _ _ _ = _\<close>
      by (simp only: bindE_Inr prod.case if_False) (drule np_send_welcome_kept, erule kept_insert)
  qed (use * in \<open>simp add: get_login_def\<close>)
qed

lemma send_peers_kept:
  assumes "send_peers fuel env u h b t = Some (Inr t')"
  shows "kept t t'"
proof -
  obtain npCount nps cpCount cps spCount sps where
      q: "get_np_address fuel (e_rand env) h u 20 b (npt_np_mgr t) = Some (Inr (npCount, nps))"
      "get_cp_address (e_seeded env) 10 (npt_sp_mgr t) = Inr (cpCount, cps)"
      "get_sp_address h 1 (npt_sp_mgr t) = Inr (spCount, sps)"
    using assms by (fastforce simp: send_peers_def bindO_Inr res_invert)
  show ?thesis
  proof (cases "cpCount = 0 \<or> spCount = 0")
    case True
    then show ?thesis using assms by (simp add: send_peers_def q del: One_nat_def)
  next
    case False
    show ?thesis
    proof (cases "get_Node u (npt_np_mgr t)")
      case None
      then show ?thesis using assms False by (simp add: send_peers_def q send_msg_kept del: One_nat_def)
    next
      case (Some node)
      show ?thesis
        using assms unfolding send_peers_def Let_def bindO_simps bindE_Inr prod.case q Some
        by (simp only: False if_False option.case option.inject bindE_eq_Inr)
          (elim exE conjE, simp only: prod.case split_paired_all sum.inject, rule kept_insert,
            blast intro: np_send_buffer_kept)
    qed
  qed
qed

lemma send_res_interval_kept: "send_res_interval env h t = Inr t' \<Longrightarrow> kept t t'"
  by (auto simp: send_res_interval_def Let_def res_invert kept_def np_send_buffer_def
      split: if_splits option.splits)

text \<open>
  A report is never recorded: with no interval the handler returns early, and with one
  \<open>parse\<close> has already gone through the uninitialised pointer.
\<close>

lemma report_blocks_None: "report_blocks n i None s = Inr (bs, s') \<Longrightarrow> n = 0 \<and> bs = None"
  by (cases n) (auto simp: res_invert)

lemma report_parse_fresh:
  "Np2TsReport_parse Np2TsReport_fresh s = Inr (m, s') \<Longrightarrow> report_interval_count m = 0"
  unfolding Np2TsReport_parse_def Np2TsReport_fresh_def
  by (clarsimp simp: res_invert) (drule report_blocks_None, simp add: unat_eq_zero)

lemma get_report_unchanged:
  assumes "get_report env msg n t = Inr t'"
  shows "t' = t \<or> send_msg env t = Inr t'"
proof (cases "Np2TsReport_parse Np2TsReport_fresh (initialize msg n)")
  case (Inl e)
  then show ?thesis using assms by (simp add: get_report_def)
next
  case (Inr p)
  obtain m s where "p = (m, s)" by fastforce
  then show ?thesis
    using assms Inr report_parse_fresh[of "initialize msg n" m s]
    by (simp add: get_report_def Let_def split: option.splits)
qed

lemma np_handle_udp_packet_kept:
  assumes "np_handle_udp_packet fuel env fromaddr buf nb t = Some (Inr (ret, t'))"
  shows "kept (t\<lparr>npt_last_receive_addr := fromaddr\<rparr>) t' \<or> t' = t"
  using assms
  by (auto simp: np_handle_udp_packet_def get_req_res_def get_need_peers_def get_res_interval_def np_get_logout_def
      Let_def bindO_Inr res_invert kept_def deleteNode_ok
      dest!: get_login_kept send_peers_kept send_res_interval_kept get_report_unchanged send_msg_kept
      split: if_splits option.splits)

definition RsNpTracker_new :: "NetAddress \<Rightarrow> u32 \<Rightarrow> RsNpTracker" where
  "RsNpTracker_new addr junk = \<lparr>npt_last_receive_addr = addr, npt_np_mgr = RsTrackerNpCoordinator_new,
     npt_sp_mgr = RsTrackerStreamManager_new, npt_last_send_blockinterval = BlockInterval_new junk, npt_sent = []\<rparr>"

section \<open>Answers\<close>

lemma np_send_welcome_packet:
  assumes "UUID_LENGTH \<le> length d"
  shows "np_send_welcome env d p t = Inr (t\<lparr>npt_sent := npt_sent t @ [(npt_last_receive_addr t,
    packet TS2NP_WELCOME (take UUID_LENGTH d @ bytes_of_P2PAddress p))]\<rparr>)"
proof -
  have "Ts2NpWelcome_wf \<lparr>npwelcome_uuid = take UUID_LENGTH d, npwelcome_peer_ip = p\<rparr>"
    using assms by (simp add: Ts2NpWelcome_wf_def)
  then show ?thesis
    using ts2npwelcome.pack_packet[of "\<lparr>npwelcome_uuid = take UUID_LENGTH d, npwelcome_peer_ip = p\<rparr>" "e_junk env"]
    by (simp add: np_send_welcome_def np_send_buffer_def Ts2NpWelcome_reserve_def RsMessage_reserve_pack_size_def
        Ts2NpWelcome_content_def)
qed

lemma send_res_interval_packet:
  assumes "table_ok (npt_sp_mgr t)"
  shows "\<exists>found. get_channel_interval h (npt_sp_mgr t) = Inr found \<and>
    send_res_interval env h t = Inr (case found of None \<Rightarrow> t
      | Some i \<Rightarrow> if npt_last_send_blockinterval t = i then t
          else t\<lparr>npt_last_send_blockinterval := i,
            npt_sent := npt_sent t @ [(npt_last_receive_addr t, packet TS2NP_RES_INTERVAL (bytes_of_BlockInterval i))]\<rparr>)"
proof -
  let ?found = "map_option md5_interval (find (\<lambda>x. MD5_eq x h)
      (concat (map (\<lambda>(k, n). cn_pHash n) (channel_map (npt_sp_mgr t)))))"
  have ok: "\<forall>(k, n)\<in>set (channel_map (npt_sp_mgr t)). node_ok n" using assms by (simp add: table_ok_def)
  have f: "get_channel_interval h (npt_sp_mgr t) = Inr ?found"
    using interval_in_find[OF ok] by (simp add: get_channel_interval_def)
  have s: "\<exists>r. signal_get_res_interval h (npt_sp_mgr t) = Inr r"
    using signal_nodes_ex[OF ok] by (simp add: signal_get_res_interval_def)
  have p: "RsMessage_pack (e_junk env) (Ts2NpResInterval_reserve \<lparr>resinterval_block = i\<rparr>)
      (Ts2NpResInterval_submsg \<lparr>resinterval_block = i\<rparr>) = Inr (packet TS2NP_RES_INTERVAL (bytes_of_BlockInterval i), 13)" for i
    using ts2npresinterval.pack_packet[of "\<lparr>resinterval_block = i\<rparr>" "e_junk env"]
    by (simp add: Ts2NpResInterval_wf_def Ts2NpResInterval_content_def Ts2NpResInterval_reserve_def
        RsMessage_reserve_pack_size_def)
  have same: "t\<lparr>npt_last_send_blockinterval := npt_last_send_blockinterval t\<rparr> = t" by simp
  show ?thesis
    using f s by (cases ?found) (auto simp: send_res_interval_def p BlockInterval_eq_iff np_send_buffer_def Let_def)
qed

end
