(* ===== verification/Np_Props.thy ===== *)
theory Np_Props
  imports Np_Tracker
begin

text \<open>
  What the tracker does for normal peers: what each packet of the protocol leads to.
\<close>

section \<open>The address of a client\<close>

lemma local_addresses_append:
  "local_addresses port r (xs @ ys) c n = (let (c', n') = local_addresses port r xs c n in local_addresses port r ys c' n')"
  by (induction port r xs c n rule: local_addresses.induct) (auto simp: Let_def split: prod.splits)

lemma nat_ip_cong: "s_addr a = s_addr b \<Longrightarrow> nat_ip a = nat_ip b"
  by (simp add: nat_ip_def IsNatIP_def)

definition address_of :: "u32 \<Rightarrow> NetAddress" where
  "address_of ip = NetAddress_new\<lparr>s_addr := ip\<rparr>"

text \<open>
  The private addresses that count: those listed after the address the packet came from
  (all of them, if it is not listed, or is private itself).
\<close>

definition lan_addresses :: "NetAddress \<Rightarrow> u32 list \<Rightarrow> u32 list" where
  "lan_addresses r ips = filter (nat_ip \<circ> address_of)
     (if nat_ip r then ips else rev (takeWhile (\<lambda>ip. ip \<noteq> s_addr r) (rev ips)))"

lemma lan_snoc:
  "lan_addresses r (ips @ [ip]) =
     (if ip = s_addr r \<and> \<not> nat_ip r then []
      else lan_addresses r ips @ (if nat_ip (address_of ip) then [ip] else []))"
  by (auto simp: lan_addresses_def)

lemma nat_ip_new: "\<not> nat_ip NetAddress_new"
  by code_simp

lemma local_addresses_eq:
  "\<exists>a. local_addresses port r (map address_of ips) c NetAddress_new =
     (if s_addr r \<in> set ips then c\<lparr>subnetIP := (subnetIP c)\<lparr>sin_port := port, s_addr := 0xffffffff\<rparr>\<rparr> else c, a) \<and>
     (if lan_addresses r ips = [] then \<not> nat_ip a
      else a = (address_of (last (lan_addresses r ips)))\<lparr>sin_port := port\<rparr>)"
proof (induction ips rule: rev_induct)
  case Nil
  then show ?case by (simp add: lan_addresses_def nat_ip_new)
next
  case (snoc ip ips)
  then obtain a where a: "local_addresses port r (map address_of ips) c NetAddress_new =
     (if s_addr r \<in> set ips then c\<lparr>subnetIP := (subnetIP c)\<lparr>sin_port := port, s_addr := 0xffffffff\<rparr>\<rparr> else c, a)"
    "if lan_addresses r ips = [] then \<not> nat_ip a else a = (address_of (last (lan_addresses r ips)))\<lparr>sin_port := port\<rparr>"
    by blast
  have s: "s_addr (address_of ip) = ip" by (simp add: address_of_def)
  have r: "ip = s_addr r \<Longrightarrow> nat_ip (address_of ip) = nat_ip r"
    using s by (intro nat_ip_cong) simp
  show ?case
    using a r by (auto simp: local_addresses_append lan_snoc s Let_def)
qed

text \<open>
  The address a client is registered with, for every list of local addresses: outside,
  the address its packet came from. Inside, with the port it listens on, the last private
  address it lists, where a public sender address in the list hides the private ones before
  it; with no such address, the broadcast address if the sender's address is in the list,
  and otherwise what it was.
\<close>

theorem np_client_address:
  "client_address port r ips c = c\<lparr>outerIP := r, subnetIP :=
     (if lan_addresses r ips \<noteq> [] then (address_of (last (lan_addresses r ips)))\<lparr>sin_port := port\<rparr>
      else if s_addr r \<in> set ips then (subnetIP c)\<lparr>sin_port := port, s_addr := 0xffffffff\<rparr>
      else subnetIP c)\<rparr>"
proof -
  have lan: "nat_ip ((address_of (last (lan_addresses r ips)))\<lparr>sin_port := port\<rparr>)" if "lan_addresses r ips \<noteq> []"
  proof -
    have "last (lan_addresses r ips) \<in> set (lan_addresses r ips)" using that by simp
    then have "nat_ip (address_of (last (lan_addresses r ips)))" by (simp add: lan_addresses_def split: if_splits)
    then show ?thesis using nat_ip_cong[of "(address_of (last (lan_addresses r ips)))\<lparr>sin_port := port\<rparr>"] by simp
  qed
  obtain a where "local_addresses port r (map address_of ips) (c\<lparr>outerIP := r\<rparr>) NetAddress_new =
     (if s_addr r \<in> set ips then (c\<lparr>outerIP := r\<rparr>)\<lparr>subnetIP := (subnetIP c)\<lparr>sin_port := port, s_addr := 0xffffffff\<rparr>\<rparr>
      else c\<lparr>outerIP := r\<rparr>, a)"
    "if lan_addresses r ips = [] then \<not> nat_ip a else a = (address_of (last (lan_addresses r ips)))\<lparr>sin_port := port\<rparr>"
    using local_addresses_eq[of port r ips "c\<lparr>outerIP := r\<rparr>"] by auto
  then show ?thesis
    using lan unfolding client_address_def address_of_def[symmetric]
    by (cases "lan_addresses r ips = []") (auto simp: Let_def)
qed

section \<open>Login and logout\<close>

definition logged_in :: "np_env \<Rightarrow> NetAddress \<Rightarrow> Np2TsLogin \<Rightarrow> map_str \<Rightarrow> NPNode" where
  "logged_in env sender m digits = (NPNode_new (e_now env))\<lparr>np_fVersion := login_client_version m,
     np_port := login_listening_port m,
     np_clientAddress := client_address (login_listening_port m) (NetAddress_new\<lparr>sin_port := sin_port sender,
       s_addr := s_addr sender\<rparr>) (login_ip_addr m) (np_clientAddress (NPNode_new (e_now env))),
     np_digits := digits\<rparr>"

lemma get_login_packet:
  assumes "Np2TsLogin_wf m"
    and "generate_uuid (e_rand env 0) (e_rand env 1) (e_rand env 2) (e_rand env 3) = Inr digits"
  shows "get_login env (Np2TsLogin_content m @ rest) (int (length (Np2TsLogin_content m))) t =
    Inr (if login_ip_list_size m = 0 then t
         else let node = logged_in env (npt_last_receive_addr t) m digits
           in t\<lparr>npt_np_mgr := insert_Node digits node (npt_np_mgr t),
             npt_sent := npt_sent t @ [(npt_last_receive_addr t,
               packet TS2NP_WELCOME (take UUID_LENGTH digits @ bytes_of_P2PAddress (np_clientAddress node)))]\<rparr>)"
proof -
  let ?s = "initialize (Np2TsLogin_content m @ rest) (int (length (Np2TsLogin_content m)))"
  have fresh: "Np2TsLogin_fresh\<lparr>login_ip_addr := []\<rparr> = Np2TsLogin_fresh"
    by (simp add: Np2TsLogin_fresh_def)
  have parse: "Np2TsLogin_parse Np2TsLogin_fresh ?s = Inr (m, adv (length (Np2TsLogin_content m)) ?s)"
    using np2ts_login.parse_content[OF assms(1), where post = "[]" and junk = Np2TsLogin_fresh] by (simp add: fresh)
  have "UUID_LENGTH \<le> length digits"
    using generate_uuid_length[OF assms(2)] by simp
  from np_send_welcome_packet[OF this] show ?thesis
    unfolding get_login_def parse assms(2) bindE_Inr prod.case Let_def logged_in_def by simp
qed

lemma length_Np2TsLogin_content:
  "Np2TsLogin_wf m \<Longrightarrow> length (Np2TsLogin_content m) = 43 + 4 * unat (login_ip_list_size m)"
  by (simp add: Np2TsLogin_content_def Np2TsLogin_wf_def length_concat_const[where k = 4])

text \<open>The uuid in its digits: those of each random number, the highest first.\<close>

definition uuid_digits :: "(nat \<Rightarrow> nat) \<Rightarrow> map_str" where
  "uuid_digits rand = concat (map (\<lambda>i. map (\<lambda>j. hex_digit (rand i div 16 ^ j mod 16)) [3, 2, 1, 0]) [0, 1, 2, 3]) @ [0]"

lemma format_0x_last:
  assumes "0 < w"
  shows "format_0x (Suc w) n = format_0x w (n div 16) @ [hex_digit (n mod 16)]"
proof (cases "n < 16")
  case True
  then have n: "n div 16 = 0" "n mod 16 = n" by simp_all
  have "hex_digits n = [hex_digit n]" by (subst hex_digits.simps) (simp add: True)
  moreover have "hex_digits 0 = [48]" by (subst hex_digits.simps) (simp add: hex_digit_def)
  moreover have "replicate w (48 :: u8) = replicate (w - 1) 48 @ [48]"
    using assms by (cases w) (simp_all add: replicate_append_same)
  ultimately show ?thesis unfolding format_0x_def n by simp
next
  case False
  have "hex_digits n = hex_digits (n div 16) @ [hex_digit (n mod 16)]" by (subst hex_digits.simps) (simp add: False)
  then show ?thesis by (simp add: format_0x_def)
qed

lemma format_04x_digits:
  assumes "r < 65536"
  shows "format_04x r = map (\<lambda>j. hex_digit (r div 16 ^ j mod 16)) [3, 2, 1, 0]"
proof -
  have two: "r div 16 div 16 = r div 256" using div_mult2_eq[of r 16 16] by simp
  have three: "r div 256 div 16 = r div 4096" using div_mult2_eq[of r 256 16] by simp
  have top: "r div 4096 < 16" using assms by simp
  have "hex_digits (r div 4096) = [hex_digit (r div 4096)]" by (subst hex_digits.simps) (simp add: top)
  then have one: "format_0x 1 (r div 4096) = [hex_digit (r div 4096)]" by (simp add: format_0x_def)
  have "format_0x (Suc 3) r = [hex_digit (r div 4096), hex_digit (r div 256 mod 16), hex_digit (r div 16 mod 16), hex_digit (r mod 16)]"
    using format_0x_last[of 3 r] format_0x_last[of 2 "r div 16"] format_0x_last[of 1 "r div 256"] one
    unfolding two three by (simp add: numeral_2_eq_2 numeral_3_eq_3)
  then show ?thesis using top by (simp add: format_04x_def)
qed

lemma uuid_of_digits: "\<forall>i<4. rand i < 65536 \<Longrightarrow> uuid_of rand = uuid_digits rand"
  by (simp add: uuid_of_def uuid_digits_def format_04x_digits)

text \<open>
  C26. A login packet with at least one local address makes the sender a registered peer
  under a uuid of 16 hexadecimal digits, four of each of the four random numbers drawn, and is
  answered with exactly one welcome packet that carries the uuid and the address recorded; the
  other peers stay as they are. A login with no address registers nobody and is not answered.
  All of this if the four random numbers are below 65,536, and the table of peers in order.
\<close>

theorem np_login:
  assumes "Np2TsLogin_wf m" "np_table_ok (npt_np_mgr t)" "nb \<noteq> 0" "\<forall>i<4. e_rand env i < 65536"
  shows "\<exists>digits t'. digits = uuid_digits (e_rand env) \<and> length digits = UUID_LENGTH + 1 \<and>
    np_handle_udp_packet fuel env fromaddr (packet NP2TS_LOGIN (Np2TsLogin_content m) @ rest) nb t = Some (Inr (0, t')) \<and>
    (if login_ip_list_size m = 0 then t' = t\<lparr>npt_last_receive_addr := fromaddr\<rparr>
     else npt_sent t' = npt_sent t @ [(fromaddr, packet TS2NP_WELCOME (take UUID_LENGTH digits @
         bytes_of_P2PAddress (np_clientAddress (logged_in env fromaddr m digits))))] \<and>
       npt_sp_mgr t' = npt_sp_mgr t \<and> np_table_ok (npt_np_mgr t') \<and>
       (\<forall>u. find_Node u (npt_np_mgr t') = (if key_equiv map_str_lt u digits
          then Some (NPNode_assign (logged_in env fromaddr m digits)) else find_Node u (npt_np_mgr t))))"
proof -
  let ?digits = "uuid_digits (e_rand env)"
  have d: "generate_uuid (e_rand env 0) (e_rand env 1) (e_rand env 2) (e_rand env 3) = Inr ?digits"
    unfolding generate_uuid_of uuid_of_digits[OF assms(4)] by (rule if_P) (rule assms(4))
  have len: "5 + int (length (Np2TsLogin_content m)) < 2 ^ 31"
    using uint_u8[of "login_ip_list_size m"] unfolding length_Np2TsLogin_content[OF assms(1)] by simp
  note run = np_dispatch[OF assms(3) len, of fuel env fromaddr NP2TS_LOGIN rest t]
  show ?thesis
    using insert_Node_ok[OF assms(2)] generate_uuid_length[OF d]
    by (intro exI[of _ ?digits]) (simp add: run get_login_packet[OF assms(1) d] Let_def)
qed

definition sample_np_env :: np_env where
  "sample_np_env = \<lparr>e_now = 50, e_rand = (\<lambda>_. 7), e_junk = (\<lambda>_. 0), e_seeded = 3, e_memcpy = Moves, e_quit = False\<rparr>"

definition sample_np_login :: Np2TsLogin where
  "sample_np_login = \<lparr>login_id = 1, login_password = replicate MD5_LEN 97, login_client_version = 0,
     login_listening_port = 4000, login_ip_list_size = 1, login_ip_addr = [0x0100a8c0]\<rparr>"

lemma sample_np_rand: "e_rand sample_np_env = (\<lambda>_. 7)"
  by (simp add: sample_np_env_def)

lemma np_login_witness:
  "\<exists>digits t'. digits = uuid_digits (\<lambda>_. 7) \<and> np_handle_udp_packet 1 sample_np_env NetAddress_new
     (packet NP2TS_LOGIN (Np2TsLogin_content sample_np_login) @ []) 52 (RsNpTracker_new NetAddress_new 0) = Some (Inr (0, t')) \<and>
     find_Node digits (npt_np_mgr t') = Some (NPNode_assign (logged_in sample_np_env NetAddress_new sample_np_login digits))"
proof -
  have "Np2TsLogin_wf sample_np_login" "np_table_ok (npt_np_mgr (RsNpTracker_new NetAddress_new 0))"
    "\<forall>i<4. e_rand sample_np_env i < 65536" "login_ip_list_size sample_np_login \<noteq> 0"
    by (simp_all add: Np2TsLogin_wf_def sample_np_login_def RsNpTracker_new_def RsTrackerNpCoordinator_new_def
        np_table_ok_def sample_np_env_def)
  moreover have "key_equiv map_str_lt u u" for u by simp
  ultimately show ?thesis
    using np_login[of sample_np_login "RsNpTracker_new NetAddress_new 0" 52 sample_np_env 1 NetAddress_new "[]"]
    unfolding sample_np_rand by (simp only: if_False HOL.simp_thms zero_neq_numeral[symmetric] not_False_eq_True) (metis (no_types, lifting))
qed

text \<open>
  A logout packet removes exactly the peer with its uuid (case ignored) from the table;
  nothing is sent.
\<close>

theorem np_logout:
  assumes "Np2TsLogout_wf m" "np_table_ok (npt_np_mgr t)" "nb \<noteq> 0"
  shows "\<exists>mgr. np_handle_udp_packet fuel env fromaddr (packet NP2TS_LOGOUT (np_logout_uuid m) @ rest) nb t =
      Some (Inr (0, t\<lparr>npt_last_receive_addr := fromaddr, npt_np_mgr := mgr\<rparr>)) \<and>
    np_table_ok mgr \<and>
    (\<forall>u. find_Node u mgr =
       (if key_equiv map_str_lt u (np_logout_uuid m @ [0]) then None else find_Node u (npt_np_mgr t)))"
proof -
  have len: "5 + int (length (np_logout_uuid m)) < 2 ^ 31"
    using assms(1) by (simp add: Np2TsLogout_wf_def)
  let ?s = "initialize (np_logout_uuid m @ rest) (int (length (np_logout_uuid m)))"
  have "Np2TsLogout_parse ?s = Inr (m, adv (length (np_logout_uuid m)) ?s)"
    using np2tslogout.parse_content[OF assms(1), where post = "[]"] by simp
  then show ?thesis
    using deleteNode_ok[OF assms(2)]
    by (intro exI[of _ "deleteNode (np_logout_uuid m @ [0]) (npt_np_mgr t)"])
      (simp add: np_dispatch[OF assms(3) len] np_get_logout_def Let_def)
qed

lemma np_logout_witness:
  "\<exists>mgr. np_handle_udp_packet 1 sample_np_env NetAddress_new
     (packet NP2TS_LOGOUT (replicate UUID_LENGTH 65) @ []) 21
     (RsNpTracker_new NetAddress_new 0) =
     Some (Inr (0, (RsNpTracker_new NetAddress_new 0)\<lparr>npt_last_receive_addr := NetAddress_new, npt_np_mgr := mgr\<rparr>))"
proof -
  have "Np2TsLogout_wf \<lparr>np_logout_uuid = replicate UUID_LENGTH 65\<rparr>" "np_table_ok (npt_np_mgr (RsNpTracker_new NetAddress_new 0))"
    by (simp_all add: Np2TsLogout_wf_def RsNpTracker_new_def RsTrackerNpCoordinator_new_def np_table_ok_def)
  then show ?thesis
    using np_logout[of "\<lparr>np_logout_uuid = replicate UUID_LENGTH 65\<rparr>" "RsNpTracker_new NetAddress_new 0" 21 1
        sample_np_env NetAddress_new "[]"] by fastforce
qed

section \<open>Reports\<close>

text \<open>
  C38. No report is ever recorded: whatever the bytes of a report packet are, if the handler
  returns at all, both tables are what they were.
\<close>

theorem np_reports_lost:
  assumes "np_handle_udp_packet fuel env fromaddr buf nb t = Some (Inr (ret, t'))" "nb \<noteq> 0" "buf ! 4 = msg_code NP2TS_REPORT"
  shows "npt_np_mgr t' = npt_np_mgr t \<and> npt_sp_mgr t' = npt_sp_mgr t"
proof -
  have msg: "send_msg env u = Inr u' \<Longrightarrow> npt_np_mgr u' = npt_np_mgr u \<and> npt_sp_mgr u' = npt_sp_mgr u" for u u'
    by (auto simp: send_msg_def Let_def res_invert np_send_buffer_def)
  obtain msg n u where "get_report env msg n (t\<lparr>npt_last_receive_addr := fromaddr\<rparr>) = Inr t'"
    using assms by (auto simp: np_handle_udp_packet_def Let_def bindO_Inr msg_code_inj)
  from get_report_unchanged[OF this] msg show ?thesis by fastforce
qed

lemma np_reports_lost_witness:
  "\<exists>t'. np_handle_udp_packet 1 sample_np_env NetAddress_new (enc (97 :: u32) @ [msg_code NP2TS_REPORT] @ replicate 92 0)
     97 (RsNpTracker_new NetAddress_new 0) = Some (Inr (0, t')) \<and> npt_np_mgr t' = RsTrackerNpCoordinator_new"
proof -
  let ?b = "enc (97 :: u32) @ [msg_code NP2TS_REPORT] @ replicate 92 0"
  let ?r = "np_handle_udp_packet 1 sample_np_env NetAddress_new ?b 97 (RsNpTracker_new NetAddress_new 0)"
  have "\<not> (case ?r of Some (Inr (r, _)) \<Rightarrow> r \<noteq> 0 | _ \<Rightarrow> True)" by code_simp
  then obtain t' where t': "?r = Some (Inr (0, t'))" by (auto split: option.splits sum.splits)
  have "?b ! 4 = msg_code NP2TS_REPORT" by code_simp
  from np_reports_lost[OF t' _ this] t' show ?thesis by (auto simp: RsNpTracker_new_def)
qed

section \<open>Requests for the interval of a channel\<close>

lemma get_res_interval_packet:
  assumes "Np2TsReqInterval_wf m" "table_ok (npt_sp_mgr t)" "nb \<noteq> 0" "get_Node (reqinterval_uuid m @ [0]) (npt_np_mgr t) = Some node"
    and "get_channel_interval (np_channelID_md5 node) (npt_sp_mgr t) = Inr (Some i)"
  shows "np_handle_udp_packet fuel env fromaddr (packet NP2TS_RES_INTERVAL (reqinterval_uuid m) @ rest) nb t =
    Some (Inr (0, let t = t\<lparr>npt_last_receive_addr := fromaddr\<rparr>
      in if npt_last_send_blockinterval t = i then t
         else t\<lparr>npt_last_send_blockinterval := i,
           npt_sent := npt_sent t @ [(fromaddr, packet TS2NP_RES_INTERVAL (bytes_of_BlockInterval i))]\<rparr>))"
proof -
  have len: "5 + int (length (reqinterval_uuid m)) < 2 ^ 31"
    using assms(1) by (simp add: Np2TsReqInterval_wf_def)
  let ?s = "initialize (reqinterval_uuid m @ rest) (int (length (reqinterval_uuid m)))"
  have "Np2TsReqInterval_parse ?s = Inr (m, adv (length (reqinterval_uuid m)) ?s)"
    using np2tsreqinterval.parse_content[OF assms(1), where post = "[]"] by simp
  then show ?thesis
    using send_res_interval_packet[of "t\<lparr>npt_last_receive_addr := fromaddr\<rparr>" "np_channelID_md5 node" env] assms(2,4,5)
    by (simp add: np_dispatch[OF assms(3) len] get_res_interval_def Let_def)
qed

text \<open>
  The interval of a channel is sent once, to whoever asks first: a request is answered
  with the interval the tracker knows unless this is the one it sent last, to any peer; so
  of two requests in a row for the same interval the second is never answered.
\<close>

theorem np_interval_answered_once:
  assumes "Np2TsReqInterval_wf m\<^sub>1" "Np2TsReqInterval_wf m\<^sub>2" "table_ok (npt_sp_mgr t)" "nb \<noteq> 0"
    and "get_Node (reqinterval_uuid m\<^sub>1 @ [0]) (npt_np_mgr t) = Some n\<^sub>1"
    and "get_Node (reqinterval_uuid m\<^sub>2 @ [0]) (npt_np_mgr t) = Some n\<^sub>2"
    and "get_channel_interval (np_channelID_md5 n\<^sub>1) (npt_sp_mgr t) = Inr (Some i)"
    and "get_channel_interval (np_channelID_md5 n\<^sub>2) (npt_sp_mgr t) = Inr (Some i)"
  shows "\<exists>t\<^sub>1 t\<^sub>2.
    np_handle_udp_packet fuel env a\<^sub>1 (packet NP2TS_RES_INTERVAL (reqinterval_uuid m\<^sub>1) @ rest) nb t = Some (Inr (0, t\<^sub>1)) \<and>
    npt_sent t\<^sub>1 = npt_sent t @ (if npt_last_send_blockinterval t = i then []
      else [(a\<^sub>1, packet TS2NP_RES_INTERVAL (bytes_of_BlockInterval i))]) \<and>
    np_handle_udp_packet fuel env a\<^sub>2 (packet NP2TS_RES_INTERVAL (reqinterval_uuid m\<^sub>2) @ rest) nb t\<^sub>1 = Some (Inr (0, t\<^sub>2)) \<and>
    npt_sent t\<^sub>2 = npt_sent t\<^sub>1"
proof -
  let ?t\<^sub>1 = "let t = t\<lparr>npt_last_receive_addr := a\<^sub>1\<rparr> in if npt_last_send_blockinterval t = i then t
    else t\<lparr>npt_last_send_blockinterval := i,
      npt_sent := npt_sent t @ [(a\<^sub>1, packet TS2NP_RES_INTERVAL (bytes_of_BlockInterval i))]\<rparr>"
  have "npt_sp_mgr ?t\<^sub>1 = npt_sp_mgr t" "npt_np_mgr ?t\<^sub>1 = npt_np_mgr t" "npt_last_send_blockinterval ?t\<^sub>1 = i"
    by (simp_all add: Let_def)
  then have "np_handle_udp_packet fuel env a\<^sub>2 (packet NP2TS_RES_INTERVAL (reqinterval_uuid m\<^sub>2) @ rest) nb ?t\<^sub>1 =
      Some (Inr (0, ?t\<^sub>1\<lparr>npt_last_receive_addr := a\<^sub>2\<rparr>))"
    using get_res_interval_packet[OF assms(2), of ?t\<^sub>1 nb n\<^sub>2 i] assms(3,4,6,8) by (simp add: Let_def)
  moreover have "npt_sent (?t\<^sub>1\<lparr>npt_last_receive_addr := a\<^sub>2\<rparr>) = npt_sent ?t\<^sub>1" by simp
  moreover have "npt_sent ?t\<^sub>1 = npt_sent t @ (if npt_last_send_blockinterval t = i then []
      else [(a\<^sub>1, packet TS2NP_RES_INTERVAL (bytes_of_BlockInterval i))])" by (simp add: Let_def)
  ultimately show ?thesis
    using get_res_interval_packet[OF assms(1,3,4,5,7), of fuel env a\<^sub>1 rest] by blast
qed

definition sample_watching :: RsNpTracker where
  "sample_watching = (RsNpTracker_new NetAddress_new 0)\<lparr>
     npt_np_mgr := \<lparr>npnode_map = [(replicate UUID_LENGTH 65 @ [0], (NPNode_new 0)\<lparr>np_channelID_md5 :=
       \<lparr>md5_hash = replicate 33 9, md5_interval = \<lparr>bi_start = 0, bi_size = 0\<rparr>\<rparr>\<rparr>)]\<rparr>,
     npt_sp_mgr := \<lparr>channel_map = [(replicate UUID_LENGTH 65 @ [0], sample_node)]\<rparr>\<rparr>"

lemma np_interval_answered_once_witness:
  "\<exists>t\<^sub>1 t\<^sub>2.
    np_handle_udp_packet 0 sample_np_env NetAddress_new (packet NP2TS_RES_INTERVAL (replicate UUID_LENGTH 65) @ []) 21
      sample_watching = Some (Inr (0, t\<^sub>1)) \<and>
    npt_sent t\<^sub>1 = [(NetAddress_new, packet TS2NP_RES_INTERVAL (bytes_of_BlockInterval \<lparr>bi_start = 3, bi_size = 4\<rparr>))] \<and>
    np_handle_udp_packet 0 sample_np_env NetAddress_new (packet NP2TS_RES_INTERVAL (replicate UUID_LENGTH 65) @ []) 21
      t\<^sub>1 = Some (Inr (0, t\<^sub>2)) \<and>
    npt_sent t\<^sub>2 = npt_sent t\<^sub>1"
proof -
  let ?m = "\<lparr>reqinterval_uuid = replicate UUID_LENGTH 65\<rparr>"
  let ?i = "\<lparr>bi_start = 3, bi_size = 4\<rparr>"
  have "Np2TsReqInterval_wf ?m" by (simp add: Np2TsReqInterval_wf_def)
  moreover have "table_ok (npt_sp_mgr sample_watching)"
    using sample_node_ok by (simp add: sample_watching_def table_ok_def)
  moreover obtain n where "get_Node (replicate UUID_LENGTH 65 @ [0]) (npt_np_mgr sample_watching) = Some n"
    "np_channelID_md5 n = \<lparr>md5_hash = replicate 33 9, md5_interval = \<lparr>bi_start = 0, bi_size = 0\<rparr>\<rparr>"
    by (simp add: get_Node_def sample_watching_def NPNode_assign_def)
  moreover have "get_channel_interval \<lparr>md5_hash = replicate 33 9, md5_interval = \<lparr>bi_start = 0, bi_size = 0\<rparr>\<rparr>
      (npt_sp_mgr sample_watching) = Inr (Some ?i)" by code_simp
  moreover have "npt_last_send_blockinterval sample_watching \<noteq> ?i" "npt_sent sample_watching = []"
    by (simp_all add: sample_watching_def RsNpTracker_new_def BlockInterval_new_def)
  ultimately show ?thesis
    using np_interval_answered_once[of ?m ?m sample_watching 21 n n ?i 0 sample_np_env NetAddress_new "[]" NetAddress_new]
    by simp
qed

section \<open>Requests for peers\<close>

lemma send_msg_packet:
  "send_msg env t = Inr (t\<lparr>npt_sent := npt_sent t @ [(npt_last_receive_addr t,
     packet TS2NP_MSG (Ts2NpMsg_content \<lparr>npmsg_err_type = 1, npmsg_should_quit = e_quit env\<rparr>))]\<rparr>)"
proof -
  let ?m = "\<lparr>npmsg_err_type = 1, npmsg_should_quit = e_quit env\<rparr>"
  have "Ts2NpMsg_reserve ?m \<noteq> 0" by (simp add: Ts2NpMsg_reserve_def RsMessage_reserve_pack_size_def)
  then show ?thesis
    by (simp add: send_msg_def ts2npmsg.pack_packet np_send_buffer_def Let_def)
qed

text \<open>What a request leads to, once the three lookups have answered.\<close>

definition peers_reply :: "nat \<times> NetAddress list \<Rightarrow> NetAddress list \<Rightarrow> nat \<times> PeerInfoWithAddr list \<Rightarrow> Ts2NpPeers" where
  "peers_reply cp sps np = \<lparr>peers_sp_list_size = word_of_nat (fst cp), peers_sp_addr = take (fst cp) (snd cp),
     peers_peer_list_size = word_of_nat (fst np), peers_peer_addr = take (fst np) (snd np), peers_np_addr = sps ! 0\<rparr>"

definition watching :: "int \<Rightarrow> MD5_Hash_Str \<Rightarrow> NPNode \<Rightarrow> NPNode" where
  "watching now h n = n\<lparr>np_last_recv_report_time := now, np_channelID_md5 := h\<rparr>"

lemma peers_reply_wf:
  assumes "fst cp \<le> length (snd cp)" "fst np \<le> length (snd np)" "fst cp < 256" "fst np < 256"
  shows "Ts2NpPeers_wf (peers_reply cp sps np)" "unat (peers_sp_list_size (peers_reply cp sps np)) = fst cp"
    "unat (peers_peer_list_size (peers_reply cp sps np)) = fst np"
  using assms by (simp_all add: Ts2NpPeers_wf_def peers_reply_def unat_of_nat)

lemma send_peers_cases:
  assumes np: "get_np_address fuel (e_rand env) h u 20 block (npt_np_mgr t) = Some (Inr (k, peers))"
    and cp: "get_cp_address (e_seeded env) 10 (npt_sp_mgr t) = Inr (c, cps)"
    and sp: "get_sp_address h 1 (npt_sp_mgr t) = Inr (s, sps)"
    and bounds: "k \<le> 20" "length peers = 20" "c \<le> 10" "length cps = 10"
  shows "if c = 0 \<or> s = 0 then send_peers fuel env u h block t = Some (Inr t)
    else case get_Node u (npt_np_mgr t) of
      None \<Rightarrow> send_peers fuel env u h block t = Some (send_msg env t)
    | Some node \<Rightarrow>
        (k < c \<longrightarrow> (\<exists>e. send_peers fuel env u h block t = Some (Inl e))) \<and>
        (k = c \<longrightarrow> send_peers fuel env u h block t = Some (Inr (t\<lparr>
          npt_np_mgr := insert_Node u (watching (e_now env) h node) (npt_np_mgr t),
          npt_sent := npt_sent t @ [(npt_last_receive_addr t,
            packet TS2NP_PEERS (Ts2NpPeers_content (peers_reply (c, cps) sps (k, peers))))]\<rparr>)))"
proof -
  let ?m = "peers_reply (c, cps) sps (k, peers)"
  have wf: "Ts2NpPeers_wf ?m" "unat (peers_sp_list_size ?m) = c" "unat (peers_peer_list_size ?m) = k"
    using peers_reply_wf[of "(c, cps)" "(k, peers)" sps] bounds by auto
  have short: "\<exists>e. RsMessage_pack (e_junk env) (Ts2NpPeers_reserve ?m) (Ts2NpPeers_submsg ?m) = Inl e" if "k < c"
    using Ts2NpPeers_pack_short[OF wf(1)] that wf(2,3) by simp
  have exact: "RsMessage_pack (e_junk env) (Ts2NpPeers_reserve ?m) (Ts2NpPeers_submsg ?m) =
      Inr (packet TS2NP_PEERS (Ts2NpPeers_content ?m), Ts2NpPeers_reserve ?m)" if "k = c"
  proof -
    have "peers_sp_list_size ?m = peers_peer_list_size ?m" using that by (simp add: peers_reply_def)
    then show ?thesis using ts2np_peers.pack_packet wf(1) by blast
  qed
  have size: "Ts2NpPeers_reserve ?m \<noteq> 0"
    unfolding Ts2NpPeers_reserve_def RsMessage_reserve_pack_size_def by linarith
  show ?thesis
  proof (cases "c = 0 \<or> s = 0")
    case True
    then show ?thesis by (simp add: send_peers_def np cp sp del: One_nat_def)
  next
    case False
    show ?thesis
    proof (cases "get_Node u (npt_np_mgr t)")
      case None
      then show ?thesis using False by (simp add: send_peers_def np cp sp del: One_nat_def)
    next
      case (Some node)
      have "send_peers fuel env u h block t = Some (
          bindE (RsMessage_pack (e_junk env) (Ts2NpPeers_reserve ?m) (Ts2NpPeers_submsg ?m))
            (\<lambda>(payload, payload_nb). Inr (np_send_buffer payload payload_nb
              (t\<lparr>npt_np_mgr := insert_Node u (watching (e_now env) h node) (npt_np_mgr t)\<rparr>))))"
        unfolding send_peers_def Let_def bindO_simps bindE_Inr prod.case np cp sp Some peers_reply_def watching_def
        by (simp only: False if_False option.case fst_conv snd_conv)
      then show ?thesis using False Some short exact size by (auto simp: np_send_buffer_def)
    qed
  qed
qed

lemma get_req_res_packet:
  assumes "Np2TsReqRes_wf m"
  shows "\<exists>h. md5_hash h = reqres_resource_md5 m @ [0] \<and>
    get_req_res fuel env (Np2TsReqRes_content m @ rest) (int (length (Np2TsReqRes_content m))) t =
    send_peers fuel env (reqres_uuid m @ [0]) h 0 t"
proof -
  let ?s = "initialize (Np2TsReqRes_content m @ rest) (int (length (Np2TsReqRes_content m)))"
  have "Np2TsReqRes_parse ?s = Inr (m, adv (length (Np2TsReqRes_content m)) ?s)"
    using np2tsreqres.parse_content[OF assms, where post = "[]"] by simp
  then show ?thesis
    by (intro exI[of _ "\<lparr>md5_hash = reqres_resource_md5 m @ [0],
      md5_interval = BlockInterval_new (dec (map (e_junk env) [0..<4]))\<rparr>"]) (simp add: get_req_res_def Let_def)
qed

text \<open>The three lookups of a request.\<close>

definition lookups :: "nat \<Rightarrow> np_env \<Rightarrow> MD5_Hash_Str \<Rightarrow> map_str \<Rightarrow> u32 \<Rightarrow> RsNpTracker \<Rightarrow>
    nat \<times> PeerInfoWithAddr list \<Rightarrow> nat \<times> NetAddress list \<Rightarrow> nat \<times> NetAddress list \<Rightarrow> bool" where
  "lookups fuel env h u block t np cp sp \<longleftrightarrow>
     get_np_address fuel (e_rand env) h u 20 block (npt_np_mgr t) = Some (Inr np) \<and>
     get_cp_address (e_seeded env) 10 (npt_sp_mgr t) = Inr cp \<and>
     get_sp_address h 1 (npt_sp_mgr t) = Inr sp"

lemma lookups_ex:
  assumes "\<forall>c. e_rand env c \<noteq> 0" "group_count (npt_np_mgr t) < fuel" "table_ok (npt_sp_mgr t)"
  shows "\<exists>np cp sp. lookups fuel env h u block t np cp sp \<and>
    fst np \<le> 20 \<and> length (snd np) = 20 \<and> fst cp \<le> 10 \<and> length (snd cp) = 10 \<and>
    ((\<forall>n\<in>snd ` set (npnode_map (npt_np_mgr t)). \<not> eligible h u block n) \<longrightarrow> fst np = 0)"
proof -
  have ok: "\<forall>(k, n)\<in>set (channel_map (npt_sp_mgr t)). node_ok n" using assms(3) by (simp add: table_ok_def)
  obtain np where "get_np_address fuel (e_rand env) h u 20 block (npt_np_mgr t) = Some (Inr np)"
    and found: "found_ok (eligible h u block) 20 (npnode_map (npt_np_mgr t)) (fst np) (snd np)"
    using get_np_address_ends[OF assms(1,2), of h u 20 block] by auto
  moreover have "fst np \<le> 20" "length (snd np) = 20"
    "(\<forall>n\<in>snd ` set (npnode_map (npt_np_mgr t)). \<not> eligible h u block n) \<longrightarrow> fst np = 0"
  proof -
    show len: "fst np \<le> 20" "length (snd np) = 20" using found by (simp_all add: found_ok_def)
    show "(\<forall>n\<in>snd ` set (npnode_map (npt_np_mgr t)). \<not> eligible h u block n) \<longrightarrow> fst np = 0"
    proof
      assume "\<forall>n\<in>snd ` set (npnode_map (npt_np_mgr t)). \<not> eligible h u block n"
      then have "{n \<in> snd ` set (npnode_map (npt_np_mgr t)). eligible h u block n} = {}" by blast
      then have "set (take (fst np) (snd np)) = {}" using found unfolding found_ok_def by (metis image_empty subset_empty)
      then show "fst np = 0" using len by auto
    qed
  qed
  moreover have "\<exists>cp. get_cp_address r 10 mgr = Inr cp \<and> fst cp \<le> 10 \<and> length (snd cp) = 10" for r mgr
    unfolding get_cp_address_def Let_def by (simp add: store_from_filled filled_def)
  moreover have "\<exists>sp. get_sp_address h 1 (npt_sp_mgr t) = Inr sp"
    using store_having_filled[OF ok, of 1 "replicate 1 NetAddress_new" 0 h] by (simp add: get_sp_address_def)
  ultimately show ?thesis unfolding lookups_def by blast
qed

text \<open>
  C25. What a request for a resource does is settled by three lookups: the peers that hold
  block 0 of it, up to ten super peers and a super peer that has the resource. Without a super
  peer nothing is sent; an unregistered sender gets the error message; a registered one is
  recorded as watching the resource and gets the list when as many peers as super peers were
  found, but the handler faults whenever fewer peers were found; and if no other peer of the
  table watches the resource and holds its block 0, none is found. The handler ends under the
  conditions stated: \<open>rand\<close> never returns 0 and there is fuel for every group of 30 peers (if
  \<open>rand\<close> returns 0 it may never end, see \<open>np_choice_can_diverge\<close>); the table of super peers is
  in order.
\<close>

theorem np_request:
  assumes "Np2TsReqRes_wf m" "table_ok (npt_sp_mgr t)" "nb \<noteq> 0"
    and "\<forall>c. e_rand env c \<noteq> 0" "group_count (npt_np_mgr t) < fuel"
  shows "\<exists>h np cp sp. md5_hash h = reqres_resource_md5 m @ [0] \<and>
    lookups fuel env h (reqres_uuid m @ [0]) 0 (t\<lparr>npt_last_receive_addr := fromaddr\<rparr>) np cp sp \<and>
    ((\<forall>n\<in>snd ` set (npnode_map (npt_np_mgr t)). \<not> eligible h (reqres_uuid m @ [0]) 0 n) \<longrightarrow> fst np = 0) \<and>
    (let handled = np_handle_udp_packet fuel env fromaddr (packet NP2TS_REQ_RES (Np2TsReqRes_content m) @ rest) nb t;
         t = t\<lparr>npt_last_receive_addr := fromaddr\<rparr>
     in if fst cp = 0 \<or> fst sp = 0 then handled = Some (Inr (0, t))
        else case get_Node (reqres_uuid m @ [0]) (npt_np_mgr t) of
          None \<Rightarrow> handled = Some (Inr (0, t\<lparr>npt_sent := npt_sent t @ [(fromaddr,
            packet TS2NP_MSG (Ts2NpMsg_content \<lparr>npmsg_err_type = 1, npmsg_should_quit = e_quit env\<rparr>))]\<rparr>))
        | Some node \<Rightarrow>
            (fst np < fst cp \<longrightarrow> (\<exists>e. handled = Some (Inl e))) \<and>
            (fst np = fst cp \<longrightarrow> handled = Some (Inr (0, t\<lparr>
              npt_np_mgr := insert_Node (reqres_uuid m @ [0]) (watching (e_now env) h node) (npt_np_mgr t),
              npt_sent := npt_sent t @ [(fromaddr,
                packet TS2NP_PEERS (Ts2NpPeers_content (peers_reply cp (snd sp) np)))]\<rparr>))))"
proof -
  let ?t = "t\<lparr>npt_last_receive_addr := fromaddr\<rparr>"
  let ?u = "reqres_uuid m @ [0]"
  have len: "5 + int (length (Np2TsReqRes_content m)) < 2 ^ 31"
    using assms(1) by (simp add: Np2TsReqRes_content_def Np2TsReqRes_wf_def)
  obtain h where h: "md5_hash h = reqres_resource_md5 m @ [0]"
    "get_req_res fuel env (Np2TsReqRes_content m @ rest) (int (length (Np2TsReqRes_content m))) ?t =
      send_peers fuel env ?u h 0 ?t"
    using get_req_res_packet[OF assms(1)] by blast
  have conds: "group_count (npt_np_mgr ?t) < fuel" "table_ok (npt_sp_mgr ?t)" using assms(2,5) by simp_all
  obtain np cp sp where l: "lookups fuel env h ?u 0 ?t np cp sp"
    "fst np \<le> 20" "length (snd np) = 20" "fst cp \<le> 10" "length (snd cp) = 10"
    "(\<forall>n\<in>snd ` set (npnode_map (npt_np_mgr ?t)). \<not> eligible h ?u 0 n) \<longrightarrow> fst np = 0"
    using lookups_ex[OF assms(4) conds, of h ?u 0] by blast
  have run: "np_handle_udp_packet fuel env fromaddr (packet NP2TS_REQ_RES (Np2TsReqRes_content m) @ rest) nb t =
      bindO (send_peers fuel env ?u h 0 ?t) (\<lambda>t. Some (Inr (0, t)))"
    using np_dispatch[OF assms(3) len, of fuel env fromaddr NP2TS_REQ_RES rest t] h(2) by (simp add: Let_def)
  have "get_np_address fuel (e_rand env) h ?u 20 0 (npt_np_mgr ?t) = Some (Inr (fst np, snd np))"
    "get_cp_address (e_seeded env) 10 (npt_sp_mgr ?t) = Inr (fst cp, snd cp)"
    "get_sp_address h 1 (npt_sp_mgr ?t) = Inr (fst sp, snd sp)"
    using l(1) by (simp_all add: lookups_def)
  note send_peers_cases[OF this l(2-5), unfolded prod.collapse]
  then show ?thesis
    using h(1) l(1,6) unfolding run Let_def
    by (intro exI[of _ h] exI[of _ np] exI[of _ cp] exI[of _ sp])
      (auto simp: send_msg_packet split: option.splits)
qed

definition sample_reqres :: Np2TsReqRes where
  "sample_reqres = \<lparr>reqres_uuid = replicate UUID_LENGTH 65, reqres_resource_md5 = replicate MD5_LEN 9\<rparr>"

text \<open>A registered peer asks for a resource a super peer has, and no other peer holds.\<close>

lemma np_request_witness:
  "\<exists>e. np_handle_udp_packet 2 sample_np_env NetAddress_new (packet NP2TS_REQ_RES (Np2TsReqRes_content sample_reqres) @ []) 53
     sample_watching = Some (Inl e)"
proof -
  have "Np2TsReqRes_wf sample_reqres" "table_ok (npt_sp_mgr sample_watching)"
    "\<forall>c. e_rand sample_np_env c \<noteq> 0" "group_count (npt_np_mgr sample_watching) < 2"
    using sample_node_ok
    by (simp_all add: Np2TsReqRes_wf_def sample_reqres_def sample_watching_def table_ok_def sample_np_env_def group_count_def)
  from np_request[OF this(1,2) _ this(3,4), of 53 NetAddress_new "[]"]
  obtain h np cp sp where r: "md5_hash h = replicate MD5_LEN 9 @ [0]"
    "lookups 2 sample_np_env h (reqres_uuid sample_reqres @ [0]) 0 (sample_watching\<lparr>npt_last_receive_addr := NetAddress_new\<rparr>) np cp sp"
    "(\<forall>n\<in>snd ` set (npnode_map (npt_np_mgr sample_watching)). \<not> eligible h (reqres_uuid sample_reqres @ [0]) 0 n) \<longrightarrow> fst np = 0"
    "fst cp \<noteq> 0 \<Longrightarrow> fst sp \<noteq> 0 \<Longrightarrow> fst np < fst cp \<Longrightarrow> \<exists>e. np_handle_udp_packet 2 sample_np_env NetAddress_new
      (packet NP2TS_REQ_RES (Np2TsReqRes_content sample_reqres) @ []) 53 sample_watching = Some (Inl e)"
    by (auto simp: Let_def sample_watching_def get_Node_def sample_reqres_def split: if_splits option.splits)
  have "\<not> FindBlock (np_intervalArray (NPNode_new 0)) 0" by code_simp
  then have "fst np = 0" using r(3) by (simp add: sample_watching_def eligible_def)
  moreover have "get_cp_address (e_seeded sample_np_env) 10 \<lparr>channel_map = [(replicate UUID_LENGTH 65 @ [0], sample_node)]\<rparr> =
      Inr (1, cn_spAddress sample_node # replicate 9 NetAddress_new)" by code_simp
  then have "fst cp = 1" using r(2) by (auto simp: lookups_def sample_watching_def)
  moreover have "fst sp = 1"
  proof -
    have "table_ok \<lparr>channel_map = [(replicate UUID_LENGTH 65 @ [0], sample_node)]\<rparr>"
      using sample_node_ok by (simp add: table_ok_def)
    moreover have "strncmp MD5_LEN (replicate 33 9) (replicate MD5_LEN 9 @ [0]) = 0" by code_simp
    then have "has_resource h sample_node" using r(1) by (simp add: sample_node_def MD5_eq_def)
    ultimately show ?thesis using sources_found[of "\<lparr>channel_map = [(replicate UUID_LENGTH 65 @ [0], sample_node)]\<rparr>" 1 h] r(2)
      by (auto simp: lookups_def sample_watching_def simp del: One_nat_def)
  qed
  ultimately show ?thesis using r(4) by simp
qed

text \<open>The first registered peer that asks for a resource a super peer has makes the handler fault.\<close>

lemma np_first_request_faults:
  "np_handle_udp_packet 2 sample_np_env NetAddress_new (packet NP2TS_REQ_RES (Np2TsReqRes_content sample_reqres) @ []) 53
     sample_watching = Some (Inl Out_Of_Bounds)"
  by code_simp

end
