(* ===== verification/Bitrate.thy ===== *)
theory Bitrate
  imports Prelude
begin

text \<open>
  \<open>core/bitrate_calculator.h\<close> and \<open>.cpp\<close>: bytes are added up and about once a second the
  rate is logged and the sum cleared. Every quantity is an unsigned 32-bit number. What
  \<open>gettimeofday\<close> returns is an argument, \<open>None\<close> when it fails.
\<close>

record RsBitrateCalculator =
  bc_name :: bytes
  bc_recv_buffer_size :: u32
  bc_last_recv_msec :: u32

definition RsBitrateCalculator_new :: "bytes \<Rightarrow> RsBitrateCalculator" where
  "RsBitrateCalculator_new name = \<lparr>bc_name = name, bc_recv_buffer_size = 0, bc_last_recv_msec = 0\<rparr>"

text \<open>The rate logged, if one is, and the object.\<close>

definition log_bitrate :: "u32 \<Rightarrow> RsBitrateCalculator \<Rightarrow> (u32 option \<times> RsBitrateCalculator) res" where
  "log_bitrate curr_ms c =
     (let delta_ms = curr_ms - bc_last_recv_msec c
      in if delta_ms > 1000 then
           bindE (guardE Div_By_Zero (1024 * delta_ms \<noteq> 0)) (\<lambda>_.
           Inr (Some (1000 * bc_recv_buffer_size c div (1024 * delta_ms)),
                c\<lparr>bc_recv_buffer_size := 0, bc_last_recv_msec := curr_ms\<rparr>))
         else Inr (None, c))"

definition update_buffersize :: "(int \<times> int) option \<Rightarrow> u32 \<Rightarrow> RsBitrateCalculator \<Rightarrow>
    (u32 option \<times> RsBitrateCalculator) res" where
  "update_buffersize tv n c =
     (let c = c\<lparr>bc_recv_buffer_size := bc_recv_buffer_size c + n\<rparr>
      in case tv of None \<Rightarrow> Inr (None, c)
       | Some (tv_sec, tv_usec) \<Rightarrow> log_bitrate (word_of_int (tv_sec * 1000 + tv_usec div 1000)) c)"

lemma unat_mult_fits: "unat (a :: u32) * unat b < 2 ^ 32 \<Longrightarrow> unat (a * b) = unat a * unat b"
  by (simp add: unat_mult_lem[symmetric] del: unat_mult_lem)

lemma mult_1024_zero: "1024 * (d :: u32) = 0 \<longleftrightarrow> unat d mod 4194304 = 0"
proof -
  have eq: "unat (1024 * d) = (1024 * unat d) mod (1024 * 4194304)"
    using unat_word_ariths(2)[of "1024 :: u32" d] by simp
  have "1024 * d = 0 \<longleftrightarrow> unat (1024 * d) = 0" by (rule unat_eq_zero[symmetric])
  also have "\<dots> \<longleftrightarrow> unat d mod 4194304 = 0" unfolding eq mod_mult_mult1 by simp
  finally show ?thesis .
qed

lemma log_bitrate_cases:
  "log_bitrate now c =
    (let passed = now - bc_last_recv_msec c
     in if unat passed \<le> 1000 then Inr (None, c)
        else if unat passed mod 4194304 = 0 then Inl Div_By_Zero
        else Inr (Some (1000 * bc_recv_buffer_size c div (1024 * passed)),
          c\<lparr>bc_recv_buffer_size := 0, bc_last_recv_msec := now\<rparr>))"
proof -
  have "d > 1000 \<longleftrightarrow> \<not> unat d \<le> 1000" for d :: u32 by (auto simp: word_less_nat_alt)
  then show ?thesis by (simp only: log_bitrate_def Let_def mult_1024_zero) (simp add: guardE_def)
qed

lemma rate_exact:
  "1000 * unat s < 2 ^ 32 \<Longrightarrow> 1024 * unat p < 2 ^ 32 \<Longrightarrow>
   unat (1000 * s div (1024 * p)) = 1000 * unat s div (1024 * unat (p :: u32))"
  by (simp add: unat_div unat_mult_fits)

text \<open>
  The rate is logged, as units of 1024 bytes per second, when
  more than a second has passed since the last time, and the sum starts again; the logged
  number is the true quotient as long as 1000 times the bytes and 1024 times the
  milliseconds fit in 32 bits. When the milliseconds passed are a multiple of 4,194,304
  the code divides by zero.
\<close>

theorem bitrate_logged:
  "let summed = bc_recv_buffer_size c + n; now = word_of_int (sec * 1000 + usec div 1000);
       passed = now - bc_last_recv_msec c
   in update_buffersize (Some (sec, usec)) n c =
       (if unat passed \<le> 1000 then Inr (None, c\<lparr>bc_recv_buffer_size := summed\<rparr>)
        else if unat passed mod 4194304 = 0 then Inl Div_By_Zero
        else Inr (Some (1000 * summed div (1024 * passed)), c\<lparr>bc_recv_buffer_size := 0, bc_last_recv_msec := now\<rparr>)) \<and>
      (1000 * unat summed < 2 ^ 32 \<longrightarrow> 1024 * unat passed < 2 ^ 32 \<longrightarrow>
       unat (1000 * summed div (1024 * passed)) = 1000 * unat summed div (1024 * unat passed))"
  unfolding Let_def
proof (intro conjI impI rate_exact)
  let ?now = "word_of_int (sec * 1000 + usec div 1000)"
  show "update_buffersize (Some (sec, usec)) n c =
    (if unat (?now - bc_last_recv_msec c) \<le> 1000 then Inr (None, c\<lparr>bc_recv_buffer_size := bc_recv_buffer_size c + n\<rparr>)
     else if unat (?now - bc_last_recv_msec c) mod 4194304 = 0 then Inl Div_By_Zero
     else Inr (Some (1000 * (bc_recv_buffer_size c + n) div (1024 * (?now - bc_last_recv_msec c))),
       c\<lparr>bc_recv_buffer_size := 0, bc_last_recv_msec := ?now\<rparr>))"
    unfolding update_buffersize_def Let_def option.case prod.case log_bitrate_cases by simp
qed assumption+

lemma bitrate_logged_witness:
  "update_buffersize (Some (2, 500)) 2048 (RsBitrateCalculator_new []) =
     Inr (Some 1, \<lparr>bc_name = [], bc_recv_buffer_size = 0, bc_last_recv_msec = 2000\<rparr>) \<and>
   update_buffersize (Some (4194, 304000)) 1 (RsBitrateCalculator_new []) = Inl Div_By_Zero"
  using bitrate_logged[of "RsBitrateCalculator_new []" 2048 2 500]
    bitrate_logged[of "RsBitrateCalculator_new []" 1 4194 304000]
  by (simp add: RsBitrateCalculator_new_def)

end
