(* ===== verification/Sp_Np.thy ===== *)
theory Sp_Np
  imports Message_Stream Source_Props Messages_Sp Bitrate
begin

text \<open>
  \<open>protocol/sp/sp_np_connector.h\<close> and \<open>.cpp\<close>: the super peer's side of the connection with a
  normal peer (or another super peer), which asks for blocks with push lists. \<open>nsp_sent\<close>
  collects the payloads handed to the socket; \<open>ne_write\<close> says what a write of them returns.
  The counter of idle rounds is one variable of the program, shared by all connections.
\<close>

record np_conn_env =
  ne_tv :: "(int \<times> int) option"
  ne_junk :: "nat \<Rightarrow> u8"
  ne_write :: "bytes \<Rightarrow> st_written"

record RsNpSpProtocol =
  nsp_io_socket :: RsSocket
  nsp_np_buffer :: RsBuffer
  nsp_media_type_flag :: bool
  nsp_calculator :: RsBitrateCalculator
  nsp_loop_flag :: bool
  nsp_sent :: "bytes list"

definition RsNpSpProtocol_new :: "(nat \<Rightarrow> u8) \<Rightarrow> bytes \<Rightarrow> RsNpSpProtocol" where
  "RsNpSpProtocol_new junk name = \<lparr>nsp_io_socket = RsSocket_new, nsp_np_buffer = RsBuffer_new junk,
     nsp_media_type_flag = False, nsp_calculator = RsBitrateCalculator_new name, nsp_loop_flag = True, nsp_sent = []\<rparr>"

definition nsp_write :: "np_conn_env \<Rightarrow> bytes \<Rightarrow> int \<Rightarrow> RsNpSpProtocol \<Rightarrow> int \<times> RsNpSpProtocol" where
  "nsp_write env payload payload_nb s =
     (if payload_nb \<noteq> 0 then
        let (ret, nsize, io) = socket_write (ne_write env payload) (nsp_io_socket s)
        in (ret, s\<lparr>nsp_io_socket := io, nsp_sent := nsp_sent s @ [payload]\<rparr>)
      else (0, s))"

definition hash_key :: "np_conn_env \<Rightarrow> bytes \<Rightarrow> MD5_Hash_Str" where
  "hash_key env resource_hash = \<lparr>md5_hash = resource_hash @ [0],
     md5_interval = BlockInterval_new (dec (map (ne_junk env) [0..<4]))\<rparr>"

text \<open>
  The names are the first two characters of the channel's name, its final zero included.
  When no entry of the list matches, the members of the message keep no value.
\<close>

definition send_media_type :: "np_conn_env \<Rightarrow> bytes \<Rightarrow> RsSourceManager \<Rightarrow> RsNpSpProtocol \<Rightarrow> (int \<times> RsNpSpProtocol) res" where
  "send_media_type env resource_hash mgr s =
     bindE (source_header (hash_key env resource_hash) mgr) (\<lambda>(ret, header).
     case header of None \<Rightarrow> Inr (ret, s)
     | Some (header_bytes, header_size) \<Rightarrow>
         bindE (get_source_list mgr []) (\<lambda>source_list.
         case find (\<lambda>st. take MD5_LEN (md5_hash (ss_chnl_hash st)) = resource_hash) source_list of
           None \<Rightarrow> Inl Uninitialised
         | Some iter \<Rightarrow>
             let name = ss_chnl_name iter @ [0];
                 m = \<lparr>media_resource_md5 = resource_hash, media_block_start_id = 0, media_block_num = 0xffffffff,
                   media_type_size = word_of_int header_size, media_type = header_bytes,
                   media_program_name_size = 2, media_program_name = name, media_program_time = 0,
                   media_channel_name_size = 2, media_channel_name = name\<rparr>
             in bindE (RsMessage_pack (ne_junk env) (Sp2SpMediatype_reserve m) (Sp2SpMediatype_submsg m)) (\<lambda>(payload, payload_nb).
                let (ret, s) = nsp_write env payload payload_nb s
                in Inr (ret, s\<lparr>nsp_media_type_flag := True\<rparr>))))"

definition send_one_block :: "np_conn_env \<Rightarrow> bytes \<Rightarrow> u32 \<Rightarrow> RsSourceManager \<Rightarrow> RsNpSpProtocol \<Rightarrow> (int \<times> RsNpSpProtocol) res" where
  "send_one_block env resource_hash block_id mgr s =
     bindE (dequeue_block (hash_key env resource_hash) (sint block_id) mgr) (\<lambda>(ret, found).
     case (found, get_buffer_queue (hash_key env resource_hash) mgr) of
       (Block buf sz, Some q) \<Rightarrow>
         let m = \<lparr>response_resource_md5 = resource_hash, response_block_id = block_id,
               response_block_size = sz, response_block_data = mb_buffer (bq_vector q ! buf)\<rparr>
         in bindE (RsMessage_pack (ne_junk env) (Sp2SpResponse_reserve m) (Sp2SpResponse_submsg m)) (\<lambda>(payload, payload_nb).
            let (_, s) = nsp_write env payload payload_nb s
            in bindE (update_buffersize (ne_tv env) sz (nsp_calculator s)) (\<lambda>(_, calc).
               Inr (ret, s\<lparr>nsp_calculator := calc\<rparr>)))
     | _ \<Rightarrow> Inr (ret, s))"

fun send_blocks :: "np_conn_env \<Rightarrow> bytes \<Rightarrow> u32 list \<Rightarrow> RsSourceManager \<Rightarrow> RsNpSpProtocol \<Rightarrow> RsNpSpProtocol res" where
  "send_blocks env resource_hash [] mgr s = Inr s"
| "send_blocks env resource_hash (i # ids) mgr s =
     bindE (send_one_block env resource_hash i mgr s) (\<lambda>(_, s). send_blocks env resource_hash ids mgr s)"

definition send_push_list :: "np_conn_env \<Rightarrow> bytes \<Rightarrow> u8 \<Rightarrow> u32 list \<Rightarrow> RsSourceManager \<Rightarrow> RsNpSpProtocol \<Rightarrow> RsNpSpProtocol res" where
  "send_push_list env resource_hash count array mgr s =
     (let array = (if count > 1 then sort array else array)
      in send_blocks env resource_hash (take (unat count) array) mgr s)"

definition get_push_list :: "np_conn_env \<Rightarrow> bytes \<Rightarrow> int \<Rightarrow> RsSourceManager \<Rightarrow> RsNpSpProtocol \<Rightarrow> RsNpSpProtocol res" where
  "get_push_list env msg n mgr s =
     bindE (Sp2SpPushList_parse Sp2SpPushList_new (initialize msg n)) (\<lambda>(m, _).
     bindE (if nsp_media_type_flag s then Inr (0, s) else send_media_type env (push_resource_md5 m) mgr s) (\<lambda>(_, s).
     if push_block_count m \<noteq> 0 then send_push_list env (push_resource_md5 m) (push_block_count m) (push_block_array m) mgr s
     else Inr s))"

definition np_conn_loop :: "np_conn_env \<Rightarrow> int \<Rightarrow> RsNpSpProtocol \<Rightarrow> RsSourceManager \<Rightarrow> arrival list \<Rightarrow>
    (int \<times> int \<times> RsNpSpProtocol \<times> arrival list) res option" where
  "np_conn_loop env no_receive_counter s mgr conn =
     bindO (next_message (ne_junk env) (nsp_np_buffer s) (nsp_io_socket s) conn) (\<lambda>(ret, (temp, msg_size), b, io, conn).
     let s = s\<lparr>nsp_np_buffer := b, nsp_io_socket := io\<rparr>; mem = rb_mem b
     in if ret \<noteq> 0 then
          let no_receive_counter = no_receive_counter + 1
          in if no_receive_counter = 150 then Some (Inr (ret, 0, s\<lparr>nsp_loop_flag := False\<rparr>, conn))
             else Some (Inr (ret, no_receive_counter, s, conn))
        else
          bindO (Some (peek_char mem temp)) (\<lambda>msg_type.
          bindO (Some (if msg_type = msg_code SP2SP_PUSHLIST
                       then get_push_list env (drop (nat (temp + 1)) mem) (msg_size - 5) mgr s else Inr s)) (\<lambda>s.
          Some (Inr (0, no_receive_counter, s, conn)))))"

section \<open>What a push list is answered with\<close>

text \<open>At the time \<open>ne_tv\<close> the calculator does not divide by zero, now and after an update.\<close>

definition calc_ok :: "(int \<times> int) option \<Rightarrow> RsBitrateCalculator \<Rightarrow> bool" where
  "calc_ok tv c \<longleftrightarrow> (case tv of None \<Rightarrow> True
    | Some (sec, usec) \<Rightarrow>
        let passed = word_of_int (sec * 1000 + usec div 1000) - bc_last_recv_msec c
        in unat passed \<le> 1000 \<or> unat passed mod 4194304 \<noteq> 0)"

lemma update_calc_ok:
  assumes "calc_ok tv c"
  shows "\<exists>r c'. update_buffersize tv n c = Inr (r, c') \<and> calc_ok tv c'"
proof (cases tv)
  case None
  then show ?thesis by (simp add: update_buffersize_def calc_ok_def)
next
  case (Some p)
  obtain sec usec where p: "p = (sec, usec)" by (cases p) simp
  define now :: u32 where "now = word_of_int (sec * 1000 + usec div 1000)"
  have step: "update_buffersize tv n c = log_bitrate now (c\<lparr>bc_recv_buffer_size := bc_recv_buffer_size c + n\<rparr>)"
    by (simp add: Some p update_buffersize_def now_def Let_def)
  have ok: "calc_ok tv c' \<longleftrightarrow> unat (now - bc_last_recv_msec c') \<le> 1000 \<or> unat (now - bc_last_recv_msec c') mod 4194304 \<noteq> 0" for c'
    by (simp add: calc_ok_def Some p now_def Let_def)
  show ?thesis using assms unfolding step ok by (auto simp: log_bitrate_cases Let_def)
qed

lemma signed_wrap:
  assumes "x = (int n + 2 ^ 31) mod 2 ^ 32 - 2 ^ 31" "n < 2 ^ 32"
  shows "n < 2 ^ 31 \<and> x = int n \<or> 2 ^ 31 \<le> n \<and> x < 0"
proof (cases "n < 2 ^ 31")
  case False
  then have "(int n + 2 ^ 31) mod 2 ^ 32 = int n - 2 ^ 31"
    using assms(2) mod_pos_pos_trivial[of "int n - 2 ^ 31" "2 ^ 32"] mod_add_self2[of "int n - 2 ^ 31" "2 ^ 32"]
    by (simp add: add.commute)
  then show ?thesis using assms False by simp
qed (use assms in simp)

lemma sint_u32_cases: "unat (i :: u32) < 2 ^ 31 \<and> sint i = int (unat i) \<or> 2 ^ 31 \<le> unat i \<and> sint i < 0"
proof (rule signed_wrap)
  show "sint i = (int (unat i) + 2 ^ 31) mod 2 ^ 32 - 2 ^ 31"
    by (simp add: sint_uint signed_take_bit_eq_take_bit_shift take_bit_eq_mod)
  show "unat i < 2 ^ 32" using unsigned_less[where ?'a = nat, of i] by simp
qed

definition in_ring :: "nat \<Rightarrow> bytes list \<Rightarrow> u32 \<Rightarrow> bool" where
  "in_ring N h i \<longleftrightarrow> length h - N \<le> unat i \<and> unat i < length h"

definition response_to :: "bytes \<Rightarrow> RsBufferQueue \<Rightarrow> u32 \<Rightarrow> bytes" where
  "response_to resource_hash q i = packet SP2SP_RESPONSE (resource_hash @ enc i @ enc (16384 :: u32) @
     mb_buffer (bq_vector q ! (unat i mod length (bq_vector q))))"

lemma dequeue_ring_sint:
  assumes "ring_ok N h q" "length h < 2 ^ 31"
  shows "dequeue_buffer (sint i) q = Inr (if in_ring N h i then Some (unat i mod N) else None)"
proof (cases "unat i < 2 ^ 31")
  case True
  then have "sint i = int (unat i)" using sint_u32_cases[of i] by simp
  then show ?thesis using dequeue_ring_ok[OF assms, of "unat i"] by (simp add: in_ring_def)
next
  case False
  then have "sint i < 0" "\<not> in_ring N h i" using sint_u32_cases[of i] assms(2) by (auto simp: in_ring_def)
  moreover have "0 \<le> bq_min_block_id q" using assms(1) by (simp add: ring_ok_def)
  ultimately show ?thesis by (simp add: dequeue_buffer_def)
qed

lemma send_one_block_ring:
  assumes q: "get_buffer_queue (hash_key env resource_hash) mgr = Some q" "ring_ok N h q" "length h < 2 ^ 31"
    and "length resource_hash = MD5_LEN" "P (nsp_calculator s)"
    and step: "\<And>n c. P c \<Longrightarrow> \<exists>r c'. update_buffersize (ne_tv env) n c = Inr (r, c') \<and> P c'"
  shows "\<exists>s'. send_one_block env resource_hash i mgr s = Inr (0, s') \<and> P (nsp_calculator s') \<and>
    nsp_sent s' = nsp_sent s @ (if in_ring N h i then [response_to resource_hash q i] else []) \<and>
    nsp_media_type_flag s' = nsp_media_type_flag s \<and> nsp_np_buffer s' = nsp_np_buffer s \<and> nsp_loop_flag s' = nsp_loop_flag s"
proof (cases "in_ring N h i")
  case False
  then show ?thesis
    using q(1) assms(5) dequeue_ring_sint[OF q(2,3), of i] by (simp add: send_one_block_def dequeue_block_def)
next
  case True
  have N: "0 < N" "length (bq_vector q) = N" using q(2) by (simp_all add: ring_ok_def)
  then have "slot_ok (bq_vector q ! (unat i mod N))" using q(2) by (simp add: ring_ok_def)
  then have slot: "length (mb_buffer (bq_vector q ! (unat i mod N))) = MEDIA_BLOCK_SIZE"
    "mb_block_size (bq_vector q ! (unat i mod N)) = int MEDIA_BLOCK_SIZE" by (simp_all add: slot_ok_def)
  let ?m = "\<lparr>response_resource_md5 = resource_hash, response_block_id = i, response_block_size = 16384,
    response_block_data = mb_buffer (bq_vector q ! (unat i mod N))\<rparr>"
  have wf: "Sp2SpResponse_wf ?m" using assms(4) slot by (simp add: Sp2SpResponse_wf_def)
  have nb: "Sp2SpResponse_reserve ?m \<noteq> 0" using sp2sp_response.reserve_exact[OF wf] by simp
  obtain ret nsize io where w: "socket_write (ne_write env (response_to resource_hash q i)) (nsp_io_socket s) = (ret, nsize, io)"
    using prod_cases3 by blast
  obtain r c where c: "update_buffersize (ne_tv env) 16384 (nsp_calculator s) = Inr (r, c)" "P c"
    using step[OF assms(5)] by blast
  have "RsMessage_pack (ne_junk env) (Sp2SpResponse_reserve ?m) (Sp2SpResponse_submsg ?m) =
      Inr (response_to resource_hash q i, Sp2SpResponse_reserve ?m)"
    using sp2sp_response.pack_packet[OF wf] N by (simp add: response_to_def Sp2SpResponse_content_def)
  then show ?thesis
    using True q(1) dequeue_ring_sint[OF q(2,3), of i] slot w c nb
    by (simp add: send_one_block_def dequeue_block_def nsp_write_def Let_def)
qed

lemma send_blocks_ring:
  assumes "get_buffer_queue (hash_key env resource_hash) mgr = Some q" "ring_ok N h q" "length h < 2 ^ 31"
    and "length resource_hash = MD5_LEN" "P (nsp_calculator s)"
    and step: "\<And>n c. P c \<Longrightarrow> \<exists>r c'. update_buffersize (ne_tv env) n c = Inr (r, c') \<and> P c'"
  shows "\<exists>s'. send_blocks env resource_hash ids mgr s = Inr s' \<and> P (nsp_calculator s') \<and>
    nsp_sent s' = nsp_sent s @ map (response_to resource_hash q) (filter (in_ring N h) ids) \<and>
    nsp_media_type_flag s' = nsp_media_type_flag s \<and> nsp_np_buffer s' = nsp_np_buffer s \<and> nsp_loop_flag s' = nsp_loop_flag s"
  using assms(5)
proof (induction ids arbitrary: s)
  case (Cons i ids)
  then obtain s1 where "send_one_block env resource_hash i mgr s = Inr (0, s1)" "P (nsp_calculator s1)"
    "nsp_sent s1 = nsp_sent s @ (if in_ring N h i then [response_to resource_hash q i] else [])"
    "nsp_media_type_flag s1 = nsp_media_type_flag s" "nsp_np_buffer s1 = nsp_np_buffer s" "nsp_loop_flag s1 = nsp_loop_flag s"
    using send_one_block_ring[where P = P, OF assms(1-4) _ step, of s i] by blast
  then show ?case using Cons.IH[of s1] by auto
qed simp

lemma sorted_short: "length xs \<le> 1 \<Longrightarrow> sort xs = xs"
  by (cases xs) auto

text \<open>A push list with more bytes behind it, once the media type has been sent.\<close>

lemma get_push_list_sends:
  assumes m: "Sp2SpPushList_wf m" "take (length (Sp2SpPushList_content m)) msg = Sp2SpPushList_content m"
    and flag: "nsp_media_type_flag s"
    and q: "get_buffer_queue (hash_key env (push_resource_md5 m)) mgr = Some q" "ring_ok N h q" "length h < 2 ^ 31"
    and P: "P (nsp_calculator s)" "\<And>n c. P c \<Longrightarrow> \<exists>r c'. update_buffersize (ne_tv env) n c = Inr (r, c') \<and> P c'"
  shows "\<exists>s'. get_push_list env msg (int (length (Sp2SpPushList_content m))) mgr s = Inr s' \<and> P (nsp_calculator s') \<and>
    nsp_sent s' = nsp_sent s @ map (response_to (push_resource_md5 m) q) (filter (in_ring N h) (sort (push_block_array m))) \<and>
    nsp_media_type_flag s' \<and> nsp_np_buffer s' = nsp_np_buffer s \<and> nsp_loop_flag s' = nsp_loop_flag s"
proof -
  let ?c = "Sp2SpPushList_content m" and ?md5 = "push_resource_md5 m"
  let ?ids = "if push_block_count m > 1 then sort (push_block_array m) else push_block_array m"
  have len: "length (push_block_array m) = unat (push_block_count m)" "length ?md5 = MD5_LEN"
    using m(1) by (simp_all add: Sp2SpPushList_wf_def)
  have ids: "take (unat (push_block_count m)) ?ids = sort (push_block_array m)"
    using len(1) by (auto simp: sorted_short word_less_nat_alt)
  have "Sp2SpPushList_parse Sp2SpPushList_new (initialize msg (int (length ?c))) =
      Inr (m, adv (length ?c) (initialize msg (int (length ?c))))"
    by (rule sp2sp_pushlist.parse_content[OF m(1), where post = "[]"]) (simp add: m(2))
  then have "get_push_list env msg (int (length ?c)) mgr s =
      (if push_block_count m \<noteq> 0 then send_blocks env ?md5 (sort (push_block_array m)) mgr s else Inr s)"
    using flag ids by (simp add: get_push_list_def send_push_list_def Let_def)
  moreover have "push_block_array m = []" if "push_block_count m = 0" using that len(1) by simp
  ultimately show ?thesis
    using send_blocks_ring[where P = P, OF q len(2) P, of "sort (push_block_array m)"] flag P(1) by auto
qed

text \<open>
  C12. A push list is answered from the ring: if the media type has been sent and the channel's
  ring of \<open>N\<close> buffers holds the history \<open>h\<close>, then one response packet per requested block that
  is still in the ring goes out, in ascending order of the ids, each with the hash, the id and
  the whole buffer of the block, which starts with its bytes; ids outside the ring are skipped
  without a word. By the clock either at most 1,000 milliseconds have passed since the bitrate
  was measured last, or not a multiple of 4,194,304 (else the bitrate divides by zero, which
  is what \<open>calc_ok\<close> rules out).
\<close>

theorem push_list_answered:
  assumes "Sp2SpPushList_wf m" "nsp_media_type_flag s"
    and "get_buffer_queue (hash_key env (push_resource_md5 m)) mgr = Some q" "ring_ok N h q" "length h < 2 ^ 31"
    and "calc_ok (ne_tv env) (nsp_calculator s)"
  shows "(\<exists>s'. get_push_list env (Sp2SpPushList_content m) (int (length (Sp2SpPushList_content m))) mgr s = Inr s' \<and>
      nsp_sent s' = nsp_sent s @
        map (response_to (push_resource_md5 m) q) (filter (in_ring N h) (sort (push_block_array m)))) \<and>
    (\<forall>i. in_ring N h i \<longrightarrow> take (length (h ! unat i)) (mb_buffer (bq_vector q ! (unat i mod length (bq_vector q)))) = h ! unat i)"
proof
  show "\<exists>s'. get_push_list env (Sp2SpPushList_content m) (int (length (Sp2SpPushList_content m))) mgr s = Inr s' \<and>
      nsp_sent s' = nsp_sent s @ map (response_to (push_resource_md5 m) q) (filter (in_ring N h) (sort (push_block_array m)))"
    using get_push_list_sends[where P = "calc_ok (ne_tv env)", OF assms(1) _ assms(2-6) update_calc_ok,
        of "Sp2SpPushList_content m"] by auto
  show "\<forall>i. in_ring N h i \<longrightarrow> take (length (h ! unat i)) (mb_buffer (bq_vector q ! (unat i mod length (bq_vector q)))) = h ! unat i"
    using assms(4) by (auto simp: ring_ok_def in_ring_def holds_block_def)
qed

text \<open>
  A ring of two buffers that has been given the blocks 1, 2 and 3, asked for the blocks 2, 0
  and 1: blocks 1 and 2 are sent, in this order.
\<close>

definition sample_push :: Sp2SpPushList where
  "sample_push = \<lparr>push_resource_md5 = replicate MD5_LEN 97,
     push_source_sp_addr = \<lparr>sin_family = 2, sin_port = 80, s_addr = 0\<rparr>, push_block_count = 3, push_block_array = [2, 0, 1]\<rparr>"

lemma push_list_answered_witness:
  "\<exists>q s'. produce_all 0 sample_blocks sample_queue = Inr q \<and>
    get_push_list \<lparr>ne_tv = None, ne_junk = \<lambda>_. 0, ne_write = \<lambda>bs. Wrote (length bs)\<rparr> (Sp2SpPushList_content sample_push) 53
      \<lparr>sm_source_hashmap = [(hash_key \<lparr>ne_tv = None, ne_junk = \<lambda>_. 0, ne_write = \<lambda>bs. Wrote (length bs)\<rparr> (replicate MD5_LEN 97), q)],
        sm_tracker_address = []\<rparr>
      ((RsNpSpProtocol_new (\<lambda>_. 0) [])\<lparr>nsp_media_type_flag := True\<rparr>) = Inr s' \<and>
    nsp_sent s' = map (response_to (replicate MD5_LEN 97) q) [1, 2]"
proof -
  let ?env = "\<lparr>ne_tv = None, ne_junk = \<lambda>_. 0, ne_write = \<lambda>bs. Wrote (length bs)\<rparr>"
  let ?s = "(RsNpSpProtocol_new (\<lambda>_. 0) [])\<lparr>nsp_media_type_flag := True\<rparr>"
  obtain q where q: "produce_all 0 sample_blocks sample_queue = Inr q" "ring_ok 2 sample_blocks q"
    using produce_all_ring_ok[of 2 "[]" sample_queue sample_blocks] ring_ok_fresh[of 2]
    by (auto simp: sample_queue_def sample_blocks_def)
  let ?mgr = "\<lparr>sm_source_hashmap = [(hash_key ?env (replicate MD5_LEN 97), q)], sm_tracker_address = []\<rparr>"
  have "Sp2SpPushList_wf sample_push" by (simp add: Sp2SpPushList_wf_def sample_push_def)
  moreover have "get_buffer_queue (hash_key ?env (push_resource_md5 sample_push)) ?mgr = Some q"
    by (simp add: get_buffer_queue_def sample_push_def)
  moreover have ids: "filter (in_ring 2 sample_blocks) (sort (push_block_array sample_push)) = [1, 2]"
    by (simp add: in_ring_def sample_blocks_def sample_push_def word_le_nat_alt)
  moreover have len: "int (length (Sp2SpPushList_content sample_push)) = 53" by code_simp
  moreover have "nsp_sent ?s = []" "nsp_media_type_flag ?s" "calc_ok (ne_tv ?env) (nsp_calculator ?s)"
    by (simp_all add: RsNpSpProtocol_new_def calc_ok_def)
  moreover have "length sample_blocks < 2 ^ 31" and md5: "push_resource_md5 sample_push = replicate MD5_LEN 97"
    by (simp add: sample_blocks_def, simp add: sample_push_def)
  ultimately obtain s' where "get_push_list ?env (Sp2SpPushList_content sample_push) 53 ?mgr ?s = Inr s'"
    "nsp_sent s' = map (response_to (replicate MD5_LEN 97) q) [1, 2]"
    using conjunct1[OF push_list_answered[of sample_push ?s ?env ?mgr q 2 sample_blocks, OF _ _ _ q(2)]]
    unfolding ids len md5 by auto
  then show ?thesis using q(1) by blast
qed

end
