(* ===== verification/End_To_End.thy ===== *)
theory End_To_End
  imports Sp_Session Np_Props Sp_Np
begin

text \<open>
  From the ring of a super peer through both sides of the tracker to a normal peer.
\<close>

lemma find_at:
  "j < length xs \<Longrightarrow> P (xs ! j) \<Longrightarrow> \<forall>i<j. \<not> P (xs ! i) \<Longrightarrow> find P xs = Some (xs ! j)"
  by (auto simp: find_Some_iff)

lemma find_concat_node:
  assumes "(k, n) \<in> set m" "find P (g n) = Some x"
    and "\<And>k' n'. (k', n') \<in> set m \<Longrightarrow> n' = n \<or> (\<forall>y\<in>set (g n'). \<not> P y)"
  shows "find P (concat (map (\<lambda>(k, n). g n) m)) = Some x"
  using assms
proof (induction m)
  case (Cons p m)
  obtain k' n' where p: "p = (k', n')" by fastforce
  show ?case
  proof (cases "n' = n")
    case True
    then show ?thesis using Cons.prems(2) by (simp add: p find_append)
  next
    case False
    then have "find P (g n') = None" using Cons.prems(3)[of k' n'] by (auto simp: p find_None_iff)
    moreover have "(k, n) \<in> set m" using Cons.prems(1) False by (simp add: p)
    then have "find P (concat (map (\<lambda>(k, n). g n) m)) = Some x"
      using Cons.IH[OF _ Cons.prems(2)] Cons.prems(3) by auto
    ultimately show ?thesis by (simp add: p find_append)
  qed
qed simp

text \<open>The interval of the blocks a ring of \<open>N\<close> buffers holds, as it travels.\<close>

definition ring_interval :: "nat \<Rightarrow> bytes list \<Rightarrow> BlockInterval" where
  "ring_interval N h = \<lparr>bi_start = word_of_nat (length h - N), bi_size = word_of_nat (min N (length h))\<rparr>"

lemma ring_interval_kept:
  assumes "length h < 2 ^ 31"
  shows "in_ring N h i \<longleftrightarrow> unat (bi_start (ring_interval N h)) \<le> unat i \<and>
    unat i < unat (bi_start (ring_interval N h)) + unat (bi_size (ring_interval N h))"
proof -
  have "unat (word_of_nat n :: u32) = n" if "n \<le> length h" for n
    using that assms by (simp add: unsigned_of_nat take_bit_nat_eq_self)
  then show ?thesis by (auto simp: in_ring_def ring_interval_def)
qed

text \<open>
  C1. The blocks a super peer holds reach the peers that ask for them. A registered super
  peer's timer fires; its packet goes to the tracker; then a peer that watches one of its
  channels (the first of its channels with this hash, which no other super peer announces) asks
  the tracker for the interval of the channel: it is answered with exactly the ids of the
  blocks the super peer's ring holds, unless this interval is the one the tracker sent last, to
  whatever peer: then it would not be answered. The super peer has a socket and at least one
  and fewer than 53,687,090 channels, and the tracker's table is in order.
\<close>

theorem live_window_delivered:
  assumes "spc_register_flag c" "spc_io c = Some io" "length (spc_sp_id c) = UUID_LENGTH"
    and "channels_hold mgr rings" "rings \<noteq> []" "length rings < 53687090"
    and "table_ok (spt_mgr t)" "registered (spc_sp_id c @ [0]) (spt_mgr t) = Some n" "nb \<noteq> 0"
    and "j < length rings" "rings ! j = (N, h)" "MD5_eq (hash_of_info (channel_infos mgr rings ! j)) channel"
    and "\<forall>i<j. \<not> MD5_eq (hash_of_info (channel_infos mgr rings ! i)) channel"
    and "\<forall>(k, n)\<in>set (channel_map (spt_mgr t)). key_equiv map_str_lt k (spc_sp_id c @ [0]) \<or> \<not> has_resource channel n"
    and "Np2TsReqInterval_wf m" "get_Node (reqinterval_uuid m @ [0]) (npt_np_mgr tn) = Some node"
    and "np_channelID_md5 node = channel" "npt_last_send_blockinterval tn \<noteq> ring_interval N h" "nb' \<noteq> 0"
  shows "\<exists>c1 p t' tn'. spc_handle_timeout cenv mgr TRACKER_TIMER_ID c = Inr c1 \<and> spc_sent c1 = spc_sent c @ [p] \<and>
    sp_handle_udp_packet env sp_address (p @ rest) nb t = Inr (0, t') \<and>
    np_handle_udp_packet fuel nenv peer (packet NP2TS_RES_INTERVAL (reqinterval_uuid m) @ rest') nb'
      (tn\<lparr>npt_sp_mgr := spt_mgr t'\<rparr>) = Some (Inr (0, tn')) \<and>
    npt_sent tn' = npt_sent tn @ [(peer, packet TS2NP_RES_INTERVAL (bytes_of_BlockInterval (ring_interval N h)))] \<and>
    (\<forall>i. in_ring N h i \<longleftrightarrow> unat (bi_start (ring_interval N h)) \<le> unat i \<and>
      unat i < unat (bi_start (ring_interval N h)) + unat (bi_size (ring_interval N h)))"
proof -
  let ?uuid = "spc_sp_id c @ [0]" and ?infos = "map hash_of_info (channel_infos mgr rings)"
  obtain c1 p tmgr n' where pub: "spc_handle_timeout cenv mgr TRACKER_TIMER_ID c = Inr c1" "spc_sent c1 = spc_sent c @ [p]"
    "sp_handle_udp_packet env sp_address (p @ rest) nb t = Inr (0, t\<lparr>spt_last_receive_addr := sp_address, spt_mgr := tmgr\<rparr>)"
    "table_ok tmgr" "\<forall>u. registered u tmgr = (if key_equiv map_str_lt u ?uuid then Some n' else registered u (spt_mgr t))"
    "cn_pHash n' = ?infos"
    using channels_published[OF assms(1-9), of cenv env sp_address rest] by blast
  have len: "length (channel_infos mgr rings) = length rings" "length (sm_source_hashmap mgr) = length rings"
    using list_all2_lengthD[OF assms(4)[unfolded channels_hold_def]] by (simp_all add: channel_infos_def)
  obtain k q where kq: "sm_source_hashmap mgr ! j = (k, q)" by fastforce
  have hist: "length h < 2 ^ 31"
    using list_all2_nthD2[OF assms(4)[unfolded channels_hold_def] assms(10)] kq assms(11) by simp
  have interval: "md5_interval (?infos ! j) = ring_interval N h"
    using assms(10,11) kq len by (simp add: channel_infos_def channel_info_def hash_of_info_def ring_interval_def)
  have here: "find (\<lambda>x. MD5_eq x channel) (cn_pHash n') = Some (?infos ! j)"
    unfolding pub(6) using assms(10,12,13) len(1) by (intro find_at) auto
  have ordered: "map_ordered map_str_lt (channel_map tmgr)" "map_ordered map_str_lt (channel_map (spt_mgr t))"
    using pub(4) assms(7) by (simp_all add: table_ok_def)
  have "registered ?uuid tmgr = Some n'" using pub(5) by simp
  then obtain k' where entry: "(k', n') \<in> set (channel_map tmgr)"
    unfolding registered_def using map_find_in_set by fast
  have others: "n'' = n' \<or> (\<forall>y\<in>set (cn_pHash n''). \<not> MD5_eq y channel)" if "(k'', n'') \<in> set (channel_map tmgr)" for k'' n''
  proof (cases "key_equiv map_str_lt k'' ?uuid")
    case True
    then show ?thesis using mapstr.find_entry[OF ordered(1) that] pub(5) by (simp add: registered_def)
  next
    case False
    then have "registered k'' (spt_mgr t) = Some n''"
      using mapstr.find_entry[OF ordered(1) that] pub(5) by (simp add: registered_def)
    then obtain k0 where "(k0, n'') \<in> set (channel_map (spt_mgr t))" "key_equiv map_str_lt k'' k0"
      unfolding registered_def using map_find_in_set by fast
    moreover from this have "\<not> key_equiv map_str_lt k0 ?uuid" using False mapstr.equiv_eq by blast
    ultimately show ?thesis using assms(14) by fastforce
  qed
  have "find (\<lambda>x. MD5_eq x channel) (concat (map (\<lambda>(k, n). cn_pHash n) (channel_map tmgr))) = Some (?infos ! j)"
    by (rule find_concat_node[where g = cn_pHash, OF entry here]) (rule others)
  moreover have "\<forall>(k, n)\<in>set (channel_map tmgr). node_ok n" using pub(4) by (simp add: table_ok_def)
  ultimately have known: "get_channel_interval channel tmgr = Inr (Some (ring_interval N h))"
    using interval_in_find interval by (simp add: get_channel_interval_def)
  let ?tn = "tn\<lparr>npt_sp_mgr := tmgr\<rparr>"
  let ?tn' = "?tn\<lparr>npt_last_receive_addr := peer, npt_last_send_blockinterval := ring_interval N h,
      npt_sent := npt_sent tn @ [(peer, packet TS2NP_RES_INTERVAL (bytes_of_BlockInterval (ring_interval N h)))]\<rparr>"
  have "np_handle_udp_packet fuel nenv peer (packet NP2TS_RES_INTERVAL (reqinterval_uuid m) @ rest') nb' ?tn = Some (Inr (0, ?tn'))"
    using get_res_interval_packet[OF assms(15), of ?tn nb' node "ring_interval N h" fuel nenv peer rest'] assms(16-19) known pub(4)
    by (simp add: Let_def)
  then show ?thesis
    using pub(1-3) ring_interval_kept[OF hist]
    by (intro exI[of _ c1] exI[of _ p] exI[of _ "t\<lparr>spt_last_receive_addr := sp_address, spt_mgr := tmgr\<rparr>"] exI[of _ ?tn']) simp
qed

text \<open>One super peer with one channel and one block, and one peer that watches it.\<close>

definition watching_publish :: RsNpTracker where
  "watching_publish = (RsNpTracker_new NetAddress_new 7)\<lparr>npt_np_mgr :=
     \<lparr>npnode_map = [(replicate UUID_LENGTH 65 @ [0], (NPNode_new 0)\<lparr>np_channelID_md5 := publish_hash\<rparr>)]\<rparr>\<rparr>"

lemma live_window_delivered_witness:
  "\<exists>q c1 p t' tn'. produce 0 [9] (reserve_buffer (\<lambda>_ _. 0) (int 2) (RsBufferQueue_new 0 publish_hash [] True)) = Inr q \<and>
    spc_handle_timeout sample_cenv \<lparr>sm_source_hashmap = [(publish_hash, q)], sm_tracker_address = []\<rparr> 0
      ((connected_client (\<lambda>_. 0))\<lparr>spc_register_flag := True, spc_sp_id := replicate UUID_LENGTH 65\<rparr>) = Inr c1 \<and>
    spc_sent c1 = [p] \<and> sp_handle_udp_packet sample_env NetAddress_new (p @ []) 65 sample_tracker = Inr (0, t') \<and>
    np_handle_udp_packet 0 sample_np_env NetAddress_new (packet NP2TS_RES_INTERVAL (replicate UUID_LENGTH 65) @ []) 21
      (watching_publish\<lparr>npt_sp_mgr := spt_mgr t'\<rparr>) = Some (Inr (0, tn')) \<and>
    npt_sent tn' = [(NetAddress_new, packet TS2NP_RES_INTERVAL (bytes_of_BlockInterval \<lparr>bi_start = 0, bi_size = 1\<rparr>))]"
proof -
  let ?c = "(connected_client (\<lambda>_. 0))\<lparr>spc_register_flag := True, spc_sp_id := replicate UUID_LENGTH 65\<rparr>"
  let ?m = "\<lparr>reqinterval_uuid = replicate UUID_LENGTH 65\<rparr>"
  obtain q where q: "produce 0 [9] (reserve_buffer (\<lambda>_ _. 0) (int 2) (RsBufferQueue_new 0 publish_hash [] True)) = Inr q"
    "ring_ok 2 [[9]] q" "md5_hash (bq_source_hash q) = replicate MD5_LEN 97 @ [0]"
    using published_queue by blast
  let ?mgr = "\<lparr>sm_source_hashmap = [(publish_hash, q)], sm_tracker_address = []\<rparr>"
  have hold: "channels_hold ?mgr [(2, [[9]])]" using q(2,3) by (simp add: channels_hold_def)
  have eq: "MD5_eq (hash_of_info (channel_infos ?mgr [(2, [[9]])] ! 0)) publish_hash"
    by (simp add: channel_infos_def channel_info_def hash_of_info_def q(3) MD5_eq_def publish_hash_def strncmp_eq)
  have reg: "registered (replicate UUID_LENGTH 65 @ [0]) (spt_mgr sample_tracker) = Some sample_node"
    by (simp add: registered_def sample_tracker_def)
  have alone: "\<forall>(k, n)\<in>set (channel_map (spt_mgr sample_tracker)).
      key_equiv map_str_lt k (replicate UUID_LENGTH 65 @ [0]) \<or> \<not> has_resource publish_hash n"
    by (simp add: sample_tracker_def)
  obtain node where node: "get_Node (reqinterval_uuid ?m @ [0]) (npt_np_mgr watching_publish) = Some node"
    "np_channelID_md5 node = publish_hash"
    by (simp add: get_Node_def watching_publish_def NPNode_assign_def)
  have watch: "Np2TsReqInterval_wf ?m" "npt_last_send_blockinterval watching_publish \<noteq> ring_interval 2 [[9]]"
    "npt_sent watching_publish = []"
    by (simp_all add: Np2TsReqInterval_wf_def watching_publish_def RsNpTracker_new_def BlockInterval_new_def ring_interval_def)
  have c: "spc_register_flag ?c" "spc_io ?c = Some RsSocket_new" "spc_sp_id ?c = replicate UUID_LENGTH 65" "spc_sent ?c = []"
    by (simp_all add: connected_client_def RsSpTrackerProtocol_new_def)
  have "ring_interval 2 [[9]] = \<lparr>bi_start = 0, bi_size = 1\<rparr>" by (simp add: ring_interval_def)
  then show ?thesis
    using live_window_delivered[of ?c RsSocket_new ?mgr "[(2, [[9]])]" sample_tracker sample_node 65 0 2 "[[9]]" publish_hash ?m
        watching_publish node 21 sample_cenv sample_env NetAddress_new "[]" 0 sample_np_env NetAddress_new "[]"]
      hold eq reg alone node watch c sample_tracker_ok q(1)
    by simp blast
qed

end
