(* ===== verification/Rs_Thread.thy ===== *)
theory Rs_Thread
  imports Prelude
begin

text \<open>
  \<open>core/thread.h\<close> and \<open>core/thread.cpp\<close>: one coroutine per object. Coroutines switch only
  where one sleeps or waits, so what runs between two such points is one step of the model.
  \<open>th_starter\<close> and \<open>th_looper\<close> say where the caller of \<open>start_thread\<close> and the new coroutine
  are; \<open>th_rounds\<close> counts the calls of \<open>loop\<close>. \<open>can_run\<close>, \<open>really_terminated\<close> and
  \<open>disposed\<close> are not set by the constructor.
\<close>

abbreviation ERROR_ST_CREATE_CYCLE_THREAD :: int where "ERROR_ST_CREATE_CYCLE_THREAD \<equiv> 1017"

datatype starter = Not_Started | Waits_Cid | Has_Started

datatype looper = No_Coroutine | Created | Waits_Can_Run | Between_Rounds | Ended

record RsThread =
  th_tid :: bool
  th_cid :: int
  th_loop_flag :: bool
  th_can_run :: bool
  th_really_terminated :: bool
  th_disposed :: bool
  th_starter :: starter
  th_looper :: looper
  th_rounds :: nat

definition RsThread_new :: "bool \<Rightarrow> bool \<Rightarrow> bool \<Rightarrow> RsThread" where
  "RsThread_new junk_can_run junk_terminated junk_disposed = \<lparr>th_tid = False, th_cid = -1, th_loop_flag = False,
     th_can_run = junk_can_run, th_really_terminated = junk_terminated, th_disposed = junk_disposed,
     th_starter = Not_Started, th_looper = No_Coroutine, th_rounds = 0\<rparr>"

text \<open>The test of \<open>while (_cid < 0)\<close> and what follows it.\<close>

definition starter_resumes :: "RsThread \<Rightarrow> RsThread" where
  "starter_resumes t =
     (if th_cid t < 0 then t\<lparr>th_starter := Waits_Cid\<rparr> else t\<lparr>th_can_run := True, th_starter := Has_Started\<rparr>)"

text \<open>\<open>created\<close>: \<open>st_thread_create\<close> returned a coroutine. Up to the first sleep.\<close>

definition start_thread :: "bool \<Rightarrow> RsThread \<Rightarrow> int \<times> RsThread" where
  "start_thread created t =
     (if th_tid t then (0, t)
      else if \<not> created then (ERROR_ST_CREATE_CYCLE_THREAD, t)
      else (0, starter_resumes (t\<lparr>th_tid := True, th_disposed := False, th_loop_flag := True, th_looper := Created\<rparr>)))"

text \<open>\<open>thread_loop\<close>: the test of \<open>while (!can_run \<and> loop_flag)\<close>, and the test of the main loop.\<close>

definition test_loop_flag :: "RsThread \<Rightarrow> RsThread" where
  "test_loop_flag t =
     (if th_loop_flag t then t\<lparr>th_looper := Between_Rounds\<rparr>
      else t\<lparr>th_really_terminated := True, th_looper := Ended\<rparr>)"

definition test_can_run :: "RsThread \<Rightarrow> RsThread" where
  "test_can_run t =
     (if \<not> th_can_run t \<and> th_loop_flag t then t\<lparr>th_looper := Waits_Can_Run\<rparr> else test_loop_flag t)"

definition thread_begins :: "RsThread \<Rightarrow> RsThread" where
  "thread_begins t = test_can_run (t\<lparr>th_cid := 0, th_really_terminated := False\<rparr>)"

section \<open>The classes that inherit from it\<close>

text \<open>
  The virtual functions a class supplies; \<open>'s\<close> is its own state and what else of the program it
  works on. A function returns its code; \<open>loop\<close> also says whether it cleared \<open>loop_flag\<close>.
\<close>

record 's thread_class =
  on_thread_start :: "'s \<Rightarrow> (int \<times> 's) res option"
  on_before_loop :: "'s \<Rightarrow> (int \<times> 's) res option"
  thread_body :: "'s \<Rightarrow> (int \<times> bool \<times> 's) res option"
  on_end_loop :: "'s \<Rightarrow> (int \<times> 's) res option"
  on_thread_stop :: "'s \<Rightarrow> (int \<times> 's) res option"

text \<open>The hook after the last round. The results of this hook and of the first are ignored.\<close>

definition thread_stops :: "'s thread_class \<Rightarrow> RsThread \<Rightarrow> 's \<Rightarrow> (RsThread \<times> 's) res option" where
  "thread_stops cl t s =
     (if th_looper t = Ended then bindO (on_thread_stop cl s) (\<lambda>(_, s). Some (Inr (t, s)))
      else Some (Inr (t, s)))"

definition thread_enters :: "'s thread_class \<Rightarrow> RsThread \<Rightarrow> 's \<Rightarrow> (RsThread \<times> 's) res option" where
  "thread_enters cl t s = bindO (on_thread_start cl s) (\<lambda>(_, s). thread_stops cl (thread_begins t) s)"

text \<open>
  One round: \<open>on_before_loop\<close>, \<open>loop\<close> and \<open>on_end_loop\<close>, a code other than 0 ending the round.
  Whatever the code, the next round follows unless \<open>loop_flag\<close> was cleared.
\<close>

definition thread_round :: "'s thread_class \<Rightarrow> RsThread \<Rightarrow> 's \<Rightarrow> (RsThread \<times> 's) res option" where
  "thread_round cl t s =
     bindO (on_before_loop cl s) (\<lambda>(ret, s).
     bindO (if ret \<noteq> 0 then Some (Inr (False, s))
            else bindO (thread_body cl s) (\<lambda>(ret, stop, s).
              if ret \<noteq> 0 then Some (Inr (stop, s))
              else bindO (on_end_loop cl s) (\<lambda>(_, s). Some (Inr (stop, s))))) (\<lambda>(stop, s).
     thread_stops cl (test_loop_flag (t\<lparr>th_rounds := Suc (th_rounds t), th_loop_flag := th_loop_flag t \<and> \<not> stop\<rparr>)) s))"

text \<open>What the coroutine does when it is resumed, up to the next point where it sleeps.\<close>

definition thread_resumes :: "'s thread_class \<Rightarrow> RsThread \<Rightarrow> 's \<Rightarrow> (RsThread \<times> 's) res option" where
  "thread_resumes cl t s =
     (case th_looper t of
        Created \<Rightarrow> thread_enters cl t s
      | Waits_Can_Run \<Rightarrow> thread_stops cl (test_can_run t) s
      | Between_Rounds \<Rightarrow> thread_round cl t s
      | _ \<Rightarrow> Some (Inr (t, s)))"

text \<open>The four hooks of every class of the program, and a class made of its \<open>loop\<close>.\<close>

definition no_hook :: "'s \<Rightarrow> (int \<times> 's) res option" where
  "no_hook s = Some (Inr (0, s))"

definition loop_class :: "('s \<Rightarrow> (int \<times> bool \<times> 's) res option) \<Rightarrow> 's thread_class" where
  "loop_class body = \<lparr>on_thread_start = no_hook, on_before_loop = no_hook, thread_body = body,
     on_end_loop = no_hook, on_thread_stop = no_hook\<rparr>"

lemma loop_class_round:
  "thread_round (loop_class body) t s = bindO (body s) (\<lambda>(ret, stop, s).
     Some (Inr (test_loop_flag (t\<lparr>th_rounds := Suc (th_rounds t), th_loop_flag := th_loop_flag t \<and> \<not> stop\<rparr>), s)))"
  by (auto simp: thread_round_def thread_stops_def loop_class_def no_hook_def bindO_def split: sum.splits option.splits intro!: ext)

lemma loop_class_enters: "thread_enters (loop_class body) t s = Some (Inr (thread_begins t, s))"
  by (simp add: thread_enters_def thread_stops_def loop_class_def no_hook_def)

text \<open>The rounds of a coroutine, each with the class as its environment is at the time.\<close>

fun run_rounds :: "'s thread_class list \<Rightarrow> RsThread \<Rightarrow> 's \<Rightarrow> (RsThread \<times> 's) res option" where
  "run_rounds [] t s = Some (Inr (t, s))"
| "run_rounds (cl # cls) t s =
     (if th_looper t = Between_Rounds then bindO (thread_round cl t s) (\<lambda>(t, s). run_rounds cls t s)
      else Some (Inr (t, s)))"

section \<open>The two coroutines together\<close>

text \<open>Any interleaving of the caller and the new coroutine.\<close>

inductive thread_step :: "RsThread \<Rightarrow> RsThread \<Rightarrow> bool" where
  starts: "th_starter t = Not_Started \<Longrightarrow> start_thread created t = (ret, t') \<Longrightarrow> thread_step t t'"
| resumes: "th_starter t = Waits_Cid \<Longrightarrow> thread_step t (starter_resumes t)"
| begins: "th_looper t = Created \<Longrightarrow> thread_step t (thread_begins t)"
| polls: "th_looper t = Waits_Can_Run \<Longrightarrow> thread_step t (test_can_run t)"
| rounds: "th_looper t = Between_Rounds \<Longrightarrow> thread_round cl t () = Some (Inr (t', ())) \<Longrightarrow> thread_step t t'"

inductive thread_run :: "RsThread \<Rightarrow> RsThread \<Rightarrow> bool" where
  same: "thread_run t t"
| more: "thread_run t t' \<Longrightarrow> thread_step t' t'' \<Longrightarrow> thread_run t t''"

inductive_cases thread_stepE: "thread_step t t'"

lemmas thread_defs = start_thread_def starter_resumes_def test_loop_flag_def test_can_run_def thread_begins_def

definition started_first :: "RsThread \<Rightarrow> bool" where
  "started_first t \<longleftrightarrow>
     (th_can_run t \<longleftrightarrow> th_starter t = Has_Started) \<and>
     (th_looper t = Between_Rounds \<or> 0 < th_rounds t \<longrightarrow> th_starter t = Has_Started) \<and>
     (th_looper t = Ended \<longrightarrow> \<not> th_loop_flag t) \<and>
     (th_tid t \<longleftrightarrow> th_looper t \<noteq> No_Coroutine) \<and>
     (th_looper t = No_Coroutine \<longrightarrow> th_starter t = Not_Started) \<and> (th_looper t \<noteq> No_Coroutine \<longrightarrow> th_starter t \<noteq> Not_Started) \<and>
     (th_starter t \<noteq> Has_Started \<and> th_tid t \<longrightarrow> th_loop_flag t)"

lemma thread_round_result:
  "thread_round cl t s = Some (Inr (t', s')) \<Longrightarrow>
   \<exists>flag. t' = test_loop_flag (t\<lparr>th_rounds := Suc (th_rounds t), th_loop_flag := flag\<rparr>)"
  by (auto simp: thread_round_def thread_stops_def bindO_Inr split: if_splits)

lemma thread_step_keeps: "thread_step t t' \<Longrightarrow> started_first t \<Longrightarrow> started_first t'"
  by (erule thread_stepE)
    (auto simp: started_first_def start_thread_def starter_resumes_def test_loop_flag_def test_can_run_def
      thread_begins_def split: if_splits dest!: thread_round_result)

lemma thread_run_keeps: "thread_run t t' \<Longrightarrow> started_first t \<Longrightarrow> started_first t'"
  by (induction rule: thread_run.induct) (auto intro: thread_step_keeps)

text \<open>
  The object waits until it may run: if the memory of \<open>can_run\<close> happens to be false when
  the object is made, then in every interleaving no round of its loop comes before
  \<open>start_thread\<close> has returned to the caller. If it happens to be true, a round may come while
  the caller still waits.
\<close>

theorem loop_waits_for_start:
  "(\<forall>t. thread_run (RsThread_new False junk_terminated junk_disposed) t \<longrightarrow> 0 < th_rounds t \<longrightarrow> th_starter t = Has_Started) \<and>
   (\<exists>t. thread_run (RsThread_new True junk_terminated junk_disposed) t \<and> 0 < th_rounds t \<and> th_starter t = Waits_Cid)"
proof (intro conjI allI impI)
  fix t
  assume "thread_run (RsThread_new False junk_terminated junk_disposed) t" "0 < th_rounds t"
  moreover have "started_first (RsThread_new False junk_terminated junk_disposed)"
    by (simp add: started_first_def RsThread_new_def)
  ultimately show "th_starter t = Has_Started" using thread_run_keeps by (auto simp: started_first_def)
next
  let ?t0 = "RsThread_new True junk_terminated junk_disposed"
  let ?t1 = "snd (start_thread True ?t0)"
  let ?t2 = "thread_begins ?t1"
  obtain t3 where t3: "thread_round (loop_class (\<lambda>s. Some (Inr (0, False, s)))) ?t2 () = Some (Inr (t3, ()))" "0 < th_rounds t3" "th_starter t3 = Waits_Cid"
    by (simp add: loop_class_round thread_defs RsThread_new_def Let_def)
  have "thread_step ?t0 ?t1" by (rule thread_step.starts[of _ True 0]) (simp_all add: RsThread_new_def start_thread_def)
  moreover have "thread_step ?t1 ?t2" by (rule thread_step.begins) (simp add: RsThread_new_def thread_defs)
  moreover have "thread_step ?t2 t3"
    by (rule thread_step.rounds[OF _ t3(1)]) (simp add: RsThread_new_def thread_defs)
  ultimately have "thread_run ?t0 t3" by (meson thread_run.intros)
  then show "\<exists>t. thread_run ?t0 t \<and> 0 < th_rounds t \<and> th_starter t = Waits_Cid" using t3 by blast
qed

text \<open>The usual order: the caller starts the coroutine, it polls, the caller goes on, a round comes.\<close>

lemma loop_waits_for_start_witness:
  "\<exists>t. thread_run (RsThread_new False False False) t \<and> 0 < th_rounds t \<and> th_starter t = Has_Started"
proof -
  let ?t0 = "RsThread_new False False False"
  let ?t1 = "snd (start_thread True ?t0)"
  let ?t2 = "thread_begins ?t1"
  let ?t3 = "starter_resumes ?t2"
  let ?t4 = "test_can_run ?t3"
  obtain t5 where t5: "thread_round (loop_class (\<lambda>s. Some (Inr (0, False, s)))) ?t4 () = Some (Inr (t5, ()))" "0 < th_rounds t5"
    by (simp add: loop_class_round thread_defs RsThread_new_def Let_def)
  have "thread_step ?t0 ?t1" by (rule thread_step.starts[of _ True 0]) (simp_all add: RsThread_new_def start_thread_def)
  moreover have "thread_step ?t1 ?t2" by (rule thread_step.begins) (simp add: RsThread_new_def thread_defs)
  moreover have "thread_step ?t2 ?t3" by (rule thread_step.resumes) (simp add: RsThread_new_def thread_defs)
  moreover have "thread_step ?t3 ?t4" by (rule thread_step.polls) (simp add: RsThread_new_def thread_defs)
  moreover have "thread_step ?t4 t5" by (rule thread_step.rounds[OF _ t5(1)]) (simp add: RsThread_new_def thread_defs)
  ultimately have "thread_run ?t0 t5" by (meson thread_run.intros)
  then show ?thesis using loop_waits_for_start[of False False] t5(2) by blast
qed

end
