(* ===== verification/Listeners.thy ===== *)
theory Listeners
  imports Rs_Thread Rs_Socket Core_Struct
begin

text \<open>
  \<open>core/socket_connect.cpp\<close>, \<open>core/tcp_listener.h\<close>, \<open>.cpp\<close> and \<open>core/udp_listener.h\<close>,
  \<open>.cpp\<close>. What the system calls return is an argument, the record \<open>sys_calls\<close>; the handlers
  behind the interfaces of \<open>core/socket_handler.h\<close> are parameters.
\<close>

abbreviation ERROR_SOCKET_CREATE :: int where "ERROR_SOCKET_CREATE \<equiv> 1000"
abbreviation ERROR_SOCKET_SETREUSE :: int where "ERROR_SOCKET_SETREUSE \<equiv> 1001"
abbreviation ERROR_SOCKET_BIND :: int where "ERROR_SOCKET_BIND \<equiv> 1002"
abbreviation ERROR_SOCKET_LISTEN :: int where "ERROR_SOCKET_LISTEN \<equiv> 1003"
abbreviation ERROR_ST_OPEN_SOCKET :: int where "ERROR_ST_OPEN_SOCKET \<equiv> 1015"
abbreviation ERROR_ST_CONNECT :: int where "ERROR_ST_CONNECT \<equiv> 1018"

text \<open>\<open>sy_opened\<close>, \<open>sy_created\<close>: the library returned an object, not null.\<close>

record sys_calls =
  sy_socket :: int
  sy_setsockopt :: int
  sy_bind :: int
  sy_listen :: int
  sy_connect :: int
  sy_opened :: bool
  sy_created :: bool

text \<open>
  The code, whether \<open>*pstfd\<close> is set, and whether a descriptor is open afterwards. Closing
  the object of the library closes the descriptor.
\<close>

definition socket_connect :: "sys_calls \<Rightarrow> int \<times> bool \<times> bool" where
  "socket_connect sys =
     (if sy_socket sys = -1 then (ERROR_SOCKET_CREATE, False, False)
      else if \<not> sy_opened sys then (ERROR_ST_OPEN_SOCKET, False, True)
      else if sy_connect sys = -1 then (ERROR_ST_CONNECT, False, False)
      else (0, True, True))"

section \<open>The TCP listener\<close>

record RsTcpListener =
  tl_thread :: RsThread
  tl_socket_fd :: "int option"
  tl_opened :: bool

definition RsTcpListener_new :: "RsThread \<Rightarrow> RsTcpListener" where
  "RsTcpListener_new thread = \<lparr>tl_thread = thread, tl_socket_fd = None, tl_opened = False\<rparr>"

text \<open>The result of \<open>start_thread\<close> is ignored.\<close>

definition tcp_start_listen :: "sys_calls \<Rightarrow> RsTcpListener \<Rightarrow> int \<times> RsTcpListener" where
  "tcp_start_listen sys l =
     (let l = l\<lparr>tl_socket_fd := Some (sy_socket sys)\<rparr>
      in if sy_socket sys = -1 then (ERROR_SOCKET_CREATE, l)
         else if sy_setsockopt sys = -1 then (ERROR_SOCKET_SETREUSE, l)
         else if sy_bind sys = -1 then (ERROR_SOCKET_BIND, l)
         else if sy_listen sys = -1 then (ERROR_SOCKET_LISTEN, l)
         else
           let l = l\<lparr>tl_opened := sy_opened sys\<rparr>
           in if \<not> sy_opened sys then (ERROR_ST_OPEN_SOCKET, l)
              else (0, l\<lparr>tl_thread := snd (start_thread (sy_created sys) (tl_thread l))\<rparr>))"

text \<open>One round: \<open>accepted\<close> is what \<open>st_accept\<close> returns.\<close>

definition tcp_loop :: "('fd \<Rightarrow> 's \<Rightarrow> (int \<times> 's) res) \<Rightarrow> 'fd option \<Rightarrow> 's \<Rightarrow> (int \<times> 's) res" where
  "tcp_loop handle_tcp_connect accepted s =
     (case accepted of None \<Rightarrow> Inr (0, s)
      | Some client_stfd \<Rightarrow> handle_tcp_connect client_stfd s)"

section \<open>The UDP listener\<close>

abbreviation UDP_RECEIVE_BUFFER_SIZE :: nat where "UDP_RECEIVE_BUFFER_SIZE \<equiv> 65535"

record RsUdpListener =
  ul_thread :: RsThread
  ul_socket_fd :: "int option"
  ul_opened :: bool
  ul_recv_buffer :: bytes
  ul_buffer_size :: int

definition RsUdpListener_new :: "RsThread \<Rightarrow> (nat \<Rightarrow> u8) \<Rightarrow> RsUdpListener" where
  "RsUdpListener_new thread junk = \<lparr>ul_thread = thread, ul_socket_fd = None, ul_opened = False,
     ul_recv_buffer = map junk [0..<UDP_RECEIVE_BUFFER_SIZE], ul_buffer_size = int UDP_RECEIVE_BUFFER_SIZE\<rparr>"

definition udp_start_listen :: "sys_calls \<Rightarrow> RsUdpListener \<Rightarrow> int \<times> RsUdpListener" where
  "udp_start_listen sys l =
     (let l = l\<lparr>ul_socket_fd := Some (sy_socket sys)\<rparr>
      in if sy_socket sys = -1 then (ERROR_SOCKET_CREATE, l)
         else if sy_setsockopt sys \<noteq> 0 then (ERROR_SOCKET_SETREUSE, l)
         else if sy_bind sys = -1 then (ERROR_SOCKET_BIND, l)
         else
           let l = l\<lparr>ul_opened := sy_opened sys\<rparr>
           in if \<not> sy_opened sys then (ERROR_ST_OPEN_SOCKET, l)
              else (0, l\<lparr>ul_thread := snd (start_thread (sy_created sys) (ul_thread l))\<rparr>))"

text \<open>
  One round; \<open>None\<close> when \<open>st_recvfrom\<close> fails. The handler sees the whole buffer, behind the
  datagram what was there before. \<open>ret = handle(...) != ERROR_SUCCESS\<close> assigns the comparison.
\<close>

definition udp_loop :: "(NetAddress \<Rightarrow> bytes \<Rightarrow> int \<Rightarrow> 's \<Rightarrow> (int \<times> 's) res option) \<Rightarrow> (NetAddress \<times> bytes) option \<Rightarrow>
    RsUdpListener \<Rightarrow> 's \<Rightarrow> (int \<times> RsUdpListener \<times> 's) res option" where
  "udp_loop handle_udp_packet datagram l s =
     (case datagram of None \<Rightarrow> Some (Inr (0, l, s))
      | Some (addr, bs) \<Rightarrow>
          let bs = take (nat (ul_buffer_size l)) bs
          in if bs = [] then Some (Inr (0, l, s))
             else
               bindO (Some (guardE Out_Of_Bounds (length bs \<le> length (ul_recv_buffer l)))) (\<lambda>_.
               let l = l\<lparr>ul_recv_buffer := bs @ drop (length bs) (ul_recv_buffer l)\<rparr>
               in bindO (handle_udp_packet addr (ul_recv_buffer l) (int (length bs)) s) (\<lambda>(code, s).
                  let ret = (if code \<noteq> 0 then 1 else 0)
                  in Some (Inr (ret, l, s)))))"

definition udp_ok :: "RsUdpListener \<Rightarrow> bool" where
  "udp_ok l \<longleftrightarrow> ul_buffer_size l = int UDP_RECEIVE_BUFFER_SIZE \<and> length (ul_recv_buffer l) = UDP_RECEIVE_BUFFER_SIZE"

text \<open>A datagram is handed to the handler whole, and the listener itself never faults.\<close>

lemma udp_loop_handles:
  assumes "udp_ok l" "length bs \<le> UDP_RECEIVE_BUFFER_SIZE" "bs \<noteq> []"
  shows "\<exists>l' rest. udp_ok l' \<and> udp_loop handle (Some (addr, bs)) l s =
      bindO (handle addr (bs @ rest) (int (length bs)) s) (\<lambda>(code, s). Some (Inr (if code \<noteq> 0 then 1 else 0, l', s)))"
proof -
  let ?rest = "drop (length bs) (ul_recv_buffer l)"
  let ?l = "l\<lparr>ul_recv_buffer := bs @ ?rest\<rparr>"
  have "udp_ok ?l" using assms by (simp add: udp_ok_def)
  moreover have "udp_loop handle (Some (addr, bs)) l s =
      bindO (handle addr (bs @ ?rest) (int (length bs)) s) (\<lambda>(code, s). Some (Inr (if code \<noteq> 0 then 1 else 0, ?l, s)))"
    using assms by (simp add: udp_loop_def udp_ok_def Let_def case_prod_unfold)
  ultimately show ?thesis by blast
qed

lemma udp_loop_keeps:
  assumes "udp_ok l" "udp_loop handle datagram l s = Some (Inr (ret, l', s'))"
  shows "udp_ok l' \<and> (s' = s \<or> (\<exists>addr buf n code. handle addr buf n s = Some (Inr (code, s'))))"
  using assms
  by (auto simp: udp_loop_def udp_ok_def Let_def bindO_Inr guardE_eq_Inr split: option.splits if_splits)

end
