(* ===== verification/Md5.thy ===== *)
theory Md5
  imports C_String
begin

text \<open>
  \<open>third_party/md5/md5.h\<close> and \<open>md5.cpp\<close>: the class \<open>MD5\<close>, with which a super peer makes the
  hash of a channel from its name. An object collects the message in blocks of 64 bytes and
  keeps the bytes that do not fill a block in \<open>buffer\<close>. A pointer into an array is the array
  and an index; the contents of \<open>buffer\<close> and \<open>digest\<close> that the constructor leaves alone are
  arguments (\<open>junk\<close>).
\<close>

unbundle bit_operations_syntax

section \<open>Words and bytes\<close>

text \<open>\<open>memcpy\<close> of the class: a loop over the bytes, from \<open>src + j\<close> to \<open>dst + i\<close>.\<close>

fun md5_memcpy :: "nat \<Rightarrow> bytes \<Rightarrow> nat \<Rightarrow> bytes \<Rightarrow> nat \<Rightarrow> bytes res" where
  "md5_memcpy 0 dst i src j = Inr dst"
| "md5_memcpy (Suc n) dst i src j =
     bindE (guardE Out_Of_Bounds (i < length dst \<and> j < length src)) (\<lambda>_.
     md5_memcpy n (dst[i := src ! j]) (Suc i) src (Suc j))"

fun md5_memset :: "nat \<Rightarrow> bytes \<Rightarrow> nat \<Rightarrow> u8 \<Rightarrow> bytes res" where
  "md5_memset 0 dst i val = Inr dst"
| "md5_memset (Suc n) dst i val =
     bindE (guardE Out_Of_Bounds (i < length dst)) (\<lambda>_. md5_memset n (dst[i := val]) (Suc i) val)"

text \<open>\<open>len\<close> is the length in bytes, a multiple of 4.\<close>

definition md5_encode :: "u32 list \<Rightarrow> nat \<Rightarrow> bytes" where
  "md5_encode input len = concat (map (\<lambda>i.
     [ucast (input ! i AND 0xff), ucast (drop_bit 8 (input ! i) AND 0xff),
      ucast (drop_bit 16 (input ! i) AND 0xff), ucast (drop_bit 24 (input ! i) AND 0xff)]) [0..<len div 4])"

definition md5_decode :: "bytes \<Rightarrow> nat \<Rightarrow> nat \<Rightarrow> u32 list" where
  "md5_decode input p len = map (\<lambda>i. let j = p + 4 * i in
     ucast (input ! j) OR push_bit 8 (ucast (input ! (j + 1))) OR
     push_bit 16 (ucast (input ! (j + 2))) OR push_bit 24 (ucast (input ! (j + 3)))) [0..<len div 4]"

section \<open>The basic transformation\<close>

definition rotate_left :: "u32 \<Rightarrow> nat \<Rightarrow> u32" where
  "rotate_left x n = push_bit n x OR drop_bit (32 - n) x"

definition md5_F :: "u32 \<Rightarrow> u32 \<Rightarrow> u32 \<Rightarrow> u32" where
  "md5_F x y z = (x AND y) OR (NOT x AND z)"

definition md5_G :: "u32 \<Rightarrow> u32 \<Rightarrow> u32 \<Rightarrow> u32" where
  "md5_G x y z = (x AND z) OR (y AND NOT z)"

definition md5_H :: "u32 \<Rightarrow> u32 \<Rightarrow> u32 \<Rightarrow> u32" where
  "md5_H x y z = x XOR y XOR z"

definition md5_I :: "u32 \<Rightarrow> u32 \<Rightarrow> u32 \<Rightarrow> u32" where
  "md5_I x y z = y XOR (x OR NOT z)"

text \<open>The four steps return the new value of their first argument, a reference in the code.\<close>

definition md5_FF :: "u32 \<Rightarrow> u32 \<Rightarrow> u32 \<Rightarrow> u32 \<Rightarrow> u32 \<Rightarrow> nat \<Rightarrow> u32 \<Rightarrow> u32" where
  "md5_FF a b c d x s ac = (let a = a + (md5_F b c d + x + ac) in rotate_left a s + b)"

definition md5_GG :: "u32 \<Rightarrow> u32 \<Rightarrow> u32 \<Rightarrow> u32 \<Rightarrow> u32 \<Rightarrow> nat \<Rightarrow> u32 \<Rightarrow> u32" where
  "md5_GG a b c d x s ac = (let a = a + (md5_G b c d + x + ac) in rotate_left a s + b)"

definition md5_HH :: "u32 \<Rightarrow> u32 \<Rightarrow> u32 \<Rightarrow> u32 \<Rightarrow> u32 \<Rightarrow> nat \<Rightarrow> u32 \<Rightarrow> u32" where
  "md5_HH a b c d x s ac = (let a = a + (md5_H b c d + x + ac) in rotate_left a s + b)"

definition md5_II :: "u32 \<Rightarrow> u32 \<Rightarrow> u32 \<Rightarrow> u32 \<Rightarrow> u32 \<Rightarrow> nat \<Rightarrow> u32 \<Rightarrow> u32" where
  "md5_II a b c d x s ac = (let a = a + (md5_I b c d + x + ac) in rotate_left a s + b)"

record MD5 =
  md_state :: "u32 list"
  md_count :: "u32 list"
  md_buffer :: bytes
  md_digest :: bytes
  md_finalized :: bool

text \<open>The 64 calls, in the order of the code, on the 64 bytes at \<open>block + p\<close>.\<close>

definition md5_steps :: "u32 list \<Rightarrow> u32 list \<Rightarrow> u32 list" where
  "md5_steps state x =
     (let a = state ! 0; b = state ! 1; c = state ! 2; d = state ! 3;
          a = md5_FF a b c d (x ! 0) 7 0xd76aa478;
          d = md5_FF d a b c (x ! 1) 12 0xe8c7b756;
          c = md5_FF c d a b (x ! 2) 17 0x242070db;
          b = md5_FF b c d a (x ! 3) 22 0xc1bdceee;
          a = md5_FF a b c d (x ! 4) 7 0xf57c0faf;
          d = md5_FF d a b c (x ! 5) 12 0x4787c62a;
          c = md5_FF c d a b (x ! 6) 17 0xa8304613;
          b = md5_FF b c d a (x ! 7) 22 0xfd469501;
          a = md5_FF a b c d (x ! 8) 7 0x698098d8;
          d = md5_FF d a b c (x ! 9) 12 0x8b44f7af;
          c = md5_FF c d a b (x ! 10) 17 0xffff5bb1;
          b = md5_FF b c d a (x ! 11) 22 0x895cd7be;
          a = md5_FF a b c d (x ! 12) 7 0x6b901122;
          d = md5_FF d a b c (x ! 13) 12 0xfd987193;
          c = md5_FF c d a b (x ! 14) 17 0xa679438e;
          b = md5_FF b c d a (x ! 15) 22 0x49b40821;
          a = md5_GG a b c d (x ! 1) 5 0xf61e2562;
          d = md5_GG d a b c (x ! 6) 9 0xc040b340;
          c = md5_GG c d a b (x ! 11) 14 0x265e5a51;
          b = md5_GG b c d a (x ! 0) 20 0xe9b6c7aa;
          a = md5_GG a b c d (x ! 5) 5 0xd62f105d;
          d = md5_GG d a b c (x ! 10) 9 0x2441453;
          c = md5_GG c d a b (x ! 15) 14 0xd8a1e681;
          b = md5_GG b c d a (x ! 4) 20 0xe7d3fbc8;
          a = md5_GG a b c d (x ! 9) 5 0x21e1cde6;
          d = md5_GG d a b c (x ! 14) 9 0xc33707d6;
          c = md5_GG c d a b (x ! 3) 14 0xf4d50d87;
          b = md5_GG b c d a (x ! 8) 20 0x455a14ed;
          a = md5_GG a b c d (x ! 13) 5 0xa9e3e905;
          d = md5_GG d a b c (x ! 2) 9 0xfcefa3f8;
          c = md5_GG c d a b (x ! 7) 14 0x676f02d9;
          b = md5_GG b c d a (x ! 12) 20 0x8d2a4c8a;
          a = md5_HH a b c d (x ! 5) 4 0xfffa3942;
          d = md5_HH d a b c (x ! 8) 11 0x8771f681;
          c = md5_HH c d a b (x ! 11) 16 0x6d9d6122;
          b = md5_HH b c d a (x ! 14) 23 0xfde5380c;
          a = md5_HH a b c d (x ! 1) 4 0xa4beea44;
          d = md5_HH d a b c (x ! 4) 11 0x4bdecfa9;
          c = md5_HH c d a b (x ! 7) 16 0xf6bb4b60;
          b = md5_HH b c d a (x ! 10) 23 0xbebfbc70;
          a = md5_HH a b c d (x ! 13) 4 0x289b7ec6;
          d = md5_HH d a b c (x ! 0) 11 0xeaa127fa;
          c = md5_HH c d a b (x ! 3) 16 0xd4ef3085;
          b = md5_HH b c d a (x ! 6) 23 0x4881d05;
          a = md5_HH a b c d (x ! 9) 4 0xd9d4d039;
          d = md5_HH d a b c (x ! 12) 11 0xe6db99e5;
          c = md5_HH c d a b (x ! 15) 16 0x1fa27cf8;
          b = md5_HH b c d a (x ! 2) 23 0xc4ac5665;
          a = md5_II a b c d (x ! 0) 6 0xf4292244;
          d = md5_II d a b c (x ! 7) 10 0x432aff97;
          c = md5_II c d a b (x ! 14) 15 0xab9423a7;
          b = md5_II b c d a (x ! 5) 21 0xfc93a039;
          a = md5_II a b c d (x ! 12) 6 0x655b59c3;
          d = md5_II d a b c (x ! 3) 10 0x8f0ccc92;
          c = md5_II c d a b (x ! 10) 15 0xffeff47d;
          b = md5_II b c d a (x ! 1) 21 0x85845dd1;
          a = md5_II a b c d (x ! 8) 6 0x6fa87e4f;
          d = md5_II d a b c (x ! 15) 10 0xfe2ce6e0;
          c = md5_II c d a b (x ! 6) 15 0xa3014314;
          b = md5_II b c d a (x ! 13) 21 0x4e0811a1;
          a = md5_II a b c d (x ! 4) 6 0xf7537e82;
          d = md5_II d a b c (x ! 11) 10 0xbd3af235;
          c = md5_II c d a b (x ! 2) 15 0x2ad7d2bb;
          b = md5_II b c d a (x ! 9) 21 0xeb86d391
      in [state ! 0 + a, state ! 1 + b, state ! 2 + c, state ! 3 + d])"

definition md5_transform :: "bytes \<Rightarrow> nat \<Rightarrow> MD5 \<Rightarrow> MD5 res" where
  "md5_transform block p m =
     bindE (guardE Out_Of_Bounds (p + 64 \<le> length block)) (\<lambda>_.
     let x = md5_decode block p 64 in Inr (m\<lparr>md_state := md5_steps (md_state m) x\<rparr>))"

section \<open>The operations\<close>

definition md5_init :: "MD5 \<Rightarrow> MD5" where
  "md5_init m = m\<lparr>md_finalized := False, md_count := [0, 0],
     md_state := [0x67452301, 0xefcdab89, 0x98badcfe, 0x10325476]\<rparr>"

definition MD5_new :: "(nat \<Rightarrow> u8) \<Rightarrow> (nat \<Rightarrow> u8) \<Rightarrow> MD5" where
  "MD5_new junk_buffer junk_digest = md5_init
     \<lparr>md_state = [], md_count = [], md_buffer = map junk_buffer [0..<64], md_digest = map junk_digest [0..<16],
      md_finalized = False\<rparr>"

text \<open>
  The loop over the blocks of the input: \<open>input_index + 63 < input_length\<close> is computed in 32
  bits. \<open>None\<close>: the loop does not end.
\<close>

partial_function (option) md5_blocks :: "bytes \<Rightarrow> u32 \<Rightarrow> u32 \<Rightarrow> MD5 \<Rightarrow> (u32 \<times> MD5) res option" where
  "md5_blocks input input_length input_index m =
     (if input_index + 63 < input_length then
        (case md5_transform input (unat input_index) m of
           Inl e \<Rightarrow> Some (Inl e)
         | Inr m \<Rightarrow> md5_blocks input input_length (input_index + 64) m)
      else Some (Inr (input_index, m)))"

definition md5_update :: "bytes \<Rightarrow> u32 \<Rightarrow> MD5 \<Rightarrow> MD5 res option" where
  "md5_update input input_length m =
     (if md_finalized m then Some (Inr m)
      else
        let buffer_index = drop_bit 3 (md_count m ! 0) AND 0x3F;
            count0 = md_count m ! 0 + push_bit 3 input_length;
            count1 = (if count0 < push_bit 3 input_length then md_count m ! 1 + 1 else md_count m ! 1);
            count1 = count1 + drop_bit 29 input_length;
            m = m\<lparr>md_count := [count0, count1]\<rparr>;
            buffer_space = 64 - buffer_index
        in
          bindO
            (if input_length \<ge> buffer_space then
               bindO (Some (md5_memcpy (unat buffer_space) (md_buffer m) (unat buffer_index) input 0)) (\<lambda>buf.
               let m = m\<lparr>md_buffer := buf\<rparr> in
               bindO (Some (md5_transform (md_buffer m) 0 m)) (\<lambda>m.
               bindO (md5_blocks input input_length buffer_space m) (\<lambda>(input_index, m).
               Some (Inr (input_index, 0, m)))))
             else Some (Inr (0, buffer_index, m)))
            (\<lambda>(input_index, buffer_index, m).
             bindO (Some (md5_memcpy (unat (input_length - input_index)) (md_buffer m) (unat buffer_index)
                            input (unat input_index))) (\<lambda>buf.
             Some (Inr (m\<lparr>md_buffer := buf\<rparr>)))))"

text \<open>
  \<open>update\<close> of a file: \<open>reads\<close> is what the successive calls of \<open>fread\<close> put into the array of
  1024 bytes; the first call that reads nothing ends the loop.
\<close>

fun md5_update_file :: "bytes list \<Rightarrow> MD5 \<Rightarrow> MD5 res option" where
  "md5_update_file [] m = Some (Inr m)"
| "md5_update_file (bs # reads) m =
     (if bs = [] then Some (Inr m)
      else bindO (md5_update bs (word_of_nat (length bs)) m) (md5_update_file reads))"

definition md5_PADDING :: bytes where
  "md5_PADDING = 0x80 # replicate 63 0"

text \<open>Of the buffer \<open>sizeof(*buffer)\<close> bytes are cleared: one.\<close>

definition md5_finalize :: "MD5 \<Rightarrow> MD5 res option" where
  "md5_finalize m =
     (if md_finalized m then Some (Inr m)
      else
        let bits = md5_encode (md_count m) 8;
            index = drop_bit 3 (md_count m ! 0) AND 0x3f;
            padLen = (if index < 56 then 56 - index else 120 - index)
        in bindO (md5_update md5_PADDING padLen m) (\<lambda>m.
           bindO (md5_update bits 8 m) (\<lambda>m.
           let m = m\<lparr>md_digest := md5_encode (md_state m) 16\<rparr> in
           bindO (Some (md5_memset 1 (md_buffer m) 0 0)) (\<lambda>buf.
           Some (Inr (m\<lparr>md_buffer := buf, md_finalized := True\<rparr>))))))"

text \<open>\<open>MD5(string, len)\<close> and \<open>MD5(file)\<close>.\<close>

definition MD5_of_string :: "(nat \<Rightarrow> u8) \<Rightarrow> (nat \<Rightarrow> u8) \<Rightarrow> bytes \<Rightarrow> u32 \<Rightarrow> MD5 res option" where
  "MD5_of_string junk_buffer junk_digest string len =
     bindO (md5_update string len (MD5_new junk_buffer junk_digest)) md5_finalize"

definition MD5_of_file :: "(nat \<Rightarrow> u8) \<Rightarrow> (nat \<Rightarrow> u8) \<Rightarrow> bytes list \<Rightarrow> MD5 res option" where
  "MD5_of_file junk_buffer junk_digest reads =
     bindO (md5_update_file reads (MD5_new junk_buffer junk_digest)) md5_finalize"

text \<open>The memory behind the pointer returned: an empty string when there is no digest yet.\<close>

definition raw_digest :: "MD5 \<Rightarrow> bytes" where
  "raw_digest m = (if \<not> md_finalized m then [0] else map (\<lambda>i. md_digest m ! i) [0..<16])"

definition hex_digest :: "MD5 \<Rightarrow> bytes" where
  "hex_digest m = (if \<not> md_finalized m then [0]
     else concat (map (\<lambda>i. format_0x 2 (unat (md_digest m ! i))) [0..<16]) @ [0])"

end
