(* ===== verification/Md5_Spec.thy ===== *)
theory Md5_Spec
  imports Md5
begin

text \<open>
  The message digest as RFC 1321 states it, and the parts of the code that compute the same:
  the bytes of words, the rotation, and the 64 unrolled steps.
\<close>

section \<open>The specification\<close>

text \<open>Step \<open>i\<close>: its function, the word it reads, its shift and its constant.\<close>

definition md5_f :: "nat \<Rightarrow> u32 \<Rightarrow> u32 \<Rightarrow> u32 \<Rightarrow> u32" where
  "md5_f i = [md5_F, md5_G, md5_H, md5_I] ! (i div 16)"

definition md5_k :: "nat \<Rightarrow> nat" where
  "md5_k i = [i, 5 * i + 1, 3 * i + 5, 7 * i] ! (i div 16) mod 16"

definition md5_s :: "nat \<Rightarrow> nat" where
  "md5_s i = [7, 12, 17, 22, 5, 9, 14, 20, 4, 11, 16, 23, 6, 10, 15, 21] ! (4 * (i div 16) + i mod 4)"

definition md5_T :: "u32 list" where
  "md5_T = [0xd76aa478, 0xe8c7b756, 0x242070db, 0xc1bdceee, 0xf57c0faf, 0x4787c62a,
     0xa8304613, 0xfd469501, 0x698098d8, 0x8b44f7af, 0xffff5bb1, 0x895cd7be,
     0x6b901122, 0xfd987193, 0xa679438e, 0x49b40821, 0xf61e2562, 0xc040b340,
     0x265e5a51, 0xe9b6c7aa, 0xd62f105d, 0x2441453, 0xd8a1e681, 0xe7d3fbc8,
     0x21e1cde6, 0xc33707d6, 0xf4d50d87, 0x455a14ed, 0xa9e3e905, 0xfcefa3f8,
     0x676f02d9, 0x8d2a4c8a, 0xfffa3942, 0x8771f681, 0x6d9d6122, 0xfde5380c,
     0xa4beea44, 0x4bdecfa9, 0xf6bb4b60, 0xbebfbc70, 0x289b7ec6, 0xeaa127fa,
     0xd4ef3085, 0x4881d05, 0xd9d4d039, 0xe6db99e5, 0x1fa27cf8, 0xc4ac5665,
     0xf4292244, 0x432aff97, 0xab9423a7, 0xfc93a039, 0x655b59c3, 0x8f0ccc92,
     0xffeff47d, 0x85845dd1, 0x6fa87e4f, 0xfe2ce6e0, 0xa3014314, 0x4e0811a1,
     0xf7537e82, 0xbd3af235, 0x2ad7d2bb, 0xeb86d391]"

definition md5_val :: "u32 list \<Rightarrow> nat \<Rightarrow> u32 \<Rightarrow> u32 \<Rightarrow> u32 \<Rightarrow> u32 \<Rightarrow> u32" where
  "md5_val x i a b c d = b + word_rotl (md5_s i) (a + md5_f i b c d + x ! md5_k i + md5_T ! i)"

definition md5_round :: "u32 list \<Rightarrow> nat \<Rightarrow> u32 \<times> u32 \<times> u32 \<times> u32 \<Rightarrow> u32 \<times> u32 \<times> u32 \<times> u32" where
  "md5_round x i = (\<lambda>(a, b, c, d). (d, md5_val x i a b c d, b, c))"

definition block_words :: "bytes \<Rightarrow> u32 list" where
  "block_words block = map (\<lambda>i. dec (take 4 (drop (4 * i) block))) [0..<16]"

definition add_state :: "u32 list \<Rightarrow> u32 \<times> u32 \<times> u32 \<times> u32 \<Rightarrow> u32 list" where
  "add_state state = (\<lambda>(a, b, c, d). [state ! 0 + a, state ! 1 + b, state ! 2 + c, state ! 3 + d])"

definition md5_compress :: "bytes \<Rightarrow> u32 list \<Rightarrow> u32 list" where
  "md5_compress block state =
     add_state state (fold (md5_round (block_words block)) [0..<64] (state ! 0, state ! 1, state ! 2, state ! 3))"

section \<open>Words and bytes\<close>

lemma rotate_left_rotl: "0 < n \<Longrightarrow> n < 32 \<Longrightarrow> rotate_left x n = word_rotl n x"
proof (rule bit_word_eqI)
  fix k
  assume n: "0 < n" "n < 32" and "k < LENGTH(32)"
  then have "(k + (32 - n)) mod 32 = (if k < n then 32 - n + k else k - n)" by (auto simp: mod_if)
  then show "bit (rotate_left x n) k \<longleftrightarrow> bit (word_rotl n x) k"
    using n \<open>k < LENGTH(32)\<close> by (auto simp: rotate_left_def bit_simps bit_word_rotl_iff dest: bit_imp_le_length)
qed

lemmas md5_tables = md5_f_def md5_k_def md5_s_def md5_T_def

lemma md5_steps_vals:
  "md5_FF a b c d y s t = b + rotate_left (a + (md5_F b c d + y + t)) s"
  "md5_GG a b c d y s t = b + rotate_left (a + (md5_G b c d + y + t)) s"
  "md5_HH a b c d y s t = b + rotate_left (a + (md5_H b c d + y + t)) s"
  "md5_II a b c d y s t = b + rotate_left (a + (md5_I b c d + y + t)) s"
  by (simp_all add: md5_FF_def md5_GG_def md5_HH_def md5_II_def Let_def add.commute)

lemma md5_s_range: "i < 64 \<Longrightarrow> 0 < md5_s i \<and> md5_s i < 32"
proof -
  let ?l = "[7, 12, 17, 22, 5, 9, 14, 20, 4, 11, 16, 23, 6, 10, 15, 21 :: nat]"
  assume "i < 64"
  then have "i div 16 < 4" by (intro less_mult_imp_div_less) simp
  moreover have "i mod 4 < 4" by simp
  ultimately have "4 * (i div 16) + i mod 4 < 16" by linarith
  then have "4 * (i div 16) + i mod 4 < length ?l" by simp
  then have "md5_s i \<in> set ?l" unfolding md5_s_def by (rule nth_mem)
  then show ?thesis by auto
qed

lemma md5_val_rotate:
  "i < 64 \<Longrightarrow> md5_val x i a b c d = b + rotate_left (a + (md5_f i b c d + x ! md5_k i + md5_T ! i)) (md5_s i)"
  using md5_s_range[of i] by (simp add: md5_val_def rotate_left_rotl add.assoc)

lemma fold_round:
  "add_state s (fold (md5_round x) (i # is) (a, b, c, d)) =
   (let y = md5_val x i a b c d in add_state s (fold (md5_round x) is (d, y, b, c)))"
  by (simp add: md5_round_def)

lemma upto64: "[0..<64] = [0,1,2,3,4,5,6,7,8,9,10,11,12,13,14,15,16,17,18,19,20,21,22,23,24,25,26,27,28,29,30,31,
   32,33,34,35,36,37,38,39,40,41,42,43,44,45,46,47,48,49,50,51,52,53,54,55,56,57,58,59,60,61,62,63::nat]"
  by (simp add: upt_rec)

text \<open>A \<open>let\<close> that the simplifier leaves alone: inlining 64 of them would not end.\<close>

definition opaque_let :: "'a \<Rightarrow> ('a \<Rightarrow> 'b) \<Rightarrow> 'b" where
  "opaque_let = Let"

lemma Let_opaque: "Let = opaque_let"
  by (simp add: opaque_let_def)

lemma md5_steps_rounds:
  "md5_steps s x = add_state s (fold (md5_round x) [0..<64] (s ! 0, s ! 1, s ! 2, s ! 3))"
proof -
  have "md5_steps s x = (let a = s ! 0; b = s ! 1; c = s ! 2; d = s ! 3 in
      add_state s (fold (md5_round x) [0..<64] (a, b, c, d)))"
    unfolding md5_steps_def upto64 fold_round Let_opaque
    by (simp add: md5_val_rotate md5_steps_vals md5_tables add_state_def)
  then show ?thesis by (simp only: Let_def)
qed


lemma dec_Cons: "(dec (b # bs) :: u32) = ucast b OR push_bit 8 (dec bs)"
proof -
  have "(dec (b # bs) :: u32) = ucast b + push_bit 8 (dec bs)"
    by (simp add: dec_def push_bit_eq_mult of_nat_unat)
  also have "\<dots> = ucast b OR push_bit 8 (dec bs)"
    using bit_imp_le_length[of b] by (intro disjunctive_add_eq_or bit_word_eqI) (fastforce simp: bit_simps)
  finally show ?thesis .
qed

lemma dec_Nil: "dec [] = 0"
  by (simp add: dec_def)

lemma dec_word:
  "(dec [b0, b1, b2, b3] :: u32) = ucast b0 OR push_bit 8 (ucast b1) OR push_bit 16 (ucast b2) OR push_bit 24 (ucast b3)"
  unfolding dec_Cons dec_Nil by (simp add: push_bit_or or.assoc)

lemma take_4_drop:
  assumes "j + 4 \<le> length xs"
  shows "take 4 (drop j xs) = [xs ! j, xs ! (j + 1), xs ! (j + 2), xs ! (j + 3)]"
proof -
  have "drop j xs = xs ! j # xs ! (j + 1) # xs ! (j + 2) # xs ! (j + 3) # drop (j + 4) xs"
    using assms by (simp add: Cons_nth_drop_Suc numeral_eq_Suc)
  then show ?thesis by simp
qed

lemma decode_dec:
  assumes "p + 64 \<le> length block"
  shows "md5_decode block p 64 = block_words (take 64 (drop p block))"
proof -
  have "(let j = p + 4 * i in ucast (block ! j) OR push_bit 8 (ucast (block ! (j + 1))) OR
     push_bit 16 (ucast (block ! (j + 2))) OR push_bit 24 (ucast (block ! (j + 3)))) =
     (dec (take 4 (drop (4 * i) (take 64 (drop p block)))) :: u32)" if "i < 16" for i
  proof -
    let ?j = "p + 4 * i"
    have "take 4 (drop (4 * i) (take 64 (drop p block))) = take 4 (drop (p + 4 * i) block)"
      using that by (simp add: drop_take min_def add.commute)
    also have "\<dots> = [block ! ?j, block ! (?j + 1), block ! (?j + 2), block ! (?j + 3)]"
      using that assms by (intro take_4_drop) simp
    finally have "take 4 (drop (4 * i) (take 64 (drop p block))) = [block ! ?j, block ! (?j + 1), block ! (?j + 2), block ! (?j + 3)]" .
    then show ?thesis
      by (simp add: Let_def dec_word)
  qed
  then show ?thesis by (simp add: md5_decode_def block_words_def)
qed

lemma transform_compress:
  "p + 64 \<le> length block \<Longrightarrow>
   md5_transform block p m = Inr (m\<lparr>md_state := md5_compress (take 64 (drop p block)) (md_state m)\<rparr>)"
  by (simp add: md5_transform_def decode_dec md5_steps_rounds md5_compress_def)

lemma low_byte: "ucast (w AND 0xff) = (ucast (w :: u32) :: u8)"
proof -
  have "(0xff :: u32) = mask 8" by (simp add: mask_eq_decr_exp)
  then show ?thesis by (intro bit_word_eqI) (simp only: bit_simps, auto)
qed

lemma nat_byte: "word_of_nat (n mod 256) = (word_of_nat n :: u8)"
  by (simp add: word_eq_iff_unsigned[where ?'a = nat] unat_of_nat take_bit_eq_mod)

lemma byte_drop: "ucast (drop_bit k (w :: u32)) = (word_of_nat (unat w div 2 ^ k) :: u8)"
proof -
  have "unat (drop_bit k w) = unat w div 2 ^ k"
    by (simp only: unat_drop_bit_eq drop_bit_eq_div[where ?'a = nat])
  then show ?thesis using of_nat_unat[of "drop_bit k w", where ?'a = "8 word"] by (simp only:)
qed

lemma le_bytes_4:
  "le_bytes 4 n = [word_of_nat n, word_of_nat (n div 2 ^ 8), word_of_nat (n div 2 ^ 16), word_of_nat (n div 2 ^ 24)]"
proof -
  have "le_bytes (Suc (Suc (Suc (Suc 0)))) n =
    [word_of_nat n, word_of_nat (n div 256), word_of_nat (n div 256 div 256), word_of_nat (n div 256 div 256 div 256)]"
    by (simp only: le_bytes.simps nat_byte)
  moreover have "Suc (Suc (Suc (Suc 0))) = 4" "n div 256 div 256 = n div 2 ^ 16" "n div 256 div 256 div 256 = n div 2 ^ 24"
    by (simp_all flip: div_mult2_eq)
  moreover have "(256::nat) = 2 ^ 8" by simp
  ultimately show ?thesis by (simp only:)
qed

lemma enc_word: "enc (w :: u32) = [ucast (w AND 0xff), ucast (drop_bit 8 w AND 0xff),
    ucast (drop_bit 16 w AND 0xff), ucast (drop_bit 24 w AND 0xff)]"
proof -
  have "enc w = le_bytes 4 (unat w)" by (simp add: enc_def)
  then show ?thesis unfolding low_byte byte_drop le_bytes_4 by (simp only: of_nat_unat)
qed

lemma encode_enc:
  assumes "length ws = n"
  shows "md5_encode ws (4 * n) = concat (map enc ws)"
proof -
  have "map enc ws = map (\<lambda>i. enc (ws ! i)) [0..<n]"
    using assms by (intro nth_equalityI) simp_all
  then show ?thesis by (simp add: md5_encode_def enc_word)
qed

lemma memcpy_all:
  assumes "i + n \<le> length dst" "j + n \<le> length src"
  shows "md5_memcpy n dst i src j = Inr (take i dst @ take n (drop j src) @ drop (i + n) dst)"
  using assms
proof (induction n arbitrary: i j dst)
  case (Suc n)
  then have "md5_memcpy n (dst[i := src ! j]) (Suc i) src (Suc j) =
      Inr (take (Suc i) (dst[i := src ! j]) @ take n (drop (Suc j) src) @ drop (Suc i + n) (dst[i := src ! j]))"
    by (intro Suc.IH) auto
  moreover have "take (Suc i) (dst[i := src ! j]) = take i dst @ [src ! j]"
    using Suc.prems by (simp add: take_Suc_conv_app_nth)
  moreover have "take (Suc n) (drop j src) = src ! j # take n (drop (Suc j) src)"
    using Suc.prems by (simp add: Cons_nth_drop_Suc[symmetric])
  ultimately show ?case using Suc.prems by simp
qed simp

end
