(* ===== verification/Md5_Props.thy ===== *)
theory Md5_Props
  imports Md5_Spec
begin

text \<open>
  The class \<open>MD5\<close> refines the message seen so far (\<open>md5_ok\<close>): \<open>update\<close> appends its input,
  \<open>finalize\<close> leaves the digest of RFC 1321.
\<close>

section \<open>The digest of a message\<close>

fun md5_chunks :: "bytes \<Rightarrow> bytes list" where
  "md5_chunks bs = (if length bs < 64 then [] else take 64 bs # md5_chunks (drop 64 bs))"

declare md5_chunks.simps [simp del]

definition md5_IV :: "u32 list" where
  "md5_IV = [0x67452301, 0xefcdab89, 0x98badcfe, 0x10325476]"

definition md5_state_of :: "bytes \<Rightarrow> u32 list" where
  "md5_state_of bs = fold md5_compress (md5_chunks bs) md5_IV"

definition md5_pad_length :: "nat \<Rightarrow> nat" where
  "md5_pad_length n = (if n mod 64 < 56 then 56 - n mod 64 else 120 - n mod 64)"

text \<open>A one bit, zeros up to 56 bytes modulo 64, the length in bits.\<close>

definition md5_pad :: "bytes \<Rightarrow> bytes" where
  "md5_pad msg = msg @ 0x80 # replicate (md5_pad_length (length msg) - 1) 0 @ enc (word_of_nat (8 * length msg) :: u64)"

definition md5_sum :: "bytes \<Rightarrow> bytes" where
  "md5_sum msg = concat (map enc (md5_state_of (md5_pad msg)))"

lemma md5_chunks_short: "length bs < 64 \<Longrightarrow> md5_chunks bs = []"
  by (simp add: md5_chunks.simps)

lemma md5_chunks_append: "64 dvd length xs \<Longrightarrow> md5_chunks (xs @ ys) = md5_chunks xs @ md5_chunks ys"
proof (induction xs rule: md5_chunks.induct)
  case (1 xs)
  show ?case
  proof (cases "length xs < 64")
    case True
    then have "xs = []" using 1(2) by (auto elim!: dvdE)
    then show ?thesis by (simp add: md5_chunks_short)
  next
    case False
    then have "64 dvd length (drop 64 xs)" using 1(2) by (simp add: dvd_diff_nat)
    then show ?thesis
      using 1(1)[OF False] False by (simp add: md5_chunks.simps[of "xs @ ys"] md5_chunks.simps[of xs])
  qed
qed

lemma md5_chunks_block: "length b = 64 \<Longrightarrow> md5_chunks (b @ ys) = b # md5_chunks ys"
  using md5_chunks.simps[of "b @ ys"] by simp

lemma length_add_state: "length (add_state s p) = 4"
  by (simp add: add_state_def split: prod.splits)

lemma length_md5_state_of [simp]: "length (md5_state_of bs) = 4"
proof -
  have "length s = 4 \<Longrightarrow> length (fold md5_compress cs s) = 4" for cs s
    by (induction cs arbitrary: s) (simp_all add: md5_compress_def length_add_state)
  then show ?thesis by (simp add: md5_state_of_def md5_IV_def)
qed

text \<open>A message split where its last whole block ends.\<close>

lemma md5_state_of_split:
  assumes "64 dvd length xs"
  shows "md5_state_of (xs @ ys) = fold md5_compress (md5_chunks ys) (md5_state_of xs)"
  using assms by (simp add: md5_state_of_def md5_chunks_append)

lemma whole_blocks:
  obtains p q where "msg = p @ q" "64 dvd length p" "length q = length msg mod 64"
    "drop (length msg - length msg mod 64) msg = q"
proof -
  let ?n = "length msg - length msg mod 64"
  have "length (take ?n msg) = ?n" by simp
  then have "64 dvd length (take ?n msg)" by (simp only: dvd_minus_mod)
  then show thesis by (intro that[of "take ?n msg" "drop ?n msg"]) simp_all
qed

section \<open>Counting bits\<close>

definition bit_count :: "nat \<Rightarrow> u32 list" where
  "bit_count n = [word_of_nat (8 * n), word_of_nat (8 * n div 2 ^ 32)]"

lemma unat_count: "unat (word_of_nat n :: u32) = n mod 2 ^ 32"
  by (simp add: unat_of_nat take_bit_eq_mod)

lemma buffer_index: "unat (drop_bit 3 (word_of_nat (8 * n) :: u32) AND 0x3F) = n mod 64"
proof -
  have "(0x3F :: u32) = mask 6" by (simp add: mask_eq_decr_exp)
  then have "unat (drop_bit 3 (word_of_nat (8 * n) :: u32) AND 0x3F) = (8 * n mod 2 ^ 32) div 2 ^ 3 mod 2 ^ 6"
    by (simp only: take_bit_eq_mask[symmetric] unsigned_take_bit_eq unat_drop_bit_eq unat_count
        take_bit_eq_mod[where ?'a = nat] drop_bit_eq_div[where ?'a = nat])
  also have "\<dots> = n mod 64"
  proof -
    have "8 * n mod 2 ^ 32 = 8 * (n mod 2 ^ 29)" by (simp add: mult_mod_right)
    then show ?thesis by (simp add: mod_mod_cancel)
  qed
  finally show ?thesis .
qed

lemma carry_out:
  fixes a b M :: nat
  assumes "0 < M"
  shows "(a + b) mod M < b mod M \<longleftrightarrow> M \<le> a mod M + b mod M"
    and "(a + b) div M = a div M + b div M + (if M \<le> a mod M + b mod M then 1 else 0)"
proof -
  have less: "a mod M < M" "b mod M < M" using assms by simp_all
  have sum: "(a + b) mod M = (a mod M + b mod M) mod M" by (simp only: mod_add_eq)
  show "(a + b) mod M < b mod M \<longleftrightarrow> M \<le> a mod M + b mod M"
  proof (cases "M \<le> a mod M + b mod M")
    case True
    then have "(a + b) mod M = a mod M + b mod M - M" unfolding sum
      using less mod_less[of "a mod M + b mod M - M" M] by (simp only: le_mod_geq)
    then show ?thesis using True less by linarith
  next
    case False
    then have "(a + b) mod M = a mod M + b mod M" unfolding sum by simp
    then show ?thesis using False by simp
  qed
  have "(a mod M + b mod M) div M = (if M \<le> a mod M + b mod M then 1 else 0)"
  proof -
    have "a mod M + b mod M - M < M" using less by linarith
    then show ?thesis using assms by (simp add: le_div_geq)
  qed
  then show "(a + b) div M = a div M + b div M + (if M \<le> a mod M + b mod M then 1 else 0)"
    by (simp only: div_add1_eq[of a b M])
qed

lemma count_added:
  fixes L :: u32
  assumes "bit_count n = [c0, c1]"
  shows "[c0 + push_bit 3 L, (if c0 + push_bit 3 L < push_bit 3 L then c1 + 1 else c1) + drop_bit 29 L] = bit_count (n + unat L)"
proof -
  let ?a = "8 * n" and ?b = "8 * unat L" and ?M = "2 ^ 32 :: nat"
  have c: "c0 = word_of_nat ?a" "c1 = word_of_nat (?a div ?M)" using assms by (simp_all add: bit_count_def)
  have L: "push_bit 3 L = word_of_nat ?b" by (simp add: push_bit_eq_mult)
  have sum: "c0 + push_bit 3 L = word_of_nat (?a + ?b)" by (simp add: c L)
  have d: "drop_bit 29 L = word_of_nat (?b div ?M)"
  proof -
    have "unat (drop_bit 29 L) = ?b div ?M"
      by (simp only: unat_drop_bit_eq drop_bit_eq_div[where ?'a = nat]) simp
    then show ?thesis by (metis of_nat_unat ucast_id)
  qed
  have "c0 + push_bit 3 L < push_bit 3 L \<longleftrightarrow> (?a + ?b) mod ?M < ?b mod ?M"
    unfolding sum by (simp only: L word_less_nat_alt unat_count)
  moreover note carry_out[of ?M ?a ?b, simplified]
  ultimately show ?thesis
    by (simp add: bit_count_def sum[simplified] c(2) d distrib_left)
qed


section \<open>The loop over blocks\<close>

lemma md5_blocks_run:
  assumes "n \<le> length input" "n + 63 < 2 ^ 32" "i \<le> n" "L = word_of_nat n"
  shows "md5_blocks input L (word_of_nat i) m =
    Some (Inr (word_of_nat (n - (n - i) mod 64),
      m\<lparr>md_state := fold md5_compress (md5_chunks (drop i (take n input))) (md_state m)\<rparr>))"
  using assms(3)
proof (induction "n - i" arbitrary: i m rule: less_induct)
  case less
  have i: "unat (word_of_nat i :: u32) = i"
    using less.prems assms(2) by (simp add: unat_count)
  have test: "(word_of_nat i + 63 < L) = (i + 63 < n)"
  proof -
    have "word_of_nat i + 63 = (word_of_nat (i + 63) :: u32)" by simp
    then show ?thesis
      using less.prems assms(2,4) by (simp only: word_less_nat_alt unat_count) simp
  qed
  show ?case
  proof (cases "i + 63 < n")
    case False
    then have "(n - i) mod 64 = n - i" "md5_chunks (drop i (take n input)) = []"
      using assms(1) by (simp_all add: md5_chunks_short)
    then show ?thesis using False less.prems test by (subst md5_blocks.simps) simp
  next
    case True
    let ?m = "m\<lparr>md_state := md5_compress (take 64 (drop i input)) (md_state m)\<rparr>"
    have "drop i (take n input) = take 64 (drop i input) @ drop (i + 64) (take n input)"
    proof -
      have "take 64 (drop i (take n input)) = take 64 (drop i input)" using True by (simp add: drop_take min_def)
      then show ?thesis by (metis append_take_drop_id drop_drop add.commute)
    qed
    then have chunks: "md5_chunks (drop i (take n input)) = take 64 (drop i input) # md5_chunks (drop (i + 64) (take n input))"
      using True assms(1) by (simp add: md5_chunks_block)
    have "md5_transform input i m = Inr ?m" using True assms(1) by (intro transform_compress) simp
    moreover have "md5_blocks input L (word_of_nat (i + 64)) ?m =
        Some (Inr (word_of_nat (n - (n - (i + 64)) mod 64),
          ?m\<lparr>md_state := fold md5_compress (md5_chunks (drop (i + 64) (take n input))) (md_state ?m)\<rparr>))"
      using True by (intro less.hyps) simp_all
    moreover have "(n - (i + 64)) mod 64 = (n - i) mod 64"
      using True le_mod_geq[of 64 "n - i"] by simp
    ultimately show ?thesis
      using True test i chunks by (subst md5_blocks.simps) simp
  qed
qed

section \<open>The refinement\<close>

definition md5_ok :: "bytes \<Rightarrow> MD5 \<Rightarrow> bool" where
  "md5_ok msg m \<longleftrightarrow> \<not> md_finalized m \<and> length (md_buffer m) = 64 \<and> length (md_digest m) = 16 \<and>
     md_count m = bit_count (length msg) \<and> md_state m = md5_state_of msg \<and>
     take (length msg mod 64) (md_buffer m) = drop (length msg - length msg mod 64) msg"

lemma MD5_new_ok: "md5_ok [] (MD5_new junk_buffer junk_digest)"
  by (simp add: md5_ok_def MD5_new_def md5_init_def bit_count_def md5_state_of_def md5_chunks_short md5_IV_def)


lemma md5_ok_split:
  assumes "64 dvd length p" "length q < 64"
  shows "md5_ok (p @ q) m \<longleftrightarrow> \<not> md_finalized m \<and> length (md_buffer m) = 64 \<and> length (md_digest m) = 16 \<and>
     md_count m = bit_count (length (p @ q)) \<and> md_state m = md5_state_of p \<and> take (length q) (md_buffer m) = q"
proof -
  have "length (p @ q) mod 64 = length q" "md5_state_of (p @ q) = md5_state_of p"
    using assms by (simp_all add: md5_state_of_split md5_chunks_short mod_eq_0_iff_dvd[THEN iffD2] flip: mod_add_left_eq)
  then show ?thesis by (simp add: md5_ok_def)
qed

lemma unat_space: "k < 64 \<Longrightarrow> unat (w :: u32) = k \<Longrightarrow> unat (64 - w) = 64 - k"
  by (simp add: unat_sub_if_size word_size)

lemma md5_update_ok:
  assumes ok: "md5_ok msg m" and n: "unat L = n" "n \<le> length input" "n + 63 < 2 ^ 32"
  shows "\<exists>m'. md5_update input L m = Some (Inr m') \<and> md5_ok (msg @ take n input) m'"
proof -
  obtain p q where msg: "msg = p @ q" "64 dvd length p" "length q = length msg mod 64"
    "drop (length msg - length msg mod 64) msg = q" by (rule whole_blocks)
  let ?r = "length q" and ?inp = "take n input"
  have r: "?r < 64" "length msg mod 64 = ?r" using msg(3) by simp_all
  define bi where "bi = drop_bit 3 (md_count m ! 0) AND 0x3F"
  define c where "c = bit_count (length (msg @ ?inp))"
  have m: "\<not> md_finalized m" "length (md_buffer m) = 64" "length (md_digest m) = 16"
    "md_count m = bit_count (length msg)" "md_state m = md5_state_of msg" "take ?r (md_buffer m) = q"
    using ok msg(4) r by (simp_all add: md5_ok_def)
  have bi: "unat bi = ?r"
    using buffer_index[of "length msg"] r by (simp add: bi_def m(4) bit_count_def)
  have space: "unat (64 - bi) = 64 - ?r" using unat_space[OF r(1) bi] .
  have L: "L = word_of_nat n" using n(1) by auto
  have counts: "[md_count m ! 0 + push_bit 3 L,
      (if md_count m ! 0 + push_bit 3 L < push_bit 3 L then md_count m ! 1 + 1 else md_count m ! 1) + drop_bit 29 L] = c"
  proof -
    have "bit_count (length msg) = [md_count m ! 0, md_count m ! 1]" by (simp add: m(4) bit_count_def)
    from count_added[OF this, of L] show ?thesis using n(1,2) by (simp only: c_def length_append length_take min_absorb2)
  qed
  have p: "md_state m = md5_state_of p"
    using m(5) msg(1,2) r by (simp add: md5_state_of_split md5_chunks_short)
  let ?buf = "md_buffer m"
  show ?thesis
  proof (cases "64 - ?r \<le> n")
    case False
    let ?m = "m\<lparr>md_count := c, md_buffer := take ?r ?buf @ ?inp @ drop (?r + n) ?buf\<rparr>"
    have "md5_memcpy n ?buf ?r input 0 = Inr (take ?r ?buf @ ?inp @ drop (?r + n) ?buf)"
      using False m(2) n(2) memcpy_all[of ?r n ?buf 0 input] by simp
    moreover have "\<not> 64 - bi \<le> L" using False by (simp add: word_le_nat_alt space n(1))
    ultimately have "md5_update input L m = Some (Inr ?m)"
      unfolding md5_update_def Let_def bi_def[symmetric] counts using m(1) bi n(1) by simp
    moreover have "md5_ok (p @ (q @ ?inp)) ?m"
      using False msg(1,2) m n(2) p by (subst md5_ok_split) (simp_all add: c_def)
    ultimately show ?thesis using msg(1) by auto
  next
    case True
    define b where "b = q @ take (64 - ?r) input"
    have b: "length b = 64" using True n(2) r by (simp add: b_def)
    obtain p2 q2 where x: "drop (64 - ?r) ?inp = p2 @ q2" "64 dvd length p2" "length q2 = length (drop (64 - ?r) ?inp) mod 64"
      by (rule whole_blocks)
    define e where "e = n - length q2"
    define we where "we = (word_of_nat e :: u32)"
    have we: "unat we = e" using n(3) by (simp add: we_def e_def unat_count)
    have q2: "length q2 = (n - (64 - ?r)) mod 64" "length q2 < 64" "length q2 \<le> n - (64 - ?r)" using x(3) n(2) by simp_all
    have inp: "?inp = take (64 - ?r) input @ p2 @ q2"
      using x(1) True by (metis append_take_drop_id min_absorb1 take_take)
    have copied: "take (length q2) (drop e input) = q2"
    proof -
      have "length ?inp = 64 - ?r + (length p2 + length q2)" unfolding inp using True n(2) by simp
      then have "n = 64 - ?r + (length p2 + length q2)" using n(2) by simp
      then have "q2 = drop e ?inp" unfolding inp using True n(2) by (simp add: e_def)
      then show ?thesis using n(2) q2(3) by (simp add: drop_take e_def)
    qed
    let ?m1 = "m\<lparr>md_count := c, md_buffer := b\<rparr>"
    let ?m2 = "?m1\<lparr>md_state := md5_compress b (md_state m)\<rparr>"
    let ?m3 = "?m2\<lparr>md_state := fold md5_compress (md5_chunks (p2 @ q2)) (md_state ?m2)\<rparr>"
    let ?m4 = "?m3\<lparr>md_buffer := q2 @ drop (length q2) b\<rparr>"
    have "md5_memcpy (64 - ?r) ?buf ?r input 0 = Inr b"
      using True m(2,6) n(2) r memcpy_all[of ?r "64 - ?r" ?buf 0 input] by (simp add: b_def)
    moreover have "md5_transform b 0 ?m1 = Inr ?m2" using b transform_compress[of 0 b ?m1] by simp
    moreover have "md5_blocks input L (64 - bi) ?m2 = Some (Inr (we, ?m3))"
    proof -
      have "word_of_nat (unat (64 - bi)) = 64 - bi" by simp
      then have "64 - bi = word_of_nat (64 - ?r)" by (simp only: space)
      then show ?thesis
        using md5_blocks_run[OF n(2,3) True L, of ?m2] by (simp only: x(1) q2(1) we_def e_def)
    qed
    moreover have "unat (L - we) = length q2"
      using q2(3) n(1) True by (subst unat_sub) (simp_all add: word_le_nat_alt we e_def)
    moreover have "64 - bi \<le> L" using True by (simp add: word_le_nat_alt space n(1))
    moreover have "md5_memcpy (length q2) b 0 input e = Inr (q2 @ drop (length q2) b)"
      using memcpy_all[of 0 "length q2" b e input] copied b q2(2,3) n(2) by (simp add: e_def)
    ultimately have "md5_update input L m = Some (Inr ?m4)"
      unfolding md5_update_def Let_def bi_def[symmetric] counts
      using m(1) bi space we by simp
    moreover have "md5_ok ((p @ b @ p2) @ q2) ?m4"
      
    proof (subst md5_ok_split)
      show "64 dvd length (p @ b @ p2)" "length q2 < 64" using msg(2) b x(2) q2 by simp_all
      have "length (msg @ ?inp) = length ((p @ b @ p2) @ q2)" using inp by (simp add: b_def msg(1))
      moreover have "fold md5_compress (md5_chunks (p2 @ q2)) (md5_compress b (md_state m)) = md5_state_of (p @ b @ p2)"
        using msg(2) b x(2) q2(2) by (simp add: p md5_state_of_split md5_chunks_block md5_chunks_append md5_chunks_short)
      ultimately show "\<not> md_finalized ?m4 \<and> length (md_buffer ?m4) = 64 \<and> length (md_digest ?m4) = 16 \<and>
          md_count ?m4 = bit_count (length ((p @ b @ p2) @ q2)) \<and> md_state ?m4 = md5_state_of (p @ b @ p2) \<and>
          take (length q2) (md_buffer ?m4) = q2"
        using m b q2(2) by (simp add: c_def)
    qed
    moreover have "msg @ ?inp = (p @ b @ p2) @ q2" using inp by (simp add: b_def msg(1))
    ultimately show ?thesis by simp
  qed
qed


section \<open>The digest\<close>

lemma pad_length: "0 < md5_pad_length n" "md5_pad_length n \<le> 64" "64 dvd n + md5_pad_length n + 8"
proof -
  show "0 < md5_pad_length n" "md5_pad_length n \<le> 64" by (auto simp: md5_pad_length_def)
  define q r where "q = n div 64" and "r = n mod 64"
  have n: "n = 64 * q + r" "r < 64" by (simp_all add: q_def r_def)
  have "md5_pad_length n = (if r < 56 then 56 - r else 120 - r)" by (simp add: md5_pad_length_def r_def)
  then have "n + md5_pad_length n + 8 = 64 * (q + (if r < 56 then 1 else 2))"
    using n by (cases "r < 56") simp_all
  then show "64 dvd n + md5_pad_length n + 8" by (rule dvdI)
qed

lemma le_bytes_add: "le_bytes (i + j) n = le_bytes i n @ le_bytes j (n div 256 ^ i)"
  by (induction i arbitrary: n) (simp_all flip: div_mult2_eq)

lemma le_bytes_mod: "le_bytes k (n mod 256 ^ k) = le_bytes k n"
  by (metis length_le_bytes le_bytes_le_val le_val_le_bytes)

lemma bits_bytes: "concat (map enc (bit_count n)) = enc (word_of_nat (8 * n) :: u64)"
proof -
  have "enc (word_of_nat k :: u32) = le_bytes 4 k" for k
    using le_bytes_mod[of 4 k] by (simp add: enc_def unat_of_nat take_bit_eq_mod)
  moreover have "enc (word_of_nat k :: u64) = le_bytes 8 k" for k
    using le_bytes_mod[of 8 k] by (simp add: enc_def unat_of_nat take_bit_eq_mod)
  moreover have "le_bytes 8 (8 * n) = le_bytes 4 (8 * n) @ le_bytes 4 (8 * n div 2 ^ 32)"
    using le_bytes_add[of 4 4 "8 * n"] by simp
  ultimately show ?thesis by (simp only: bit_count_def list.map concat.simps append_Nil2)
qed

lemma md5_finalize_sum:
  assumes ok: "md5_ok msg m"
  shows "\<exists>m'. md5_finalize m = Some (Inr m') \<and> md_finalized m' \<and> md_digest m' = md5_sum msg"
proof -
  let ?n = "length msg"
  define pad where "pad = md5_pad_length ?n"
  define index where "index = drop_bit 3 (md_count m ! 0) AND 0x3f"
  define padLen where "padLen = (if index < 56 then 56 - index else 120 - index)"
  have m: "\<not> md_finalized m" "md_count m = bit_count ?n" using ok by (simp_all add: md5_ok_def)
  have index: "unat index = ?n mod 64"
    using buffer_index[of ?n] by (simp add: index_def m(2) bit_count_def)
  have padLen: "unat padLen = pad"
    using index by (auto simp: padLen_def pad_def md5_pad_length_def word_less_nat_alt unat_sub_if_size word_size)
  have zeros: "take pad md5_PADDING = 0x80 # replicate (pad - 1) 0"
    using pad_length(1,2)[of ?n] by (cases pad) (simp_all add: md5_PADDING_def pad_def)
  have bits: "md5_encode (md_count m) 8 = enc (word_of_nat (8 * ?n) :: u64)"
    using encode_enc[of "md_count m" 2] bits_bytes[of ?n] by (simp add: m(2) bit_count_def)
  obtain m1 where m1: "md5_update md5_PADDING padLen m = Some (Inr m1)" "md5_ok (msg @ 0x80 # replicate (pad - 1) 0) m1"
  proof -
    have "pad \<le> length md5_PADDING" "pad + 63 < 2 ^ 32"
      using pad_length(2)[of ?n] by (simp_all add: md5_PADDING_def pad_def)
    from md5_update_ok[OF ok padLen this] show thesis using that zeros by auto
  qed
  obtain m2 where m2: "md5_update (enc (word_of_nat (8 * ?n) :: u64)) 8 m1 = Some (Inr m2)" "md5_ok (md5_pad msg) m2"
    using md5_update_ok[OF m1(2), of 8 8 "enc (word_of_nat (8 * ?n) :: u64)"] by (auto simp: md5_pad_def pad_def)
  have st: "md_state m2 = md5_state_of (md5_pad msg)" "md_buffer m2 \<noteq> []" using m2(2) by (auto simp: md5_ok_def)
  then have "md5_encode (md_state m2) 16 = md5_sum msg"
    using encode_enc[of "md_state m2" 4] by (simp add: md5_sum_def)
  then show ?thesis
    using m(1) m1(1) m2(1) st(2)
    by (simp add: md5_finalize_def Let_def bits index_def[symmetric] padLen_def[symmetric])
qed

text \<open>A message handed over piece by piece.\<close>

fun md5_updates :: "bytes list \<Rightarrow> MD5 \<Rightarrow> MD5 res option" where
  "md5_updates [] m = Some (Inr m)"
| "md5_updates (bs # pieces) m = bindO (md5_update bs (word_of_nat (length bs)) m) (md5_updates pieces)"

lemma md5_updates_ok:
  "\<forall>bs\<in>set pieces. length bs + 63 < 2 ^ 32 \<Longrightarrow> md5_ok msg m \<Longrightarrow>
   \<exists>m'. md5_updates pieces m = Some (Inr m') \<and> md5_ok (msg @ concat pieces) m'"
proof (induction pieces arbitrary: msg m)
  case (Cons bs pieces)
  then have "unat (word_of_nat (length bs) :: u32) = length bs" by (simp add: unat_count)
  then obtain m1 where m1: "md5_update bs (word_of_nat (length bs)) m = Some (Inr m1)" "md5_ok (msg @ bs) m1"
    using md5_update_ok[OF Cons.prems(2), of _ "length bs" bs] Cons.prems(1) by auto
  then show ?case using Cons.IH[OF _ m1(2)] Cons.prems(1) by simp
qed simp


definition hex_string :: "bytes \<Rightarrow> bytes" where
  "hex_string bs = concat (map (\<lambda>b. format_0x 2 (unat b)) bs)"

lemma length_hex_string: "length (hex_string bs) = 2 * length bs"
  using length_concat_const[of bs "\<lambda>b. format_0x 2 (unat b)" 2] length_format_0x(2)[of 2] unat_u8
  by (simp add: hex_string_def)

lemma length_md5_sum: "length (md5_sum msg) = 16"
  using length_concat_const[of "md5_state_of (md5_pad msg)" enc 4] by (simp add: md5_sum_def)

lemma digests:
  assumes "md_finalized m" "md_digest m = d" "length d = 16"
  shows "raw_digest m = d" "hex_digest m = hex_string d @ [0]"
proof -
  have d: "d = map (\<lambda>i. md_digest m ! i) [0..<16]" using assms(2,3) by (metis map_nth)
  show "raw_digest m = d" using assms(1) d by (simp add: raw_digest_def)
  show "hex_digest m = hex_string d @ [0]"
    using assms(1) unfolding hex_string_def by (subst d) (simp add: hex_digest_def comp_def)
qed

text \<open>Reading a file block by block is handing it over piece by piece.\<close>

lemma md5_update_file_updates: "md5_update_file reads = md5_updates (takeWhile (\<lambda>bs. bs \<noteq> []) reads)"
proof
  show "md5_update_file reads m = md5_updates (takeWhile (\<lambda>bs. bs \<noteq> []) reads) m" for m
  proof (induction reads arbitrary: m)
    case (Cons bs reads)
    then have "md5_update_file reads = md5_updates (takeWhile (\<lambda>bs. bs \<noteq> []) reads)" by (intro ext)
    then show ?case by simp
  qed simp
qed

text \<open>
  C13. The class computes the message digest of RFC 1321: a message handed to a new object in
  any number of calls of \<open>update\<close>, each of fewer than 2^32 - 63 bytes, gives after \<open>finalize\<close>
  the digest of the whole message, as 16 bytes and as 32 hexadecimal digits and a zero,
  whatever the uninitialised memory held; no operation reads or writes outside its arrays, and
  a finished object does not change any more. The same for a file, read in pieces.
\<close>

theorem md5_digest_correct:
  assumes "\<forall>bs\<in>set pieces. length bs + 63 < 2 ^ 32"
  shows "\<exists>m. bindO (md5_updates pieces (MD5_new junk_buffer junk_digest)) md5_finalize = Some (Inr m) \<and>
    raw_digest m = md5_sum (concat pieces) \<and> hex_digest m = hex_string (md5_sum (concat pieces)) @ [0] \<and>
    length (hex_digest m) = 33 \<and> md5_finalize m = Some (Inr m) \<and> md5_update input n m = Some (Inr m) \<and>
    ([] \<notin> set pieces \<longrightarrow> MD5_of_file junk_buffer junk_digest (pieces @ [] # reads) = Some (Inr m))"
proof -
  obtain m where m: "md5_updates pieces (MD5_new junk_buffer junk_digest) = Some (Inr m)" "md5_ok (concat pieces) m"
    using md5_updates_ok[OF assms MD5_new_ok] by auto
  obtain m' where m': "md5_finalize m = Some (Inr m')" "md_finalized m'" "md_digest m' = md5_sum (concat pieces)"
    using md5_finalize_sum[OF m(2)] by blast
  have "takeWhile (\<lambda>bs. bs \<noteq> []) (pieces @ [] # reads) = pieces" if "[] \<notin> set pieces"
    using that by (auto simp: takeWhile_tail intro!: takeWhile_eq_all_conv[THEN iffD2])
  then show ?thesis
    using m(1) m' digests[of m'] length_md5_sum[of "concat pieces"] length_hex_string[of "md5_sum (concat pieces)"]
    by (simp add: md5_finalize_def md5_update_def MD5_of_file_def md5_update_file_updates)
qed

lemma le_bytes_numeral: "le_bytes (numeral k) x = word_of_nat (x mod 256) # le_bytes (pred_numeral k) (x div 256)"
  by (simp only: numeral_eq_Suc le_bytes.simps)

lemma replicate_num: "replicate (numeral k) x = x # replicate (pred_numeral k) x"
  by (simp only: numeral_eq_Suc replicate.simps)

text \<open>The digest of \<open>abc\<close> is the one RFC 1321 lists.\<close>

lemma abc_block: "map block_words (md5_chunks (md5_pad (chars ''abc''))) = [0x80636261 # replicate 13 0 @ [24, 0]]"
proof -
  have "md5_pad (chars ''abc'') = [0x61, 0x62, 0x63, 0x80] @ replicate 52 0 @ [24, 0, 0, 0, 0, 0, 0, 0]"
    by (simp add: md5_pad_def md5_pad_length_def chars_def enc_def le_bytes_numeral)
  then show ?thesis by (simp add: md5_chunks.simps upt_rec block_words_def dec_def replicate_num)
qed

lemma md5_abc: "hex_string (md5_sum (chars ''abc'')) = chars ''900150983cd24fb0d6963f7d28e17f72''"
proof -
  let ?x = "0x80636261 # replicate 13 0 @ [24, 0] :: u32 list"
  have q: "fold (md5_round ?x) [0..<16] (0x67452301, 0xefcdab89, 0x98badcfe, 0x10325476) =
       (0xdda9b9a6, 0x72aff2e0, 0xe396856b, 0xa1051895)"
    "fold (md5_round ?x) [16..<32] (0xdda9b9a6, 0x72aff2e0, 0xe396856b, 0xa1051895) =
       (0x790a77fb, 0x726342d3, 0xa62884aa, 0x9f47e4f8)"
    "fold (md5_round ?x) [32..<48] (0x790a77fb, 0x726342d3, 0xa62884aa, 0x9f47e4f8) =
       (0x7f2e507b, 0x7beb9700, 0x8fae6399, 0x99d9679d)"
    "fold (md5_round ?x) [48..<64] (0x7f2e507b, 0x7beb9700, 0x8fae6399, 0x99d9679d) =
       (0x310ade8f, 0xc08226b3, 0xe484b9d8, 0x624d8cb2)"
    by code_simp+
  have "[0..<64] = [0..<16] @ [16..<32] @ [32..<48] @ [48..<64::nat]"
    by (simp add: upt_rec)
  then have "fold (md5_round ?x) [0..<64] (0x67452301, 0xefcdab89, 0x98badcfe, 0x10325476) = (0x310ade8f, 0xc08226b3, 0xe484b9d8, 0x624d8cb2)"
    by (simp only: fold_append o_apply q)
  moreover obtain b where "md5_chunks (md5_pad (chars ''abc'')) = [b]" "block_words b = ?x"
    using abc_block by (auto simp: map_eq_Cons_conv)
  ultimately have "md5_state_of (md5_pad (chars ''abc'')) = [0x98500190, 0xb04fd23c, 0x7d3f96d6, 0x727fe128]"
    by (simp add: md5_state_of_def md5_compress_def md5_IV_def add_state_def)
  then have "md5_sum (chars ''abc'') = concat (map enc [0x98500190 :: u32, 0xb04fd23c, 0x7d3f96d6, 0x727fe128])"
    by (simp only: md5_sum_def)
  moreover have "hex_string (concat (map enc [0x98500190 :: u32, 0xb04fd23c, 0x7d3f96d6, 0x727fe128])) =
      chars ''900150983cd24fb0d6963f7d28e17f72''"
    by (simp add: hex_string_def enc_def le_bytes_numeral format_0x_def hex_digits.simps hex_digit_def chars_def)
  ultimately show ?thesis by simp
qed

lemma md5_digest_correct_witness:
  "\<exists>m. bindO (md5_updates [chars ''a'', chars ''bc''] (MD5_new (\<lambda>_. 7) (\<lambda>_. 8))) md5_finalize = Some (Inr m) \<and>
    hex_digest m = chars ''900150983cd24fb0d6963f7d28e17f72'' @ [0]"
proof -
  have "concat [chars ''a'', chars ''bc''] = chars ''abc''" by (simp add: chars_def)
  then show ?thesis
    using md5_digest_correct[of "[chars ''a'', chars ''bc'']" "\<lambda>_. 7" "\<lambda>_. 8" "[]" 0 "[]"] md5_abc
    by (auto simp: chars_def)
qed

text \<open>\<open>MD5(string, len)\<close>: the digest of the first \<open>len\<close> bytes.\<close>

lemma MD5_of_string_sum:
  assumes "unat len \<le> length string" "unat len + 63 < 2 ^ 32"
  shows "\<exists>m. MD5_of_string junk_buffer junk_digest string len = Some (Inr m) \<and>
    hex_digest m = hex_string (md5_sum (take (unat len) string)) @ [0]"
proof -
  obtain m where m: "md5_update string len (MD5_new junk_buffer junk_digest) = Some (Inr m)" "md5_ok (take (unat len) string) m"
    using md5_update_ok[OF MD5_new_ok refl assms, of junk_buffer junk_digest] by auto
  obtain m' where "md5_finalize m = Some (Inr m')" "md_finalized m'" "md_digest m' = md5_sum (take (unat len) string)"
    using md5_finalize_sum[OF m(2)] by blast
  then show ?thesis using m(1) digests[of m'] length_md5_sum by (simp add: MD5_of_string_def)
qed

text \<open>
  In the last 63 bytes below 2^32 the test of the loop wraps: it goes on where it should stop,
  with a read that passes the end of the input, and then from the front again.
\<close>

lemma md5_blocks_wraps:
  "md5_blocks input 0xFFFFFFFF 0xFFFFFFC1 m =
    (if 0x100000001 \<le> length input then md5_blocks input 0xFFFFFFFF 1 (m\<lparr>md_state :=
       md5_compress (take 64 (drop 0xFFFFFFC1 input)) (md_state m)\<rparr>)
     else Some (Inl Out_Of_Bounds))"
proof -
  have w: "(0xFFFFFFC1 + 63 :: u32) < 0xFFFFFFFF" "(0x100000001 :: u32) = 1" "unat (0xFFFFFFC1 :: u32) = 0xFFFFFFC1"
    by (code_simp, code_simp, simp)
  have "md5_transform input 0xFFFFFFC1 m = (if 0x100000001 \<le> length input
      then Inr (m\<lparr>md_state := md5_compress (take 64 (drop 0xFFFFFFC1 input)) (md_state m)\<rparr>) else Inl Out_Of_Bounds)"
    using transform_compress[where p = "0xFFFFFFC1" and block = input and m = m] by (simp add: md5_transform_def)
  then show ?thesis by (subst md5_blocks.simps) (simp add: w)
qed

text \<open>After \<open>finalize\<close> only the first byte of the buffer is cleared.\<close>

lemma md5_memset_one: "buf \<noteq> [] \<Longrightarrow> md5_memset 1 buf 0 0 = Inr (buf[0 := 0])"
  by (simp add: One_nat_def)

end
