(* ===== verification/Sp_Cs.thy ===== *)
theory Sp_Cs
  imports Message_Stream Source_Props Bitrate Md5_Props
begin

text \<open>
  \<open>protocol/sp/sp_cs_connector.h\<close> and \<open>.cpp\<close>: the super peer's side of the connection with a
  capture server. The handlers read their fields through a pointer into the receive buffer,
  with no check of the length of the message: \<open>mem\<close> is that buffer and \<open>p\<close> the pointer.

  Arguments: \<open>ce_junk\<close> is uninitialised memory; \<open>ce_beyond\<close> are the bytes
  behind the block of memory \<open>malloc\<close> returned for the name of the channel, which
  \<open>printf\<close> and \<open>std::string\<close> read as far as the first zero byte because the name has none;
  \<open>ce_slots\<close> is the indeterminate content of new media buffers.
\<close>

record cs_env =
  ce_now :: int
  ce_tv :: "(int \<times> int) option"
  ce_junk :: "nat \<Rightarrow> u8"
  ce_slots :: "nat \<Rightarrow> nat \<Rightarrow> u8"
  ce_beyond :: bytes

record RsCsSpProtocol =
  cs_chnl_hash :: MD5_Hash_Str
  cs_io_socket :: RsSocket
  cs_buffer :: RsBuffer
  cs_calculator :: RsBitrateCalculator

definition RsCsSpProtocol_new :: "(nat \<Rightarrow> u8) \<Rightarrow> MD5_Hash_Str \<Rightarrow> bytes \<Rightarrow> RsCsSpProtocol" where
  "RsCsSpProtocol_new junk hash name = \<lparr>cs_chnl_hash = hash, cs_io_socket = RsSocket_new,
     cs_buffer = RsBuffer_new junk, cs_calculator = RsBitrateCalculator_new name\<rparr>"

text \<open>\<open>strcpy\<close> of a string without zero bytes into the hash.\<close>

definition strcpy_hash :: "bytes \<Rightarrow> MD5_Hash_Str \<Rightarrow> MD5_Hash_Str res" where
  "strcpy_hash s h = bindE (guardE Out_Of_Bounds (length s \<le> MD5_LEN)) (\<lambda>_.
     Inr (h\<lparr>md5_hash := s @ [0] @ drop (length s + 1) (md5_hash h)\<rparr>))"

text \<open>The characters a \<open>char *\<close> stands for, up to the first zero byte.\<close>

definition c_string :: "bytes \<Rightarrow> bytes res" where
  "c_string mem = bindE (guardE Out_Of_Bounds (0 \<in> set mem)) (\<lambda>_. Inr (takeWhile (\<lambda>b. b \<noteq> 0) mem))"

text \<open>
  \<open>malloc\<close> takes a \<open>size_t\<close>: a negative size makes it fail, and the copy that follows writes
  through a null pointer.
\<close>

definition copy_out :: "bytes \<Rightarrow> int \<Rightarrow> int \<Rightarrow> bytes res" where
  "copy_out mem p n = bindE (guardE Null_Pointer (0 \<le> n)) (\<lambda>_. peek mem p (nat n))"

definition cs_get_mediatype :: "bytes \<Rightarrow> int \<Rightarrow> RsCsSpProtocol \<Rightarrow> RsSourceManager \<Rightarrow> RsSourceManager res" where
  "cs_get_mediatype mem p cs mgr =
     bindE (peek_int mem p) (\<lambda>mediatype_size.
     bindE (add_header (cs_chnl_hash cs) (drop (nat (p + 4)) mem) mediatype_size mgr) (\<lambda>(_, mgr).
     Inr mgr))"

text \<open>The hash of a channel: the local object \<open>md5\<close> of \<open>get_register\<close>, from its name.\<close>

definition channel_digest :: "(nat \<Rightarrow> u8) \<Rightarrow> bytes \<Rightarrow> int \<Rightarrow> bytes res option" where
  "channel_digest junk channel_name channel_size =
     bindO (md5_update channel_name (word_of_int channel_size) (MD5_new junk junk)) (\<lambda>md5.
     bindO (md5_finalize md5) (\<lambda>md5.
     Some (c_string (hex_digest md5))))"

definition cs_get_register :: "cs_env \<Rightarrow> bytes \<Rightarrow> int \<Rightarrow> RsCsSpProtocol \<Rightarrow> RsSourceManager \<Rightarrow>
    (RsCsSpProtocol \<times> RsSourceManager) res option" where
  "cs_get_register env mem p cs mgr =
     bindO (Some (peek_char mem p)) (\<lambda>c. let channel_size = sint c; p = p + 1 in
     bindO (Some (copy_out mem p channel_size)) (\<lambda>channel_name. let p = p + channel_size in
     bindO (Some (c_string (channel_name @ ce_beyond env))) (\<lambda>name.
     bindO (Some (peek_int mem p)) (\<lambda>user_id. let p = p + 4 in
     bindO (channel_digest (ce_junk env) channel_name channel_size) (\<lambda>digest.
     bindO (Some (strcpy_hash digest (cs_chnl_hash cs))) (\<lambda>hash.
     let hash = hash\<lparr>md5_hash := (md5_hash hash)[MD5_LEN := 0]\<rparr>; cs = cs\<lparr>cs_chnl_hash := hash\<rparr> in
     bindO (Some (peek mem p MD5_LEN)) (\<lambda>user_password. let p = p + int MD5_LEN in
     bindO (Some (peek_int mem p)) (\<lambda>block_size. let p = p + 4 in
     bindO (Some (peek_int mem p)) (\<lambda>file_size. let p = p + 4 in
     bindO (Some (peek mem p 4)) (\<lambda>bit_rate. let p = p + 4 in
     bindO (Some (peek_char mem p)) (\<lambda>is_source. let p = p + 1 in
     bindO (Some (peek_int mem p)) (\<lambda>header_size. let p = p + 4;
       (_, mgr) = create_source (ce_slots env) (ce_now env) hash name True mgr in
     if header_size = 0 then Some (Inr (cs, mgr))
     else
       bindO (Some (copy_out mem p header_size)) (\<lambda>header_data.
       bindO (Some (add_header hash header_data header_size mgr)) (\<lambda>(_, mgr).
       Some (Inr (cs, mgr))))))))))))))))"

text \<open>
  The result of \<open>queue_block\<close> is ignored: without a channel \<open>block_data\<close> stays null. The copy
  starts four bytes before the data, at the field \<open>data_offset\<close>; its size is a \<open>size_t\<close>.
\<close>

definition cs_get_block :: "cs_env \<Rightarrow> bytes \<Rightarrow> int \<Rightarrow> RsCsSpProtocol \<Rightarrow> RsSourceManager \<Rightarrow>
    (RsCsSpProtocol \<times> RsSourceManager) res" where
  "cs_get_block env mem p cs mgr =
     bindE (peek_int mem p) (\<lambda>block_id. let p = p + 4 in
     bindE (peek_int mem p) (\<lambda>block_size. let p = p + 4 in
     bindE (peek_int mem p) (\<lambda>data_offset. let p = p + 4; hash = cs_chnl_hash cs in
     bindE (queue_block hash mgr) (\<lambda>(_, block_data, mgr).
     case (block_data, get_buffer_queue hash mgr) of
       (Some buf, Some q) \<Rightarrow>
         bindE (guardE Out_Of_Bounds (0 \<le> block_size)) (\<lambda>_.
         bindE (peek mem (p - 4) (nat block_size)) (\<lambda>bs.
         bindE (copy_to_buffer buf bs q) (\<lambda>q.
         bindE (set_block_available hash block_id (set_buffer_queue hash q mgr)) (\<lambda>(_, mgr).
         bindE (update_buffersize (ce_tv env) (word_of_int block_size) (cs_calculator cs)) (\<lambda>(_, calc).
         Inr (cs\<lparr>cs_calculator := calc\<rparr>, mgr))))))
     | _ \<Rightarrow> Inl Null_Pointer))))"

definition cs_loop :: "cs_env \<Rightarrow> RsCsSpProtocol \<Rightarrow> RsSourceManager \<Rightarrow> arrival list \<Rightarrow>
    (int \<times> RsCsSpProtocol \<times> RsSourceManager \<times> arrival list) res option" where
  "cs_loop env cs mgr conn =
     bindO (next_message (ce_junk env) (cs_buffer cs) (cs_io_socket cs) conn) (\<lambda>(ret, (temp, msg_size), b, io, conn).
     let cs = cs\<lparr>cs_buffer := b, cs_io_socket := io\<rparr>; mem = rb_mem b in
     if ret \<noteq> 0 then Some (Inr (ret, cs, mgr, conn))
     else
       bindO (Some (peek_char mem temp)) (\<lambda>msg_type.
       bindO (
         if msg_type = msg_code CS2SP_REGISTER then cs_get_register env mem (temp + 1) cs mgr
         else if msg_type = msg_code CS2SP_BLOCK then Some (cs_get_block env mem (temp + 1) cs mgr)
         else if msg_type = msg_code CS2SP_MEDIA_TYPE then
           Some (bindE (cs_get_mediatype mem (temp + 1) cs mgr) (\<lambda>mgr. Inr (cs, mgr)))
         else Some (Inr (cs, mgr))) (\<lambda>(cs, mgr).
       Some (Inr (0, cs, mgr, conn)))))"

section \<open>Registration and blocks\<close>

text \<open>The content of a block message, and the block it asks to store.\<close>

definition block_content :: "u32 \<Rightarrow> bytes \<Rightarrow> bytes" where
  "block_content block_id block = enc block_id @ enc (word_of_nat (length block) :: u32) @ block"

lemma sint_of_nat32: "n < 2 ^ 31 \<Longrightarrow> sint (word_of_nat n :: u32) = int n"
  using sint_of_int32[of "int n"] by simp

lemma peek_int_later:
  assumes "peek mem p n = Inr bs" "k + 4 \<le> n" "take 4 (drop k bs) = enc (w :: u32)"
  shows "peek_int mem (p + int k) = Inr (sint w)"
  using peek_later[OF assms(1,2)] assms(3) by (simp add: peek_int_def)

text \<open>The handler does to the channel's ring what \<open>produce\<close> does, and changes nothing else of the channel.\<close>

definition same_channel :: "RsBufferQueue \<Rightarrow> RsBufferQueue \<Rightarrow> bool" where
  "same_channel q q' \<longleftrightarrow> bq_source_name q' = bq_source_name q \<and> bq_source_hash q' = bq_source_hash q \<and>
     bq_media_header q' = bq_media_header q \<and> bq_create_time q' = bq_create_time q \<and> bq_is_source q' = bq_is_source q"

lemma same_channel_refl [simp]: "same_channel q q"
  by (simp add: same_channel_def)

lemma same_channel_trans: "same_channel q q' \<Longrightarrow> same_channel q' q'' \<Longrightarrow> same_channel q q''"
  by (simp add: same_channel_def)

lemma queue_same_channel:
  assumes "queue_buffer q = Inr (buf, q')"
  shows "same_channel q q'"
proof (cases "bq_full_flag q")
  case True
  then obtain v i j where "q' = q\<lparr>bq_vector := v, bq_min_block_id := i, bq_min_block_index := j\<rparr>"
    using assms by (clarsimp simp: queue_buffer_def Let_def res_invert)
  then show ?thesis by (simp add: same_channel_def)
next
  case False
  then obtain v where "q' = q\<lparr>bq_vector := v\<rparr>"
    using assms by (clarsimp simp: queue_buffer_def Let_def res_invert)
  then show ?thesis by (simp add: same_channel_def)
qed

lemma copy_same_channel: "copy_to_buffer buf bs q = Inr q' \<Longrightarrow> same_channel q q'"
  unfolding copy_to_buffer_def by (auto simp only: bindE_eq_Inr Inr_inject, simp add: same_channel_def)

lemma attr_same_channel: "update_buffer_attr i flag q = Inr q' \<Longrightarrow> same_channel q q'"
  unfolding update_buffer_attr_def by (auto simp only: bindE_eq_Inr Inr_inject, simp add: same_channel_def)

lemma produce_same_channel: "produce i bs q = Inr q' \<Longrightarrow> same_channel q q'"
  unfolding produce_def by (clarsimp simp: bindE_eq_Inr) (blast dest: queue_same_channel copy_same_channel attr_same_channel intro: same_channel_trans)

lemma cs_get_block_produces:
  assumes msg: "peek mem p (length c) = Inr c" "c = block_content block_id block" "4 \<le> length block" "length block < 2 ^ 31"
    and q: "get_buffer_queue (cs_chnl_hash cs) mgr = Some q" "produce (sint block_id) block q = Inr q'"
    and calc: "update_buffersize (ce_tv env) (word_of_nat (length block)) (cs_calculator cs) = Inr (r, calc)"
  shows "\<exists>mgr'. cs_get_block env mem p cs mgr = Inr (cs\<lparr>cs_calculator := calc\<rparr>, mgr') \<and> mgr_ok mgr' = mgr_ok mgr \<and>
    (\<forall>k. get_buffer_queue k mgr' = (if key_equiv MD5_lt k (cs_chnl_hash cs) then Some q' else get_buffer_queue k mgr))"
proof -
  let ?h = "cs_chnl_hash cs"
  have len: "length c = 8 + length block" using msg(2) by (simp add: block_content_def)
  have fields: "peek_int mem p = Inr (sint block_id)" "peek_int mem (p + 4) = Inr (int (length block))"
    "peek_int mem (p + 8) = Inr (sint (dec (take 4 block) :: u32))" "peek mem (p + 8) (length block) = Inr block"
    using peek_int_later[OF msg(1), of 0 block_id] peek_int_later[OF msg(1), of 4 "word_of_nat (length block)"]
      peek_int_later[OF msg(1), of 8 "dec (take 4 block)"] peek_later[OF msg(1), of 8 "length block"] len msg(3,4)
    by (simp_all add: msg(2) block_content_def sint_of_nat32 enc_dec)
  obtain buf q1 q2 where p: "queue_buffer q = Inr (buf, q1)" "copy_to_buffer buf block q1 = Inr q2"
    "update_buffer_attr (sint block_id) BUFFER_AVAILABLE q2 = Inr q'"
    using q(2) by (auto simp: produce_def res_invert)
  let ?m1 = "set_buffer_queue ?h q1 mgr"
  let ?m2 = "set_buffer_queue ?h q2 ?m1"
  let ?m3 = "set_buffer_queue ?h q' ?m2"
  have m: "get_buffer_queue ?h ?m1 = Some q1" "get_buffer_queue ?h ?m2 = Some q2"
    using q(1) by (simp_all add: get_set_queue)
  have "queue_block ?h mgr = Inr (ERROR_SUCCESS, Some buf, ?m1)"
    "set_block_available ?h (sint block_id) ?m2 = Inr (ERROR_SUCCESS, ?m3)"
    using q(1) p m by (simp_all add: queue_block_def set_block_available_def)
  then have "cs_get_block env mem p cs mgr = Inr (cs\<lparr>cs_calculator := calc\<rparr>, ?m3)"
    using fields fields(3,4)[unfolded add.commute[of p]] p(2) m(1) calc by (simp add: cs_get_block_def Let_def)
  moreover have "get_buffer_queue k ?m3 = (if key_equiv MD5_lt k ?h then Some q' else get_buffer_queue k mgr)" for k
    using q(1) m by (auto simp: get_set_queue)
  moreover have "mgr_ok ?m3 = mgr_ok mgr" by simp
  ultimately show ?thesis by blast
qed

text \<open>A round of the connection, when the next message on the stream is the next block.\<close>

lemma cs_loop_block:
  assumes next_msg: "next_message (ce_junk env) (cs_buffer cs) (cs_io_socket cs) conn = Some (Inr (0, (p, n), b', io', conn'))"
    "peek (rb_mem b') p (Suc (length c)) = Inr (msg_code CS2SP_BLOCK # c)" "c = block_content (word_of_nat (length h)) block"
    and q: "get_buffer_queue (cs_chnl_hash cs) mgr = Some q" "ring_ok N h q" "length h < 2 ^ 31 - 1"
    and block: "4 \<le> length block" "length block \<le> MEDIA_BLOCK_SIZE"
    and calc: "update_buffersize (ce_tv env) (word_of_nat (length block)) (cs_calculator cs) = Inr (r, calc)"
  shows "\<exists>mgr' q'. cs_loop env cs mgr conn =
      Some (Inr (0, cs\<lparr>cs_buffer := b', cs_io_socket := io', cs_calculator := calc\<rparr>, mgr', conn')) \<and>
    ring_ok N (h @ [block]) q' \<and> same_channel q q' \<and> mgr_ok mgr' = mgr_ok mgr \<and>
    (\<forall>k. get_buffer_queue k mgr' = (if key_equiv MD5_lt k (cs_chnl_hash cs) then Some q' else get_buffer_queue k mgr))"
proof -
  let ?cs = "cs\<lparr>cs_buffer := b', cs_io_socket := io'\<rparr>"
  have body: "peek (rb_mem b') (p + 1) (length c) = Inr c"
    using peek_later[OF next_msg(2), of 1 "length c"] by simp
  have tag: "peek_char (rb_mem b') p = Inr (msg_code CS2SP_BLOCK)"
    using peek_later[OF next_msg(2), of 0 1] by (simp add: peek_char_def)
  have id: "sint (word_of_nat (length h) :: u32) = int (length h)" using q(3) by (simp add: sint_of_nat32)
  obtain q' where q': "produce (int (length h)) block q = Inr q'" "ring_ok N (h @ [block]) q'"
    using produce_ring_ok[OF q(2,3) block(2)] by blast
  obtain mgr' where mgr': "cs_get_block env (rb_mem b') (p + 1) ?cs mgr = Inr (?cs\<lparr>cs_calculator := calc\<rparr>, mgr')"
    "mgr_ok mgr' = mgr_ok mgr" "\<forall>k. get_buffer_queue k mgr' = (if key_equiv MD5_lt k (cs_chnl_hash cs) then Some q' else get_buffer_queue k mgr)"
    using cs_get_block_produces[OF body next_msg(3) block(1), of ?cs mgr q q' env r calc] q(1) block(2) calc q'(1) id by auto
  have "cs_loop env cs mgr conn = Some (Inr (0, ?cs\<lparr>cs_calculator := calc\<rparr>, mgr', conn'))"
    using next_msg(1) tag mgr'(1) by (simp add: cs_loop_def msg_code_inj Let_def)
  then show ?thesis using q'(2) produce_same_channel[OF q'(1)] mgr'(2,3) by (intro exI conjI) (assumption | simp)+
qed

text \<open>
  One round of the capture server's connection refines appending to the history of the
  channel: if the next message on the stream is a block with the next id and at most 16,384
  bytes, for a channel whose ring holds the history \<open>h\<close>, then, however the network cuts the
  message, the round succeeds, the ring holds \<open>h\<close> and the block, no other channel changes
  and the stream goes on behind the message.
\<close>

theorem cs_block_appended:
  assumes "get_buffer_queue (cs_chnl_hash cs) mgr = Some q" "ring_ok N h q" "length h < 2 ^ 31 - 1"
    and "4 \<le> length block" "length block \<le> MEDIA_BLOCK_SIZE"
    and "buffer_ok (cs_buffer cs)" "conn_ok conn" "\<forall>x\<in>set conn. \<exists>bs. x = Segment bs"
    and "unread (cs_buffer cs) @ pending conn =
      packet CS2SP_BLOCK (block_content (word_of_nat (length h)) block) @ rest"
    and "rb_end (cs_buffer cs) + 13 + int (length block) \<le> int (length (rb_mem (cs_buffer cs)))"
    and "update_buffersize (ce_tv env) (word_of_nat (length block)) (cs_calculator cs) = Inr (r, calc)"
  shows "\<exists>cs' mgr' conn' q'. cs_loop env cs mgr conn = Some (Inr (0, cs', mgr', conn')) \<and>
    ring_ok N (h @ [block]) q' \<and>
    (\<forall>k. get_buffer_queue k mgr' = (if key_equiv MD5_lt k (cs_chnl_hash cs) then Some q' else get_buffer_queue k mgr)) \<and>
    cs_chnl_hash cs' = cs_chnl_hash cs \<and> buffer_ok (cs_buffer cs') \<and> unread (cs_buffer cs') @ pending conn' = rest"
proof -
  let ?c = "block_content (word_of_nat (length h)) block"
  have len: "length ?c = 8 + length block" by (simp add: block_content_def)
  then have "rb_end (cs_buffer cs) + 5 + int (length ?c) \<le> int (length (rb_mem (cs_buffer cs)))" using assms(10) by simp
  from next_message_takes[OF assms(6,7,8,9) this, of "ce_junk env" "cs_io_socket cs"]
  obtain p b' io' conn' where next_msg: "next_message (ce_junk env) (cs_buffer cs) (cs_io_socket cs) conn =
      Some (Inr (0, (p, 5 + int (length ?c)), b', io', conn'))"
    "peek (rb_mem b') p (Suc (length ?c)) = Inr (msg_code CS2SP_BLOCK # ?c)" "buffer_ok b'" "unread b' @ pending conn' = rest"
    by blast
  show ?thesis
    using cs_loop_block[OF next_msg(1,2) refl assms(1,2,3,4,5,11)] next_msg(3,4) by fastforce
qed

text \<open>The first block of a channel arrives in two pieces.\<close>

definition sample_hash :: MD5_Hash_Str where
  "sample_hash = \<lparr>md5_hash = replicate MD5_LEN 97 @ [0], md5_interval = \<lparr>bi_start = 0, bi_size = 0\<rparr>\<rparr>"

lemma cs_block_appended_witness:
  "\<exists>cs' mgr' conn' q'. cs_loop
      \<lparr>ce_now = 0, ce_tv = None, ce_junk = \<lambda>_. 0, ce_slots = \<lambda>_ _. 0, ce_beyond = [0]\<rparr>
      (RsCsSpProtocol_new (\<lambda>_. 0) sample_hash [])
      \<lparr>sm_source_hashmap = [(sample_hash, sample_queue)], sm_tracker_address = []\<rparr>
      [Segment [18, 0, 0, 0, 18, 0, 0, 0], Segment [0, 5, 0, 0, 0, 0, 0, 0, 0, 7]] = Some (Inr (0, cs', mgr', conn')) \<and>
    get_buffer_queue sample_hash mgr' = Some q' \<and> ring_ok 2 [[0, 0, 0, 0, 7]] q'"
proof -
  let ?env = "\<lparr>ce_now = 0, ce_tv = None, ce_junk = \<lambda>_. 0, ce_slots = \<lambda>_ _. 0, ce_beyond = [0 :: u8]\<rparr>"
  let ?cs = "RsCsSpProtocol_new (\<lambda>_. 0) sample_hash []"
  let ?mgr = "\<lparr>sm_source_hashmap = [(sample_hash, sample_queue)], sm_tracker_address = []\<rparr>"
  let ?conn = "[Segment [18, 0, 0, 0, 18, 0, 0, 0], Segment [0, 5, 0, 0, 0, 0, 0, 0, 0, 7]]"
  let ?block = "[0, 0, 0, 0, 7] :: bytes"
  have cs: "cs_buffer ?cs = RsBuffer_new (\<lambda>_. 0)" "cs_chnl_hash ?cs = sample_hash"
    by (simp_all add: RsCsSpProtocol_new_def)
  have ring: "ring_ok 2 [] sample_queue" using ring_ok_fresh[of 2] by (simp add: sample_queue_def)
  have "packet CS2SP_BLOCK (block_content (word_of_nat (length ([] :: bytes list))) ?block) @ [] =
      [18, 0, 0, 0, 18, 0, 0, 0, 0, 5, 0, 0, 0, 0, 0, 0, 0, 7]" by code_simp
  then have stream: "unread (cs_buffer ?cs) @ pending ?conn =
      packet CS2SP_BLOCK (block_content (word_of_nat (length ([] :: bytes list))) ?block) @ []"
    by (simp add: cs RsBuffer_new_ok)
  have conn: "conn_ok ?conn" "\<forall>x\<in>set ?conn. \<exists>bs. x = Segment bs" by (simp_all add: conn_ok_def)
  have "get_buffer_queue (cs_chnl_hash ?cs) ?mgr = Some sample_queue" by (simp add: get_buffer_queue_def cs)
  moreover have "update_buffersize (ce_tv ?env) (word_of_nat (length ?block)) (cs_calculator ?cs) =
      Inr (None, \<lparr>bc_name = [], bc_recv_buffer_size = 5, bc_last_recv_msec = 0\<rparr>)"
    by (simp add: update_buffersize_def RsCsSpProtocol_new_def RsBitrateCalculator_new_def)
  ultimately obtain cs' mgr' conn' q' where "cs_loop ?env ?cs ?mgr ?conn = Some (Inr (0, cs', mgr', conn'))"
    "ring_ok 2 ([] @ [?block]) q'"
    "\<forall>k. get_buffer_queue k mgr' = (if key_equiv MD5_lt k (cs_chnl_hash ?cs) then Some q' else get_buffer_queue k ?mgr)"
    using cs_block_appended[OF _ ring _ _ _ _ conn stream, of ?mgr ?env None _]
    by (auto simp: cs RsBuffer_new_ok)
  then show ?thesis by (auto simp: cs)
qed

end
