(* ===== verification/Thread_Classes.thy ===== *)
theory Thread_Classes
  imports Rs_Thread Listeners Timer Sp_Cs Sp_Np Sp_Client Sp_Tracker Np_Tracker
begin

text \<open>
  The eight classes that inherit from \<open>RsThread\<close>: the state each coroutine works on, and its
  \<open>loop\<close>. In all of them the four hooks of \<open>thread_loop\<close> return 0 and do nothing. What a round
  meets outside the program (a connection, a datagram, the clock) is an argument of the class.
\<close>

section \<open>The classes\<close>

definition RsTcpListener_class :: "('fd \<Rightarrow> 's \<Rightarrow> (int \<times> 's) res) \<Rightarrow> 'fd option \<Rightarrow> 's thread_class" where
  "RsTcpListener_class handle_tcp_connect accepted = loop_class (\<lambda>s.
     bindO (Some (tcp_loop handle_tcp_connect accepted s)) (\<lambda>(ret, s). Some (Inr (ret, False, s))))"

definition RsUdpListener_class :: "(NetAddress \<Rightarrow> bytes \<Rightarrow> int \<Rightarrow> 's \<Rightarrow> (int \<times> 's) res option) \<Rightarrow>
    (NetAddress \<times> bytes) option \<Rightarrow> (RsUdpListener \<times> 's) thread_class" where
  "RsUdpListener_class handle_udp_packet datagram = loop_class (\<lambda>(l, s).
     bindO (udp_loop handle_udp_packet datagram l s) (\<lambda>(ret, l, s). Some (Inr (ret, False, l, s))))"

definition RsTimer_class :: "('cb \<Rightarrow> int \<Rightarrow> 's \<Rightarrow> 's res) \<Rightarrow> int \<Rightarrow> ('cb RsTimer \<times> 's) thread_class" where
  "RsTimer_class handle now = loop_class (\<lambda>(tm, s).
     bindO (Some (check_timeout handle now tm s)) (\<lambda>(tm, s). Some (Inr (0, False, tm, s))))"

definition RsSpTrackerProtocol_class :: "spc_env \<Rightarrow> bytes option \<Rightarrow> (RsSourceManager \<times> RsSpTrackerProtocol) thread_class" where
  "RsSpTrackerProtocol_class env datagram = loop_class (\<lambda>(mgr, c).
     bindO (Some (spc_loop env datagram mgr c)) (\<lambda>(ret, c). Some (Inr (ret, False, mgr, c))))"

definition RsCsSpProtocol_class :: "cs_env \<Rightarrow> (RsCsSpProtocol \<times> RsSourceManager \<times> arrival list) thread_class" where
  "RsCsSpProtocol_class env = loop_class (\<lambda>(cs, mgr, conn).
     bindO (cs_loop env cs mgr conn) (\<lambda>(ret, cs, mgr, conn). Some (Inr (ret, False, cs, mgr, conn))))"

text \<open>The connection of a normal peer is the one that clears its \<open>loop_flag\<close>.\<close>

definition RsNpSpProtocol_class :: "np_conn_env \<Rightarrow> (int \<times> RsNpSpProtocol \<times> RsSourceManager \<times> arrival list) thread_class" where
  "RsNpSpProtocol_class env = loop_class (\<lambda>(no_receive_counter, s, mgr, conn).
     bindO (np_conn_loop env no_receive_counter s mgr conn) (\<lambda>(ret, no_receive_counter, s, conn).
     Some (Inr (ret, \<not> nsp_loop_flag s, no_receive_counter, s, mgr, conn))))"

text \<open>
  The connectors of the tracker inherit too, but work when a datagram comes: nobody starts
  their coroutines or asks for their timers.
\<close>

definition RsSpTracker_class :: "RsSpTracker thread_class" where
  "RsSpTracker_class = loop_class (\<lambda>t. Some (Inr (0, False, t)))"

definition RsNpTracker_class :: "RsNpTracker thread_class" where
  "RsNpTracker_class = loop_class (\<lambda>t. Some (Inr (0, False, t)))"

definition sp_tracker_handle_timeout :: "int \<Rightarrow> RsSpTracker \<Rightarrow> int \<times> RsSpTracker" where
  "sp_tracker_handle_timeout timerid t =
     (if timerid = TRACKER_TIMER_ID then (0, t) else if timerid = TRACKER_GET_SP_LIST_TIMER_ID then (0, t) else (0, t))"

definition np_tracker_handle_timeout :: "int \<Rightarrow> RsNpTracker \<Rightarrow> int \<times> RsNpTracker" where
  "np_tracker_handle_timeout timerid t =
     (if timerid = TRACKER_TIMER_ID then (0, t) else if timerid = TRACKER_GET_SP_LIST_TIMER_ID then (0, t) else (0, t))"

section \<open>Coroutines that never end\<close>

text \<open>A class whose \<open>loop\<close> leaves \<open>loop_flag\<close> alone runs on, whatever codes it returns.\<close>

definition never_stops :: "'s thread_class \<Rightarrow> bool" where
  "never_stops cl \<longleftrightarrow> (\<forall>t s t' s'. th_loop_flag t \<longrightarrow> thread_round cl t s = Some (Inr (t', s')) \<longrightarrow>
     th_looper t' = Between_Rounds \<and> th_loop_flag t' \<and> th_rounds t' = Suc (th_rounds t))"

lemma loop_class_never_stops:
  assumes "\<And>s r. body s = Some (Inr r) \<Longrightarrow> \<not> fst (snd r)"
  shows "never_stops (loop_class body)"
  using assms by (fastforce simp: never_stops_def loop_class_round bindO_Inr test_loop_flag_def)

lemma classes_never_stop:
  "never_stops (RsTcpListener_class tcp_handle accepted)" "never_stops (RsUdpListener_class udp_handle datagram)"
  "never_stops (RsTimer_class handle now)" "never_stops (RsSpTrackerProtocol_class spc_env answer)"
  "never_stops (RsCsSpProtocol_class cs_env)" "never_stops RsSpTracker_class" "never_stops RsNpTracker_class"
  unfolding RsTcpListener_class_def RsUdpListener_class_def RsTimer_class_def RsSpTrackerProtocol_class_def
    RsCsSpProtocol_class_def RsSpTracker_class_def RsNpTracker_class_def
  by (rule loop_class_never_stops; auto simp: bindO_Inr)+

lemma run_rounds_never_stop:
  assumes "\<forall>cl\<in>set cls. never_stops cl" "th_loop_flag t" "th_looper t = Between_Rounds"
    and "run_rounds cls t s = Some (Inr (t', s'))"
  shows "th_looper t' = Between_Rounds \<and> th_rounds t' = th_rounds t + length cls"
  using assms
proof (induction cls arbitrary: t s)
  case (Cons cl cls)
  then obtain t1 s1 where r: "thread_round cl t s = Some (Inr (t1, s1))" "run_rounds cls t1 s1 = Some (Inr (t', s'))"
    by (auto simp: bindO_Inr)
  then have "th_looper t1 = Between_Rounds \<and> th_loop_flag t1 \<and> th_rounds t1 = Suc (th_rounds t)"
    using Cons.prems(1,2) by (auto simp: never_stops_def)
  then show ?case using Cons.IH[of t1 s1] Cons.prems(1) r(2) by auto
qed simp

section \<open>Connections that deliver nothing\<close>

text \<open>The next \<open>n\<close> reads fail: the peer has closed, or nothing comes in time.\<close>

fun dead :: "nat \<Rightarrow> arrival list \<Rightarrow> bool" where
  "dead 0 conn = True"
| "dead (Suc n) (Closed # conn) = True"
| "dead (Suc n) (Timed_Out # conn) = dead n conn"
| "dead (Suc n) (Failed # conn) = dead n conn"
| "dead (Suc n) _ = False"

lemma dead_less: "dead (Suc n) conn \<Longrightarrow> dead n conn"
  by (induction n conn rule: dead.induct) auto

lemma dead_read:
  assumes "dead (Suc n) conn"
  shows "\<exists>r ret io' conn'. st_read k conn = Some (r, conn') \<and> socket_read r io = (ret, [], io') \<and> ret \<noteq> 0 \<and> dead n conn'"
proof (cases k)
  case 0
  then show ?thesis using dead_less[OF assms] by (simp add: socket_read_def)
next
  case (Suc k)
  then show ?thesis using assms by (cases conn; cases "hd conn") (cases n; auto simp: socket_read_def)+
qed

lemma dead_fill:
  assumes "buffer_ok b" "length (unread b) < 4" "dead (Suc n) conn"
  shows "\<exists>ret b' io' conn'. fill_buffer junk 4 b io conn = Some (Inr (ret, b', io', conn')) \<and> ret \<noteq> 0 \<and>
    buffer_ok b' \<and> length (unread b') < 4 \<and> dead n conn'"
proof -
  have "current_size b < 4" using assms(2) length_unread[OF assms(1)] by simp
  then obtain b' where b: "fill_buffer junk 4 b io conn = fill_loop 4 (loop_space 4 b) b' io conn" "buffer_ok b'" "unread b' = unread b"
    using fill_buffer_loop[OF assms(1), of 4] by fastforce
  obtain r ret io' conn' where r: "st_read (nat (loop_space 4 b mod 2 ^ 64)) conn = Some (r, conn')"
    "socket_read r io = (ret, [], io')" "ret \<noteq> 0" "dead n conn'" using dead_read[OF assms(3)] by blast
  have "current_size b' < 4" using b(2,3) assms(2) length_unread by (metis of_nat_less_iff of_nat_numeral)
  then have "fill_buffer junk 4 b io conn = Some (Inr (ret, b', io', conn'))"
    using r by (simp add: b(1) fill_loop.simps)
  then show ?thesis using b r assms(2) by auto
qed

lemma dead_message:
  assumes "buffer_ok b" "length (unread b) < 4" "dead (Suc n) conn"
  shows "\<exists>ret pos b' io' conn'. next_message junk b io conn = Some (Inr (ret, pos, b', io', conn')) \<and> ret \<noteq> 0 \<and>
    buffer_ok b' \<and> length (unread b') < 4 \<and> dead n conn'"
  using dead_fill[OF assms, of junk io] by (auto simp: next_message_def)

text \<open>What every round of such a connection leaves.\<close>

definition silent :: "nat \<Rightarrow> RsBuffer \<Rightarrow> arrival list \<Rightarrow> bool" where
  "silent n b conn \<longleftrightarrow> buffer_ok b \<and> length (unread b) < 4 \<and> dead n conn"

lemma silent_np_round:
  assumes "silent (Suc n) (nsp_np_buffer s) conn" "nsp_loop_flag s" "th_loop_flag t"
  shows "\<exists>t' s' conn'. thread_round (RsNpSpProtocol_class env) t (c, s, mgr, conn) =
      Some (Inr (t', if c + 1 = 150 then 0 else c + 1, s', mgr, conn')) \<and>
    silent n (nsp_np_buffer s') conn' \<and> nsp_sent s' = nsp_sent s \<and> th_rounds t' = Suc (th_rounds t) \<and>
    (if c + 1 = 150 then th_looper t' = Ended
     else th_looper t' = Between_Rounds \<and> th_loop_flag t' \<and> nsp_loop_flag s')"
proof -
  obtain ret pos b' io' conn' where "next_message (ne_junk env) (nsp_np_buffer s) (nsp_io_socket s) conn =
      Some (Inr (ret, pos, b', io', conn'))" "ret \<noteq> 0" "silent n b' conn'"
    using dead_message[of "nsp_np_buffer s" n conn] assms(1) unfolding silent_def by blast
  then show ?thesis
    using assms(2,3)
    by (cases pos) (simp add: RsNpSpProtocol_class_def loop_class_round np_conn_loop_def test_loop_flag_def)
qed

lemma silent_cs_round:
  assumes "silent (Suc n) (cs_buffer cs) conn" "th_loop_flag t"
  shows "\<exists>t' cs' conn'. thread_round (RsCsSpProtocol_class env) t (cs, mgr, conn) = Some (Inr (t', cs', mgr, conn')) \<and>
    silent n (cs_buffer cs') conn' \<and> th_rounds t' = Suc (th_rounds t) \<and> th_looper t' = Between_Rounds \<and> th_loop_flag t'"
proof -
  obtain ret pos b' io' conn' where "next_message (ce_junk env) (cs_buffer cs) (cs_io_socket cs) conn =
      Some (Inr (ret, pos, b', io', conn'))" "ret \<noteq> 0" "silent n b' conn'"
    using dead_message[of "cs_buffer cs" n conn] assms(1) unfolding silent_def by blast
  then show ?thesis
    using assms(2) by (cases pos) (simp add: RsCsSpProtocol_class_def loop_class_round cs_loop_def test_loop_flag_def)
qed

lemma silent_cs_rounds:
  assumes "silent (length envs) (cs_buffer cs) conn" "th_loop_flag t" "th_looper t = Between_Rounds"
  shows "\<exists>t' cs' conn'. run_rounds (map RsCsSpProtocol_class envs) t (cs, mgr, conn) = Some (Inr (t', cs', mgr, conn')) \<and>
    th_looper t' = Between_Rounds \<and> th_rounds t' = th_rounds t + length envs"
  using assms
proof (induction envs arbitrary: t cs conn)
  case (Cons env envs)
  obtain t1 cs1 conn1 where r: "thread_round (RsCsSpProtocol_class env) t (cs, mgr, conn) = Some (Inr (t1, cs1, mgr, conn1))"
    "silent (length envs) (cs_buffer cs1) conn1" "th_rounds t1 = Suc (th_rounds t)" "th_looper t1 = Between_Rounds" "th_loop_flag t1"
    using silent_cs_round[of "length envs" cs conn t env mgr] Cons.prems(1,2) by auto
  then show ?case using Cons.IH[OF r(2,5,4)] Cons.prems(3) by auto
qed simp

lemma silent_np_rounds:
  assumes "silent (length envs) (nsp_np_buffer s) conn" "nsp_loop_flag s" "th_loop_flag t" "th_looper t = Between_Rounds"
    and "0 \<le> c" "c + int (length envs) \<le> 150" "0 < length envs"
  shows "\<exists>t' s' conn'. run_rounds (map RsNpSpProtocol_class envs) t (c, s, mgr, conn) =
      Some (Inr (t', (c + int (length envs)) mod 150, s', mgr, conn')) \<and> nsp_sent s' = nsp_sent s \<and>
    th_rounds t' = th_rounds t + length envs \<and>
    th_looper t' = (if c + int (length envs) = 150 then Ended else Between_Rounds)"
  using assms
proof (induction envs arbitrary: t s conn c)
  case (Cons env envs)
  obtain t1 s1 conn1 where r: "thread_round (RsNpSpProtocol_class env) t (c, s, mgr, conn) =
      Some (Inr (t1, if c + 1 = 150 then 0 else c + 1, s1, mgr, conn1))"
    "silent (length envs) (nsp_np_buffer s1) conn1" "nsp_sent s1 = nsp_sent s" "th_rounds t1 = Suc (th_rounds t)"
    "if c + 1 = 150 then th_looper t1 = Ended else th_looper t1 = Between_Rounds \<and> th_loop_flag t1 \<and> nsp_loop_flag s1"
    using silent_np_round[of "length envs" s conn t env c mgr] Cons.prems(1,2,3) by auto
  show ?case
  proof (cases "envs = []")
    case True
    then show ?thesis using r Cons.prems(4-6) by (auto simp: mod_pos_pos_trivial)
  next
    case False
    then have c: "c + 1 \<noteq> 150" "c + 1 + int (length envs) \<le> 150" "0 < length envs" "0 \<le> c + 1"
      using Cons.prems(5,6) by (cases envs; simp)+
    then have "th_looper t1 = Between_Rounds" "th_loop_flag t1" "nsp_loop_flag s1"
      using r(5) unfolding if_not_P[OF c(1)] by simp_all
    from Cons.IH[OF r(2) this(3,2,1) c(4,2,3)] show ?thesis
      using r c(1) Cons.prems(4) by (auto simp: algebra_simps)
  qed
qed simp

text \<open>
  C17. What becomes of a connection whose peer is gone, before the bytes of a next message.
  With a normal peer the coroutine counts the failing rounds: from \<open>c\<close> it runs through exactly
  the rounds up to 150, sending nothing, then ends and leaves the counter at 0, which the next
  connection goes on with. With a capture server the coroutine never ends, however many rounds
  pass, and no channel changes.
\<close>

theorem dead_connections:
  assumes "th_loop_flag t" "th_looper t = Between_Rounds"
    and "silent (length envs) (nsp_np_buffer s) conn" "nsp_loop_flag s"
    and "0 \<le> c" "0 < length envs" "c + int (length envs) \<le> 150"
    and "silent (length cs_envs) (cs_buffer cs) cs_conn"
  shows "(\<exists>t' s' conn'. run_rounds (map RsNpSpProtocol_class envs) t (c, s, mgr, conn) =
        Some (Inr (t', (c + int (length envs)) mod 150, s', mgr, conn')) \<and> nsp_sent s' = nsp_sent s \<and>
      th_looper t' = (if c + int (length envs) = 150 then Ended else Between_Rounds)) \<and>
    (\<exists>t' cs' conn'. run_rounds (map RsCsSpProtocol_class cs_envs) t (cs, mgr, cs_conn) = Some (Inr (t', cs', mgr, conn')) \<and>
      th_looper t' = Between_Rounds)"
  using silent_np_rounds[OF assms(3,4,1,2,5,7,6), of mgr] silent_cs_rounds[OF assms(8,1,2), of mgr] by blast

text \<open>A new connection that closes at once, when 147 failing rounds had been counted elsewhere.\<close>

definition sample_thread :: RsThread where
  "sample_thread = (RsThread_new False False False)\<lparr>th_loop_flag := True, th_looper := Between_Rounds\<rparr>"

theorem dead_connections_witness:
  "\<exists>t s conn. run_rounds (replicate 3 (RsNpSpProtocol_class \<lparr>ne_tv = None, ne_junk = \<lambda>_. 0, ne_write = \<lambda>_. Write_Failure\<rparr>))
      sample_thread (147, RsNpSpProtocol_new (\<lambda>_. 0) [], RsSourceManager_new, [Closed]) =
        Some (Inr (t, 0, s, RsSourceManager_new, conn)) \<and> th_looper t = Ended"
proof -
  let ?env = "\<lparr>ne_tv = None, ne_junk = \<lambda>_. 0, ne_write = \<lambda>_. Write_Failure\<rparr> :: np_conn_env"
  let ?s = "RsNpSpProtocol_new (\<lambda>_. 0) []" and ?cs = "RsCsSpProtocol_new (\<lambda>_. 0) sample_hash []"
  have "silent (length (replicate 3 ?env)) (nsp_np_buffer ?s) [Closed]" "nsp_loop_flag ?s"
    "silent (length ([] :: cs_env list)) (cs_buffer ?cs) []" "th_loop_flag sample_thread" "th_looper sample_thread = Between_Rounds"
    by (simp_all add: silent_def RsNpSpProtocol_new_def RsCsSpProtocol_new_def RsBuffer_new_ok numeral_3_eq_3 sample_thread_def)
  from dead_connections[OF this(4,5,1,2) _ _ _ this(3), of 147 RsSourceManager_new] show ?thesis by auto
qed

end
