(* ===== verification/Channel_File.thy ===== *)
theory Channel_File
  imports Source_Manager C_String
begin

text \<open>
  \<open>RsSourceManager::write_source_channel_list_txt\<close>: once a second a super peer writes the
  channels it is the source of to a text file, each formatted into 512 bytes first. A string
  of the code ends at its first zero byte. \<open>opened\<close> and \<open>wrote\<close> are the results of \<open>fopen\<close>
  and \<open>fwrite\<close>.
\<close>

definition channel_line :: "bytes \<Rightarrow> RsBufferQueue \<Rightarrow> bytes" where
  "channel_line tracker_address q =
     (let name = until_zero (bq_source_name q)
      in chars ''Name: '' @ name @ [13, 10] @ chars ''URL: myseelitetest://'' @ until_zero tracker_address @ [47] @
         until_zero (md5_hash (bq_source_hash q)) @ [47] @ name @ [13, 10] @ chars ''Start: '' @ format_d (bq_create_time q) @ [13, 10])"

fun write_channels :: "(bytes \<Rightarrow> nat) \<Rightarrow> bytes \<Rightarrow> (MD5_Hash_Str, RsBufferQueue) cmap \<Rightarrow> bytes \<Rightarrow> (int \<times> bytes) res" where
  "write_channels wrote tracker_address [] written = Inr (0, written)"
| "write_channels wrote tracker_address ((k, q) # m) written =
     (if bq_is_source q then
        let temp = channel_line tracker_address q
        in bindE (guardE Out_Of_Bounds (length temp + 1 \<le> 512)) (\<lambda>_.
           if wrote temp \<noteq> length temp then Inr (-1, written @ take (wrote temp) temp)
           else write_channels wrote tracker_address m (written @ temp))
      else write_channels wrote tracker_address m written)"

definition write_source_channel_list_txt :: "bool \<Rightarrow> (bytes \<Rightarrow> nat) \<Rightarrow> RsSourceManager \<Rightarrow> (int \<times> bytes) res" where
  "write_source_channel_list_txt opened wrote mgr =
     (if \<not> opened then Inr (-1, [])
      else write_channels wrote (sm_tracker_address mgr) (sm_source_hashmap mgr) [])"

text \<open>With a disk that takes everything: the lines of the sources, as long as they all fit.\<close>

lemma write_channels_lines:
  assumes "\<forall>(k, q)\<in>set m. bq_is_source q \<longrightarrow> length (channel_line addr q) < 512"
  shows "write_channels length addr m written = Inr (0, written @ concat (map (\<lambda>(k, q). channel_line addr q) (filter (bq_is_source \<circ> snd) m)))"
  using assms by (induction m arbitrary: written) (auto simp: Let_def)

lemma write_channels_overflow:
  assumes "(k, q) \<in> set m" "bq_is_source q" "512 \<le> length (channel_line addr q)"
  shows "write_channels length addr m written = Inl Out_Of_Bounds"
  using assms by (induction m arbitrary: written) (auto simp: Let_def guardE_def)

lemma channel_list_written:
  "write_source_channel_list_txt True length mgr =
    (let sources = map snd (filter (bq_is_source \<circ> snd) (sm_source_hashmap mgr))
     in if \<forall>q\<in>set sources. length (channel_line (sm_tracker_address mgr) q) < 512
        then Inr (0, concat (map (channel_line (sm_tracker_address mgr)) sources))
        else Inl Out_Of_Bounds)"
proof (cases "\<forall>(k, q)\<in>set (sm_source_hashmap mgr). bq_is_source q \<longrightarrow> length (channel_line (sm_tracker_address mgr) q) < 512")
  case True
  then show ?thesis
    using write_channels_lines[OF True, of "[]"]
    by (auto simp: write_source_channel_list_txt_def Let_def comp_def case_prod_unfold)
next
  case False
  then obtain k q where "(k, q) \<in> set (sm_source_hashmap mgr)" "bq_is_source q"
    "512 \<le> length (channel_line (sm_tracker_address mgr) q)" by fastforce
  then show ?thesis
    using write_channels_overflow[of k q "sm_source_hashmap mgr" "sm_tracker_address mgr" "[]"]
    by (auto simp: write_source_channel_list_txt_def Let_def not_less)
qed

end
