(* ===== verification/Managers.thy ===== *)
theory Managers
  imports Thread_Classes Channel_File
begin

text \<open>
  \<open>app/\<close>: the managers that own the listeners and connectors, and the loop of the servers. The
  tracker process is its two listeners, its two connectors (null until \<open>start_listener\<close> has
  made them) and the table of super peers, a singleton both connectors use: a connector holds
  it for the time of one packet.
\<close>

section \<open>The tracker\<close>

record tracker_process =
  tp_streams :: RsTrackerStreamManager
  tp_sp_listener :: RsUdpListener
  tp_sp_tracker :: "RsSpTracker option"
  tp_np_listener :: RsUdpListener
  tp_np_tracker :: "RsNpTracker option"

definition sp_manager_handle :: "env \<Rightarrow> NetAddress \<Rightarrow> bytes \<Rightarrow> int \<Rightarrow> tracker_process \<Rightarrow> (int \<times> tracker_process) res option" where
  "sp_manager_handle env from buf nb_buf p =
     (case tp_sp_tracker p of None \<Rightarrow> Some (Inl Null_Pointer)
      | Some t \<Rightarrow>
          bindO (Some (sp_handle_udp_packet env from buf nb_buf (t\<lparr>spt_mgr := tp_streams p\<rparr>))) (\<lambda>(_, t).
          Some (Inr (0, p\<lparr>tp_sp_tracker := Some t, tp_streams := spt_mgr t\<rparr>))))"

definition np_manager_handle :: "nat \<Rightarrow> np_env \<Rightarrow> NetAddress \<Rightarrow> bytes \<Rightarrow> int \<Rightarrow> tracker_process \<Rightarrow> (int \<times> tracker_process) res option" where
  "np_manager_handle fuel env from buf nb_buf p =
     (case tp_np_tracker p of None \<Rightarrow> Some (Inl Null_Pointer)
      | Some t \<Rightarrow>
          bindO (np_handle_udp_packet fuel env from buf nb_buf (t\<lparr>npt_sp_mgr := tp_streams p\<rparr>)) (\<lambda>(_, t).
          Some (Inr (0, p\<lparr>tp_np_tracker := Some t, tp_streams := npt_sp_mgr t\<rparr>))))"

text \<open>\<open>start_listener\<close> of the managers: the listener first, then the connector.\<close>

definition sp_start_listener :: "sys_calls \<Rightarrow> RsUdpListener \<Rightarrow> NetAddress \<Rightarrow> tracker_process \<Rightarrow> int \<times> tracker_process" where
  "sp_start_listener sys listener junk p =
     (let (_, l) = udp_start_listen sys listener
      in (0, p\<lparr>tp_sp_listener := l, tp_sp_tracker := Some (RsSpTracker_new junk)\<rparr>))"

definition np_start_listener :: "sys_calls \<Rightarrow> RsUdpListener \<Rightarrow> NetAddress \<Rightarrow> u32 \<Rightarrow> tracker_process \<Rightarrow> int \<times> tracker_process" where
  "np_start_listener sys listener junk junk_size p =
     (let (_, l) = udp_start_listen sys listener
      in (0, p\<lparr>tp_np_listener := l, tp_np_tracker := Some (RsNpTracker_new junk junk_size)\<rparr>))"

text \<open>\<open>main\<close> of the tracker, up to the loop of the server.\<close>

definition tracker_main :: "sys_calls \<Rightarrow> sys_calls \<Rightarrow> RsUdpListener \<Rightarrow> RsUdpListener \<Rightarrow> NetAddress \<Rightarrow> NetAddress \<Rightarrow> u32 \<Rightarrow> tracker_process" where
  "tracker_main sys\<^sub>1 sys\<^sub>2 l\<^sub>1 l\<^sub>2 junk\<^sub>1 junk\<^sub>2 junk_size =
     (let p = \<lparr>tp_streams = RsTrackerStreamManager_new, tp_sp_listener = l\<^sub>1, tp_sp_tracker = None,
           tp_np_listener = l\<^sub>2, tp_np_tracker = None\<rparr>;
          (_, p) = sp_start_listener sys\<^sub>1 l\<^sub>1 junk\<^sub>1 p;
          (_, p) = np_start_listener sys\<^sub>2 l\<^sub>2 junk\<^sub>2 junk_size p
      in p)"

text \<open>What happens to the process: a round of one listener or the other.\<close>

datatype tracker_event =
    Sp_Round env "(NetAddress \<times> bytes) option"
  | Np_Round nat np_env "(NetAddress \<times> bytes) option"

fun tracker_round :: "tracker_event \<Rightarrow> tracker_process \<Rightarrow> tracker_process res option" where
  "tracker_round (Sp_Round env datagram) p =
     bindO (udp_loop (sp_manager_handle env) datagram (tp_sp_listener p) p) (\<lambda>(_, l, p).
     Some (Inr (p\<lparr>tp_sp_listener := l\<rparr>)))"
| "tracker_round (Np_Round fuel env datagram) p =
     bindO (udp_loop (np_manager_handle fuel env) datagram (tp_np_listener p) p) (\<lambda>(_, l, p).
     Some (Inr (p\<lparr>tp_np_listener := l\<rparr>)))"

fun tracker_rounds :: "tracker_event list \<Rightarrow> tracker_process \<Rightarrow> tracker_process res option" where
  "tracker_rounds [] p = Some (Inr p)"
| "tracker_rounds (e # es) p = bindO (tracker_round e p) (tracker_rounds es)"

definition process_ok :: "tracker_process \<Rightarrow> bool" where
  "process_ok p \<longleftrightarrow> table_ok (tp_streams p) \<and> udp_ok (tp_sp_listener p) \<and> udp_ok (tp_np_listener p) \<and>
     tp_sp_tracker p \<noteq> None \<and> (\<exists>t. tp_np_tracker p = Some t \<and> np_table_ok (npt_np_mgr t))"

lemma sp_manager_handle_keeps:
  assumes "sp_manager_handle env from buf n p = Some (Inr (code, p'))" "process_ok p"
  shows "process_ok p'"
proof -
  obtain t t' ret where t: "tp_sp_tracker p = Some t"
    "sp_handle_udp_packet env from buf n (t\<lparr>spt_mgr := tp_streams p\<rparr>) = Inr (ret, t')"
    "p' = p\<lparr>tp_sp_tracker := Some t', tp_streams := spt_mgr t'\<rparr>"
    using assms(1) by (auto simp: sp_manager_handle_def bindO_Inr split: option.splits)
  have "table_ok (spt_mgr t')"
    using sp_handle_udp_packet_keeps[OF _ t(2)] assms(2) by (simp add: process_ok_def)
  then show ?thesis using assms(2) t(3) by (simp add: process_ok_def)
qed

lemma np_manager_handle_keeps:
  assumes "np_manager_handle fuel env from buf n p = Some (Inr (code, p'))" "process_ok p"
  shows "process_ok p'"
proof -
  obtain t t' ret where t: "tp_np_tracker p = Some t" "np_table_ok (npt_np_mgr t)"
    "np_handle_udp_packet fuel env from buf n (t\<lparr>npt_sp_mgr := tp_streams p\<rparr>) = Some (Inr (ret, t'))"
    "p' = p\<lparr>tp_np_tracker := Some t', tp_streams := npt_sp_mgr t'\<rparr>"
    using assms by (auto simp: np_manager_handle_def bindO_Inr process_ok_def split: option.splits)
  have "npt_sp_mgr t' = tp_streams p \<and> np_table_ok (npt_np_mgr t')"
    using np_handle_udp_packet_kept[OF t(3)] t(2) by (auto simp: kept_def)
  then show ?thesis using assms(2) t(4) by (simp add: process_ok_def)
qed

lemma tracker_round_keeps: "tracker_round e p = Some (Inr p') \<Longrightarrow> process_ok p \<Longrightarrow> process_ok p'"
proof (cases e)
  case (Sp_Round env datagram)
  assume "tracker_round e p = Some (Inr p')" "process_ok p"
  then obtain ret l p1 where r: "udp_loop (sp_manager_handle env) datagram (tp_sp_listener p) p = Some (Inr (ret, l, p1))"
    "p' = p1\<lparr>tp_sp_listener := l\<rparr>" using Sp_Round by (auto simp: bindO_Inr)
  have "udp_ok l" "p1 = p \<or> (\<exists>from buf n code. sp_manager_handle env from buf n p = Some (Inr (code, p1)))"
    using udp_loop_keeps[OF _ r(1)] \<open>process_ok p\<close> by (auto simp: process_ok_def)
  moreover from this have "process_ok p1" using sp_manager_handle_keeps \<open>process_ok p\<close> by blast
  ultimately show "process_ok p'" using r(2) by (simp add: process_ok_def)
next
  case (Np_Round fuel env datagram)
  assume "tracker_round e p = Some (Inr p')" "process_ok p"
  then obtain ret l p1 where r: "udp_loop (np_manager_handle fuel env) datagram (tp_np_listener p) p = Some (Inr (ret, l, p1))"
    "p' = p1\<lparr>tp_np_listener := l\<rparr>" using Np_Round by (auto simp: bindO_Inr)
  have "udp_ok l" "p1 = p \<or> (\<exists>from buf n code. np_manager_handle fuel env from buf n p = Some (Inr (code, p1)))"
    using udp_loop_keeps[OF _ r(1)] \<open>process_ok p\<close> by (auto simp: process_ok_def)
  moreover from this have "process_ok p1" using np_manager_handle_keeps \<open>process_ok p\<close> by blast
  ultimately show "process_ok p'" using r(2) by (simp add: process_ok_def)
qed

lemma tracker_main_starts:
  "tracker_main sys\<^sub>1 sys\<^sub>2 l\<^sub>1 l\<^sub>2 junk\<^sub>1 junk\<^sub>2 junk_size =
    \<lparr>tp_streams = RsTrackerStreamManager_new, tp_sp_listener = snd (udp_start_listen sys\<^sub>1 l\<^sub>1),
     tp_sp_tracker = Some (RsSpTracker_new junk\<^sub>1), tp_np_listener = snd (udp_start_listen sys\<^sub>2 l\<^sub>2),
     tp_np_tracker = Some (RsNpTracker_new junk\<^sub>2 junk_size)\<rparr>"
  by (simp add: tracker_main_def sp_start_listener_def np_start_listener_def case_prod_unfold Let_def)

lemma start_udp_ok: "udp_ok l \<Longrightarrow> udp_ok (snd (udp_start_listen sys l))"
  by (auto simp: udp_start_listen_def udp_ok_def Let_def)

lemma RsUdpListener_new_ok: "udp_ok (RsUdpListener_new th j)"
  by (simp add: udp_ok_def RsUdpListener_new_def)

lemma tracker_main_ok:
  "process_ok (tracker_main sys\<^sub>1 sys\<^sub>2 (RsUdpListener_new th\<^sub>1 j\<^sub>1) (RsUdpListener_new th\<^sub>2 j\<^sub>2) a\<^sub>1 a\<^sub>2 b)"
  by (simp add: process_ok_def tracker_main_starts start_udp_ok RsUdpListener_new_ok table_ok_def np_table_ok_def
      RsTrackerStreamManager_new_def RsNpTracker_new_def RsTrackerNpCoordinator_new_def)

definition sample_sys :: sys_calls where
  "sample_sys = \<lparr>sy_socket = 3, sy_setsockopt = 0, sy_bind = 0, sy_listen = 0, sy_connect = 0, sy_opened = True, sy_created = True\<rparr>"

text \<open>A super peer registers through the listener.\<close>

lemma registration_round:
  assumes "process_ok p" "generate_uuid (e_rand env 0) (e_rand env 1) (e_rand env 2) (e_rand env 3) = Inr uuid"
  shows "\<exists>p'. tracker_round (Sp_Round env (Some (sender, register_packet port))) p = Some (Inr p') \<and>
    tp_np_tracker p' = tp_np_tracker p \<and> tp_np_listener p' = tp_np_listener p \<and> registered uuid (tp_streams p') \<noteq> None"
proof -
  let ?m = "Sp2TsRegister_new\<lparr>register_service_port := port\<rparr>"
  obtain t where p: "udp_ok (tp_sp_listener p)" "tp_sp_tracker p = Some t" "table_ok (tp_streams p)"
    using assms(1) by (auto simp: process_ok_def)
  let ?t = "t\<lparr>spt_mgr := tp_streams p, spt_last_receive_addr := sender\<rparr>"
  have len: "length (register_packet port) = 43" "register_packet port \<noteq> []"
    by (simp_all add: register_packet_def packet_def Sp2TsRegister_content_def Sp2TsRegister_new_def)
  obtain l' rest where loop: "udp_loop (sp_manager_handle env) (Some (sender, register_packet port)) (tp_sp_listener p) p =
      bindO (sp_manager_handle env sender (register_packet port @ rest) 43 p)
        (\<lambda>(code, s). Some (Inr (if code \<noteq> 0 then 1 else 0, l', s)))"
    using udp_loop_handles[OF p(1), of "register_packet port" "sp_manager_handle env" sender p] len by fastforce
  have small: "5 + int (length (Sp2TsRegister_content ?m)) < 2 ^ 31"
    by (simp add: Sp2TsRegister_content_def Sp2TsRegister_new_def)
  have "table_ok (spt_mgr ?t)" using p(3) by simp
  from get_register_packet[OF register_wf this assms(2), of port rest] obtain t' where
    "get_register env (Sp2TsRegister_content ?m @ rest) (int (length (Sp2TsRegister_content ?m))) ?t = Inr t'"
    "registered uuid (spt_mgr t') \<noteq> None" by (fastforce intro: mapstr.equiv_refl)
  from this(1) have "sp_manager_handle env sender (register_packet port @ rest) 43 p =
      Some (Inr (0, p\<lparr>tp_sp_tracker := Some t', tp_streams := spt_mgr t'\<rparr>))"
    using sp_dispatch[OF _ small, of 43 env sender SP2TS_REGISTER rest]
    by (simp add: sp_manager_handle_def p register_packet_def Let_def)
  then show ?thesis using \<open>registered uuid (spt_mgr t') \<noteq> None\<close> by (simp add: loop)
qed

lemma sample_uuid_made: "\<exists>uuid. generate_uuid (e_rand sample_env 0) (e_rand sample_env 1) (e_rand sample_env 2) (e_rand sample_env 3) = Inr uuid"
  by (simp add: sample_env_def generate_uuid_iff)

text \<open>A datagram handled before the connector is made goes through a null pointer.\<close>

lemma early_datagram:
  "tp_sp_tracker p = None \<Longrightarrow> sp_manager_handle env from buf n p = Some (Inl Null_Pointer)"
  "tp_np_tracker p = None \<Longrightarrow> np_manager_handle fuel env' from buf n p = Some (Inl Null_Pointer)"
  by (simp_all add: sp_manager_handle_def np_manager_handle_def)

section \<open>The super peer\<close>

text \<open>
  The objects made for accepted connections: \<open>co_heap\<close> has one entry per object, \<open>None\<close> when
  it has been destroyed; \<open>co_coroutines\<close> are the addresses of those a coroutine was made for,
  which works on the object by its address; \<open>co_owned\<close> is \<open>np_sp_protocol_vector\<close>. While the
  listener's coroutine sleeps in \<open>start_thread\<close>, \<open>co_starting\<close> is the local variable of
  \<open>handle_tcp_connect\<close>: meanwhile every other coroutine may run, the new one too.
\<close>

record 'c connections =
  co_heap :: "(RsThread \<times> 'c) option list"
  co_coroutines :: "nat list"
  co_owned :: "nat list"
  co_starting :: "nat option"

text \<open>What a new thread finds in the memory the constructor leaves as it is, and whether its coroutine is made.\<close>

record thread_env =
  te_can_run :: bool
  te_terminated :: bool
  te_disposed :: bool
  te_created :: bool

text \<open>\<open>make_unique_ptr\<close>, and \<open>start_thread\<close> up to its first sleep.\<close>

definition start_object :: "thread_env \<Rightarrow> 'c \<Rightarrow> 'c connections \<Rightarrow> bool \<times> 'c connections" where
  "start_object te c conns =
     (let addr = length (co_heap conns);
          (_, th) = start_thread (te_created te) (RsThread_new (te_can_run te) (te_terminated te) (te_disposed te));
          waits = (th_starter th = Waits_Cid)
      in (waits, conns\<lparr>co_heap := co_heap conns @ [Some (th, c)],
           co_coroutines := co_coroutines conns @ (if th_looper th = Created then [addr] else []),
           co_starting := (if waits then Some addr else None)\<rparr>))"

text \<open>
  What follows \<open>start_thread\<close>, whose result is ignored. For a capture server the \<open>unique_ptr\<close> is a
  local variable: the object is destroyed at the end of the function.
\<close>

definition cs_connect_ends :: "nat \<Rightarrow> RsCsSpProtocol connections \<Rightarrow> RsCsSpProtocol connections" where
  "cs_connect_ends cs_sp_protocol conns =
     conns\<lparr>co_heap := (co_heap conns)[cs_sp_protocol := None], co_starting := None\<rparr>"

definition np_connect_ends :: "nat \<Rightarrow> RsNpSpProtocol connections \<Rightarrow> RsNpSpProtocol connections" where
  "np_connect_ends np_sp_protocol conns =
     conns\<lparr>co_owned := co_owned conns @ [np_sp_protocol], co_starting := None\<rparr>"

text \<open>\<open>handle_tcp_connect\<close> up to the first sleep, or to its end; its result is 0 either way.\<close>

definition cs_handle_tcp_connect :: "thread_env \<Rightarrow> RsCsSpProtocol \<Rightarrow> RsCsSpProtocol connections \<Rightarrow> int \<times> RsCsSpProtocol connections" where
  "cs_handle_tcp_connect te c conns =
     (let cs_sp_protocol = length (co_heap conns); (waits, conns) = start_object te c conns
      in (0, if waits then conns else cs_connect_ends cs_sp_protocol conns))"

definition np_handle_tcp_connect :: "thread_env \<Rightarrow> RsNpSpProtocol \<Rightarrow> RsNpSpProtocol connections \<Rightarrow> int \<times> RsNpSpProtocol connections" where
  "np_handle_tcp_connect te c conns =
     (let np_sp_protocol = length (co_heap conns); (waits, conns) = start_object te c conns
      in (0, if waits then conns else np_connect_ends np_sp_protocol conns))"

definition object_at :: "nat \<Rightarrow> 'c connections \<Rightarrow> (RsThread \<times> 'c) res" where
  "object_at addr conns = (case co_heap conns ! addr of None \<Rightarrow> Inl Use_After_Free | Some obj \<Rightarrow> Inr obj)"

text \<open>The listener's coroutine is resumed in \<open>start_thread\<close>: it sleeps again or goes on.\<close>

definition start_resumes :: "(nat \<Rightarrow> 'c connections \<Rightarrow> 'c connections) \<Rightarrow> 'c connections \<Rightarrow> 'c connections res" where
  "start_resumes connect_ends conns =
     (case co_starting conns of
        None \<Rightarrow> Inr conns
      | Some addr \<Rightarrow>
          bindE (object_at addr conns) (\<lambda>(th, c).
          let th = starter_resumes th;
              conns = conns\<lparr>co_heap := (co_heap conns)[addr := Some (th, c)]\<rparr>
          in Inr (if th_starter th = Waits_Cid then conns else connect_ends addr conns)))"

text \<open>The coroutine of the object at an address is resumed.\<close>

definition cs_conn_round :: "cs_env \<Rightarrow> nat \<Rightarrow> RsCsSpProtocol connections \<Rightarrow> RsSourceManager \<Rightarrow> arrival list \<Rightarrow>
    (RsCsSpProtocol connections \<times> RsSourceManager \<times> arrival list) res option" where
  "cs_conn_round env addr conns mgr conn =
     bindO (Some (object_at addr conns)) (\<lambda>(th, c).
     bindO (thread_resumes (RsCsSpProtocol_class env) th (c, mgr, conn)) (\<lambda>(th, c, mgr, conn).
     Some (Inr (conns\<lparr>co_heap := (co_heap conns)[addr := Some (th, c)]\<rparr>, mgr, conn))))"

definition np_conn_round :: "np_conn_env \<Rightarrow> nat \<Rightarrow> int \<Rightarrow> RsNpSpProtocol connections \<Rightarrow> RsSourceManager \<Rightarrow> arrival list \<Rightarrow>
    (int \<times> RsNpSpProtocol connections \<times> RsSourceManager \<times> arrival list) res option" where
  "np_conn_round env addr no_receive_counter conns mgr conn =
     bindO (Some (object_at addr conns)) (\<lambda>(th, c).
     bindO (thread_resumes (RsNpSpProtocol_class env) th (no_receive_counter, c, mgr, conn)) (\<lambda>(th, no_receive_counter, c, mgr, conn).
     Some (Inr (no_receive_counter, conns\<lparr>co_heap := (co_heap conns)[addr := Some (th, c)]\<rparr>, mgr, conn))))"

text \<open>
  Once the coroutine of a capture server's connection has begun, \<open>start_thread\<close> returns at the
  next resumption of the listener, and from then on that coroutine works on an object that is
  gone. The coroutine of a normal peer keeps its object.
\<close>

lemma cs_connection_dangles:
  assumes "co_starting conns = Some addr" "object_at addr conns = Inr (th, c)" "0 \<le> th_cid th" "addr < length (co_heap conns)"
  shows "\<exists>conns'. start_resumes cs_connect_ends conns = Inr conns' \<and> co_starting conns' = None \<and>
    cs_conn_round env addr conns' mgr conn = Some (Inl Use_After_Free)"
proof -
  obtain conns' where "start_resumes cs_connect_ends conns = Inr conns'" "co_starting conns' = None" "co_heap conns' ! addr = None"
    using assms by (simp add: start_resumes_def cs_connect_ends_def starter_resumes_def)
  then show ?thesis by (simp add: cs_conn_round_def object_at_def)
qed

lemma np_connection_lives:
  assumes "co_starting conns = Some addr" "object_at addr conns = Inr (th, c)" "0 \<le> th_cid th" "addr < length (co_heap conns)"
  shows "\<exists>conns'. start_resumes np_connect_ends conns = Inr conns' \<and> co_starting conns' = None \<and>
    co_owned conns' = co_owned conns @ [addr] \<and> object_at addr conns' = Inr (th\<lparr>th_can_run := True, th_starter := Has_Started\<rparr>, c)"
  using assms by (simp add: start_resumes_def np_connect_ends_def starter_resumes_def object_at_def)

text \<open>\<open>SpTrackerManager::start_connect\<close> ignores the result of connecting.\<close>

definition sp_start_connect :: "(nat \<Rightarrow> u8) \<Rightarrow> sys_calls \<Rightarrow> 'cb \<Rightarrow> 'cb RsTimer \<Rightarrow> (int \<times> 'cb RsTimer \<times> RsSpTrackerProtocol) res" where
  "sp_start_connect junk sys this tm =
     bindE (start_connect (fst (socket_connect sys)) this tm (RsSpTrackerProtocol_new junk)) (\<lambda>(_, tm, c). Inr (0, tm, c))"

text \<open>If connecting fails the timers run all the same, and the first one to fire writes through null.\<close>

lemma unconnected_timeout_faults:
  assumes "sp_start_connect junk sys this tm = Inr (ret, tm', c)" "fst (socket_connect sys) \<noteq> 0"
  shows "ret = 0 \<and> tm_vector tm' = tm_vector tm @ [
      \<lparr>ti_timeout = 1000, ti_timerid = 0, ti_last_signal_time = 0, ti_callback = this\<rparr>,
      \<lparr>ti_timeout = 50000, ti_timerid = 1, ti_last_signal_time = 0, ti_callback = this\<rparr>] \<and>
    spc_handle_timeout env mgr timerid c = Inl Null_Pointer"
  using assms
  by (auto simp: sp_start_connect_def start_connect_def add_timer_def spc_handle_timeout_def spc_send_register_sends
      RsSpTrackerProtocol_new_def Let_def)

section \<open>The loop of the servers\<close>

datatype ServerType = SUPER_PEER | TRACKER

text \<open>One round: the clock is read and a super peer writes its channel file, whose result is ignored.\<close>

definition server_round :: "ServerType \<Rightarrow> (int \<times> int) option \<Rightarrow> bool \<Rightarrow> (bytes \<Rightarrow> nat) \<Rightarrow> RsSourceManager \<Rightarrow> SystemTime \<Rightarrow>
    (SystemTime \<times> bytes option) res" where
  "server_round servertype tv opened wrote mgr clock =
     (let (_, clock) = update_system_time_ms tv clock
      in case servertype of
           SUPER_PEER \<Rightarrow> bindE (write_source_channel_list_txt opened wrote mgr) (\<lambda>(_, txt). Inr (clock, Some txt))
         | TRACKER \<Rightarrow> Inr (clock, None))"

end
