(* ===== verification/Message_Props.thy ===== *)
theory Message_Props
  imports Messages_Sp Messages_Np
begin

text \<open>
  The contract of the messages: what is packed is the documented packet, and what is parsed
  from it is the message; and what the classes that break the contract do.
\<close>

definition sample_uuid :: bytes where "sample_uuid = replicate UUID_LENGTH 7"
definition sample_md5 :: bytes where "sample_md5 = replicate MD5_LEN 9"

lemma sample_lengths [simp]: "length sample_uuid = UUID_LENGTH" "length sample_md5 = MD5_LEN"
  by (simp_all add: sample_uuid_def sample_md5_def)

text \<open>
  C22. Every message between super peer and tracker is delivered: \<open>pack\<close> fills its buffer
  with exactly the documented packet, without a fault, and \<open>parse\<close> on the receiving side
  recovers every member, whatever follows the packet in the receive buffer.
\<close>

theorem sp_tracker_messages_delivered:
  "(Sp2TsRegister_wf a \<longrightarrow> delivered SP2TS_REGISTER Sp2TsRegister_content Sp2TsRegister_reserve
      Sp2TsRegister_submsg Sp2TsRegister_parse a) \<and>
   (Ts2SpWelcome_wf b \<longrightarrow> delivered TS2SP_WELCOME welcome_uuid Ts2SpWelcome_reserve
      Ts2SpWelcome_submsg Ts2SpWelcome_parse b) \<and>
   (Ts2SpSpList_wf c \<longrightarrow> delivered TS2SP_SP_LIST Ts2SpSpList_content Ts2SpSpList_reserve
      Ts2SpSpList_submsg (Ts2SpSpList_parse \<lparr>splist_count = junk, splist_addr = []\<rparr>) c) \<and>
   (Sp2TsSpList_wf d \<longrightarrow> delivered SP2TS_GET_SP getsp_uuid Sp2TsSpList_reserve
      Sp2TsSpList_submsg Sp2TsSpList_parse d) \<and>
   (Sp2TsResList_wf e \<longrightarrow> delivered SP2TS_RES_LIST Sp2TsResList_content Sp2TsResList_reserve
      Sp2TsResList_submsg Sp2TsResList_parse e) \<and>
   (Sp2TsStatus_wf f \<longrightarrow> delivered SP2TS_STATUS Sp2TsStatus_content Sp2TsStatus_reserve
      Sp2TsStatus_submsg Sp2TsStatus_parse f)"
  using sp2ts_register.roundtrip ts2spwelcome.roundtrip ts2sp_sp_list.roundtrip sp2tssplist.roundtrip
    sp2ts_res_list.roundtrip sp2ts_status.roundtrip
  by blast

definition sample_res_list :: Sp2TsResList where
  "sample_res_list = \<lparr>reslist_uuid = sample_uuid, reslist_count = 1,
     reslist_info = [\<lparr>res_md5 = sample_md5, res_block_interval = \<lparr>bi_start = 3, bi_size = 4\<rparr>\<rparr>]\<rparr>"

lemma sp_tracker_messages_delivered_witness:
  "delivered SP2TS_REGISTER Sp2TsRegister_content Sp2TsRegister_reserve Sp2TsRegister_submsg
     Sp2TsRegister_parse Sp2TsRegister_new \<and>
   delivered SP2TS_RES_LIST Sp2TsResList_content Sp2TsResList_reserve Sp2TsResList_submsg
     Sp2TsResList_parse sample_res_list"
proof -
  have "Sp2TsRegister_wf Sp2TsRegister_new" "Sp2TsResList_wf sample_res_list"
    by (simp_all add: Sp2TsRegister_wf_def Sp2TsRegister_new_def Sp2TsResList_wf_def sample_res_list_def)
  then show ?thesis
    using sp_tracker_messages_delivered[of Sp2TsRegister_new undefined undefined undefined undefined sample_res_list]
    by blast
qed

text \<open>
  C23. Every message between normal peer and tracker except the report is delivered; for the
  list of peers this holds when it carries as many peers as super peers.
\<close>

theorem np_tracker_messages_delivered:
  "(Np2TsLogin_wf a \<longrightarrow> delivered NP2TS_LOGIN Np2TsLogin_content Np2TsLogin_reserve
      Np2TsLogin_submsg (Np2TsLogin_parse (ja\<lparr>login_ip_addr := []\<rparr>)) a) \<and>
   (Np2TsReqRes_wf b \<longrightarrow> delivered NP2TS_REQ_RES Np2TsReqRes_content Np2TsReqRes_reserve
      Np2TsReqRes_submsg Np2TsReqRes_parse b) \<and>
   (Np2TsNeedPeers_wf c \<longrightarrow> delivered NP2TS_NEED_PEERS Np2TsNeedPeers_content Np2TsNeedPeers_reserve
      Np2TsNeedPeers_submsg Np2TsNeedPeers_parse c) \<and>
   (Np2TsReqInterval_wf d \<longrightarrow> delivered NP2TS_RES_INTERVAL reqinterval_uuid Np2TsReqInterval_reserve
      Np2TsReqInterval_submsg Np2TsReqInterval_parse d) \<and>
   (Np2TsLogout_wf e \<longrightarrow> delivered NP2TS_LOGOUT np_logout_uuid Np2TsLogout_reserve
      Np2TsLogout_submsg Np2TsLogout_parse e) \<and>
   (Ts2NpWelcome_wf f \<longrightarrow> delivered TS2NP_WELCOME Ts2NpWelcome_content Ts2NpWelcome_reserve
      Ts2NpWelcome_submsg Ts2NpWelcome_parse f) \<and>
   (Ts2NpPeers_wf g \<and> peers_sp_list_size g = peers_peer_list_size g \<longrightarrow>
      delivered TS2NP_PEERS Ts2NpPeers_content Ts2NpPeers_reserve Ts2NpPeers_submsg
        (Ts2NpPeers_parse (jg\<lparr>peers_sp_addr := [], peers_peer_addr := []\<rparr>)) g) \<and>
   delivered TS2NP_RES_INTERVAL Ts2NpResInterval_content Ts2NpResInterval_reserve
     Ts2NpResInterval_submsg Ts2NpResInterval_parse h \<and>
   delivered TS2NP_MSG Ts2NpMsg_content Ts2NpMsg_reserve Ts2NpMsg_submsg Ts2NpMsg_parse i"
proof -
  have "Ts2NpResInterval_wf h" by (simp add: Ts2NpResInterval_wf_def)
  then show ?thesis
    using np2ts_login.roundtrip np2tsreqres.roundtrip np2tsneedpeers.roundtrip np2tsreqinterval.roundtrip
      np2tslogout.roundtrip ts2npwelcome.roundtrip ts2np_peers.roundtrip ts2npresinterval.roundtrip
      ts2npmsg.roundtrip[OF TrueI]
    by blast
qed

definition sample_login :: Np2TsLogin where
  "sample_login = \<lparr>login_id = 1, login_password = sample_md5, login_client_version = 0, login_listening_port = 80,
     login_ip_list_size = 2, login_ip_addr = [0x0100a8c0, 0x0200a8c0]\<rparr>"

lemma np_tracker_messages_delivered_witness:
  "delivered NP2TS_LOGIN Np2TsLogin_content Np2TsLogin_reserve Np2TsLogin_submsg
     (Np2TsLogin_parse (sample_login\<lparr>login_ip_addr := []\<rparr>)) sample_login"
proof -
  have "Np2TsLogin_wf sample_login" by (simp add: Np2TsLogin_wf_def sample_login_def)
  then show ?thesis
    using np_tracker_messages_delivered[of sample_login sample_login] by blast
qed

text \<open>
  C39. The media-type and block-response messages a super peer sends are the documented
  packets, and the push list it receives is recovered from the documented content.
\<close>

theorem sp_sp_messages:
  "(Sp2SpMediatype_wf m \<longrightarrow> RsMessage_pack junk (Sp2SpMediatype_reserve m) (Sp2SpMediatype_submsg m) =
      Inr (packet SP2SP_MEDIATYPE (Sp2SpMediatype_content m), Sp2SpMediatype_reserve m)) \<and>
   (Sp2SpResponse_wf r \<longrightarrow> RsMessage_pack junk (Sp2SpResponse_reserve r) (Sp2SpResponse_submsg r) =
      Inr (packet SP2SP_RESPONSE (Sp2SpResponse_content r), Sp2SpResponse_reserve r)) \<and>
   (Sp2SpPushList_wf p \<longrightarrow> avail s = Sp2SpPushList_content p @ rest \<longrightarrow>
      Sp2SpPushList_parse Sp2SpPushList_new s = Inr (p, adv (length (Sp2SpPushList_content p)) s))"
  using sp2sp_mediatype.pack_packet sp2sp_response.pack_packet sp2sp_pushlist.parse_content by blast

definition sample_response :: Sp2SpResponse where
  "sample_response = \<lparr>response_resource_md5 = sample_md5, response_block_id = 5, response_block_size = 2,
     response_block_data = [1, 2]\<rparr>"

lemma sp_sp_messages_witness:
  "RsMessage_pack (\<lambda>_. 0) (Sp2SpResponse_reserve sample_response) (Sp2SpResponse_submsg sample_response) =
   Inr (packet SP2SP_RESPONSE (Sp2SpResponse_content sample_response), Sp2SpResponse_reserve sample_response)"
proof -
  have "Sp2SpResponse_wf sample_response" by (simp add: Sp2SpResponse_wf_def sample_response_def)
  then show ?thesis using sp_sp_messages[of _ "\<lambda>_. 0" sample_response] by blast
qed

text \<open>
  A normal peer cannot send its report: for every report, packing trips the \<open>assert\<close>
  of the streamer, because the reserved size leaves out the four bytes of \<open>CorePeerInfo\<close>.
\<close>

theorem report_never_packed:
  assumes "length (report_uuid m) = UUID_LENGTH" "length (report_array m) = unat (report_interval_count m)"
  shows "RsMessage_pack junk (Np2TsReport_reserve m) (Np2TsReport_submsg m) = Inl Assertion"
  using assms by (intro Np2TsReport_pack_aborts) (simp add: Np2TsReport_wf_def)

definition sample_report :: Np2TsReport where
  "sample_report = \<lparr>report_uuid = sample_uuid, report_coreinfo = CorePeerInfo_new, report_interval_count = 0,
     report_blockinterval = None, report_transferinfo = TransferInfo_new, report_playing_block = 0,
     report_current_buffering_time = 0, report_buffered_count = 0, report_buffered_time = 0,
     report_connect_fail_count = 0, report_incoming_connection_count = 0, report_outgoing_connection_count = 0,
     report_avg_incoming_elapsed = 0, report_avg_outgoing_elapsed = 0, report_message_percent = 0\<rparr>"

lemma report_never_packed_witness:
  "RsMessage_pack (\<lambda>_. 0) (Np2TsReport_reserve sample_report) (Np2TsReport_submsg sample_report) = Inl Assertion"
  by (rule report_never_packed) (simp_all add: sample_report_def report_array_def)

text \<open>
  Nor can a fresh object parse a report that announces an interval: it stops at the
  \<open>assert\<close> when the packet ends before the first interval, and stores through the
  uninitialised pointer \<open>blockinterval\<close> otherwise.
\<close>

theorem report_interval_not_parsed:
  assumes "report_blockinterval m = None" "honest s" "21 \<le> length (avail s)" "avail s ! 20 \<noteq> 0"
  shows "Np2TsReport_parse m s = Inl (if length (avail s) < 29 then Assertion else Uninitialised)"
  using assms by (intro Np2TsReport_parse_interval)

lemma report_interval_not_parsed_witness:
  "Np2TsReport_parse sample_report (initialize (replicate 100 1) 100) = Inl Uninitialised"
  using report_interval_not_parsed[of sample_report "initialize (replicate 100 1) 100"]
  by (simp add: sample_report_def)

text \<open>
  A super peer that logs out sends a packet identical to the one that asks for the list
  of super peers.
\<close>

theorem logout_asks_for_list:
  assumes "length (sp_logout_uuid m) = UUID_LENGTH"
  shows "RsMessage_pack junk (Sp2TsLogout_reserve m) (Sp2TsLogout_submsg m) =
    RsMessage_pack junk (Sp2TsSpList_reserve \<lparr>getsp_uuid = sp_logout_uuid m\<rparr>)
      (Sp2TsSpList_submsg \<lparr>getsp_uuid = sp_logout_uuid m\<rparr>) \<and>
    RsMessage_pack junk (Sp2TsLogout_reserve m) (Sp2TsLogout_submsg m) =
      Inr (packet SP2TS_GET_SP (sp_logout_uuid m), 21)"
proof -
  have "Sp2TsLogout_wf m" "Sp2TsSpList_wf \<lparr>getsp_uuid = sp_logout_uuid m\<rparr>"
    using assms by (simp_all add: Sp2TsLogout_wf_def Sp2TsSpList_wf_def)
  then show ?thesis
    using sp2tslogout.pack_packet[of m junk] sp2tssplist.pack_packet[of "\<lparr>getsp_uuid = sp_logout_uuid m\<rparr>" junk]
    by (simp add: Sp2TsLogout_reserve_def Sp2TsSpList_reserve_def RsMessage_reserve_pack_size_def)
qed

lemma logout_asks_for_list_witness:
  "RsMessage_pack (\<lambda>_. 0) (Sp2TsLogout_reserve \<lparr>sp_logout_uuid = sample_uuid\<rparr>)
     (Sp2TsLogout_submsg \<lparr>sp_logout_uuid = sample_uuid\<rparr>) = Inr (packet SP2TS_GET_SP sample_uuid, 21)"
  using logout_asks_for_list[of "\<lparr>sp_logout_uuid = sample_uuid\<rparr>" "\<lambda>_. 0", THEN conjunct2] by simp

text \<open>
  C40. The list of peers faults whenever it carries fewer peers than super peers: packing
  reads past the array of peers.
\<close>

theorem peers_with_fewer_peers_fault:
  assumes "Ts2NpPeers_wf m" "unat (peers_peer_list_size m) < unat (peers_sp_list_size m)"
  shows "\<exists>e. RsMessage_pack junk (Ts2NpPeers_reserve m) (Ts2NpPeers_submsg m) = Inl e"
  using assms by (rule Ts2NpPeers_pack_short)

lemma peers_with_fewer_peers_fault_witness:
  "\<exists>e. RsMessage_pack (\<lambda>_. 0)
     (Ts2NpPeers_reserve \<lparr>peers_sp_list_size = 1, peers_sp_addr = [NetAddress_new], peers_peer_list_size = 0,
        peers_peer_addr = [], peers_np_addr = NetAddress_new\<rparr>)
     (Ts2NpPeers_submsg \<lparr>peers_sp_list_size = 1, peers_sp_addr = [NetAddress_new], peers_peer_list_size = 0,
        peers_peer_addr = [], peers_np_addr = NetAddress_new\<rparr>) = Inl e"
  by (rule peers_with_fewer_peers_fault) (simp_all add: Ts2NpPeers_wf_def)

text \<open>\<open>Sp2SpPushList::pack_submsg\<close> writes nothing: its packet is the size and indeterminate bytes.\<close>

lemma pushlist_packs_junk:
  "RsMessage_pack junk (Sp2SpPushList_reserve m) (Sp2SpPushList_submsg m) =
   Inr (enc (word_of_int (Sp2SpPushList_reserve m) :: u32) @ drop 4 (map junk [0..<nat (Sp2SpPushList_reserve m)]),
        Sp2SpPushList_reserve m)"
proof -
  have "0 \<le> Sp2SpPushList_reserve m" "Sp2SpPushList_reserve m < 2 ^ 31" "4 \<le> Sp2SpPushList_reserve m"
    using uint_u8[of "push_block_count m"] by (simp_all add: Sp2SpPushList_reserve_def RsMessage_reserve_pack_size_def)
  then show ?thesis
    using sint_of_int32[of "Sp2SpPushList_reserve m"]
    by (simp add: pack_prefix Sp2SpPushList_submsg_def get_buffer_def get_size_def put_def initialize_def)
qed

end
