(* ===== verification/Message_Typed.thy ===== *)
theory Message_Typed
  imports Message_Props
begin

text \<open>
  What the parsers of \<open>core/message.cpp\<close> accept. A peer sends whatever bytes it likes; a
  parser that returns has read a message all of whose members have their declared type, an
  array as long as its count among them, and it has read exactly the bytes of that message.
\<close>

section \<open>What a statement that reads has consumed\<close>

definition consumed :: "streamer \<Rightarrow> streamer \<Rightarrow> bytes \<Rightarrow> bool" where
  "consumed s s' bs \<longleftrightarrow> s' = adv (length bs) s \<and> (\<exists>post. avail s = bs @ post)"

lemma consumed_none [simp]: "consumed s s' [] \<longleftrightarrow> s' = s"
  by (auto simp: consumed_def)

lemma consumed_append: "consumed s s\<^sub>1 as \<Longrightarrow> consumed s\<^sub>1 s\<^sub>2 bs \<Longrightarrow> consumed s s\<^sub>2 (as @ bs)"
  by (auto simp: consumed_def)

lemma consumed_count: "consumed s s\<^sub>1 [n] \<Longrightarrow> consumed s\<^sub>1 s\<^sub>2 (concat xs) \<Longrightarrow> consumed s s\<^sub>2 (n # concat xs)"
  using consumed_append by fastforce

lemma get_as_type_consumed:
  assumes "get_as_type n s = Inr (bs, s')" "0 < n"
  shows "consumed s s' bs" "length bs = n"
proof -
  have fits: "int (scurr s) + int n \<le> ssize s" "scurr s + n \<le> length (smem s)"
    and r: "bs = take n (drop (scurr s) (smem s))" "s' = s\<lparr>scurr := scurr s + n\<rparr>"
    using assms(1) by (auto simp: get_as_type_def res_invert)
  show len: "length bs = n" using r(1) fits(2) by simp
  have "n \<le> length (avail s)" using fits by (simp add: avail_def) linarith
  then have "bs = take n (avail s)" using r(1) by (simp add: take_avail)
  then have "avail s = bs @ drop n (avail s)" by simp
  then show "consumed s s' bs" unfolding consumed_def using r(2) len by (auto simp: adv_def)
qed

lemma read_char_consumed: "read_char s = Inr (v, s') \<Longrightarrow> consumed s s' [v]"
  and read_short_consumed: "read_short s = Inr (w, s') \<Longrightarrow> consumed s s' (enc w)"
  and read_int_consumed: "read_int s = Inr (d, s') \<Longrightarrow> consumed s s' (enc d)"
  using get_as_type_consumed enc8_singleton[of v]
  by (fastforce simp: read_char_def read_short_def read_int_def res_invert enc_dec)+

lemma read_nbytes_consumed:
  "read_nbytes n s = Inr (bs, s') \<Longrightarrow> 0 < n \<Longrightarrow> consumed s s' bs"
  "read_nbytes n s = Inr (bs, s') \<Longrightarrow> 0 < n \<Longrightarrow> length bs = n"
  using get_as_type_consumed by (simp_all add: read_nbytes_eq)

lemma read_object_consumed:
  assumes "read_object n of_bytes s = Inr (x, s')" "0 < n"
    and "\<And>bs. length bs = n \<Longrightarrow> e (of_bytes bs) = bs"
  shows "consumed s s' (e x)"
  using assms read_nbytes_consumed[of n s] by (auto simp: read_object_def res_invert)

lemma read_array_consumed:
  assumes "read_array n rd s = Inr (xs, s')"
    and "\<And>x s s'. rd s = Inr (x, s') \<Longrightarrow> consumed s s' (e x) \<and> P x"
  shows "consumed s s' (concat (map e xs)) \<and> length xs = n \<and> (\<forall>x\<in>set xs. P x)"
  using assms(1)
proof (induction n arbitrary: s xs)
  case 0
  then show ?case by simp
next
  case (Suc n)
  then obtain x s1 ys where "rd s = Inr (x, s1)" "read_array n rd s1 = Inr (ys, s')" "xs = x # ys"
    by (auto simp: res_invert)
  then show ?case using Suc.IH assms(2) by (fastforce intro: consumed_append)
qed

lemma bytes_of_objects:
  "length bs = 4 \<Longrightarrow> enc (dec bs :: u32) = bs"
  "length bs = 8 \<Longrightarrow> bytes_of_NetAddress (NetAddress_of_bytes bs) = bs"
  "length bs = 8 \<Longrightarrow> bytes_of_BlockInterval (BlockInterval_of_bytes bs) = bs"
proof -
  show "length bs = 4 \<Longrightarrow> enc (dec bs :: u32) = bs" by (simp add: enc_dec)
  assume len: "length bs = 8"
  have "bs = take 4 bs @ drop 4 bs" "take 4 bs = take 2 bs @ take 2 (drop 2 bs)"
    by (simp_all add: take_add[of 2 2, simplified, symmetric])
  then show "bytes_of_NetAddress (NetAddress_of_bytes bs) = bs"
    using len by (simp add: bytes_of_NetAddress_def NetAddress_of_bytes_def enc_dec)
  show "bytes_of_BlockInterval (BlockInterval_of_bytes bs) = bs"
    using len by (simp add: bytes_of_BlockInterval_def BlockInterval_of_bytes_def enc_dec)
qed

section \<open>The contract of a parser\<close>

definition accepts_exactly :: "(streamer \<Rightarrow> ('m \<times> streamer) res) \<Rightarrow> ('m \<Rightarrow> bool) \<Rightarrow> ('m \<Rightarrow> bytes) \<Rightarrow> bool" where
  "accepts_exactly parse typed content \<longleftrightarrow> (\<forall>s m s'. parse s = Inr (m, s') \<longleftrightarrow>
     typed m \<and> s' = adv (length (content m)) s \<and> (\<exists>post. avail s = content m @ post))"

locale exact_parser = parsable typed parse content
  for typed :: "'m \<Rightarrow> bool" and parse :: "streamer \<Rightarrow> ('m \<times> streamer) res" and content :: "'m \<Rightarrow> bytes" +
  assumes parse_sound: "parse s = Inr (m, s') \<Longrightarrow> typed m \<and> consumed s s' (content m)"
begin

lemma accepts:
  "parse s = Inr (m, s') \<longleftrightarrow> typed m \<and> s' = adv (length (content m)) s \<and> (\<exists>post. avail s = content m @ post)"
  using parse_sound[of s m s'] parse_content[of m s] by (auto simp: consumed_def)

lemma exact: "accepts_exactly parse typed content"
  unfolding accepts_exactly_def using accepts by blast

lemma same_bytes:
  assumes "parse s\<^sub>1 = Inr (m, s\<^sub>1')" "parse s\<^sub>2 = Inr (m, s\<^sub>2')"
  shows "take (length (content m)) (avail s\<^sub>1) = take (length (content m)) (avail s\<^sub>2)"
  using assms by (auto simp: accepts)

end

section \<open>The parsers of the program\<close>

lemma read_member_consumed:
  "read_nbytes MD5_LEN s = Inr (bs, s') \<Longrightarrow> consumed s s' bs \<and> length bs = MD5_LEN"
  "read_nbytes UUID_LENGTH s = Inr (bs, s') \<Longrightarrow> consumed s s' bs \<and> length bs = UUID_LENGTH"
  using read_nbytes_consumed by simp_all

lemma read_word_object_consumed: "read_object 4 dec s = Inr (d :: u32, s') \<Longrightarrow> consumed s s' (enc d)"
  and read_address_consumed: "read_object 8 NetAddress_of_bytes s = Inr (a, s') \<Longrightarrow> consumed s s' (bytes_of_NetAddress a)"
  by (erule read_object_consumed; simp add: bytes_of_objects)+

lemmas consumes = read_char_consumed read_short_consumed read_int_consumed read_member_consumed
  read_word_object_consumed read_address_consumed

interpretation register_exact: exact_parser Sp2TsRegister_wf Sp2TsRegister_parse Sp2TsRegister_content
proof
  fix s m s'
  assume "Sp2TsRegister_parse s = Inr (m, s')"
  then show "Sp2TsRegister_wf m \<and> consumed s s' (Sp2TsRegister_content m)"
    by (auto simp: Sp2TsRegister_parse_def Sp2TsRegister_wf_def Sp2TsRegister_content_def res_invert
        intro!: consumed_append dest!: consumes)
qed

interpretation sp_list_request_exact: exact_parser Sp2TsSpList_wf Sp2TsSpList_parse getsp_uuid
  by unfold_locales (auto simp: Sp2TsSpList_parse_def Sp2TsSpList_wf_def res_invert dest!: consumes)

text \<open>The count of a list of resources is bounded by the bytes received, not by what \<open>pack\<close> needs.\<close>

definition Sp2TsResList_typed :: "Sp2TsResList \<Rightarrow> bool" where
  "Sp2TsResList_typed m \<longleftrightarrow> length (reslist_uuid m) = UUID_LENGTH \<and>
     length (reslist_info m) = unat (reslist_count m) \<and> (\<forall>r\<in>set (reslist_info m). length (res_md5 r) = MD5_LEN)"

lemma read_resource_info_consumed:
  "read_resource_info s = Inr (r, s') \<Longrightarrow> consumed s s' (bytes_of_resource_info r) \<and> length (res_md5 r) = MD5_LEN"
  by (auto simp: read_resource_info_def bytes_of_resource_info_def res_invert intro!: consumed_append dest!: consumes)

interpretation res_list_exact: exact_parser Sp2TsResList_typed Sp2TsResList_parse Sp2TsResList_content
proof
  fix m s post
  assume m: "Sp2TsResList_typed m" "avail s = Sp2TsResList_content m @ post"
  have rd: "read_array (length (reslist_info m)) read_resource_info s' =
      Inr (reslist_info m, adv (40 * length (reslist_info m)) s')"
    if "avail s' = concat (map bytes_of_resource_info (reslist_info m)) @ post" for s'
    using read_resource_infos[OF _ that] m(1) by (simp add: Sp2TsResList_typed_def)
  have "length (concat (map bytes_of_resource_info (reslist_info m))) = 40 * length (reslist_info m)"
    using m(1) by (intro length_concat_const) (auto simp: Sp2TsResList_typed_def length_resource_info)
  then show "Sp2TsResList_parse s = Inr (m, adv (length (Sp2TsResList_content m)) s)"
    using m rd[of "adv 20 s"]
    by (simp add: Sp2TsResList_parse_def Sp2TsResList_content_def Sp2TsResList_typed_def wire_simps)
next
  fix s m s'
  assume "Sp2TsResList_parse s = Inr (m, s')"
  then show "Sp2TsResList_typed m \<and> consumed s s' (Sp2TsResList_content m)"
    by (auto simp: Sp2TsResList_parse_def Sp2TsResList_typed_def Sp2TsResList_content_def res_invert
        intro!: consumed_append dest!: consumes read_array_consumed[OF _ read_resource_info_consumed])
qed

interpretation status_exact: exact_parser Sp2TsStatus_wf Sp2TsStatus_parse Sp2TsStatus_content
proof
  fix s m s'
  assume "Sp2TsStatus_parse s = Inr (m, s')"
  then show "Sp2TsStatus_wf m \<and> consumed s s' (Sp2TsStatus_content m)"
    by (auto simp: Sp2TsStatus_parse_def Sp2TsStatus_wf_def Sp2TsStatus_content_def res_invert
        intro!: consumed_append dest!: consumes)
qed

interpretation login_exact: exact_parser Np2TsLogin_wf "Np2TsLogin_parse (junk\<lparr>login_ip_addr := []\<rparr>)" Np2TsLogin_content
proof
  fix s m s'
  have array: "read_array n (read_object 4 dec) s = Inr (xs, s') \<Longrightarrow>
      consumed s s' (concat (map enc xs)) \<and> length xs = n" for n s s' and xs :: "u32 list"
    using read_array_consumed[of n "read_object 4 dec" s xs s' enc "\<lambda>_. True"] read_word_object_consumed by blast
  assume "Np2TsLogin_parse (junk\<lparr>login_ip_addr := []\<rparr>) s = Inr (m, s')"
  then show "Np2TsLogin_wf m \<and> consumed s s' (Np2TsLogin_content m)"
    by (auto simp: Np2TsLogin_parse_def Np2TsLogin_wf_def Np2TsLogin_content_def res_invert
        intro!: consumed_append consumed_count dest!: consumes array)
qed

interpretation request_exact: exact_parser Np2TsReqRes_wf Np2TsReqRes_parse Np2TsReqRes_content
  by unfold_locales
    (auto simp: Np2TsReqRes_parse_def Np2TsReqRes_wf_def Np2TsReqRes_content_def res_invert
      intro!: consumed_append dest!: consumes)

interpretation need_peers_exact: exact_parser Np2TsNeedPeers_wf Np2TsNeedPeers_parse Np2TsNeedPeers_content
  by unfold_locales
    (auto simp: Np2TsNeedPeers_parse_def Np2TsNeedPeers_wf_def Np2TsNeedPeers_content_def res_invert
      intro!: consumed_append dest!: consumes)

interpretation interval_request_exact: exact_parser Np2TsReqInterval_wf Np2TsReqInterval_parse reqinterval_uuid
  by unfold_locales (auto simp: Np2TsReqInterval_parse_def Np2TsReqInterval_wf_def res_invert dest!: consumes)

interpretation np_logout_exact: exact_parser Np2TsLogout_wf Np2TsLogout_parse np_logout_uuid
  by unfold_locales (auto simp: Np2TsLogout_parse_def Np2TsLogout_wf_def res_invert dest!: consumes)

interpretation sp_welcome_exact: exact_parser Ts2SpWelcome_wf Ts2SpWelcome_parse welcome_uuid
  by unfold_locales (auto simp: Ts2SpWelcome_parse_def Ts2SpWelcome_wf_def res_invert dest!: consumes)

interpretation sp_list_exact: exact_parser Ts2SpSpList_wf "Ts2SpSpList_parse \<lparr>splist_count = junk, splist_addr = []\<rparr>" Ts2SpSpList_content
proof
  fix s m s'
  have array: "read_array n (read_object 8 NetAddress_of_bytes) s = Inr (xs, s') \<Longrightarrow>
      consumed s s' (concat (map bytes_of_NetAddress xs)) \<and> length xs = n" for n s s' xs
    using read_array_consumed[of n "read_object 8 NetAddress_of_bytes" s xs s' bytes_of_NetAddress "\<lambda>_. True"]
      read_address_consumed by blast
  assume "Ts2SpSpList_parse \<lparr>splist_count = junk, splist_addr = []\<rparr> s = Inr (m, s')"
  then show "Ts2SpSpList_wf m \<and> consumed s s' (Ts2SpSpList_content m)"
    by (auto simp: Ts2SpSpList_parse_def Ts2SpSpList_wf_def Ts2SpSpList_content_def res_invert
        intro!: consumed_count dest!: consumes array split: if_splits)
qed

interpretation push_list_exact: exact_parser Sp2SpPushList_wf "Sp2SpPushList_parse Sp2SpPushList_new" Sp2SpPushList_content
proof
  fix s m s'
  have array: "read_array n read_int s = Inr (xs, s') \<Longrightarrow> consumed s s' (concat (map enc xs)) \<and> length xs = n" for n s s' xs
    using read_array_consumed[of n read_int s xs s' enc "\<lambda>_. True"] read_int_consumed by blast
  assume "Sp2SpPushList_parse Sp2SpPushList_new s = Inr (m, s')"
  then show "Sp2SpPushList_wf m \<and> consumed s s' (Sp2SpPushList_content m)"
    by (auto simp: Sp2SpPushList_parse_def Sp2SpPushList_new_def Sp2SpPushList_wf_def Sp2SpPushList_content_def
        res_invert Let_def intro!: consumed_append consumed_count dest!: consumes array split: if_splits)
qed

text \<open>
  C16. Every parser that the program runs on what it receives, that of the report apart, accepts exactly the well-typed
  messages: it returns a message if and only if the bytes announced begin with the
  serialisation of that message, whose byte arrays have their declared sizes and whose arrays
  have as many elements as their counts say, and it leaves the cursor right behind it.
  Otherwise it faults. The login and the list of super peers start with an empty array.
\<close>

theorem parsers_typed:
  "accepts_exactly Sp2TsRegister_parse Sp2TsRegister_wf Sp2TsRegister_content \<and>
   accepts_exactly Sp2TsSpList_parse Sp2TsSpList_wf getsp_uuid \<and>
   accepts_exactly Sp2TsResList_parse Sp2TsResList_typed Sp2TsResList_content \<and>
   accepts_exactly Sp2TsStatus_parse Sp2TsStatus_wf Sp2TsStatus_content \<and>
   accepts_exactly (Np2TsLogin_parse (junk\<lparr>login_ip_addr := []\<rparr>)) Np2TsLogin_wf Np2TsLogin_content \<and>
   accepts_exactly Np2TsReqRes_parse Np2TsReqRes_wf Np2TsReqRes_content \<and>
   accepts_exactly Np2TsNeedPeers_parse Np2TsNeedPeers_wf Np2TsNeedPeers_content \<and>
   accepts_exactly Np2TsReqInterval_parse Np2TsReqInterval_wf reqinterval_uuid \<and>
   accepts_exactly Np2TsLogout_parse Np2TsLogout_wf np_logout_uuid \<and>
   accepts_exactly Ts2SpWelcome_parse Ts2SpWelcome_wf welcome_uuid \<and>
   accepts_exactly (Ts2SpSpList_parse \<lparr>splist_count = junk_count, splist_addr = []\<rparr>) Ts2SpSpList_wf Ts2SpSpList_content \<and>
   accepts_exactly (Sp2SpPushList_parse Sp2SpPushList_new) Sp2SpPushList_wf Sp2SpPushList_content"
  by (intro conjI register_exact.exact sp_list_request_exact.exact res_list_exact.exact status_exact.exact
      login_exact.exact request_exact.exact need_peers_exact.exact interval_request_exact.exact
      np_logout_exact.exact sp_welcome_exact.exact sp_list_exact.exact push_list_exact.exact)

end
