(* ===== verification/Sp_Refine.thy ===== *)
theory Sp_Refine
  imports Sp_Tracker Message_Typed
begin

text \<open>
  What the tracker is for super peers, without its tables and buffers: a map from uuids to what
  is known of each super peer, and the answers sent. Every run of the connector of \<open>Sp_Tracker\<close>
  is a run of this specification, faults included.
\<close>

section \<open>The specification\<close>

record sp_view =
  sv_peers :: "map_str \<Rightarrow> ChannelNode option"
  sv_sent :: "(NetAddress \<times> bytes) list"

datatype sp_message =
    Registers Sp2TsRegister
  | Announces Sp2TsResList
  | Reports Sp2TsStatus
  | Asks_For_Peers Sp2TsSpList
  | No_Effect

text \<open>Two uuids that differ in case only are one key.\<close>

abbreviation same_uuid :: "map_str \<Rightarrow> map_str \<Rightarrow> bool" where
  "same_uuid \<equiv> key_equiv map_str_lt"

definition at_most_one :: "(map_str \<Rightarrow> 'a option) \<Rightarrow> bool" where
  "at_most_one v \<longleftrightarrow> (\<forall>a b. v a \<noteq> None \<and> v b \<noteq> None \<longrightarrow> same_uuid a b)"

text \<open>
  The effect of a message, \<open>None\<close> for a fault. A question for the other super peers is never
  answered: the handler faults if it finds any, and if it does not know the sender.
\<close>

fun sp_effect :: "env \<Rightarrow> NetAddress \<Rightarrow> sp_message \<Rightarrow> sp_view \<Rightarrow> sp_view option" where
  "sp_effect env sender (Registers m) v =
     (if \<forall>i<4. e_rand env i < 65536 then
        Some (v\<lparr>sv_peers := (\<lambda>u. if same_uuid u (uuid_of (e_rand env)) then Some (registered_node (e_now env) sender m) else sv_peers v u),
          sv_sent := sv_sent v @ [(sender, packet TS2SP_WELCOME (take UUID_LENGTH (uuid_of (e_rand env))))]\<rparr>)
      else None)"
| "sp_effect env sender (Announces m) v =
     Some (v\<lparr>sv_peers := (\<lambda>u. if same_uuid u (reslist_uuid m @ [0])
       then map_option (announced (e_now env) m) (sv_peers v u) else sv_peers v u)\<rparr>)"
| "sp_effect env sender (Reports m) v =
     (case sv_peers v (status_uuid m @ [0]) of
        None \<Rightarrow> Some v
      | Some n \<Rightarrow>
          if unat (cn_resourceCount n) < unat (status_resource_count m) then None
          else Some (v\<lparr>sv_peers := (\<lambda>u. if same_uuid u (status_uuid m @ [0]) then Some (reported (e_now env) m n) else sv_peers v u)\<rparr>))"
| "sp_effect env sender (Asks_For_Peers m) v =
     (if at_most_one (sv_peers v) then Some v
      else case sv_peers v (getsp_uuid m @ [0]) of
        None \<Rightarrow> None
      | Some n \<Rightarrow> if \<exists>u n'. sv_peers v u = Some n' \<and> NetAddress_neq (cn_spAddress n) (cn_spAddress n') then None else Some v)"
| "sp_effect env sender No_Effect v = Some v"

definition sp_expire :: "int \<Rightarrow> sp_view \<Rightarrow> sp_view" where
  "sp_expire now v = v\<lparr>sv_peers := (\<lambda>u. case sv_peers v u of None \<Rightarrow> None
     | Some n \<Rightarrow> if now - cn_last_recv_report_time n > 100 then None else Some n)\<rparr>"

text \<open>Which message the bytes are; the type of a logout has no effect.\<close>

definition sp_message_of :: "bytes \<Rightarrow> sp_message option" where
  "sp_message_of buf =
     (let s = initialize (drop 5 buf) (sint (dec (take 4 buf) :: u32) - 5)
      in if length buf < 5 then None
         else if buf ! 4 = msg_code SP2TS_REGISTER then (case Sp2TsRegister_parse s of Inl e \<Rightarrow> None | Inr (m, _) \<Rightarrow> Some (Registers m))
         else if buf ! 4 = msg_code SP2TS_STATUS then (case Sp2TsStatus_parse s of Inl e \<Rightarrow> None | Inr (m, _) \<Rightarrow> Some (Reports m))
         else if buf ! 4 = msg_code SP2TS_RES_LIST then (case Sp2TsResList_parse s of Inl e \<Rightarrow> None | Inr (m, _) \<Rightarrow> Some (Announces m))
         else if buf ! 4 = msg_code SP2TS_GET_SP then (case Sp2TsSpList_parse s of Inl e \<Rightarrow> None | Inr (m, _) \<Rightarrow> Some (Asks_For_Peers m))
         else Some No_Effect)"

section \<open>Runs\<close>

text \<open>What happens to the connector: a datagram of \<open>nb\<close> bytes is in the buffer, or the table's timer fires.\<close>

datatype sp_tracker_event = Sp_Datagram env NetAddress bytes int | Sp_Tick int

fun sp_tracker_step :: "sp_tracker_event \<Rightarrow> RsSpTracker \<Rightarrow> RsSpTracker res" where
  "sp_tracker_step (Sp_Datagram env sender buf nb) t = bindE (sp_handle_udp_packet env sender buf nb t) (\<lambda>(_, t). Inr t)"
| "sp_tracker_step (Sp_Tick now) t = Inr (t\<lparr>spt_mgr := timer_check now (spt_mgr t)\<rparr>)"

fun sp_tracker_run :: "sp_tracker_event list \<Rightarrow> RsSpTracker \<Rightarrow> RsSpTracker res" where
  "sp_tracker_run [] t = Inr t"
| "sp_tracker_run (e # es) t = bindE (sp_tracker_step e t) (sp_tracker_run es)"

fun sp_spec_step :: "sp_tracker_event \<Rightarrow> sp_view \<Rightarrow> sp_view option" where
  "sp_spec_step (Sp_Datagram env sender buf nb) v =
     (if nb = 0 then Some v else case sp_message_of buf of None \<Rightarrow> None | Some m \<Rightarrow> sp_effect env sender m v)"
| "sp_spec_step (Sp_Tick now) v = Some (sp_expire now v)"

fun sp_spec_run :: "sp_tracker_event list \<Rightarrow> sp_view \<Rightarrow> sp_view option" where
  "sp_spec_run [] v = Some v"
| "sp_spec_run (e # es) v = (case sp_spec_step e v of None \<Rightarrow> None | Some v \<Rightarrow> sp_spec_run es v)"

text \<open>What the specification sees of the connector, and of a result.\<close>

definition sp_abs :: "RsSpTracker \<Rightarrow> sp_view" where
  "sp_abs t = \<lparr>sv_peers = (\<lambda>u. registered u (spt_mgr t)), sv_sent = spt_sent t\<rparr>"

definition sees :: "('a \<Rightarrow> 'b) \<Rightarrow> 'a res \<Rightarrow> 'b option" where
  "sees view r = (case r of Inl e \<Rightarrow> None | Inr x \<Rightarrow> Some (view x))"

lemma sees_simps [simp]: "sees view (Inl e) = None" "sees view (Inr x) = Some (view x)"
  by (simp_all add: sees_def)

lemma sp_abs_simps [simp]:
  "sv_peers (sp_abs t) = (\<lambda>u. registered u (spt_mgr t))" "sv_sent (sp_abs t) = spt_sent t"
  "sp_abs (t\<lparr>spt_last_receive_addr := a\<rparr>) = sp_abs t"
  by (simp_all add: sp_abs_def)

lemma sp_abs_table: "\<forall>u. registered u mgr = f u \<Longrightarrow> sp_abs (t\<lparr>spt_mgr := mgr\<rparr>) = sp_abs t\<lparr>sv_peers := f\<rparr>"
  by (simp add: sp_abs_def)

lemma sp_abs_sent: "sp_abs (t\<lparr>spt_sent := xs\<rparr>) = sp_abs t\<lparr>sv_sent := xs\<rparr>"
  by (simp add: sp_abs_def)

section \<open>Every handler\<close>

lemma registered_equiv: "same_uuid u w \<Longrightarrow> registered u mgr = registered w mgr"
  using mapstr.find_equiv by (simp add: registered_def)

lemma registers_refines:
  assumes "table_ok (spt_mgr t)" "Sp2TsRegister_parse (initialize msg n) = Inr (m, s)"
  shows "sees sp_abs (get_register env msg n t) = sp_effect env (spt_last_receive_addr t) (Registers m) (sp_abs t)"
proof (cases "\<forall>i<4. e_rand env i < 65536")
  case True
  let ?u = "uuid_of (e_rand env)"
  have u: "generate_uuid (e_rand env 0) (e_rand env 1) (e_rand env 2) (e_rand env 3) = Inr ?u"
    using True by (simp add: generate_uuid_of del: One_nat_def)
  obtain mgr where mgr: "insert_channel (e_now env) ?u (registered_node (e_now env) (spt_last_receive_addr t) m) (spt_mgr t) = Inr mgr"
    "\<forall>u. registered u mgr = (if same_uuid u ?u then Some (registered_node (e_now env) (spt_last_receive_addr t) m) else registered u (spt_mgr t))"
    using insert_channel_ok[OF assms(1) registered_node_ok] by (metis registered_node_time)
  have "get_register env msg n t = sp_send_welcome env ?u (t\<lparr>spt_mgr := mgr\<rparr>)"
    using mgr(1) by (simp add: get_register_def assms(2) u registered_node_def Let_def del: One_nat_def)
  moreover have "UUID_LENGTH \<le> length ?u" using generate_uuid_length[OF u] by simp
  ultimately show ?thesis
    using True unfolding sp_effect.simps sp_abs_simps by (simp add: sp_send_welcome_packet sp_abs_sent sp_abs_table[OF mgr(2)])
next
  case False
  have "generate_uuid (e_rand env 0) (e_rand env 1) (e_rand env 2) (e_rand env 3) = Inl Out_Of_Bounds"
    unfolding generate_uuid_of using False by (simp only: if_False)
  then have "get_register env msg n t = Inl Out_Of_Bounds"
    by (simp only: get_register_def assms(2) bindE_Inr bindE_Inl prod.case)
  then show ?thesis using False by (simp only: sp_effect.simps if_False sees_simps)
qed

lemma announces_refines:
  assumes "table_ok (spt_mgr t)" "Sp2TsResList_parse (initialize msg n) = Inr (m, s)"
  shows "sees sp_abs (get_res_list env msg n t) = sp_effect env sender (Announces m) (sp_abs t)"
proof -
  let ?u = "reslist_uuid m @ [0]"
  have len: "length (reslist_info m) = unat (reslist_count m)"
    using res_list_exact.parse_sound[OF assms(2)] by (simp add: Sp2TsResList_typed_def)
  show ?thesis
  proof (cases "registered ?u (spt_mgr t)")
    case None
    then have "(\<lambda>u. if same_uuid u ?u then map_option (announced (e_now env) m) (registered u (spt_mgr t)) else registered u (spt_mgr t)) =
        (\<lambda>u. registered u (spt_mgr t))"
      using registered_equiv[of _ ?u "spt_mgr t"] by (intro ext) (metis None option.map_disc_iff)
    moreover have "get_res_list env msg n t = Inr t"
      using None assms by (simp add: get_res_list_def get_channel_ok send_errormsg_def Let_def)
    ultimately show ?thesis unfolding sp_effect.simps sp_abs_simps by (simp add: sp_abs_def)
  next
    case (Some node)
    have "node_ok (announced (e_now env) m node)" using len by (simp add: node_ok_def announced_def)
    then obtain mgr where mgr: "insert_channel (e_now env) ?u (announced (e_now env) m node) (spt_mgr t) = Inr mgr"
      "\<And>u. registered u mgr = (if same_uuid u ?u
        then Some (announced (e_now env) m node\<lparr>cn_last_recv_report_time := e_now env\<rparr>) else registered u (spt_mgr t))"
      by (rule insert_existing[OF assms(1)]) blast
    have "get_res_list env msg n t = Inr (t\<lparr>spt_mgr := mgr\<rparr>)"
      using mgr(1) Some len assms by (simp add: get_res_list_def get_channel_ok announced_def Let_def)
    moreover have "\<forall>u. registered u mgr = (if same_uuid u ?u
        then map_option (announced (e_now env) m) (registered u (spt_mgr t)) else registered u (spt_mgr t))"
    proof
      fix u
      show "registered u mgr = (if same_uuid u ?u then map_option (announced (e_now env) m) (registered u (spt_mgr t)) else registered u (spt_mgr t))"
        using mgr(2)[of u] Some registered_equiv[of u ?u "spt_mgr t"] by (cases "same_uuid u ?u") (simp_all add: announced_def)
    qed
    ultimately show ?thesis unfolding sp_effect.simps sp_abs_simps by (simp add: sp_abs_table)
  qed
qed

lemma reports_refines:
  assumes "table_ok (spt_mgr t)" "Sp2TsStatus_parse (initialize msg n) = Inr (m, s)"
  shows "sees sp_abs (get_status env msg n t) = sp_effect env sender (Reports m) (sp_abs t)"
proof -
  let ?u = "status_uuid m @ [0]"
  show ?thesis
  proof (cases "registered ?u (spt_mgr t)")
    case None
    then show ?thesis using assms by (simp add: get_status_def get_channel_ok send_errormsg_def Let_def)
  next
    case (Some node)
    then have "length (cn_pHash node) = unat (cn_resourceCount node)"
      using registered_ok[OF assms(1) Some] by (simp add: node_ok_def)
    then have "get_status env msg n t = (if unat (cn_resourceCount node) < unat (status_resource_count m) then Inl Out_Of_Bounds
        else Inr (t\<lparr>spt_mgr := (spt_mgr t)\<lparr>channel_map :=
          map_assign map_str_lt ?u (reported (e_now env) m node) (channel_map (spt_mgr t))\<rparr>\<rparr>))"
      using Some assms
      by (simp add: get_status_def get_channel_ok insert_channel_def ChannelNode_assign_def get_node_def registered_def
          reported_def Let_def guardE_def)
    moreover have "\<forall>u. registered u ((spt_mgr t)\<lparr>channel_map := map_assign map_str_lt ?u (reported (e_now env) m node) (channel_map (spt_mgr t))\<rparr>) =
        (if same_uuid u ?u then Some (reported (e_now env) m node) else registered u (spt_mgr t))"
      using Some by (simp add: registered_def mapstr.find_assign)
    ultimately show ?thesis using Some unfolding sp_effect.simps sp_abs_simps by (simp add: sp_abs_table)
  qed
qed

text \<open>The table has at most one entry iff the map has.\<close>

lemma registered_entry: "table_ok mgr \<Longrightarrow> (k, n) \<in> set (channel_map mgr) \<Longrightarrow> registered k mgr = Some n"
  unfolding registered_def table_ok_def by (elim conjE) (rule mapstr.find_entry)

lemma entry_registered: "registered u mgr = Some n \<Longrightarrow> \<exists>k. (k, n) \<in> set (channel_map mgr) \<and> same_uuid u k"
  using map_find_in_set by (simp add: registered_def)

lemma at_most_one_iff:
  assumes "table_ok mgr"
  shows "at_most_one (\<lambda>u. registered u mgr) \<longleftrightarrow> length (channel_map mgr) \<le> 1"
proof
  assume one: "at_most_one (\<lambda>u. registered u mgr)"
  show "length (channel_map mgr) \<le> 1"
  proof (rule ccontr)
    assume "\<not> length (channel_map mgr) \<le> 1"
    then obtain k n k' n' m where m: "channel_map mgr = (k, n) # (k', n') # m"
      by (cases "channel_map mgr"; cases "tl (channel_map mgr)") auto
    then have "same_uuid k k'"
      using one registered_entry[OF assms, of k n] registered_entry[OF assms, of k' n'] by (simp add: at_most_one_def)
    moreover have "map_str_lt k k'" using assms m by (simp add: table_ok_def)
    ultimately show False by (simp add: key_equiv_def)
  qed
next
  assume "length (channel_map mgr) \<le> 1"
  then have "channel_map mgr = [] \<or> (\<exists>k n. channel_map mgr = [(k, n)])"
    by (cases "channel_map mgr") auto
  then show "at_most_one (\<lambda>u. registered u mgr)"
    using mapstr.equiv_sym mapstr.equiv_trans by (auto simp: at_most_one_def registered_def split: if_splits)
qed

lemma others_exist:
  assumes "table_ok mgr"
  shows "filter (NetAddress_neq a) (map (cn_spAddress \<circ> snd) (channel_map mgr)) = [] \<longleftrightarrow>
    \<not> (\<exists>u n. registered u mgr = Some n \<and> NetAddress_neq a (cn_spAddress n))"
proof -
  have "(\<exists>u n. registered u mgr = Some n \<and> NetAddress_neq a (cn_spAddress n)) \<longleftrightarrow>
      (\<exists>(k, n)\<in>set (channel_map mgr). NetAddress_neq a (cn_spAddress n))"
    using registered_entry[OF assms] entry_registered[of _ mgr] by blast
  then show ?thesis by (force simp: filter_empty_conv)
qed

lemma asks_refines:
  assumes "table_ok (spt_mgr t)" "Sp2TsSpList_parse (initialize msg n) = Inr (m, s)"
  shows "sees sp_abs (get_sp_list env msg n t) = sp_effect env sender (Asks_For_Peers m) (sp_abs t)"
proof -
  let ?u = "getsp_uuid m @ [0]" and ?mgr = "spt_mgr t"
  have never: "\<exists>e. bindE (RsMessage_pack (e_junk env) (Ts2SpSpList_reserve l) (Ts2SpSpList_submsg l))
      (\<lambda>(payload, payload_nb). if payload_nb \<noteq> 0 then Inl Uninitialised else Inr t) = Inl e" for l
    using sp_list_written by (cases "RsMessage_pack (e_junk env) (Ts2SpSpList_reserve l) (Ts2SpSpList_submsg l)") auto
  have view: "at_most_one (sv_peers (sp_abs t)) \<longleftrightarrow> length (channel_map ?mgr) \<le> 1"
    using at_most_one_iff[OF assms(1)] by (simp add: sp_abs_def)
  have run: "get_sp_list env msg n t = send_sp_list env ?u t" by (simp add: get_sp_list_def assms(2))
  show ?thesis
  proof (cases "length (channel_map ?mgr) \<le> 1")
    case True
    then have "get_cp_address_others ?u ?mgr = Inr (0, [])" using cp_others[of ?u ?mgr] by (auto split: option.splits)
    then show ?thesis using view True run by (simp add: send_sp_list_def)
  next
    case False
    show ?thesis
    proof (cases "registered ?u ?mgr")
      case None
      then have "get_cp_address_others ?u ?mgr = Inl Out_Of_Bounds" using False cp_others[of ?u ?mgr] by simp
      then show ?thesis using view False None run by (simp add: send_sp_list_def)
    next
      case (Some node)
      let ?found = "filter (NetAddress_neq (cn_spAddress node)) (map (cn_spAddress \<circ> snd) (channel_map ?mgr))"
      have found: "get_cp_address_others ?u ?mgr =
          Inr (length ?found, ?found @ replicate (length (channel_map ?mgr) - 1 - length ?found) NetAddress_new)"
        using False Some cp_others[of ?u ?mgr] by (simp add: Let_def)
      show ?thesis
      proof (cases "?found = []")
        case True
        then have "send_sp_list env ?u t = Inr t" unfolding send_sp_list_def found by simp
        then show ?thesis using view False Some run True others_exist[OF assms(1)] by simp
      next
        case n: False
        then have "\<exists>e. send_sp_list env ?u t = Inl e"
          unfolding send_sp_list_def found bindE_Inr prod.case Let_def length_0_conv using never by (simp only: if_False)
        then show ?thesis using view False Some run n others_exist[OF assms(1)] by auto
      qed
    qed
  qed
qed

section \<open>Every run\<close>

lemma sp_tracker_step_keeps: "sp_tracker_step e t = Inr t' \<Longrightarrow> table_ok (spt_mgr t) \<Longrightarrow> table_ok (spt_mgr t')"
  by (cases e) (auto simp: res_invert timer_check_ok dest: sp_handle_udp_packet_keeps)

lemma sp_datagram_refines:
  assumes "table_ok (spt_mgr t)"
  shows "sees sp_abs (sp_tracker_step (Sp_Datagram env sender buf nb) t) = sp_spec_step (Sp_Datagram env sender buf nb) (sp_abs t)"
proof -
  let ?n = "sint (dec (take 4 buf) :: u32) - 5"
  let ?s = "initialize (drop 5 buf) ?n"
  let ?t = "t\<lparr>spt_last_receive_addr := sender\<rparr>"
  have ok: "table_ok (spt_mgr ?t)" using assms by simp
  have drop_code: "sees sp_abs (bindE (bindE r (\<lambda>t. Inr (0 :: int, t))) (\<lambda>(_, t). Inr t)) = sees sp_abs r" for r
    by (cases r) simp_all
  consider "nb = 0" | "nb \<noteq> 0" "length buf < 5" | "nb \<noteq> 0" "5 \<le> length buf" by linarith
  then show ?thesis
  proof cases
    case 3
    have run: "sees sp_abs (sp_tracker_step (Sp_Datagram env sender buf nb) t) = sees sp_abs
        (if buf ! 4 = msg_code SP2TS_REGISTER then get_register env (drop 5 buf) ?n ?t
         else if buf ! 4 = msg_code SP2TS_STATUS then get_status env (drop 5 buf) ?n ?t
         else if buf ! 4 = msg_code SP2TS_RES_LIST then get_res_list env (drop 5 buf) ?n ?t
         else if buf ! 4 = msg_code SP2TS_GET_SP then get_sp_list env (drop 5 buf) ?n ?t
         else Inr ?t)"
      using 3 by (simp only: sp_tracker_step.simps sp_handle_udp_packet_def Let_def guardE_True if_False bindE_Inr drop_code)
    have spec: "sp_spec_step (Sp_Datagram env sender buf nb) v = (case sp_message_of buf of None \<Rightarrow> None | Some m \<Rightarrow> sp_effect env sender m v)" for v
      using 3 by simp
    consider "buf ! 4 = msg_code SP2TS_REGISTER" | "buf ! 4 = msg_code SP2TS_STATUS" | "buf ! 4 = msg_code SP2TS_RES_LIST"
      | "buf ! 4 = msg_code SP2TS_GET_SP"
      | "buf ! 4 \<notin> {msg_code SP2TS_REGISTER, msg_code SP2TS_STATUS, msg_code SP2TS_RES_LIST, msg_code SP2TS_GET_SP}" by blast
    then show ?thesis
    proof cases
      case tag: 1
      show ?thesis
      proof (cases "Sp2TsRegister_parse ?s")
        case (Inl e)
        then have "sp_message_of buf = None" "get_register env (drop 5 buf) ?n ?t = Inl e"
          using tag 3 by (simp_all add: sp_message_of_def Let_def msg_code_inj get_register_def)
        then show ?thesis unfolding run spec using tag by (simp add: msg_code_inj)
      next
        case (Inr p)
        obtain m s where m: "Sp2TsRegister_parse ?s = Inr (m, s)" using Inr by (cases p) simp
        then have "sp_message_of buf = Some (Registers m)"
          using tag 3 by (simp add: sp_message_of_def Let_def msg_code_inj)
        then show ?thesis unfolding run spec using tag registers_refines[OF ok m, of env] by (simp add: msg_code_inj del: sp_effect.simps)
      qed
    next
      case tag: 2
      show ?thesis
      proof (cases "Sp2TsStatus_parse ?s")
        case (Inl e)
        then have "sp_message_of buf = None" "get_status env (drop 5 buf) ?n ?t = Inl e"
          using tag 3 by (simp_all add: sp_message_of_def Let_def msg_code_inj get_status_def)
        then show ?thesis unfolding run spec using tag by (simp add: msg_code_inj)
      next
        case (Inr p)
        obtain m s where m: "Sp2TsStatus_parse ?s = Inr (m, s)" using Inr by (cases p) simp
        then have "sp_message_of buf = Some (Reports m)"
          using tag 3 by (simp add: sp_message_of_def Let_def msg_code_inj)
        then show ?thesis unfolding run spec using tag reports_refines[OF ok m, of env sender] by (simp add: msg_code_inj del: sp_effect.simps)
      qed
    next
      case tag: 3
      show ?thesis
      proof (cases "Sp2TsResList_parse ?s")
        case (Inl e)
        then have "sp_message_of buf = None" "get_res_list env (drop 5 buf) ?n ?t = Inl e"
          using tag 3 by (simp_all add: sp_message_of_def Let_def msg_code_inj get_res_list_def)
        then show ?thesis unfolding run spec using tag by (simp add: msg_code_inj)
      next
        case (Inr p)
        obtain m s where m: "Sp2TsResList_parse ?s = Inr (m, s)" using Inr by (cases p) simp
        then have "sp_message_of buf = Some (Announces m)"
          using tag 3 by (simp add: sp_message_of_def Let_def msg_code_inj)
        then show ?thesis unfolding run spec using tag announces_refines[OF ok m, of env sender] by (simp add: msg_code_inj del: sp_effect.simps)
      qed
    next
      case tag: 4
      show ?thesis
      proof (cases "Sp2TsSpList_parse ?s")
        case (Inl e)
        then have "sp_message_of buf = None" "get_sp_list env (drop 5 buf) ?n ?t = Inl e"
          using tag 3 by (simp_all add: sp_message_of_def Let_def msg_code_inj get_sp_list_def)
        then show ?thesis unfolding run spec using tag by (simp add: msg_code_inj)
      next
        case (Inr p)
        obtain m s where m: "Sp2TsSpList_parse ?s = Inr (m, s)" using Inr by (cases p) simp
        then have "sp_message_of buf = Some (Asks_For_Peers m)"
          using tag 3 by (simp add: sp_message_of_def Let_def msg_code_inj)
        then show ?thesis unfolding run spec using tag asks_refines[OF ok m, of env sender] by (simp add: msg_code_inj del: sp_effect.simps)
      qed
    next
      case 5
      then show ?thesis unfolding run spec using 3 by (simp add: sp_message_of_def Let_def)
    qed
  qed (simp_all add: sp_handle_udp_packet_def sp_message_of_def guardE_def Let_def)
qed

lemma sp_tracker_step_refines:
  "table_ok (spt_mgr t) \<Longrightarrow> sees sp_abs (sp_tracker_step e t) = sp_spec_step e (sp_abs t)"
proof (cases e)
  case (Sp_Tick now)
  assume "table_ok (spt_mgr t)"
  then have "\<forall>u. registered u (timer_check now (spt_mgr t)) = (case registered u (spt_mgr t) of None \<Rightarrow> None
      | Some n \<Rightarrow> if now - cn_last_recv_report_time n > 100 then None else Some n)"
    using timer_check_ok(2) by blast
  from sp_abs_table[OF this] show ?thesis by (simp add: Sp_Tick sp_expire_def)
qed (simp add: sp_datagram_refines del: sp_tracker_step.simps sp_spec_step.simps)

lemma sp_tracker_run_refines:
  "table_ok (spt_mgr t) \<Longrightarrow> sees sp_abs (sp_tracker_run es t) = sp_spec_run es (sp_abs t)"
proof (induction es arbitrary: t)
  case (Cons e es)
  show ?case
  proof (cases "sp_tracker_step e t")
    case (Inl f)
    then show ?thesis using sp_tracker_step_refines[OF Cons.prems, of e] by simp
  next
    case (Inr t')
    then show ?thesis
      using sp_tracker_step_refines[OF Cons.prems, of e, symmetric] sp_tracker_step_keeps[OF Inr Cons.prems] Cons.IH[of t'] by simp
  qed
qed simp

text \<open>
  C21. For super peers the tracker is a map from uuids to what is known of each, whatever
  datagrams arrive (of any bytes, in any order, from anybody) and whenever the table's timer
  fires: the run of its connector faults exactly when \<open>sp_spec_run\<close> does, and otherwise its table
  and the packets it has sent are those of \<open>sp_spec_run\<close>. There a registration stores the sender
  under the uuid of the four random numbers and is answered with it, and faults if one of them is
  65,536 or more; an announcement replaces the resources of the super peer it names; a status
  updates it, and faults when its count is larger than what was announced; messages that
  name an unknown super peer change nothing; a question for the other super peers is not
  answered, and faults if there are any; a logout has no effect; a super peer not heard of for
  more than 100 seconds is forgotten by the timer. A datagram that cannot be parsed faults.
\<close>

theorem sp_run_refines:
  "sees sp_abs (sp_tracker_run events (RsSpTracker_new junk)) = sp_spec_run events \<lparr>sv_peers = (\<lambda>_. None), sv_sent = []\<rparr>"
proof -
  have "table_ok (spt_mgr (RsSpTracker_new junk))" by (simp add: RsSpTracker_new_def RsTrackerStreamManager_new_def table_ok_def)
  moreover have "sp_abs (RsSpTracker_new junk) = \<lparr>sv_peers = (\<lambda>_. None), sv_sent = []\<rparr>"
    by (simp add: sp_abs_def RsSpTracker_new_def RsTrackerStreamManager_new_def registered_def)
  ultimately show ?thesis using sp_tracker_run_refines[of "RsSpTracker_new junk" events] by simp
qed

text \<open>A super peer registers and logs out: it is still there.\<close>

definition sample_sp_uuid :: map_str where
  "sample_sp_uuid = uuid_of (e_rand sample_env)"

lemma logged_out_stays:
  "\<exists>t. sp_tracker_run [Sp_Datagram sample_env NetAddress_new (packet SP2TS_REGISTER (Sp2TsRegister_content Sp2TsRegister_new)) 43,
      Sp_Datagram sample_env NetAddress_new (packet SP2TS_LOGOUT (take UUID_LENGTH sample_sp_uuid)) 21] (RsSpTracker_new NetAddress_new) = Inr t \<and>
    registered sample_sp_uuid (spt_mgr t) \<noteq> None"
proof -
  let ?t = "RsSpTracker_new NetAddress_new"
  have "Sp2TsRegister_wf Sp2TsRegister_new" "table_ok (spt_mgr ?t)"
    by (simp_all add: Sp2TsRegister_wf_def Sp2TsRegister_new_def RsSpTracker_new_def RsTrackerStreamManager_new_def table_ok_def)
  moreover have "generate_uuid (e_rand sample_env 0) (e_rand sample_env 1) (e_rand sample_env 2) (e_rand sample_env 3) = Inr sample_sp_uuid"
    unfolding generate_uuid_of sample_sp_uuid_def by (simp add: sample_env_def)
  ultimately obtain mgr where r: "get_register sample_env (Sp2TsRegister_content Sp2TsRegister_new @ []) (int (length (Sp2TsRegister_content Sp2TsRegister_new))) (?t\<lparr>spt_last_receive_addr := NetAddress_new\<rparr>) =
      Inr (?t\<lparr>spt_last_receive_addr := NetAddress_new, spt_mgr := mgr, spt_sent := [(NetAddress_new, packet TS2SP_WELCOME (take UUID_LENGTH sample_sp_uuid))]\<rparr>)"
    "registered sample_sp_uuid mgr \<noteq> None"
    using get_register_packet[of Sp2TsRegister_new "?t\<lparr>spt_last_receive_addr := NetAddress_new\<rparr>" sample_env sample_sp_uuid "[]"] mapstr.equiv_refl
    by (auto simp: RsSpTracker_new_def)
  have len: "5 + int (length (Sp2TsRegister_content Sp2TsRegister_new)) < 2 ^ 31"
    by (simp add: Sp2TsRegister_content_def Sp2TsRegister_new_def)
  have "sp_handle_udp_packet sample_env NetAddress_new (packet SP2TS_REGISTER (Sp2TsRegister_content Sp2TsRegister_new)) 43 ?t =
      Inr (0, ?t\<lparr>spt_last_receive_addr := NetAddress_new, spt_mgr := mgr, spt_sent := [(NetAddress_new, packet TS2SP_WELCOME (take UUID_LENGTH sample_sp_uuid))]\<rparr>)"
    using sp_dispatch[OF _ len, of 43 sample_env NetAddress_new SP2TS_REGISTER "[]" ?t] r(1) by (simp add: Let_def)
  moreover have "sp_handle_udp_packet sample_env NetAddress_new (packet SP2TS_LOGOUT (take UUID_LENGTH sample_sp_uuid)) 21 t =
      Inr (0, t\<lparr>spt_last_receive_addr := NetAddress_new\<rparr>)" for t
    using sp_logout_ignored[of 21 "take UUID_LENGTH sample_sp_uuid" sample_env NetAddress_new "[]" t] by simp
  ultimately show ?thesis using r(2) by simp
qed

end
