(* ===== verification/Np_Refine.thy ===== *)
theory Np_Refine
  imports Np_Props Sp_Refine
begin

text \<open>
  What the tracker is for normal peers, without its tables and buffers: a map from uuids to what
  is known of each peer, the interval it sent last, and the answers sent; what it answers depends
  on the map of super peers. Every run of the connector of \<open>Np_Tracker\<close> that does not fault is a
  run of this specification. Which of the super peers and peers are named in an answer is left
  open here: \<open>np_choice\<close> and \<open>resource_lookup\<close> settle it.
\<close>

section \<open>The specification\<close>

record np_view =
  nv_peers :: "map_str \<Rightarrow> NPNode option"
  nv_last :: BlockInterval
  nv_sent :: "(NetAddress \<times> bytes) list"

datatype np_message =
    Logs_In Np2TsLogin
  | Requests Np2TsReqRes
  | Sends_Report Np2TsReport
  | Needs_Peers Np2TsNeedPeers
  | Requests_Interval Np2TsReqInterval
  | Logs_Out Np2TsLogout
  | No_Np_Effect

type_synonym sources = "map_str \<Rightarrow> ChannelNode option"

definition is_source :: "sources \<Rightarrow> MD5_Hash_Str \<Rightarrow> ChannelNode \<Rightarrow> bool" where
  "is_source v h n \<longleftrightarrow> (\<exists>u. v u = Some n) \<and> has_resource h n"

definition nv_store :: "map_str \<Rightarrow> NPNode option \<Rightarrow> np_view \<Rightarrow> np_view" where
  "nv_store uuid n s = s\<lparr>nv_peers := (\<lambda>u. if same_uuid u uuid then n else nv_peers s u)\<rparr>"

definition nv_answer :: "NetAddress \<Rightarrow> bytes \<Rightarrow> np_view \<Rightarrow> np_view" where
  "nv_answer sender x s = s\<lparr>nv_sent := nv_sent s @ [(sender, x)]\<rparr>"

text \<open>The message to a peer that is not registered.\<close>

definition error_packet :: "np_env \<Rightarrow> bytes" where
  "error_packet env = packet TS2NP_MSG (Ts2NpMsg_content \<lparr>npmsg_err_type = 1, npmsg_should_quit = e_quit env\<rparr>)"

text \<open>
  A list for a peer: up to ten registered super peers, up to twenty other registered peers that
  watch the resource and hold the block, and the address of a super peer that has it.
\<close>

definition list_for :: "sources \<Rightarrow> (map_str \<Rightarrow> NPNode option) \<Rightarrow> MD5_Hash_Str \<Rightarrow> map_str \<Rightarrow> u32 \<Rightarrow> Ts2NpPeers \<Rightarrow> bool" where
  "list_for v peers h uuid block m \<longleftrightarrow>
     peers_sp_list_size m = word_of_nat (length (peers_sp_addr m)) \<and>
     0 < length (peers_sp_addr m) \<and> length (peers_sp_addr m) \<le> 10 \<and>
     (\<forall>a\<in>set (peers_sp_addr m). \<exists>u n. v u = Some n \<and> a = cn_spAddress n) \<and>
     peers_peer_list_size m = word_of_nat (length (peers_peer_addr m)) \<and> length (peers_peer_addr m) \<le> 20 \<and>
     (\<forall>p\<in>set (peers_peer_addr m). \<exists>u n. peers u = Some n \<and> eligible h uuid block n \<and> p = peer_of n) \<and>
     (\<exists>n. is_source v h n \<and> peers_np_addr m = cn_spAddress n)"

text \<open>
  What asking for peers leads to: \<open>None\<close> is a fault, when the list cannot be written (a list of
  more super peers than peers goes past its buffer).
\<close>

inductive asks_peers :: "np_env \<Rightarrow> NetAddress \<Rightarrow> sources \<Rightarrow> map_str \<Rightarrow> MD5_Hash_Str \<Rightarrow> u32 \<Rightarrow> np_view \<Rightarrow> np_view option \<Rightarrow> bool"
  for env sender v uuid h block s where
  no_source: "\<nexists>n. is_source v h n \<Longrightarrow> asks_peers env sender v uuid h block s (Some s)"
| stranger: "is_source v h n \<Longrightarrow> nv_peers s uuid = None \<Longrightarrow>
    asks_peers env sender v uuid h block s (Some (nv_answer sender (error_packet env) s))"
| listed: "is_source v h n \<Longrightarrow> nv_peers s uuid = Some node \<Longrightarrow> list_for v (nv_peers s) h uuid block m \<Longrightarrow>
    RsMessage_pack (e_junk env) (Ts2NpPeers_reserve m) (Ts2NpPeers_submsg m) = Inr (x, nb) \<Longrightarrow>
    asks_peers env sender v uuid h block s (Some
      (nv_answer sender x (nv_store uuid (Some (NPNode_assign (watching (e_now env) h (NPNode_assign node)))) s)))"
| too_few: "is_source v h n \<Longrightarrow> nv_peers s uuid = Some node \<Longrightarrow> list_for v (nv_peers s) h uuid block m \<Longrightarrow>
    RsMessage_pack (e_junk env) (Ts2NpPeers_reserve m) (Ts2NpPeers_submsg m) = Inl e \<Longrightarrow>
    asks_peers env sender v uuid h block s None"

text \<open>What a message leads to.\<close>

inductive np_serves :: "np_env \<Rightarrow> NetAddress \<Rightarrow> sources \<Rightarrow> np_message \<Rightarrow> np_view \<Rightarrow> np_view option \<Rightarrow> bool" for env sender v where
  login: "\<forall>i<4. e_rand env i < 65536 \<Longrightarrow> login_ip_list_size m \<noteq> 0 \<Longrightarrow>
    n = logged_in env sender m (uuid_of (e_rand env)) \<Longrightarrow>
    np_serves env sender v (Logs_In m) s (Some (nv_answer sender
      (packet TS2NP_WELCOME (take UUID_LENGTH (uuid_of (e_rand env)) @ bytes_of_P2PAddress (np_clientAddress n)))
      (nv_store (uuid_of (e_rand env)) (Some (NPNode_assign n)) s)))"
| login_without_address: "\<forall>i<4. e_rand env i < 65536 \<Longrightarrow> login_ip_list_size m = 0 \<Longrightarrow> np_serves env sender v (Logs_In m) s (Some s)"
| login_overflows: "\<not> (\<forall>i<4. e_rand env i < 65536) \<Longrightarrow> np_serves env sender v (Logs_In m) s None"
| request: "md5_hash h = reqres_resource_md5 m @ [0] \<Longrightarrow> asks_peers env sender v (reqres_uuid m @ [0]) h 0 s r \<Longrightarrow>
    np_serves env sender v (Requests m) s r"
| report: "nv_peers s (report_uuid m @ [0]) \<noteq> None \<Longrightarrow> np_serves env sender v (Sends_Report m) s (Some s)"
| report_stranger: "nv_peers s (report_uuid m @ [0]) = None \<Longrightarrow>
    np_serves env sender v (Sends_Report m) s (Some (nv_answer sender (error_packet env) s))"
| need: "nv_peers s (needpeers_uuid m @ [0]) = Some node \<Longrightarrow>
    asks_peers env sender v (needpeers_uuid m @ [0]) (np_channelID_md5 node) (needpeers_current_block m) s r \<Longrightarrow>
    np_serves env sender v (Needs_Peers m) s r"
| need_stranger: "nv_peers s (needpeers_uuid m @ [0]) = None \<Longrightarrow> np_serves env sender v (Needs_Peers m) s (Some s)"
| interval: "nv_peers s (reqinterval_uuid m @ [0]) = Some node \<Longrightarrow> v u = Some n \<Longrightarrow> x \<in> set (cn_pHash n) \<Longrightarrow>
    MD5_eq x (np_channelID_md5 node) \<Longrightarrow> i = md5_interval x \<Longrightarrow>
    np_serves env sender v (Requests_Interval m) s (Some (if nv_last s = i then s
      else nv_answer sender (packet TS2NP_RES_INTERVAL (bytes_of_BlockInterval i)) (s\<lparr>nv_last := i\<rparr>)))"
| interval_unknown: "nv_peers s (reqinterval_uuid m @ [0]) = Some node \<Longrightarrow> \<nexists>n. is_source v (np_channelID_md5 node) n \<Longrightarrow>
    np_serves env sender v (Requests_Interval m) s (Some s)"
| interval_stranger: "nv_peers s (reqinterval_uuid m @ [0]) = None \<Longrightarrow>
    np_serves env sender v (Requests_Interval m) s (Some (nv_answer sender (error_packet env) s))"
| logout: "np_serves env sender v (Logs_Out m) s (Some (nv_store (np_logout_uuid m @ [0]) None s))"
| other: "np_serves env sender v No_Np_Effect s (Some s)"

definition np_expire :: "int \<Rightarrow> np_view \<Rightarrow> np_view" where
  "np_expire now s = s\<lparr>nv_peers := (\<lambda>u. case nv_peers s u of None \<Rightarrow> None
     | Some n \<Rightarrow> if now - np_last_recv_report_time n > 600 then None else Some n)\<rparr>"

definition np_message_of :: "bytes \<Rightarrow> np_message option" where
  "np_message_of buf =
     (let s = initialize (drop 5 buf) (sint (dec (take 4 buf) :: u32) - 5)
      in if length buf < 5 then None
         else if buf ! 4 = msg_code NP2TS_LOGIN then (case Np2TsLogin_parse Np2TsLogin_fresh s of Inl e \<Rightarrow> None | Inr (m, _) \<Rightarrow> Some (Logs_In m))
         else if buf ! 4 = msg_code NP2TS_REQ_RES then (case Np2TsReqRes_parse s of Inl e \<Rightarrow> None | Inr (m, _) \<Rightarrow> Some (Requests m))
         else if buf ! 4 = msg_code NP2TS_REPORT then (case Np2TsReport_parse Np2TsReport_fresh s of Inl e \<Rightarrow> None | Inr (m, _) \<Rightarrow> Some (Sends_Report m))
         else if buf ! 4 = msg_code NP2TS_NEED_PEERS then (case Np2TsNeedPeers_parse s of Inl e \<Rightarrow> None | Inr (m, _) \<Rightarrow> Some (Needs_Peers m))
         else if buf ! 4 = msg_code NP2TS_RES_INTERVAL then (case Np2TsReqInterval_parse s of Inl e \<Rightarrow> None | Inr (m, _) \<Rightarrow> Some (Requests_Interval m))
         else if buf ! 4 = msg_code NP2TS_LOGOUT then (case Np2TsLogout_parse s of Inl e \<Rightarrow> None | Inr (m, _) \<Rightarrow> Some (Logs_Out m))
         else Some No_Np_Effect)"

section \<open>What it sees of the connector\<close>

definition np_abs :: "RsNpTracker \<Rightarrow> np_view" where
  "np_abs t = \<lparr>nv_peers = (\<lambda>u. find_Node u (npt_np_mgr t)), nv_last = npt_last_send_blockinterval t, nv_sent = npt_sent t\<rparr>"

definition sources_of :: "RsTrackerStreamManager \<Rightarrow> sources" where
  "sources_of mgr = (\<lambda>u. registered u mgr)"

lemma np_abs_simps [simp]:
  "nv_peers (np_abs t) u = find_Node u (npt_np_mgr t)" "nv_last (np_abs t) = npt_last_send_blockinterval t"
  "nv_sent (np_abs t) = npt_sent t" "np_abs (t\<lparr>npt_last_receive_addr := a\<rparr>) = np_abs t"
  "np_abs (t\<lparr>npt_sp_mgr := mgr\<rparr>) = np_abs t"
  by (simp_all add: np_abs_def)

lemma np_abs_sent: "np_abs (t\<lparr>npt_sent := npt_sent t @ [(a, x)]\<rparr>) = nv_answer a x (np_abs t)"
  by (simp add: np_abs_def nv_answer_def)

lemma np_abs_insert:
  "np_table_ok (npt_np_mgr t) \<Longrightarrow> np_abs (t\<lparr>npt_np_mgr := insert_Node d n (npt_np_mgr t)\<rparr>) = nv_store d (Some (NPNode_assign n)) (np_abs t)"
  by (auto simp: np_abs_def nv_store_def insert_Node_ok)

lemma np_abs_delete:
  "np_table_ok (npt_np_mgr t) \<Longrightarrow> np_abs (t\<lparr>npt_np_mgr := deleteNode d (npt_np_mgr t)\<rparr>) = nv_store d None (np_abs t)"
  by (auto simp: np_abs_def nv_store_def deleteNode_ok)

lemma get_Node_view: "get_Node u (npt_np_mgr t) = map_option NPNode_assign (nv_peers (np_abs t) u)"
  by (simp add: get_Node_def find_Node_def)

lemma send_msg_view: "sees np_abs (send_msg env t) = Some (nv_answer (npt_last_receive_addr t) (error_packet env) (np_abs t))"
  by (simp add: send_msg_packet np_abs_sent error_packet_def)

lemma sources_entry: "table_ok mgr \<Longrightarrow> (k, n) \<in> set (channel_map mgr) \<Longrightarrow> sources_of mgr k = Some n"
  by (simp add: sources_of_def registered_entry)

lemma source_entry:
  assumes "table_ok mgr"
  shows "is_source (sources_of mgr) h n \<longleftrightarrow> (\<exists>k. (k, n) \<in> set (channel_map mgr)) \<and> has_resource h n"
  using registered_entry[OF assms] entry_registered[of _ mgr] unfolding is_source_def sources_of_def by blast

section \<open>The choice of peers without assumptions on the draw\<close>

lemma np_rounds_sound:
  "np_rounds fuel rand ok inCount m g c index arr = Some r \<Longrightarrow> found_ok ok inCount m index arr \<Longrightarrow>
    \<exists>i a. r = Inr (i, a) \<and> found_ok ok inCount m i a"
proof (induction fuel arbitrary: g c index arr)
  case (Suc fuel)
  obtain p' g' c' where p: "pick_group rand (length g) (length g) g 0 c = (p', g', c')" by (metis prod_cases3)
  obtain e j b where s: "scan_peers ok inCount (drop (nat p' * 30) m) index arr = Inr (e, j, b)" "found_ok ok inCount m j b"
    using scan_peers_found[OF Suc.prems(2), of "drop (nat p' * 30) m"] set_drop_subset[of "nat p' * 30" m] by blast
  show ?case
    using Suc.prems Suc.IH[of g' c' j b] p s by (auto simp: Let_def split: if_splits)
qed simp

lemma get_np_address_sound:
  "get_np_address fuel rand h uuid inCount block mgr = Some r \<Longrightarrow>
    \<exists>k peers. r = Inr (k, peers) \<and> found_ok (eligible h uuid block) inCount (npnode_map mgr) k peers"
  unfolding get_np_address_def by (erule np_rounds_sound) (simp add: found_ok_def)

section \<open>Every handler\<close>

lemma some_source:
  assumes "table_ok mgr" "get_sp_address h 1 mgr = Inr (c, sps)" "c \<noteq> 0"
  shows "\<exists>n. is_source (sources_of mgr) h n \<and> sps ! 0 = cn_spAddress n"
proof -
  let ?f = "filter (has_resource h \<circ> snd) (channel_map mgr)"
  have r: "c = length (take 1 (map (cn_spAddress \<circ> snd) ?f))"
    "sps = take 1 (map (cn_spAddress \<circ> snd) ?f) @ replicate (1 - c) NetAddress_new"
    using sources_found[OF assms(1), of 1 h] assms(2) by (simp_all add: Let_def del: One_nat_def)
  obtain k n xs where f: "?f = (k, n) # xs" using r(1) assms(3) by (cases ?f) auto
  then have "(k, n) \<in> set ?f" by simp
  then have "is_source (sources_of mgr) h n" using source_entry[OF assms(1)] by auto
  then show ?thesis using r f by auto
qed

lemma no_sources:
  assumes "table_ok mgr" "get_sp_address h 1 mgr = Inr (0, sps)"
  shows "\<nexists>n. is_source (sources_of mgr) h n"
proof -
  let ?f = "filter (has_resource h \<circ> snd) (channel_map mgr)"
  have "length (take 1 (map (cn_spAddress \<circ> snd) ?f)) = 0"
    using sources_found[OF assms(1), of 1 h] assms(2) by (simp add: Let_def del: One_nat_def)
  then have "?f = []" by (cases ?f) auto
  then have "\<forall>x\<in>set (channel_map mgr). \<not> has_resource h (snd x)" by (simp add: filter_empty_conv)
  then show ?thesis using source_entry[OF assms(1), of h] by force
qed

lemma some_super_peers:
  assumes "table_ok mgr" "get_cp_address r 10 mgr = Inr (c, cps)"
  shows "c \<le> 10" "length (take c cps) = c" "c = 0 \<Longrightarrow> channel_map mgr = []"
    "\<forall>a\<in>set (take c cps). \<exists>u n. sources_of mgr u = Some n \<and> a = cn_spAddress n"
proof -
  let ?addrs = "map (cn_spAddress \<circ> snd) (channel_map mgr)"
  obtain pos where pos: "c = length (take 10 (drop pos ?addrs))"
    "cps = take 10 (drop pos ?addrs) @ replicate (10 - c) NetAddress_new"
    "length (channel_map mgr) \<le> 10 \<longrightarrow> pos = 0" "10 < length (channel_map mgr) \<longrightarrow> pos + 10 < length (channel_map mgr)"
    using cp_window[of r 10 mgr] assms(2) by (auto simp: Let_def)
  show "c \<le> 10" using pos(1) by simp
  have "take (length xs) (xs @ ys) = xs" for xs ys :: "NetAddress list" by simp
  from this[of "take 10 (drop pos ?addrs)" "replicate (10 - c) NetAddress_new"]
  have t: "take c cps = take 10 (drop pos ?addrs)" unfolding pos(1)[symmetric] pos(2)[symmetric] .
  then show "length (take c cps) = c" using pos(1) by simp
  show "channel_map mgr = []" if "c = 0" using pos that by (cases "length (channel_map mgr) \<le> 10") auto
  show "\<forall>a\<in>set (take c cps). \<exists>u n. sources_of mgr u = Some n \<and> a = cn_spAddress n"
  proof
    fix a assume "a \<in> set (take c cps)"
    then have "a \<in> set ?addrs" unfolding t by (meson in_set_dropD in_set_takeD)
    then obtain k n where "(k, n) \<in> set (channel_map mgr)" "a = cn_spAddress n" by force
    then show "\<exists>u n. sources_of mgr u = Some n \<and> a = cn_spAddress n" using sources_entry[OF assms(1)] by blast
  qed
qed

lemma peers_written:
  assumes "RsMessage_pack junk (Ts2NpPeers_reserve m) (Ts2NpPeers_submsg m) = Inr (payload, nb)"
  shows "nb \<noteq> 0"
proof -
  have "keeps_length (Ts2NpPeers_submsg m)" unfolding Ts2NpPeers_submsg_def by (intro keeps_intros)
  moreover have "6 \<le> Ts2NpPeers_reserve m" "Ts2NpPeers_reserve m < 2 ^ 32"
    using uint_u8[of "peers_sp_list_size m"] uint_u8[of "peers_peer_list_size m"]
    by (simp_all add: Ts2NpPeers_reserve_def RsMessage_reserve_pack_size_def)
  ultimately show ?thesis using pack_length[OF _ assms] by simp
qed

lemma send_peers_refines:
  assumes "table_ok (npt_sp_mgr t)" "np_table_ok (npt_np_mgr t)" "send_peers fuel env u h block t = Some r"
  shows "asks_peers env (npt_last_receive_addr t) (sources_of (npt_sp_mgr t)) u h block (np_abs t) (sees np_abs r)"
proof -
  obtain cpCount cps where q2: "get_cp_address (e_seeded env) 10 (npt_sp_mgr t) = Inr (cpCount, cps)"
    using cp_window[of "e_seeded env" 10 "npt_sp_mgr t"] by (auto simp: Let_def)
  obtain spCount sps where q3: "get_sp_address h 1 (npt_sp_mgr t) = Inr (spCount, sps)"
    using sources_found[OF assms(1), of 1 h] by (auto simp: Let_def)
  obtain npCount nps where q1: "get_np_address fuel (e_rand env) h u 20 block (npt_np_mgr t) = Some (Inr (npCount, nps))"
    and found: "found_ok (eligible h u block) 20 (npnode_map (npt_np_mgr t)) npCount nps"
  proof (cases "get_np_address fuel (e_rand env) h u 20 block (npt_np_mgr t)")
    case None
    then show ?thesis using assms(3) by (simp add: send_peers_def)
  next
    case (Some q)
    from get_np_address_sound[OF Some] Some that show ?thesis by blast
  qed
  note q = q1 q2 q3
  note cp = some_super_peers[OF assms(1) q2]
  show ?thesis
  proof (cases "cpCount = 0 \<or> spCount = 0")
    case True
    then have "\<nexists>n. is_source (sources_of (npt_sp_mgr t)) h n"
      using no_sources[OF assms(1)] q(3) cp(3) source_entry[OF assms(1)] by fastforce
    moreover have "r = Inr t" using True assms(3) by (simp add: send_peers_def q del: One_nat_def)
    ultimately show ?thesis using asks_peers.no_source by simp
  next
    case False
    obtain n where n: "is_source (sources_of (npt_sp_mgr t)) h n" "sps ! 0 = cn_spAddress n"
      using some_source[OF assms(1) q(3)] False by blast
    show ?thesis
    proof (cases "get_Node u (npt_np_mgr t)")
      case None
      then have "r = send_msg env t" using assms(3) False by (simp add: send_peers_def q del: One_nat_def)
      moreover have "nv_peers (np_abs t) u = None" using None by (simp add: get_Node_view)
      ultimately show ?thesis using asks_peers.stranger[OF n(1)] by (simp add: send_msg_view)
    next
      case (Some node)
      let ?m = "\<lparr>peers_sp_list_size = word_of_nat cpCount, peers_sp_addr = take cpCount cps,
        peers_peer_list_size = word_of_nat npCount, peers_peer_addr = take npCount nps, peers_np_addr = sps ! 0\<rparr>"
      let ?t = "t\<lparr>npt_np_mgr := insert_Node u (watching (e_now env) h node) (npt_np_mgr t)\<rparr>"
      obtain old where old: "nv_peers (np_abs t) u = Some old" "node = NPNode_assign old" using Some by (auto simp: get_Node_view)
      have peers: "\<forall>p\<in>set (take npCount nps). \<exists>w n. nv_peers (np_abs t) w = Some n \<and> eligible h u block n \<and> p = peer_of n"
      proof
        fix p assume "p \<in> set (take npCount nps)"
        then obtain k n where "(k, n) \<in> set (npnode_map (npt_np_mgr t))" "eligible h u block n" "p = peer_of n"
          using found by (force simp: found_ok_def)
        moreover from this have "find_Node k (npt_np_mgr t) = Some n"
          using assms(2) unfolding find_Node_def np_table_ok_def by (intro mapstr.find_entry)
        ultimately show "\<exists>w n. nv_peers (np_abs t) w = Some n \<and> eligible h u block n \<and> p = peer_of n" by auto
      qed
      have count: "length (take npCount nps) = npCount" "npCount \<le> 20" using found by (simp_all add: found_ok_def)
      have list: "list_for (sources_of (npt_sp_mgr t)) (nv_peers (np_abs t)) h u block ?m"
        unfolding list_for_def using cp(1,2,4) count peers n False by auto
      have r: "r = bindE (RsMessage_pack (e_junk env) (Ts2NpPeers_reserve ?m) (Ts2NpPeers_submsg ?m))
          (\<lambda>(x, nb). Inr (np_send_buffer x nb ?t))"
        using assms(3) unfolding send_peers_def Let_def bindO_simps bindE_Inr prod.case q Some watching_def
        by (simp only: False if_False option.case option.inject)
      show ?thesis
      proof (cases "RsMessage_pack (e_junk env) (Ts2NpPeers_reserve ?m) (Ts2NpPeers_submsg ?m)")
        case (Inl e)
        then show ?thesis using asks_peers.too_few[OF n(1) old(1) list Inl] r by simp
      next
        case (Inr y)
        obtain x nb where y: "y = (x, nb)" by fastforce
        note x = Inr[unfolded y]
        have "np_abs (np_send_buffer x nb ?t) = nv_answer (npt_last_receive_addr t) x
            (nv_store u (Some (NPNode_assign (watching (e_now env) h node))) (np_abs t))"
          using peers_written[OF x] np_abs_sent[of ?t] by (simp add: np_send_buffer_def np_abs_insert[OF assms(2)])
        then show ?thesis using asks_peers.listed[OF n(1) old(1) list x] old(2) r by (simp add: x)
      qed
    qed
  qed
qed

lemma login_refines:
  assumes "np_table_ok (npt_np_mgr t)" "Np2TsLogin_parse Np2TsLogin_fresh (initialize msg n) = Inr (m, s)"
  shows "np_serves env (npt_last_receive_addr t) v (Logs_In m) (np_abs t) (sees np_abs (get_login env msg n t))"
proof (cases "\<forall>i<4. e_rand env i < 65536")
  case False
  have "generate_uuid (e_rand env 0) (e_rand env 1) (e_rand env 2) (e_rand env 3) = Inl Out_Of_Bounds"
    unfolding generate_uuid_of using False by (simp only: if_False)
  then have "get_login env msg n t = Inl Out_Of_Bounds" by (simp only: get_login_def assms(2) bindE_Inr bindE_Inl prod.case)
  then show ?thesis using np_serves.login_overflows[OF False] by simp
next
  case small: True
  let ?u = "uuid_of (e_rand env)" and ?a = "npt_last_receive_addr t"
  let ?node = "logged_in env ?a m ?u"
  have u: "generate_uuid (e_rand env 0) (e_rand env 1) (e_rand env 2) (e_rand env 3) = Inr ?u"
    unfolding generate_uuid_of by (rule if_P) (rule small)
  show ?thesis
  proof (cases "login_ip_list_size m = 0")
    case True
    then have "get_login env msg n t = Inr t" unfolding get_login_def assms(2) u bindE_Inr prod.case by simp
    then show ?thesis using np_serves.login_without_address[OF small True] by simp
  next
    case False
    have "UUID_LENGTH \<le> length ?u" using generate_uuid_length[OF u] by simp
    from np_send_welcome_packet[OF this] have "get_login env msg n t = Inr (t\<lparr>npt_np_mgr := insert_Node ?u ?node (npt_np_mgr t),
        npt_sent := npt_sent t @ [(?a, packet TS2NP_WELCOME (take UUID_LENGTH ?u @ bytes_of_P2PAddress (np_clientAddress ?node)))]\<rparr>)"
      using False unfolding get_login_def assms(2) u bindE_Inr prod.case Let_def logged_in_def by simp
    then have "sees np_abs (get_login env msg n t) = Some (nv_answer ?a
        (packet TS2NP_WELCOME (take UUID_LENGTH ?u @ bytes_of_P2PAddress (np_clientAddress ?node)))
        (nv_store ?u (Some (NPNode_assign ?node)) (np_abs t)))"
      using np_abs_sent[of "t\<lparr>npt_np_mgr := insert_Node ?u ?node (npt_np_mgr t)\<rparr>"] np_abs_insert[OF assms(1)] by simp
    then show ?thesis using np_serves.login[OF small False refl] by simp
  qed
qed

lemma request_refines:
  assumes "table_ok (npt_sp_mgr t)" "np_table_ok (npt_np_mgr t)"
    and "Np2TsReqRes_parse (initialize msg n) = Inr (m, s)" "get_req_res fuel env msg n t = Some r"
  shows "np_serves env (npt_last_receive_addr t) (sources_of (npt_sp_mgr t)) (Requests m) (np_abs t) (sees np_abs r)"
proof -
  let ?h = "\<lparr>md5_hash = reqres_resource_md5 m @ [0], md5_interval = BlockInterval_new (dec (map (e_junk env) [0..<4]))\<rparr>"
  have "send_peers fuel env (reqres_uuid m @ [0]) ?h 0 t = Some r"
    using assms(4) by (simp add: get_req_res_def assms(3) Let_def)
  from send_peers_refines[OF assms(1,2) this] show ?thesis by (intro np_serves.request) simp_all
qed

lemma report_refines:
  assumes "Np2TsReport_parse Np2TsReport_fresh (initialize msg n) = Inr (m, s)"
  shows "np_serves env (npt_last_receive_addr t) v (Sends_Report m) (np_abs t) (sees np_abs (get_report env msg n t))"
proof (cases "nv_peers (np_abs t) (report_uuid m @ [0])")
  case None
  then have "get_report env msg n t = send_msg env t" using assms by (simp add: get_report_def get_Node_view Let_def del: np_abs_simps)
  then show ?thesis using np_serves.report_stranger[OF None] by (simp add: send_msg_view)
next
  case (Some node)
  then have "get_report env msg n t = Inr t"
    using assms report_parse_fresh[OF assms(1)] by (simp add: get_report_def get_Node_view Let_def del: np_abs_simps)
  then show ?thesis using Some np_serves.report[of "np_abs t" m env "npt_last_receive_addr t" v] by simp
qed

lemma need_refines:
  assumes "table_ok (npt_sp_mgr t)" "np_table_ok (npt_np_mgr t)"
    and "Np2TsNeedPeers_parse (initialize msg n) = Inr (m, s)" "get_need_peers fuel env msg n t = Some r"
  shows "np_serves env (npt_last_receive_addr t) (sources_of (npt_sp_mgr t)) (Needs_Peers m) (np_abs t) (sees np_abs r)"
proof (cases "nv_peers (np_abs t) (needpeers_uuid m @ [0])")
  case None
  then have "r = Inr t" using assms by (simp add: get_need_peers_def get_Node_view Let_def del: np_abs_simps)
  then show ?thesis using np_serves.need_stranger[OF None] by simp
next
  case (Some node)
  then have "send_peers fuel env (needpeers_uuid m @ [0]) (np_channelID_md5 node) (needpeers_current_block m) t = Some r"
    using assms by (simp add: get_need_peers_def get_Node_view NPNode_assign_def Let_def del: np_abs_simps)
  from send_peers_refines[OF assms(1,2) this] show ?thesis by (rule np_serves.need[OF Some])
qed

lemma interval_refines:
  assumes "table_ok (npt_sp_mgr t)" "Np2TsReqInterval_parse (initialize msg n) = Inr (m, s)"
  shows "np_serves env (npt_last_receive_addr t) (sources_of (npt_sp_mgr t)) (Requests_Interval m) (np_abs t)
    (sees np_abs (get_res_interval env msg n t))"
proof (cases "nv_peers (np_abs t) (reqinterval_uuid m @ [0])")
  case None
  then have "get_res_interval env msg n t = send_msg env t"
    using assms by (simp add: get_res_interval_def get_Node_view del: np_abs_simps)
  then show ?thesis using np_serves.interval_stranger[OF None] by (simp add: send_msg_view)
next
  case (Some node)
  let ?h = "np_channelID_md5 node" and ?xs = "concat (map (\<lambda>(k, n). cn_pHash n) (channel_map (npt_sp_mgr t)))"
  have run: "get_res_interval env msg n t = send_res_interval env ?h t"
    using assms Some by (simp add: get_res_interval_def get_Node_view NPNode_assign_def del: np_abs_simps)
  have found: "get_channel_interval ?h (npt_sp_mgr t) = Inr (map_option md5_interval (find (\<lambda>x. MD5_eq x ?h) ?xs))"
    using interval_found[OF assms(1)] by simp
  show ?thesis
  proof (cases "find (\<lambda>x. MD5_eq x ?h) ?xs")
    case None
    then have "send_res_interval env ?h t = Inr t" using send_res_interval_packet[OF assms(1), of ?h env] found by simp
    moreover have "\<nexists>n. is_source (sources_of (npt_sp_mgr t)) ?h n"
      using None source_entry[OF assms(1)] by (fastforce simp: find_None_iff)
    ultimately show ?thesis using np_serves.interval_unknown[OF Some] run by simp
  next
    case x: (Some x)
    then obtain k cn where n: "(k, cn) \<in> set (channel_map (npt_sp_mgr t))" "x \<in> set (cn_pHash cn)" "MD5_eq x ?h"
      by (auto simp: find_Some_iff in_set_conv_nth[symmetric] dest!: nth_mem)
    let ?i = "md5_interval x" and ?a = "npt_last_receive_addr t"
    have "send_res_interval env ?h t = Inr (if npt_last_send_blockinterval t = ?i then t else t\<lparr>npt_last_send_blockinterval := ?i,
        npt_sent := npt_sent t @ [(?a, packet TS2NP_RES_INTERVAL (bytes_of_BlockInterval ?i))]\<rparr>)"
      using send_res_interval_packet[OF assms(1), of ?h env] found x by auto
    then have "sees np_abs (get_res_interval env msg n t) = Some (if nv_last (np_abs t) = ?i then np_abs t
        else nv_answer ?a (packet TS2NP_RES_INTERVAL (bytes_of_BlockInterval ?i)) ((np_abs t)\<lparr>nv_last := ?i\<rparr>))"
      unfolding run by (simp add: np_abs_def nv_answer_def)
    then show ?thesis
      using np_serves.interval[of "np_abs t" m node "sources_of (npt_sp_mgr t)" k cn x ?i env ?a,
          OF Some sources_entry[OF assms(1) n(1)] n(2) n(3) refl] by simp
  qed
qed

lemma logout_refines:
  assumes "np_table_ok (npt_np_mgr t)" "Np2TsLogout_parse (initialize msg n) = Inr (m, s)"
  shows "np_serves env sender v (Logs_Out m) (np_abs t) (sees np_abs (np_get_logout msg n t))"
  using np_serves.logout[of env sender v m "np_abs t"] np_abs_delete[OF assms(1)] assms(2) by (simp add: np_get_logout_def)

section \<open>Runs\<close>

text \<open>
  What happens to the connector: a datagram of \<open>nb\<close> bytes is in the buffer, the table's timer
  fires, or the table of super peers is another one (it is shared with the other connector).
  The choice of peers gets enough fuel to try every group of them.
\<close>

datatype np_tracker_event =
    Np_Datagram nat np_env NetAddress bytes int
  | Np_Tick int
  | Super_Peers RsTrackerStreamManager

fun np_tracker_step :: "np_tracker_event \<Rightarrow> RsNpTracker \<Rightarrow> RsNpTracker res option" where
  "np_tracker_step (Np_Datagram fuel env sender buf nb) t =
     bindO (np_handle_udp_packet (max fuel (group_count (npt_np_mgr t) + 1)) env sender buf nb t) (\<lambda>(_, t). Some (Inr t))"
| "np_tracker_step (Np_Tick now) t = Some (Inr (t\<lparr>npt_np_mgr := np_timer_check now (npt_np_mgr t)\<rparr>))"
| "np_tracker_step (Super_Peers mgr) t = Some (Inr (t\<lparr>npt_sp_mgr := mgr\<rparr>))"

fun np_tracker_run :: "np_tracker_event list \<Rightarrow> RsNpTracker \<Rightarrow> RsNpTracker res option" where
  "np_tracker_run [] t = Some (Inr t)"
| "np_tracker_run (e # es) t = bindO (np_tracker_step e t) (np_tracker_run es)"

text \<open>The runs of the specification, from one map of super peers and one view; \<open>None\<close> is a fault.\<close>

inductive np_spec_step :: "np_tracker_event \<Rightarrow> sources \<times> np_view \<Rightarrow> (sources \<times> np_view) option \<Rightarrow> bool" where
  nothing: "np_spec_step (Np_Datagram fuel env sender buf 0) s (Some s)"
| unreadable: "nb \<noteq> 0 \<Longrightarrow> np_message_of buf = None \<Longrightarrow> np_spec_step (Np_Datagram fuel env sender buf nb) s None"
| served: "nb \<noteq> 0 \<Longrightarrow> np_message_of buf = Some m \<Longrightarrow> np_serves env sender v m s r \<Longrightarrow>
    np_spec_step (Np_Datagram fuel env sender buf nb) (v, s) (map_option (Pair v) r)"
| tick: "np_spec_step (Np_Tick now) (v, s) (Some (v, np_expire now s))"
| super_peers: "np_spec_step (Super_Peers mgr) (v, s) (Some (sources_of mgr, s))"

inductive np_spec_run :: "np_tracker_event list \<Rightarrow> sources \<times> np_view \<Rightarrow> (sources \<times> np_view) option \<Rightarrow> bool" where
  stays: "np_spec_run [] s (Some s)"
| faults: "np_spec_step e s None \<Longrightarrow> np_spec_run (e # es) s None"
| goes: "np_spec_step e s (Some s') \<Longrightarrow> np_spec_run es s' r \<Longrightarrow> np_spec_run (e # es) s r"

definition np_state :: "RsNpTracker \<Rightarrow> sources \<times> np_view" where
  "np_state t = (sources_of (npt_sp_mgr t), np_abs t)"

text \<open>A datagram that is handled has the effect of the message it is.\<close>

lemma np_datagram_refines:
  assumes "table_ok (npt_sp_mgr t)" "np_table_ok (npt_np_mgr t)" "nb \<noteq> 0"
    and "np_handle_udp_packet fuel env sender buf nb t = Some r"
  shows "case np_message_of buf of None \<Rightarrow> \<exists>e. r = Inl e
    | Some m \<Rightarrow> np_serves env sender (sources_of (npt_sp_mgr t)) m (np_abs t) (sees (np_abs \<circ> snd) r)"
proof (cases "length buf < 5")
  case True
  then show ?thesis using assms(3,4) by (auto simp: np_message_of_def np_handle_udp_packet_def guardE_def Let_def)
next
  case len: False
  let ?n = "sint (dec (take 4 buf) :: u32) - 5" and ?msg = "drop 5 buf"
  let ?t = "t\<lparr>npt_last_receive_addr := sender\<rparr>" and ?s = "initialize (drop 5 buf) (sint (dec (take 4 buf) :: u32) - 5)"
  have ok: "table_ok (npt_sp_mgr ?t)" "np_table_ok (npt_np_mgr ?t)" using assms(1,2) by simp_all
  have "bindO (if buf ! 4 = msg_code NP2TS_LOGIN then Some (get_login env ?msg ?n ?t)
        else if buf ! 4 = msg_code NP2TS_REQ_RES then get_req_res fuel env ?msg ?n ?t
        else if buf ! 4 = msg_code NP2TS_REPORT then Some (get_report env ?msg ?n ?t)
        else if buf ! 4 = msg_code NP2TS_NEED_PEERS then get_need_peers fuel env ?msg ?n ?t
        else if buf ! 4 = msg_code NP2TS_RES_INTERVAL then Some (get_res_interval env ?msg ?n ?t)
        else if buf ! 4 = msg_code NP2TS_LOGOUT then Some (np_get_logout ?msg ?n ?t)
        else Some (Inr ?t)) (\<lambda>t. Some (Inr (0, t))) = Some r"
    using assms(3,4) len by (simp add: np_handle_udp_packet_def Let_def guardE_def)
  moreover have "bindO q (\<lambda>t. Some (Inr (0 :: int, t))) = Some r \<Longrightarrow>
      \<exists>r'. q = Some r' \<and> r = bindE r' (\<lambda>t. Inr (0, t)) \<and> sees (np_abs \<circ> snd) r = sees np_abs r'" for q
    by (auto simp: bindO_def split: option.splits sum.splits)
  ultimately obtain r' where run: "(if buf ! 4 = msg_code NP2TS_LOGIN then Some (get_login env ?msg ?n ?t)
        else if buf ! 4 = msg_code NP2TS_REQ_RES then get_req_res fuel env ?msg ?n ?t
        else if buf ! 4 = msg_code NP2TS_REPORT then Some (get_report env ?msg ?n ?t)
        else if buf ! 4 = msg_code NP2TS_NEED_PEERS then get_need_peers fuel env ?msg ?n ?t
        else if buf ! 4 = msg_code NP2TS_RES_INTERVAL then Some (get_res_interval env ?msg ?n ?t)
        else if buf ! 4 = msg_code NP2TS_LOGOUT then Some (np_get_logout ?msg ?n ?t)
        else Some (Inr ?t)) = Some r'"
    and r: "r = bindE r' (\<lambda>t. Inr (0, t))" "sees (np_abs \<circ> snd) r = sees np_abs r'" by blast
  consider "buf ! 4 = msg_code NP2TS_LOGIN" "r' = get_login env ?msg ?n ?t"
    | "buf ! 4 = msg_code NP2TS_REQ_RES" "get_req_res fuel env ?msg ?n ?t = Some r'"
    | "buf ! 4 = msg_code NP2TS_REPORT" "r' = get_report env ?msg ?n ?t"
    | "buf ! 4 = msg_code NP2TS_NEED_PEERS" "get_need_peers fuel env ?msg ?n ?t = Some r'"
    | "buf ! 4 = msg_code NP2TS_RES_INTERVAL" "r' = get_res_interval env ?msg ?n ?t"
    | "buf ! 4 = msg_code NP2TS_LOGOUT" "r' = np_get_logout ?msg ?n ?t"
    | "buf ! 4 \<notin> {msg_code NP2TS_LOGIN, msg_code NP2TS_REQ_RES, msg_code NP2TS_REPORT, msg_code NP2TS_NEED_PEERS,
        msg_code NP2TS_RES_INTERVAL, msg_code NP2TS_LOGOUT}" "r' = Inr ?t"
    using run by (auto split: if_splits)
  then show ?thesis
  proof cases
    case 1
    show ?thesis
      using login_refines[OF ok(2), of ?msg ?n] r 1 len
      by (cases "Np2TsLogin_parse Np2TsLogin_fresh ?s") (auto simp: np_message_of_def msg_code_inj get_login_def Let_def)
  next
    case 2
    show ?thesis
      using request_refines[OF ok _ 2(2)] r 2 len
      by (cases "Np2TsReqRes_parse ?s") (auto simp: np_message_of_def msg_code_inj get_req_res_def Let_def)
  next
    case 3
    show ?thesis
      using report_refines[of ?msg ?n _ _ env ?t] r 3 len
      by (cases "Np2TsReport_parse Np2TsReport_fresh ?s") (auto simp: np_message_of_def msg_code_inj get_report_def Let_def)
  next
    case 4
    show ?thesis
      using need_refines[OF ok _ 4(2)] r 4 len
      by (cases "Np2TsNeedPeers_parse ?s") (auto simp: np_message_of_def msg_code_inj get_need_peers_def Let_def)
  next
    case 5
    show ?thesis
      using interval_refines[OF ok(1), of ?msg ?n] r 5 len
      by (cases "Np2TsReqInterval_parse ?s") (auto simp: np_message_of_def msg_code_inj get_res_interval_def Let_def)
  next
    case 6
    show ?thesis
      using logout_refines[OF ok(2), of ?msg ?n] r 6 len
      by (cases "Np2TsLogout_parse ?s") (auto simp: np_message_of_def msg_code_inj np_get_logout_def Let_def)
  next
    case 7
    with len r np_serves.other[of env sender _ "np_abs t"] show ?thesis
      by (simp add: np_message_of_def Let_def)
  qed
qed

section \<open>Every run\<close>

lemma np_step_refines:
  assumes "np_tracker_step e t = Some r" "table_ok (npt_sp_mgr t)" "np_table_ok (npt_np_mgr t)"
  shows "np_spec_step e (np_state t) (sees np_state r)"
proof (cases e)
  case (Np_Datagram fuel env sender buf nb)
  show ?thesis
  proof (cases "nb = 0")
    case True
    then show ?thesis using assms(1) Np_Datagram np_spec_step.nothing[of fuel env sender buf "np_state t"]
      by (auto simp: np_handle_udp_packet_def)
  next
    case False
    obtain q where q: "np_handle_udp_packet (max fuel (group_count (npt_np_mgr t) + 1)) env sender buf nb t = Some q"
      "r = bindE q (\<lambda>(_, t). Inr t)"
      using assms(1) Np_Datagram by (auto simp: bindO_def split: option.splits sum.splits)
    have view: "sees np_state r = map_option (Pair (sources_of (npt_sp_mgr t))) (sees (np_abs \<circ> snd) q)"
    proof (cases q)
      case (Inr x)
      obtain ret t' where x: "x = (ret, t')" by fastforce
      have "npt_sp_mgr t' = npt_sp_mgr t"
        using np_handle_udp_packet_kept[of _ env sender buf nb t ret t'] q(1) Inr x by (auto simp: kept_def)
      then show ?thesis using q(2) Inr x by (simp add: np_state_def)
    qed (use q(2) in simp)
    show ?thesis
    proof (cases "np_message_of buf")
      case None
      then have "sees np_state r = None" using np_datagram_refines[OF assms(2,3) False q(1)] q(2) by auto
      then show ?thesis using np_spec_step.unreadable[OF False None] Np_Datagram by simp
    next
      case (Some m)
      then have "np_serves env sender (sources_of (npt_sp_mgr t)) m (np_abs t) (sees (np_abs \<circ> snd) q)"
        using np_datagram_refines[OF assms(2,3) False q(1)] by simp
      from np_spec_step.served[OF False Some this] show ?thesis unfolding view Np_Datagram np_state_def .
    qed
  qed
next
  case (Np_Tick now)
  have "np_abs (t\<lparr>npt_np_mgr := np_timer_check now (npt_np_mgr t)\<rparr>) = np_expire now (np_abs t)"
    using np_timer_check_ok(2)[OF assms(3), of _ now] by (simp add: np_abs_def np_expire_def)
  then show ?thesis using assms(1) Np_Tick np_spec_step.tick[of now "sources_of (npt_sp_mgr t)" "np_abs t"]
    by (auto simp: np_state_def)
next
  case (Super_Peers mgr)
  then show ?thesis using assms(1) np_spec_step.super_peers[of mgr "sources_of (npt_sp_mgr t)" "np_abs t"]
    by (auto simp: np_state_def)
qed

lemma np_step_keeps:
  assumes "np_tracker_step e t = Some (Inr t')" "table_ok (npt_sp_mgr t)" "np_table_ok (npt_np_mgr t)"
    and "\<forall>mgr. e = Super_Peers mgr \<longrightarrow> table_ok mgr"
  shows "table_ok (npt_sp_mgr t') \<and> np_table_ok (npt_np_mgr t')"
  using assms
  by (cases e) (auto simp: bindO_Inr np_timer_check_ok kept_def dest!: np_handle_udp_packet_kept)

text \<open>If \<open>rand\<close> never returns 0, the handlers end.\<close>

definition draws_zero :: "np_tracker_event \<Rightarrow> bool" where
  "draws_zero e = (case e of Np_Datagram fuel env sender buf nb \<Rightarrow> \<exists>c. e_rand env c = 0 | _ \<Rightarrow> False)"

lemma bindO_ends: "r \<noteq> None \<Longrightarrow> (\<And>x. f x \<noteq> None) \<Longrightarrow> bindO r f \<noteq> None"
  by (auto simp: bindO_def split: option.splits sum.splits)

lemma if_ends: "a \<noteq> None \<Longrightarrow> b \<noteq> None \<Longrightarrow> (if c then a else b) \<noteq> None"
  by simp

lemma send_peers_ends:
  assumes "\<forall>c. e_rand env c \<noteq> 0" "group_count (npt_np_mgr t) < fuel"
  shows "send_peers fuel env u h block t \<noteq> None"
  using get_np_address_ends[OF assms, of h u 20 block] by (auto simp: send_peers_def)

lemma np_handle_ends:
  assumes "\<forall>c. e_rand env c \<noteq> 0" "group_count (npt_np_mgr t) < fuel"
  shows "np_handle_udp_packet fuel env sender buf nb t \<noteq> None"
proof -
  have ends: "get_req_res fuel env msg n (t\<lparr>npt_last_receive_addr := sender\<rparr>) \<noteq> None"
    "get_need_peers fuel env msg n (t\<lparr>npt_last_receive_addr := sender\<rparr>) \<noteq> None" for msg n
    using send_peers_ends[of env "t\<lparr>npt_last_receive_addr := sender\<rparr>" fuel] assms
    by (auto simp: get_req_res_def get_need_peers_def bindO_def Let_def split: option.splits sum.splits)
  show ?thesis
    unfolding np_handle_udp_packet_def Let_def by (intro if_ends bindO_ends ends option.simps(3))
qed

lemma np_step_ends: "\<not> draws_zero e \<Longrightarrow> np_tracker_step e t \<noteq> None"
proof (cases e)
  case (Np_Datagram fuel env sender buf nb)
  moreover assume "\<not> draws_zero e"
  ultimately show ?thesis
    using np_handle_ends[of env t "max fuel (group_count (npt_np_mgr t) + 1)" sender buf nb]
    by (auto simp: draws_zero_def bindO_def split: option.splits sum.splits)
qed simp_all

lemma np_tracker_run_refines:
  assumes "table_ok (npt_sp_mgr t)" "np_table_ok (npt_np_mgr t)" "\<forall>mgr. Super_Peers mgr \<in> set events \<longrightarrow> table_ok mgr"
  shows "case np_tracker_run events t of None \<Rightarrow> \<exists>e\<in>set events. draws_zero e
    | Some r \<Rightarrow> np_spec_run events (np_state t) (sees np_state r)"
  using assms
proof (induction events arbitrary: t)
  case Nil
  then show ?case by (simp add: np_spec_run.stays)
next
  case (Cons e es)
  show ?case
  proof (cases "np_tracker_step e t")
    case None
    then show ?thesis using np_step_ends[of e t] by auto
  next
    case (Some r)
    note step = np_step_refines[OF Some Cons.prems(1,2)]
    show ?thesis
    proof (cases r)
      case (Inl f)
      then show ?thesis using Some step np_spec_run.faults[of e "np_state t" es] by simp
    next
      case (Inr t')
      have "table_ok (npt_sp_mgr t') \<and> np_table_ok (npt_np_mgr t')"
        using np_step_keeps[of e t t'] Some Inr Cons.prems by simp
      then have "case np_tracker_run es t' of None \<Rightarrow> \<exists>e\<in>set es. draws_zero e
          | Some r \<Rightarrow> np_spec_run es (np_state t') (sees np_state r)"
        using Cons.IH[of t'] Cons.prems(3) by simp
      then show ?thesis
        using Some Inr step np_spec_run.goes[of e "np_state t" "np_state t'" es]
        by (cases "np_tracker_run es t'") auto
    qed
  qed
qed

text \<open>
  C19. For normal peers the tracker is a map from uuids to what is known of each, whatever
  datagrams arrive (of any bytes, in any order, from anybody), whenever the table's timer
  fires, and however the table of super peers changes meanwhile (to any table in order): the
  run of its connector is a run of \<open>np_spec_run\<close> that ends in the same map, the same packets
  sent, and faults if the connector does. There a login stores the sender under the uuid of
  the four random numbers and is answered with a welcome; a logout removes the peer; a request
  for a resource, or for more peers, changes nothing without a super peer that has it, and
  otherwise notes what the peer watches and is answered with a list of super peers, of other
  peers eligible for it and of a super peer that has it, or faults when that list cannot be
  written; a report changes nothing; an interval is sent unless it is the one sent last; a
  peer nothing was stored for in more than 600 seconds is forgotten by the timer. A run does
  not end only if some number drawn is 0.
\<close>

theorem np_run_refines:
  assumes "\<forall>mgr. Super_Peers mgr \<in> set events \<longrightarrow> table_ok mgr"
  shows "case np_tracker_run events (RsNpTracker_new addr junk) of
      None \<Rightarrow> \<exists>e\<in>set events. draws_zero e
    | Some r \<Rightarrow> np_spec_run events (\<lambda>_. None, \<lparr>nv_peers = (\<lambda>_. None), nv_last = BlockInterval_new junk, nv_sent = []\<rparr>)
        (sees np_state r)"
proof -
  let ?t = "RsNpTracker_new addr junk"
  have ok: "table_ok (npt_sp_mgr ?t)" "np_table_ok (npt_np_mgr ?t)"
    by (simp_all add: RsNpTracker_new_def RsTrackerStreamManager_new_def table_ok_def RsTrackerNpCoordinator_new_def np_table_ok_def)
  have start: "np_state ?t = (\<lambda>_. None, \<lparr>nv_peers = (\<lambda>_. None), nv_last = BlockInterval_new junk, nv_sent = []\<rparr>)"
    by (simp add: np_state_def np_abs_def sources_of_def RsNpTracker_new_def RsTrackerStreamManager_new_def registered_def
        RsTrackerNpCoordinator_new_def find_Node_def)
  show ?thesis using np_tracker_run_refines[OF ok assms] unfolding start .
qed

text \<open>A peer logs in, a super peer appears, and the peer logs out: it is gone, and has had one answer.\<close>

definition sample_np_events :: "np_tracker_event list" where
  "sample_np_events =
     [Np_Datagram 0 sample_np_env NetAddress_new (packet NP2TS_LOGIN (Np2TsLogin_content sample_np_login)) 52,
      Super_Peers \<lparr>channel_map = [(replicate UUID_LENGTH 65 @ [0], sample_node)]\<rparr>,
      Np_Datagram 0 sample_np_env NetAddress_new (packet NP2TS_LOGOUT (take UUID_LENGTH (uuid_of (\<lambda>_. 7)))) 21]"

lemma sample_np_run:
  "\<exists>t. np_tracker_run sample_np_events (RsNpTracker_new NetAddress_new 0) = Some (Inr t) \<and>
    length (npt_sent t) = 1 \<and> (\<forall>u. find_Node u (npt_np_mgr t) = None)"
proof -
  let ?u = "uuid_of (\<lambda>_. 7)" and ?t = "RsNpTracker_new NetAddress_new 0"
  let ?node = "logged_in sample_np_env NetAddress_new sample_np_login ?u"
  let ?mgr = "insert_Node ?u ?node RsTrackerNpCoordinator_new" and ?sps = "\<lparr>channel_map = [(replicate UUID_LENGTH 65 @ [0], sample_node)]\<rparr>"
  have wf: "Np2TsLogin_wf sample_np_login" "login_ip_list_size sample_np_login \<noteq> 0" by (simp_all add: Np2TsLogin_wf_def sample_np_login_def)
  have rand: "e_rand sample_np_env = (\<lambda>_. 7)" by (simp add: sample_np_env_def)
  have u: "generate_uuid (e_rand sample_np_env 0) (e_rand sample_np_env 1) (e_rand sample_np_env 2) (e_rand sample_np_env 3) = Inr ?u"
    using generate_uuid_of[of "\<lambda>_. 7"] unfolding rand by simp
  have len: "5 + int (length (Np2TsLogin_content sample_np_login)) < 2 ^ 31"
    unfolding length_Np2TsLogin_content[OF wf(1)] by (simp add: sample_np_login_def)
  obtain x where login: "np_handle_udp_packet f sample_np_env NetAddress_new (packet NP2TS_LOGIN (Np2TsLogin_content sample_np_login)) 52 ?t =
      Some (Inr (0, ?t\<lparr>npt_np_mgr := ?mgr, npt_sent := [(NetAddress_new, x)]\<rparr>))" for f
    using np_dispatch[OF _ len, of 52 _ sample_np_env NetAddress_new NP2TS_LOGIN "[]" ?t] wf(2)
      get_login_packet[OF wf(1) u, of "[]"] by (simp add: RsNpTracker_new_def Let_def)
  let ?t1 = "?t\<lparr>npt_np_mgr := ?mgr, npt_sent := [(NetAddress_new, x)], npt_sp_mgr := ?sps\<rparr>"
  let ?m = "\<lparr>np_logout_uuid = take UUID_LENGTH ?u\<rparr>"
  have lu: "length ?u = UUID_LENGTH + 1" using generate_uuid_length[OF u] by simp
  then obtain w where "?u = w @ [0]" "length w = UUID_LENGTH" by (simp add: uuid_of_def)
  then have cut: "take UUID_LENGTH ?u @ [0] = ?u" by simp
  have lwf: "Np2TsLogout_wf ?m" using lu by (simp add: Np2TsLogout_wf_def)
  have "Np2TsLogout_parse (initialize (take UUID_LENGTH ?u) (int UUID_LENGTH)) = Inr (?m, adv UUID_LENGTH (initialize (take UUID_LENGTH ?u) (int UUID_LENGTH)))"
    using np2tslogout.parse_content[OF lwf, where post = "[]"] lu by simp
  then have logout: "np_handle_udp_packet f sample_np_env NetAddress_new (packet NP2TS_LOGOUT (take UUID_LENGTH ?u)) 21 ?t1 =
      Some (Inr (0, ?t1\<lparr>npt_np_mgr := deleteNode ?u ?mgr\<rparr>))" for f
    using np_dispatch[of 21 "take UUID_LENGTH ?u" f sample_np_env NetAddress_new NP2TS_LOGOUT "[]" ?t1] lu cut
    by (simp add: np_get_logout_def RsNpTracker_new_def Let_def)
  have empty: "np_table_ok RsTrackerNpCoordinator_new" "find_Node w RsTrackerNpCoordinator_new = None" for w
    by (simp_all add: RsTrackerNpCoordinator_new_def np_table_ok_def find_Node_def)
  have "find_Node w (deleteNode ?u ?mgr) = None" for w
    using deleteNode_ok(2)[OF insert_Node_ok(1)[OF empty(1)]] insert_Node_ok(2)[OF empty(1)] empty(2) by simp
  then show ?thesis by (simp add: sample_np_events_def login logout)
qed

lemma np_run_refines_witness:
  "\<exists>t. np_tracker_run sample_np_events (RsNpTracker_new NetAddress_new 0) = Some (Inr t) \<and>
    length (npt_sent t) = 1 \<and> (\<forall>u. find_Node u (npt_np_mgr t) = None) \<and>
    np_spec_run sample_np_events (\<lambda>_. None, \<lparr>nv_peers = (\<lambda>_. None), nv_last = BlockInterval_new 0, nv_sent = []\<rparr>)
      (Some (np_state t))"
proof -
  have "\<forall>mgr. Super_Peers mgr \<in> set sample_np_events \<longrightarrow> table_ok mgr"
    using sample_node_ok by (simp add: sample_np_events_def table_ok_def)
  from np_run_refines[OF this, of 0 NetAddress_new] sample_np_run show ?thesis by fastforce
qed

end
