(* ===== verification/Tracker_Refine.thy ===== *)
theory Tracker_Refine
  imports Managers Np_Refine
begin

text \<open>
  What the tracker process is, without its tables and listeners: one map of super peers, which
  the answers to normal peers depend on, a view of each connector, and the bytes earlier
  datagrams have left in the two receive buffers, which a short datagram is read with.
\<close>

section \<open>The specification\<close>

record tracker_view =
  tv_super_peers :: sources
  tv_sp_sent :: "(NetAddress \<times> bytes) list"
  tv_np :: np_view
  tv_sp_buffer :: bytes
  tv_np_buffer :: bytes

definition received :: "bytes \<Rightarrow> bytes \<Rightarrow> bytes" where
  "received bs buf = (let bs = take UDP_RECEIVE_BUFFER_SIZE bs in bs @ drop (length bs) buf)"

definition no_bytes :: "(NetAddress \<times> bytes) option \<Rightarrow> bool" where
  "no_bytes datagram \<longleftrightarrow> (case datagram of None \<Rightarrow> True | Some (_, bs) \<Rightarrow> bs = [])"

text \<open>A datagram on the port of the super peers has the effect \<open>sp_effect\<close> gives it.\<close>

definition sp_datagram_effect :: "env \<Rightarrow> NetAddress \<Rightarrow> bytes \<Rightarrow> tracker_view \<Rightarrow> tracker_view option" where
  "sp_datagram_effect env sender buf v =
     (case sp_message_of buf of
        None \<Rightarrow> None
      | Some m \<Rightarrow> map_option
          (\<lambda>s. v\<lparr>tv_super_peers := sv_peers s, tv_sp_sent := sv_sent s, tv_sp_buffer := buf\<rparr>)
          (sp_effect env sender m \<lparr>sv_peers = tv_super_peers v, sv_sent = tv_sp_sent v\<rparr>))"

inductive tracker_spec_step :: "tracker_event \<Rightarrow> tracker_view \<Rightarrow> tracker_view option \<Rightarrow> bool" where
  sp_quiet: "no_bytes datagram \<Longrightarrow> tracker_spec_step (Sp_Round env datagram) v (Some v)"
| np_quiet: "no_bytes datagram \<Longrightarrow> tracker_spec_step (Np_Round fuel env datagram) v (Some v)"
| super_peer: "bs \<noteq> [] \<Longrightarrow>
    tracker_spec_step (Sp_Round env (Some (sender, bs))) v (sp_datagram_effect env sender (received bs (tv_sp_buffer v)) v)"
| np_unreadable: "bs \<noteq> [] \<Longrightarrow> np_message_of (received bs (tv_np_buffer v)) = None \<Longrightarrow>
    tracker_spec_step (Np_Round fuel env (Some (sender, bs))) v None"
| np_served: "bs \<noteq> [] \<Longrightarrow> np_message_of (received bs (tv_np_buffer v)) = Some m \<Longrightarrow>
    np_serves env sender (tv_super_peers v) m (tv_np v) r \<Longrightarrow>
    tracker_spec_step (Np_Round fuel env (Some (sender, bs))) v
      (map_option (\<lambda>s. v\<lparr>tv_np := s, tv_np_buffer := received bs (tv_np_buffer v)\<rparr>) r)"

inductive tracker_spec_run :: "tracker_event list \<Rightarrow> tracker_view \<Rightarrow> tracker_view option \<Rightarrow> bool" where
  stays: "tracker_spec_run [] v (Some v)"
| faults: "tracker_spec_step e v None \<Longrightarrow> tracker_spec_run (e # es) v None"
| goes: "tracker_spec_step e v (Some v') \<Longrightarrow> tracker_spec_run es v' r \<Longrightarrow> tracker_spec_run (e # es) v r"

section \<open>What it sees of the process\<close>

definition tracker_abs :: "tracker_process \<Rightarrow> tracker_view" where
  "tracker_abs p = \<lparr>tv_super_peers = sources_of (tp_streams p), tv_sp_sent = spt_sent (the (tp_sp_tracker p)),
     tv_np = np_abs (the (tp_np_tracker p)), tv_sp_buffer = ul_recv_buffer (tp_sp_listener p),
     tv_np_buffer = ul_recv_buffer (tp_np_listener p)\<rparr>"

lemma udp_loop_received:
  assumes "udp_ok l"
  shows "udp_loop handle datagram l s =
    (case datagram of None \<Rightarrow> Some (Inr (0, l, s))
     | Some (sender, bs) \<Rightarrow>
         if bs = [] then Some (Inr (0, l, s))
         else let l' = l\<lparr>ul_recv_buffer := received bs (ul_recv_buffer l)\<rparr>
           in bindO (handle sender (ul_recv_buffer l') (int (length (take UDP_RECEIVE_BUFFER_SIZE bs))) s)
             (\<lambda>(code, s). Some (Inr (if code \<noteq> 0 then 1 else 0, l', s))))"
proof -
  have "length (take UDP_RECEIVE_BUFFER_SIZE bs) \<le> length (ul_recv_buffer l)" for bs :: bytes
    using assms by (simp add: udp_ok_def)
  then show ?thesis
    using assms by (auto simp: udp_loop_def udp_ok_def received_def Let_def split: option.splits)
qed

lemma no_bytes_simps [simp]: "no_bytes None" "no_bytes (Some (a, [])) = True" "no_bytes (Some (a, bs)) \<longleftrightarrow> bs = []"
  by (simp_all add: no_bytes_def)

lemma sp_round_refines:
  assumes "process_ok p"
  shows "\<exists>r. tracker_round (Sp_Round env datagram) p = Some r \<and>
    tracker_spec_step (Sp_Round env datagram) (tracker_abs p) (sees tracker_abs r)"
proof (cases "no_bytes datagram")
  case True
  have "tracker_round (Sp_Round env datagram) p = Some (Inr p)"
    using True assms by (cases datagram) (auto simp: process_ok_def udp_loop_received no_bytes_def)
  then show ?thesis using tracker_spec_step.sp_quiet[OF True] by simp
next
  case False
  then obtain sender bs where d: "datagram = Some (sender, bs)" "bs \<noteq> []" by (cases datagram) (auto simp: no_bytes_def)
  obtain t where p: "udp_ok (tp_sp_listener p)" "tp_sp_tracker p = Some t" "table_ok (tp_streams p)"
    using assms by (auto simp: process_ok_def)
  let ?l = "(tp_sp_listener p)\<lparr>ul_recv_buffer := received bs (ul_recv_buffer (tp_sp_listener p))\<rparr>"
  let ?buf = "received bs (ul_recv_buffer (tp_sp_listener p))" and ?n = "int (length (take UDP_RECEIVE_BUFFER_SIZE bs))"
  let ?t = "t\<lparr>spt_mgr := tp_streams p\<rparr>"
  have n: "?n \<noteq> 0" using d(2) by simp
  have ok: "table_ok (spt_mgr ?t)" using p(3) by simp
  have effect: "sees sp_abs (bindE (sp_handle_udp_packet env sender ?buf ?n ?t) (\<lambda>(_, t). Inr t)) =
      (case sp_message_of ?buf of None \<Rightarrow> None | Some m \<Rightarrow> sp_effect env sender m (sp_abs ?t))"
    using sp_datagram_refines[OF ok, of env sender ?buf ?n] unfolding sp_tracker_step.simps sp_spec_step.simps if_not_P[OF n] .
  have start: "sp_abs ?t = \<lparr>sv_peers = tv_super_peers (tracker_abs p), sv_sent = tv_sp_sent (tracker_abs p)\<rparr>"
    by (simp add: sp_abs_def tracker_abs_def p(2) sources_of_def)
  have run: "tracker_round (Sp_Round env datagram) p = Some (bindE (sp_handle_udp_packet env sender ?buf ?n ?t)
      (\<lambda>(_, t). Inr (p\<lparr>tp_sp_tracker := Some t, tp_streams := spt_mgr t, tp_sp_listener := ?l\<rparr>)))"
    unfolding d(1) tracker_round.simps udp_loop_received[OF p(1)] sp_manager_handle_def p(2)
    using d(2) by (cases "sp_handle_udp_packet env sender ?buf ?n ?t") (auto simp: Let_def)
  have "sees tracker_abs (bindE (sp_handle_udp_packet env sender ?buf ?n ?t)
      (\<lambda>(_, t). Inr (p\<lparr>tp_sp_tracker := Some t, tp_streams := spt_mgr t, tp_sp_listener := ?l\<rparr>))) =
      sp_datagram_effect env sender ?buf (tracker_abs p)"
    using effect unfolding sp_datagram_effect_def start
    by (cases "sp_handle_udp_packet env sender ?buf ?n ?t"; cases "sp_message_of ?buf")
      (auto simp: sp_abs_def tracker_abs_def sources_of_def dest!: sym[of "Some _"])
  then show ?thesis
    using run tracker_spec_step.super_peer[OF d(2), of env sender "tracker_abs p"] d(1) by (simp add: tracker_abs_def)
qed

lemma np_round_refines:
  assumes "process_ok p" "tracker_round (Np_Round fuel env datagram) p = Some r"
  shows "tracker_spec_step (Np_Round fuel env datagram) (tracker_abs p) (sees tracker_abs r)"
proof (cases "no_bytes datagram")
  case True
  have "r = Inr p"
    using True assms by (cases datagram) (auto simp: process_ok_def udp_loop_received no_bytes_def)
  then show ?thesis using tracker_spec_step.np_quiet[OF True] by simp
next
  case False
  then obtain sender bs where d: "datagram = Some (sender, bs)" "bs \<noteq> []" by (cases datagram) (auto simp: no_bytes_def)
  obtain t where p: "udp_ok (tp_np_listener p)" "tp_np_tracker p = Some t" "np_table_ok (npt_np_mgr t)" "table_ok (tp_streams p)"
    using assms by (auto simp: process_ok_def)
  let ?l = "(tp_np_listener p)\<lparr>ul_recv_buffer := received bs (ul_recv_buffer (tp_np_listener p))\<rparr>"
  let ?buf = "received bs (ul_recv_buffer (tp_np_listener p))" and ?n = "int (length (take UDP_RECEIVE_BUFFER_SIZE bs))"
  let ?t = "t\<lparr>npt_sp_mgr := tp_streams p\<rparr>" and ?h = "np_handle_udp_packet fuel env"
  have n: "?n \<noteq> 0" using d(2) by simp
  have ok: "table_ok (npt_sp_mgr ?t)" "np_table_ok (npt_np_mgr ?t)" using p by simp_all
  have run: "Some r = bindO (?h sender ?buf ?n ?t)
      (\<lambda>(_, t). Some (Inr (p\<lparr>tp_np_tracker := Some t, tp_streams := npt_sp_mgr t, tp_np_listener := ?l\<rparr>)))"
    using assms(2)[symmetric] unfolding d(1) tracker_round.simps udp_loop_received[OF p(1)] np_manager_handle_def p(2)
    using d(2) by (cases "?h sender ?buf ?n ?t" rule: option.exhaust; cases "the (?h sender ?buf ?n ?t)") (auto simp: Let_def)
  then obtain q where q: "?h sender ?buf ?n ?t = Some q"
    "r = bindE q (\<lambda>(_, t). Inr (p\<lparr>tp_np_tracker := Some t, tp_streams := npt_sp_mgr t, tp_np_listener := ?l\<rparr>))"
    by (cases "?h sender ?buf ?n ?t" rule: option.exhaust; cases "the (?h sender ?buf ?n ?t)") auto
  have view: "sees tracker_abs r = map_option (\<lambda>s. tracker_abs p\<lparr>tv_np := s, tv_np_buffer := ?buf\<rparr>) (sees (np_abs \<circ> snd) q)"
  proof (cases q)
    case (Inr x)
    obtain ret t' where x: "x = (ret, t')" by fastforce
    have "npt_sp_mgr t' = tp_streams p"
      using np_handle_udp_packet_kept[of fuel env sender ?buf ?n ?t ret t'] q(1) Inr x by (auto simp: kept_def)
    then show ?thesis using q(2) Inr x by (simp add: tracker_abs_def)
  qed (use q(2) in simp)
  have start: "np_abs ?t = tv_np (tracker_abs p)" "npt_sp_mgr ?t = tp_streams p" "sources_of (tp_streams p) = tv_super_peers (tracker_abs p)"
    "ul_recv_buffer (tp_np_listener p) = tv_np_buffer (tracker_abs p)"
    by (simp_all add: tracker_abs_def p(2))
  note refined = np_datagram_refines[OF ok n q(1), unfolded start]
  show ?thesis
  proof (cases "np_message_of ?buf")
    case None
    then have "sees tracker_abs r = None" using refined q(2) by (auto simp: start)
    then show ?thesis using tracker_spec_step.np_unreadable[OF d(2), of "tracker_abs p" fuel env sender] None d(1) by (simp add: start)
  next
    case (Some m)
    then have "np_serves env sender (tv_super_peers (tracker_abs p)) m (tv_np (tracker_abs p)) (sees (np_abs \<circ> snd) q)"
      using refined by (simp add: start)
    from tracker_spec_step.np_served[OF d(2) Some[unfolded start] this] show ?thesis unfolding view d(1) start .
  qed
qed

lemma tracker_rounds_refine:
  assumes "process_ok p" "tracker_rounds events p = Some r"
  shows "tracker_spec_run events (tracker_abs p) (sees tracker_abs r)"
  using assms
proof (induction events arbitrary: p)
  case Nil
  then show ?case using tracker_spec_run.stays by fastforce
next
  case (Cons e es)
  obtain q where q: "tracker_round e p = Some q" using Cons.prems(2) by (cases "tracker_round e p") auto
  have step: "tracker_spec_step e (tracker_abs p) (sees tracker_abs q)"
  proof (cases e)
    case (Sp_Round env datagram)
    then show ?thesis using sp_round_refines[OF Cons.prems(1), of env datagram] q by simp
  next
    case (Np_Round fuel env datagram)
    then show ?thesis using np_round_refines[OF Cons.prems(1), of fuel env datagram] q by simp
  qed
  show ?case
  proof (cases q)
    case (Inl f)
    then show ?thesis using Cons.prems(2) q step tracker_spec_run.faults[of e "tracker_abs p" es] by auto
  next
    case (Inr p')
    have "process_ok p'" using tracker_round_keeps[of e p p'] q Inr Cons.prems(1) by simp
    then have "tracker_spec_run es (tracker_abs p') (sees tracker_abs r)"
      using Cons.IH[of p'] Cons.prems(2) q Inr by simp
    then show ?thesis using step Inr tracker_spec_run.goes[of e "tracker_abs p" "tracker_abs p'" es] by simp
  qed
qed

text \<open>
  C20. The tracker process, from its \<open>main\<close> on, is a map of super peers and a map of normal
  peers: whatever datagrams reach its two ports, in whatever order, if no choice of peers runs
  out of fuel, the rounds of its two listeners are a run of \<open>tracker_spec_run\<close>, faults included.
  There a datagram on the first port has the effect of its message on the super peers and is
  answered as for C21; a datagram on the second port is served as for C19, from the super peers
  the first port has registered by then; a datagram longer than the receive buffer is cut, a
  shorter one is read with what earlier ones have left in the buffer of its port, and a round
  without bytes changes nothing. The process runs no timer: nobody is forgotten for silence.
\<close>

theorem tracker_process_refines:
  assumes "tracker_rounds events (tracker_main sys\<^sub>1 sys\<^sub>2 (RsUdpListener_new th\<^sub>1 j\<^sub>1) (RsUdpListener_new th\<^sub>2 j\<^sub>2) a\<^sub>1 a\<^sub>2 b) = Some r"
  shows "tracker_spec_run events
    \<lparr>tv_super_peers = (\<lambda>_. None), tv_sp_sent = [],
     tv_np = \<lparr>nv_peers = (\<lambda>_. None), nv_last = BlockInterval_new b, nv_sent = []\<rparr>,
     tv_sp_buffer = map j\<^sub>1 [0..<UDP_RECEIVE_BUFFER_SIZE], tv_np_buffer = map j\<^sub>2 [0..<UDP_RECEIVE_BUFFER_SIZE]\<rparr>
    (sees tracker_abs r)"
proof -
  let ?p = "tracker_main sys\<^sub>1 sys\<^sub>2 (RsUdpListener_new th\<^sub>1 j\<^sub>1) (RsUdpListener_new th\<^sub>2 j\<^sub>2) a\<^sub>1 a\<^sub>2 b"
  have "ul_recv_buffer (snd (udp_start_listen sys (RsUdpListener_new th j))) = map j [0..<UDP_RECEIVE_BUFFER_SIZE]" for sys th j
    by (auto simp: udp_start_listen_def RsUdpListener_new_def Let_def)
  then have start: "tracker_abs ?p = \<lparr>tv_super_peers = (\<lambda>_. None), tv_sp_sent = [],
     tv_np = \<lparr>nv_peers = (\<lambda>_. None), nv_last = BlockInterval_new b, nv_sent = []\<rparr>,
     tv_sp_buffer = map j\<^sub>1 [0..<UDP_RECEIVE_BUFFER_SIZE], tv_np_buffer = map j\<^sub>2 [0..<UDP_RECEIVE_BUFFER_SIZE]\<rparr>"
    by (simp add: tracker_abs_def tracker_main_starts np_abs_def sources_of_def RsSpTracker_new_def RsNpTracker_new_def
        RsTrackerStreamManager_new_def registered_def RsTrackerNpCoordinator_new_def find_Node_def)
  show ?thesis using tracker_rounds_refine[OF tracker_main_ok assms] unfolding start .
qed

text \<open>A super peer registers, and a normal peer the tracker does not know asks for an interval.\<close>

lemma unknown_peer_round:
  assumes "process_ok p" "tp_np_tracker p = Some t" "npt_np_mgr t = RsTrackerNpCoordinator_new"
  shows "\<exists>p'. tracker_round (Np_Round fuel env (Some (sender, packet NP2TS_RES_INTERVAL (replicate UUID_LENGTH 7)))) p = Some (Inr p') \<and>
    tp_streams p' = tp_streams p \<and> (\<exists>t'. tp_np_tracker p' = Some t' \<and> length (npt_sent t') = Suc (length (npt_sent t)))"
proof -
  let ?c = "replicate UUID_LENGTH (7 :: u8)"
  let ?m = "\<lparr>reqinterval_uuid = ?c\<rparr>"
  obtain l' rest where loop: "udp_loop (np_manager_handle fuel env) (Some (sender, packet NP2TS_RES_INTERVAL ?c)) (tp_np_listener p) p =
      bindO (np_manager_handle fuel env sender (packet NP2TS_RES_INTERVAL ?c @ rest) (int (length (packet NP2TS_RES_INTERVAL ?c))) p)
        (\<lambda>(code, s). Some (Inr (if code \<noteq> 0 then 1 else 0, l', s)))"
    using udp_loop_handles[of "tp_np_listener p" "packet NP2TS_RES_INTERVAL ?c" "np_manager_handle fuel env" sender p] assms(1)
    by (fastforce simp: process_ok_def packet_def)
  have parse: "Np2TsReqInterval_parse (initialize (?c @ rest) (int (length ?c))) = Inr (?m, adv (length ?c) (initialize (?c @ rest) (int (length ?c))))"
    using np2tsreqinterval.parse_content[of ?m "initialize (?c @ rest) (int (length ?c))" "[]"] by (simp add: Np2TsReqInterval_wf_def)
  have none: "get_Node u RsTrackerNpCoordinator_new = None" for u
    by (simp add: get_Node_def RsTrackerNpCoordinator_new_def find_Node_def)
  let ?t = "t\<lparr>npt_sp_mgr := tp_streams p, npt_last_receive_addr := sender\<rparr>"
  obtain t' where t': "send_msg env ?t = Inr t'" "npt_sp_mgr t' = tp_streams p" "length (npt_sent t') = Suc (length (npt_sent t))"
    using send_msg_packet[of env ?t] by simp
  from t'(1) have "get_res_interval env (?c @ rest) (int (length ?c)) ?t = Inr t'"
    using parse none assms(3) by (simp add: get_res_interval_def)
  then have "np_handle_udp_packet fuel env sender (packet NP2TS_RES_INTERVAL ?c @ rest) (int (length (packet NP2TS_RES_INTERVAL ?c)))
      (t\<lparr>npt_sp_mgr := tp_streams p\<rparr>) = Some (Inr (0, t'))"
    using np_dispatch[of "int (length (packet NP2TS_RES_INTERVAL ?c))" ?c fuel env sender NP2TS_RES_INTERVAL rest]
    by (simp add: Let_def packet_def)
  then have "np_manager_handle fuel env sender (packet NP2TS_RES_INTERVAL ?c @ rest) (int (length (packet NP2TS_RES_INTERVAL ?c))) p =
      Some (Inr (0, p\<lparr>tp_np_tracker := Some t', tp_streams := npt_sp_mgr t'\<rparr>))"
    by (simp only: np_manager_handle_def assms(2) option.case bindO_simps prod.case)
  then show ?thesis
    unfolding tracker_round.simps loop bindO_simps prod.case using t'(2,3) by simp
qed

lemma tracker_process_refines_witness:
  "\<exists>p v. tracker_rounds [Sp_Round sample_env (Some (NetAddress_new, register_packet 2222)),
        Np_Round 0 sample_np_env (Some (NetAddress_new, packet NP2TS_RES_INTERVAL (replicate UUID_LENGTH 7)))]
      (tracker_main sample_sys sample_sys (RsUdpListener_new (RsThread_new False False False) (\<lambda>_. 0))
        (RsUdpListener_new (RsThread_new False False False) (\<lambda>_. 0)) NetAddress_new NetAddress_new 0) = Some (Inr p) \<and>
    tracker_spec_run [Sp_Round sample_env (Some (NetAddress_new, register_packet 2222)),
        Np_Round 0 sample_np_env (Some (NetAddress_new, packet NP2TS_RES_INTERVAL (replicate UUID_LENGTH 7)))] v (Some (tracker_abs p)) \<and>
    tv_super_peers v = (\<lambda>_. None) \<and> (\<exists>uuid. tv_super_peers (tracker_abs p) uuid \<noteq> None) \<and>
    nv_sent (tv_np v) = [] \<and> length (nv_sent (tv_np (tracker_abs p))) = 1"
proof -
  let ?main = "tracker_main sample_sys sample_sys (RsUdpListener_new (RsThread_new False False False) (\<lambda>_. 0))
    (RsUdpListener_new (RsThread_new False False False) (\<lambda>_. 0)) NetAddress_new NetAddress_new 0"
  let ?registers = "Sp_Round sample_env (Some (NetAddress_new, register_packet 2222))"
  let ?asks = "Np_Round 0 sample_np_env (Some (NetAddress_new, packet NP2TS_RES_INTERVAL (replicate UUID_LENGTH 7)))"
  obtain uuid where "generate_uuid (e_rand sample_env 0) (e_rand sample_env 1) (e_rand sample_env 2) (e_rand sample_env 3) = Inr uuid"
    using sample_uuid_made by blast
  from registration_round[OF tracker_main_ok this] obtain p where p: "tracker_round ?registers ?main = Some (Inr p)"
    "tp_np_tracker p = tp_np_tracker ?main" "registered uuid (tp_streams p) \<noteq> None" by blast
  have np: "tp_np_tracker p = Some (RsNpTracker_new NetAddress_new 0)" using p(2) by (simp add: tracker_main_starts)
  have new: "npt_np_mgr (RsNpTracker_new NetAddress_new 0) = RsTrackerNpCoordinator_new" "npt_sent (RsNpTracker_new NetAddress_new 0) = []"
    by (simp_all add: RsNpTracker_new_def)
  obtain q t where q: "tracker_round ?asks p = Some (Inr q)" "tp_streams q = tp_streams p" "tp_np_tracker q = Some t" "length (npt_sent t) = 1"
    using unknown_peer_round[OF tracker_round_keeps[OF p(1) tracker_main_ok] np new(1)] new(2) by fastforce
  have run: "tracker_rounds [?registers, ?asks] ?main = Some (Inr q)"
    using p(1) q(1) by (simp del: tracker_round.simps)
  have "tv_super_peers (tracker_abs q) uuid \<noteq> None" "length (nv_sent (tv_np (tracker_abs q))) = 1"
    using p(3) q by (simp_all add: tracker_abs_def sources_of_def)
  with run tracker_process_refines[OF run] show ?thesis by fastforce
qed

end
