(* ===== verification/Cs_Register.thy ===== *)
theory Cs_Register
  imports Sp_Cs
begin

text \<open>
  A capture server registers its channel: the message of \<open>get_register\<close> of
  \<open>protocol/sp/sp_cs_connector.cpp\<close>, and the channel it makes, known by the MD5 of its name.
\<close>

section \<open>The fields of the message\<close>

definition register_content :: "bytes \<Rightarrow> u32 \<Rightarrow> bytes \<Rightarrow> u32 \<Rightarrow> u32 \<Rightarrow> bytes \<Rightarrow> u8 \<Rightarrow> bytes \<Rightarrow> bytes" where
  "register_content name user_id password block_size file_size bit_rate is_source header =
     word_of_nat (length name) # name @ enc user_id @ password @ enc block_size @ enc file_size @ bit_rate @
     is_source # enc (word_of_nat (length header) :: u32) @ header"

lemma peek_part:
  assumes "peek mem p (length c) = Inr c" "c = a @ b @ d" "p' = p + int (length a)"
  shows "peek mem p' (length b) = Inr b"
  using peek_later[OF assms(1), of "length a" "length b"] by (simp add: assms(2,3))

lemma peek_part_int:
  assumes "peek mem p (length c) = Inr c" "c = a @ enc (w :: u32) @ d" "p' = p + int (length a)"
  shows "peek_int mem p' = Inr (sint w)"
  using peek_part[OF assms] by (simp add: peek_int_def)

lemma peek_part_char:
  assumes "peek mem p (length c) = Inr c" "c = a @ [b] @ d" "p' = p + int (length a)"
  shows "peek_char mem p' = Inr b"
  using peek_part[OF assms] by (simp add: peek_char_def)

lemma hex_digit_nonzero: "d < 16 \<Longrightarrow> hex_digit d \<noteq> 0"
proof -
  assume "d < 16"
  then have "unat (hex_digit d) = (if d < 10 then 48 + d else 87 + d)"
    unfolding hex_digit_def by (cases "d < 10") (simp_all only: unat_of_nat take_bit_eq_mod if_True if_False, simp_all)
  then show ?thesis by (auto split: if_splits)
qed

lemma hex_digits_nonzero: "0 \<notin> set (hex_digits n)"
proof (induction n rule: hex_digits.induct)
  case (1 n)
  then show ?case using hex_digit_nonzero[of n] hex_digit_nonzero[of "n mod 16"]
    by (subst hex_digits.simps) (auto dest: sym)
qed

lemma hex_string_nonzero: "0 \<notin> set (hex_string bs)"
  using hex_digits_nonzero by (auto simp: hex_string_def format_0x_def)

lemma channel_digest_sum:
  assumes "length name < 128"
  shows "channel_digest junk name (int (length name)) = Some (Inr (hex_string (md5_sum name)))"
proof -
  let ?len = "word_of_nat (length name) :: u32"
  have "unat ?len = length name" using assms by (simp add: unat_of_nat take_bit_eq_mod)
  then obtain m where "MD5_of_string junk junk name ?len = Some (Inr m)"
    "hex_digest m = hex_string (md5_sum name) @ [0]"
    using MD5_of_string_sum[of ?len name junk junk] assms by auto
  moreover have "c_string (hex_string bs @ [0]) = Inr (hex_string bs)" for bs
  proof -
    have "takeWhile (\<lambda>b. b \<noteq> 0) (hex_string bs @ [0]) = hex_string bs"
      using hex_string_nonzero[of bs] by (subst takeWhile_append2) auto
    then show ?thesis by (simp add: c_string_def)
  qed
  ultimately show ?thesis
    by (auto simp: channel_digest_def MD5_of_string_def bindO_Inr)
qed

definition channel_hash :: "bytes \<Rightarrow> MD5_Hash_Str \<Rightarrow> MD5_Hash_Str" where
  "channel_hash name h = h\<lparr>md5_hash := hex_string (md5_sum name) @ [0]\<rparr>"

lemma strcpy_hash_sum:
  assumes "length (md5_hash h) = MD5_LEN + 1"
  shows "strcpy_hash (hex_string (md5_sum name)) h = Inr (channel_hash name h)"
    "(md5_hash (channel_hash name h))[MD5_LEN := 0] = md5_hash (channel_hash name h)"
  using assms length_hex_string[of "md5_sum name"] length_md5_sum[of name]
  by (simp_all add: strcpy_hash_def channel_hash_def list_update_append)

text \<open>The new channel, with its header if the message has one.\<close>

definition new_channel :: "cs_env \<Rightarrow> MD5_Hash_Str \<Rightarrow> bytes \<Rightarrow> bytes \<Rightarrow> RsBufferQueue" where
  "new_channel env hash name header =
     (reserve_buffer (ce_slots env) (int MAX_BUFFER_SIZE) (RsBufferQueue_new (ce_now env) hash name True))
       \<lparr>bq_media_header := (if header = [] then None else Some (header, int (length header)))\<rparr>"

lemma new_channel_ok: "ring_ok MAX_BUFFER_SIZE [] (new_channel env hash name header)"
  using ring_ok_fresh[of MAX_BUFFER_SIZE "ce_slots env" "ce_now env" hash name True]
  by (simp add: new_channel_def ring_ok_def)

lemma sint_of_int8: "0 \<le> x \<Longrightarrow> x < 128 \<Longrightarrow> sint (word_of_int x :: u8) = x"
  by (simp add: sint_sbintrunc' signed_take_bit_int_eq_self)

lemma cs_get_register_creates:
  assumes c: "c = register_content name user_id password block_size file_size bit_rate is_source header"
    and msg: "peek mem p (length c) = Inr c"
    and len: "length name < 128" "length password = MD5_LEN" "length bit_rate = 4" "length header < 2 ^ 31"
    and beyond: "0 \<in> set (name @ ce_beyond env)"
    and h: "length (md5_hash (cs_chnl_hash cs)) = MD5_LEN + 1" "h = channel_hash name (cs_chnl_hash cs)"
    and mgr: "mgr_ok mgr" "get_buffer_queue h mgr = None"
  shows "\<exists>mgr'. cs_get_register env mem p cs mgr = Some (Inr (cs\<lparr>cs_chnl_hash := h\<rparr>, mgr')) \<and> mgr_ok mgr' \<and>
    (\<forall>k. get_buffer_queue k mgr' = (if key_equiv MD5_lt k h
       then Some (new_channel env h (until_zero (name @ ce_beyond env)) header) else get_buffer_queue k mgr))"
proof -
  let ?n = "length name"
  let ?e1 = "enc user_id" and ?e2 = "enc block_size" and ?e3 = "enc file_size" and ?e4 = "enc (word_of_nat (length header) :: u32)"
  have c2: "c = [word_of_nat ?n] @ name @ ?e1 @ password @ ?e2 @ ?e3 @ bit_rate @ [is_source] @ ?e4 @ header"
    by (simp add: c register_content_def)
  have f0: "peek_char mem (p) = Inr (word_of_nat ?n)"
    using peek_part_char[OF msg, of "[]" "word_of_nat ?n" "name @ ?e1 @ password @ ?e2 @ ?e3 @ bit_rate @ [is_source] @ ?e4 @ header" "p"] len by (simp add: c2)
  have f1: "peek mem (p + 1) ?n = Inr name"
    using peek_part[OF msg, of "[word_of_nat ?n]" "name" "?e1 @ password @ ?e2 @ ?e3 @ bit_rate @ [is_source] @ ?e4 @ header" "p + 1"] len by (simp add: c2)
  have f2: "peek_int mem (p + 1 + int ?n) = Inr (sint user_id)"
    using peek_part_int[OF msg, of "[word_of_nat ?n] @ name" "user_id" "password @ ?e2 @ ?e3 @ bit_rate @ [is_source] @ ?e4 @ header" "p + 1 + int ?n"] len by (simp add: c2)
  have f3: "peek mem (p + 1 + int ?n + 4) MD5_LEN = Inr password"
    using peek_part[OF msg, of "[word_of_nat ?n] @ name @ ?e1" "password" "?e2 @ ?e3 @ bit_rate @ [is_source] @ ?e4 @ header" "p + 1 + int ?n + 4"] len by (simp add: c2)
  have f4: "peek_int mem (p + 1 + int ?n + 4 + int MD5_LEN) = Inr (sint block_size)"
    using peek_part_int[OF msg, of "[word_of_nat ?n] @ name @ ?e1 @ password" "block_size" "?e3 @ bit_rate @ [is_source] @ ?e4 @ header" "p + 1 + int ?n + 4 + int MD5_LEN"] len by (simp add: c2)
  have f5: "peek_int mem (p + 1 + int ?n + 4 + int MD5_LEN + 4) = Inr (sint file_size)"
    using peek_part_int[OF msg, of "[word_of_nat ?n] @ name @ ?e1 @ password @ ?e2" "file_size" "bit_rate @ [is_source] @ ?e4 @ header" "p + 1 + int ?n + 4 + int MD5_LEN + 4"] len by (simp add: c2)
  have f6: "peek mem (p + 1 + int ?n + 4 + int MD5_LEN + 4 + 4) 4 = Inr bit_rate"
    using peek_part[OF msg, of "[word_of_nat ?n] @ name @ ?e1 @ password @ ?e2 @ ?e3" "bit_rate" "[is_source] @ ?e4 @ header" "p + 1 + int ?n + 4 + int MD5_LEN + 4 + 4"] len by (simp add: c2)
  have f7: "peek_char mem (p + 1 + int ?n + 4 + int MD5_LEN + 4 + 4 + 4) = Inr is_source"
    using peek_part_char[OF msg, of "[word_of_nat ?n] @ name @ ?e1 @ password @ ?e2 @ ?e3 @ bit_rate" "is_source" "?e4 @ header" "p + 1 + int ?n + 4 + int MD5_LEN + 4 + 4 + 4"] len by (simp add: c2)
  have f8: "peek_int mem (p + 1 + int ?n + 4 + int MD5_LEN + 4 + 4 + 4 + 1) = Inr (sint (word_of_nat (length header) :: u32))"
    using peek_part_int[OF msg, of "[word_of_nat ?n] @ name @ ?e1 @ password @ ?e2 @ ?e3 @ bit_rate @ [is_source]" "word_of_nat (length header)" "header" "p + 1 + int ?n + 4 + int MD5_LEN + 4 + 4 + 4 + 1"] len by (simp add: c2)
  have f9: "peek mem (p + 1 + int ?n + 4 + int MD5_LEN + 4 + 4 + 4 + 1 + 4) (length header) = Inr header"
    using peek_part[OF msg, of "[word_of_nat ?n] @ name @ ?e1 @ password @ ?e2 @ ?e3 @ bit_rate @ [is_source] @ ?e4" "header" "[]" "p + 1 + int ?n + 4 + int MD5_LEN + 4 + 4 + 4 + 1 + 4"] len by (simp add: c2)
  have size: "sint (word_of_nat ?n :: u8) = int ?n"
    using sint_of_int8[of "int ?n"] len(1) by simp
  have hsize: "sint (word_of_nat (length header) :: u32) = int (length header)" using len(4) by (rule sint_of_nat32)
  have digest: "channel_digest (ce_junk env) name (int ?n) = Some (Inr (hex_string (md5_sum name)))"
    using len(1) by (rule channel_digest_sum)
  let ?name = "until_zero (name @ ce_beyond env)"
  obtain ret mgr1 where cr: "create_source (ce_slots env) (ce_now env) h ?name True mgr = (ret, mgr1)" by fastforce
  note new = create_source_new[OF mgr cr]
  have name: "c_string (name @ ce_beyond env) = Inr ?name" using beyond by (simp add: c_string_def until_zero_def)
  have self: "key_equiv MD5_lt h h" using md5.equiv_key by blast
  have same: "h\<lparr>md5_hash := (md5_hash h)[MD5_LEN := 0]\<rparr> = h"
    using strcpy_hash_sum(2)[OF h(1), of name] by (simp add: h(2))
  note read = f0 bindO_simps Let_def size copy_out_def guardE_True of_nat_0_le_iff bindE_Inr nat_int f1 name f2 digest
    strcpy_hash_sum(1)[OF h(1)] h(2)[symmetric] same f3 f4 f5 f6 f7 f8 f9 hsize cr prod.case
  let ?q = "reserve_buffer (ce_slots env) (int MAX_BUFFER_SIZE) (RsBufferQueue_new (ce_now env) h ?name True)"
  show ?thesis
  proof (cases "header = []")
    case True
    then have "int (length header) = 0" by simp
    then have "cs_get_register env mem p cs mgr = Some (Inr (cs\<lparr>cs_chnl_hash := h\<rparr>, mgr1))"
      unfolding cs_get_register_def by (simp only: read simp_thms if_True)
    moreover have "new_channel env h ?name header = ?q"
      using True by (simp add: new_channel_def reserve_buffer_def RsBufferQueue_new_def)
    ultimately show ?thesis using new(2,3) by auto
  next
    case False
    let ?q' = "new_channel env h ?name header"
    have "add_header h header (int (length header)) mgr1 = Inr (0, set_buffer_queue h ?q' mgr1)"
      using new(3)[of h] self False by (simp add: add_header_def set_header_def new_channel_def)
    then have "cs_get_register env mem p cs mgr = Some (Inr (cs\<lparr>cs_chnl_hash := h\<rparr>, set_buffer_queue h ?q' mgr1))"
      unfolding cs_get_register_def using False by (simp only: read simp_thms if_False of_nat_eq_0_iff length_0_conv)
    moreover have "get_buffer_queue k (set_buffer_queue h ?q' mgr1) =
        (if key_equiv MD5_lt k h then Some ?q' else get_buffer_queue k mgr)" for k
      using new(3) self by (simp add: get_set_queue)
    ultimately show ?thesis using new(2) by auto
  qed
qed

text \<open>A round of the connection, when the next message on the stream is a registration.\<close>

lemma cs_loop_register:
  assumes next_msg: "next_message (ce_junk env) (cs_buffer cs) (cs_io_socket cs) conn = Some (Inr (0, (p, n), b', io', conn'))"
    "peek (rb_mem b') p (Suc (length c)) = Inr (msg_code CS2SP_REGISTER # c)"
    and c: "c = register_content name user_id password block_size file_size bit_rate is_source header"
    and len: "length name < 128" "length password = MD5_LEN" "length bit_rate = 4" "length header < 2 ^ 31"
    and beyond: "0 \<in> set (name @ ce_beyond env)"
    and h: "length (md5_hash (cs_chnl_hash cs)) = MD5_LEN + 1" "h = channel_hash name (cs_chnl_hash cs)"
    and mgr: "mgr_ok mgr" "get_buffer_queue h mgr = None"
  shows "\<exists>mgr'. cs_loop env cs mgr conn =
      Some (Inr (0, cs\<lparr>cs_buffer := b', cs_io_socket := io', cs_chnl_hash := h\<rparr>, mgr', conn')) \<and> mgr_ok mgr' \<and>
    (\<forall>k. get_buffer_queue k mgr' = (if key_equiv MD5_lt k h
       then Some (new_channel env h (until_zero (name @ ce_beyond env)) header) else get_buffer_queue k mgr))"
proof -
  let ?cs = "cs\<lparr>cs_buffer := b', cs_io_socket := io'\<rparr>"
  have body: "peek (rb_mem b') (p + 1) (length c) = Inr c"
    using peek_later[OF next_msg(2), of 1 "length c"] by simp
  have tag: "peek_char (rb_mem b') p = Inr (msg_code CS2SP_REGISTER)"
    using peek_later[OF next_msg(2), of 0 1] by (simp add: peek_char_def)
  let ?q = "new_channel env h (until_zero (name @ ce_beyond env)) header"
  obtain mgr' where mgr': "cs_get_register env (rb_mem b') (p + 1) ?cs mgr = Some (Inr (?cs\<lparr>cs_chnl_hash := h\<rparr>, mgr'))"
    "mgr_ok mgr'" "\<forall>k. get_buffer_queue k mgr' = (if key_equiv MD5_lt k h then Some ?q else get_buffer_queue k mgr)"
    using cs_get_register_creates[OF c body len beyond, of ?cs h mgr] h mgr by auto
  moreover have "cs_loop env cs mgr conn = Some (Inr (0, ?cs\<lparr>cs_chnl_hash := h\<rparr>, mgr', conn'))"
    using next_msg(1) tag mgr'(1) by (simp add: cs_loop_def Let_def)
  ultimately show ?thesis by simp
qed

lemma new_channel_fields:
  "bq_source_name (new_channel env h name header) = name" "bq_source_hash (new_channel env h name header) = h"
  "bq_media_header (new_channel env h name header) = (if header = [] then None else Some (header, int (length header)))"
  by (simp_all add: new_channel_def reserve_buffer_def RsBufferQueue_new_def)

end
