(* ===== verification/Cs_Session.thy ===== *)
theory Cs_Session
  imports Cs_Register
begin

text \<open>
  The whole session of a capture server with a super peer: the rounds of
  \<open>RsCsSpProtocol::loop\<close> on the stream of one connection. It refines the history of a channel:
  a registration begins an empty one, each block message appends to it.
\<close>

section \<open>The clock\<close>

text \<open>
  The calculator of the bit rate divides by a number that is zero after a multiple of
  4,194,304 milliseconds: the times of a session have to lie between two such multiples.
\<close>

definition clock_window :: "nat \<Rightarrow> (int \<times> int) option \<Rightarrow> bool" where
  "clock_window w tv \<longleftrightarrow> (case tv of None \<Rightarrow> True
     | Some (sec, usec) \<Rightarrow> let now = unat (word_of_int (sec * 1000 + usec div 1000) :: u32)
         in w * 4194304 < now \<and> now < Suc w * 4194304)"

definition calc_window :: "nat \<Rightarrow> RsBitrateCalculator \<Rightarrow> bool" where
  "calc_window w c \<longleftrightarrow> (let last = unat (bc_last_recv_msec c)
     in last = 0 \<or> w * 4194304 < last \<and> last < Suc w * 4194304)"

lemma window_difference:
  fixes now last :: u32
  assumes "w * 4194304 < unat now" "unat now < Suc w * 4194304"
    and "unat last = 0 \<or> w * 4194304 < unat last \<and> unat last < Suc w * 4194304"
    and "unat (now - last) mod 4194304 = 0"
  shows "unat (now - last) = 0"
proof (cases "unat last = 0")
  case True
  then have "last = 0" by (simp only: unat_eq_zero)
  then have "unat now mod 4194304 = 0" using assms(4) by simp
  then obtain k where "unat now = 4194304 * k" by (auto simp: mod_eq_0_iff_dvd elim: dvdE)
  then show ?thesis using assms(1,2) by (simp add: nat_less_le)
next
  case False
  show ?thesis
  proof (cases "unat last \<le> unat now")
    case True
    then have "unat (now - last) = unat now - unat last" by (simp add: unat_sub word_le_nat_alt)
    then have "unat (now - last) < 4194304"
      using assms(2,3) False by auto
    then show ?thesis using assms(4) by simp
  next
    case less: False
    define d where "d = unat last - unat now"
    have d: "0 < d" "d < 4194304" using less assms(1,3) False by (simp_all add: d_def)
    have "unat (now - last) = 2 ^ 32 - d"
      using less by (simp add: unat_sub_if_size word_size word_le_nat_alt d_def)
    also have "\<dots> = 4194304 * 1023 + (4194304 - d)" using d by simp
    finally have "unat (now - last) mod 4194304 = 4194304 - d" using d by (simp only: mod_mult_self4) simp
    then show ?thesis using assms(4) d by simp
  qed
qed

lemma update_in_window:
  assumes "clock_window w tv" "calc_window w c"
  shows "\<exists>r c'. update_buffersize tv n c = Inr (r, c') \<and> calc_window w c'"
proof (cases tv)
  case None
  then show ?thesis using assms(2) by (simp add: update_buffersize_def calc_window_def)
next
  case (Some t)
  obtain sec usec where t: "t = (sec, usec)" by fastforce
  let ?now = "word_of_int (sec * 1000 + usec div 1000) :: u32"
  have now: "w * 4194304 < unat ?now" "unat ?now < Suc w * 4194304"
    using assms(1) by (simp_all add: Some t clock_window_def Let_def)
  have "unat (?now - bc_last_recv_msec c) mod 4194304 = 0 \<longrightarrow> unat (?now - bc_last_recv_msec c) = 0"
    using window_difference[OF now, of "bc_last_recv_msec c"] assms(2) by (simp add: calc_window_def Let_def)
  then show ?thesis
    using now assms(2)
    by (auto simp: Some t update_buffersize_def log_bitrate_cases calc_window_def Let_def simp del: of_int_add of_int_mult)
qed

section \<open>The rounds of a connection\<close>

text \<open>The thread calls \<open>loop\<close> again whatever code it returned.\<close>

fun cs_rounds :: "cs_env list \<Rightarrow> RsCsSpProtocol \<Rightarrow> RsSourceManager \<Rightarrow> arrival list \<Rightarrow>
    (RsCsSpProtocol \<times> RsSourceManager \<times> arrival list) res option" where
  "cs_rounds [] cs mgr conn = Some (Inr (cs, mgr, conn))"
| "cs_rounds (env # envs) cs mgr conn =
     bindO (cs_loop env cs mgr conn) (\<lambda>(ret, cs, mgr, conn). cs_rounds envs cs mgr conn)"

text \<open>The messages of the blocks \<open>i\<close>, \<open>i + 1\<close>, ...\<close>

fun block_packets :: "nat \<Rightarrow> bytes list \<Rightarrow> bytes" where
  "block_packets i [] = []"
| "block_packets i (b # bs) = packet CS2SP_BLOCK (block_content (word_of_nat i) b) @ block_packets (Suc i) bs"

definition session_at :: "nat \<Rightarrow> RsBufferQueue \<Rightarrow> bytes list \<Rightarrow> RsCsSpProtocol \<Rightarrow> RsSourceManager \<Rightarrow> arrival list \<Rightarrow> bool" where
  "session_at w q\<^sub>0 h cs mgr conn \<longleftrightarrow> rest_fits (cs_buffer cs) conn \<and> calc_window w (cs_calculator cs) \<and> mgr_ok mgr \<and>
     (\<exists>q. get_buffer_queue (cs_chnl_hash cs) mgr = Some q \<and> ring_ok MAX_BUFFER_SIZE h q \<and> same_channel q\<^sub>0 q)"

lemma cs_rounds_blocks:
  assumes "session_at w q\<^sub>0 h cs mgr conn"
    and "unread (cs_buffer cs) @ pending conn = block_packets (length h) blocks @ rest"
    and "length envs = length blocks" "\<forall>env\<in>set envs. clock_window w (ce_tv env)"
    and "length h + length blocks < 2 ^ 31" "\<forall>b\<in>set blocks. 4 \<le> length b \<and> length b \<le> MEDIA_BLOCK_SIZE"
  shows "\<exists>cs' mgr' conn'. cs_rounds envs cs mgr conn = Some (Inr (cs', mgr', conn')) \<and>
    session_at w q\<^sub>0 (h @ blocks) cs' mgr' conn' \<and> cs_chnl_hash cs' = cs_chnl_hash cs \<and>
    unread (cs_buffer cs') @ pending conn' = rest \<and>
    (\<forall>k. \<not> key_equiv MD5_lt k (cs_chnl_hash cs) \<longrightarrow> get_buffer_queue k mgr' = get_buffer_queue k mgr)"
  using assms
proof (induction blocks arbitrary: h cs mgr conn envs)
  case Nil
  then show ?case by simp
next
  case (Cons b bs)
  obtain env envs' where envs: "envs = env # envs'" "length envs' = length bs" using Cons.prems(3) by (cases envs) auto
  obtain q where q: "get_buffer_queue (cs_chnl_hash cs) mgr = Some q" "ring_ok MAX_BUFFER_SIZE h q"
    and st: "rest_fits (cs_buffer cs) conn" "calc_window w (cs_calculator cs)" "mgr_ok mgr" "same_channel q\<^sub>0 q"
    using Cons.prems(1) by (auto simp: session_at_def)
  let ?c = "block_content (word_of_nat (length h)) b"
  have "unread (cs_buffer cs) @ pending conn = packet CS2SP_BLOCK ?c @ block_packets (length (h @ [b])) bs @ rest"
    using Cons.prems(2) by simp
  from next_message_fits[OF st(1) this, of "ce_junk env" "cs_io_socket cs"] obtain p b' io' conn1 where
    n: "next_message (ce_junk env) (cs_buffer cs) (cs_io_socket cs) conn = Some (Inr (0, (p, 5 + int (length ?c)), b', io', conn1))"
      "peek (rb_mem b') p (Suc (length ?c)) = Inr (msg_code CS2SP_BLOCK # ?c)"
      "rest_fits b' conn1" "unread b' @ pending conn1 = block_packets (length (h @ [b])) bs @ rest" by blast
  obtain r calc where calc: "update_buffersize (ce_tv env) (word_of_nat (length b)) (cs_calculator cs) = Inr (r, calc)"
    "calc_window w calc"
    using update_in_window[of w "ce_tv env" "cs_calculator cs" "word_of_nat (length b)"] st(2) Cons.prems(4) envs(1) by auto
  let ?cs = "cs\<lparr>cs_buffer := b', cs_io_socket := io', cs_calculator := calc\<rparr>"
  obtain mgr1 q1 where round: "cs_loop env cs mgr conn = Some (Inr (0, ?cs, mgr1, conn1))" "ring_ok MAX_BUFFER_SIZE (h @ [b]) q1"
    "same_channel q q1" "mgr_ok mgr1"
    "\<forall>k. get_buffer_queue k mgr1 = (if key_equiv MD5_lt k (cs_chnl_hash cs) then Some q1 else get_buffer_queue k mgr)"
    using cs_loop_block[OF n(1,2) refl q _ _ _ calc(1)] Cons.prems(5,6) st(3) by auto
  have "key_equiv MD5_lt (cs_chnl_hash cs) (cs_chnl_hash cs)" using md5.equiv_key by blast
  then have at: "session_at w q\<^sub>0 (h @ [b]) ?cs mgr1 conn1"
    using n(3) calc(2) round(2-5) same_channel_trans[OF st(4)] by (auto simp: session_at_def)
  have "\<exists>cs' mgr' conn'. cs_rounds envs' ?cs mgr1 conn1 = Some (Inr (cs', mgr', conn')) \<and>
    session_at w q\<^sub>0 ((h @ [b]) @ bs) cs' mgr' conn' \<and> cs_chnl_hash cs' = cs_chnl_hash ?cs \<and>
    unread (cs_buffer cs') @ pending conn' = rest \<and>
    (\<forall>k. \<not> key_equiv MD5_lt k (cs_chnl_hash ?cs) \<longrightarrow> get_buffer_queue k mgr' = get_buffer_queue k mgr1)"
    using n(4) envs Cons.prems(4,5,6) by (intro Cons.IH[OF at]) simp_all
  then show ?case using round(1,5) envs(1) by auto
qed

lemma cs_session_runs:
  assumes "c = register_content name user_id password block_size file_size bit_rate is_source header"
    and "length name < 128" "length password = MD5_LEN" "length bit_rate = 4"
    and "0 \<in> set (name @ ce_beyond env)" "length (md5_hash hash\<^sub>0) = MD5_LEN + 1"
    and "h = channel_hash name hash\<^sub>0" "mgr_ok mgr" "get_buffer_queue h mgr = None"
    and "conn_ok conn" "\<forall>x\<in>set conn. \<exists>bs. x = Segment bs" "length (pending conn) \<le> DEFAULT_RECV_BUFFER_SIZE"
    and "pending conn = packet CS2SP_REGISTER c @ block_packets 0 blocks @ rest"
    and "\<forall>b\<in>set blocks. 4 \<le> length b \<and> length b \<le> MEDIA_BLOCK_SIZE"
    and "length envs = length blocks" "\<forall>e\<in>set envs. clock_window w (ce_tv e)"
  shows "\<exists>cs' mgr' conn' q. cs_rounds (env # envs) (RsCsSpProtocol_new junk hash\<^sub>0 task) mgr conn = Some (Inr (cs', mgr', conn')) \<and>
    get_buffer_queue h mgr' = Some q \<and> ring_ok MAX_BUFFER_SIZE blocks q \<and> cs_chnl_hash cs' = h \<and>
    same_channel (new_channel env h (until_zero (name @ ce_beyond env)) header) q \<and> mgr_ok mgr' \<and>
    (\<forall>k. \<not> key_equiv MD5_lt k h \<longrightarrow> get_buffer_queue k mgr' = get_buffer_queue k mgr) \<and>
    unread (cs_buffer cs') @ pending conn' = rest"
proof -
  let ?cs = "RsCsSpProtocol_new junk hash\<^sub>0 task"
  have cs: "cs_buffer ?cs = RsBuffer_new junk" "cs_chnl_hash ?cs = hash\<^sub>0" "cs_calculator ?cs = RsBitrateCalculator_new task"
    by (simp_all add: RsCsSpProtocol_new_def)
  have fits: "rest_fits (cs_buffer ?cs) conn"
    using assms(10,11,12) by (simp add: rest_fits_def cs RsBuffer_new_ok)
  have size: "length c + length (block_packets 0 blocks) \<le> DEFAULT_RECV_BUFFER_SIZE" using assms(12,13) by simp
  have stream: "unread (cs_buffer ?cs) @ pending conn = packet CS2SP_REGISTER c @ block_packets (length ([] :: bytes list)) blocks @ rest"
    using assms(13) by (simp add: cs RsBuffer_new_ok)
  from next_message_fits[OF fits this, of "ce_junk env" "cs_io_socket ?cs"] obtain p b' io' conn1 where
    n: "next_message (ce_junk env) (cs_buffer ?cs) (cs_io_socket ?cs) conn = Some (Inr (0, (p, 5 + int (length c)), b', io', conn1))"
      "peek (rb_mem b') p (Suc (length c)) = Inr (msg_code CS2SP_REGISTER # c)"
      "rest_fits b' conn1" "unread b' @ pending conn1 = block_packets (length ([] :: bytes list)) blocks @ rest" by blast
  let ?q\<^sub>0 = "new_channel env h (until_zero (name @ ce_beyond env)) header"
  have "length header < 2 ^ 31" using size by (simp add: assms(1) register_content_def)
  then obtain mgr1 where reg: "cs_loop env ?cs mgr conn =
      Some (Inr (0, ?cs\<lparr>cs_buffer := b', cs_io_socket := io', cs_chnl_hash := h\<rparr>, mgr1, conn1))"
    "mgr_ok mgr1" "\<forall>k. get_buffer_queue k mgr1 = (if key_equiv MD5_lt k h
       then Some (new_channel env h (until_zero (name @ ce_beyond env)) header) else get_buffer_queue k mgr)"
    using cs_loop_register[OF n(1,2) assms(1,2,3,4) _ assms(5) _ _ assms(8,9)] assms(6,7) cs(2) by auto
  let ?cs1 = "?cs\<lparr>cs_buffer := b', cs_io_socket := io', cs_chnl_hash := h\<rparr>"
  have self: "key_equiv MD5_lt h h" using md5.equiv_key by blast
  have at: "session_at w ?q\<^sub>0 [] ?cs1 mgr1 conn1"
    using n(3) reg(2,3) self new_channel_ok cs(3)
    by (auto simp: session_at_def calc_window_def RsBitrateCalculator_new_def)
  have count: "length ([] :: bytes list) + length blocks < 2 ^ 31"
  proof -
    have "length blocks \<le> length (block_packets i blocks)" for i by (induction blocks arbitrary: i) (auto intro: le_SucI trans_le_add2)
    from this[of 0] show ?thesis using size by simp
  qed
  obtain cs' mgr' conn' where run: "cs_rounds envs ?cs1 mgr1 conn1 = Some (Inr (cs', mgr', conn'))"
    "session_at w ?q\<^sub>0 blocks cs' mgr' conn'" "cs_chnl_hash cs' = h" "unread (cs_buffer cs') @ pending conn' = rest"
    "\<forall>k. \<not> key_equiv MD5_lt k h \<longrightarrow> get_buffer_queue k mgr' = get_buffer_queue k mgr1"
    using cs_rounds_blocks[OF at _ assms(15,16) count assms(14), of rest] n(4) by auto
  then show ?thesis using reg by (auto simp: session_at_def)
qed

text \<open>
  C4. A capture server's session: on a new connection whose bytes are a registration and then
  the blocks 0, 1, ... of a channel the super peer does not have, altogether at most 131,072
  bytes, cut by the network in whatever way, one round per message and none of them fails;
  afterwards the table of channels has gained exactly the channel whose hash is the RFC 1321
  digest of the name, with its header, and its ring holds the history of the blocks sent, in
  order, each with its bytes. The name stored with it ends at the first zero in the name or, if
  it has none, in the memory behind it (the name is sent without its zero). The name has fewer
  than 128 bytes; blocks have at least the four bytes of their offset and at most 16,384 bytes,
  and the times of the rounds lie between two multiples of 4,194,304 milliseconds.
\<close>

theorem cs_session:
  assumes "c = register_content name user_id password block_size file_size bit_rate is_source header"
    and "length name < 128" "length password = MD5_LEN" "length bit_rate = 4"
    and "0 \<in> set (name @ ce_beyond env)" "length (md5_hash hash\<^sub>0) = MD5_LEN + 1"
    and "h = channel_hash name hash\<^sub>0" "mgr_ok mgr" "get_buffer_queue h mgr = None"
    and "conn_ok conn" "\<forall>x\<in>set conn. \<exists>bs. x = Segment bs" "length (pending conn) \<le> DEFAULT_RECV_BUFFER_SIZE"
    and "pending conn = packet CS2SP_REGISTER c @ block_packets 0 blocks @ rest"
    and "\<forall>b\<in>set blocks. 4 \<le> length b \<and> length b \<le> MEDIA_BLOCK_SIZE"
    and "length envs = length blocks" "\<forall>e\<in>set envs. clock_window w (ce_tv e)"
  shows "\<exists>cs' mgr' conn' q. cs_rounds (env # envs) (RsCsSpProtocol_new junk hash\<^sub>0 task) mgr conn = Some (Inr (cs', mgr', conn')) \<and>
    get_buffer_queue h mgr' = Some q \<and> ring_ok MAX_BUFFER_SIZE blocks q \<and> cs_chnl_hash cs' = h \<and>
    same_channel (new_channel env h (until_zero (name @ ce_beyond env)) header) q \<and>
    (\<forall>k. \<not> key_equiv MD5_lt k h \<longrightarrow> get_buffer_queue k mgr' = get_buffer_queue k mgr) \<and>
    unread (cs_buffer cs') @ pending conn' = rest"
  using cs_session_runs[OF assms] by blast

text \<open>The channel \<open>abc\<close> and two blocks, the first segment ends in the message of registration.\<close>

definition sample_cs_env :: cs_env where
  "sample_cs_env = \<lparr>ce_now = 0, ce_tv = None, ce_junk = (\<lambda>_. 0), ce_slots = (\<lambda>_ _. 0), ce_beyond = [0]\<rparr>"

definition sample_register :: bytes where
  "sample_register = register_content (chars ''abc'') 7 (replicate MD5_LEN 97) 16384 0 [0, 0, 0, 0] 1 [1, 2]"

definition sample_session :: bytes where
  "sample_session = packet CS2SP_REGISTER sample_register @ block_packets 0 [[0, 0, 0, 0, 7], [1, 0, 0, 0, 9]]"

theorem cs_session_witness:
  "\<exists>cs' mgr' conn' q. cs_rounds [sample_cs_env, sample_cs_env, sample_cs_env] (RsCsSpProtocol_new (\<lambda>_. 0) sample_hash [])
      RsSourceManager_new [Segment (take 10 sample_session), Segment (drop 10 sample_session)] = Some (Inr (cs', mgr', conn')) \<and>
    get_buffer_queue \<lparr>md5_hash = chars ''900150983cd24fb0d6963f7d28e17f72'' @ [0],
      md5_interval = \<lparr>bi_start = 0, bi_size = 0\<rparr>\<rparr> mgr' = Some q \<and>
    ring_ok MAX_BUFFER_SIZE [[0, 0, 0, 0, 7], [1, 0, 0, 0, 9]] q"
proof -
  let ?conn = "[Segment (take 10 sample_session), Segment (drop 10 sample_session)]"
  have h: "channel_hash (chars ''abc'') sample_hash = \<lparr>md5_hash = chars ''900150983cd24fb0d6963f7d28e17f72'' @ [0],
      md5_interval = \<lparr>bi_start = 0, bi_size = 0\<rparr>\<rparr>"
    by (simp add: channel_hash_def sample_hash_def md5_abc)
  have len: "length sample_register = 59" by (simp add: sample_register_def register_content_def chars_def)
  then have size: "length sample_session = 100"
    by (simp add: sample_session_def packet_def block_content_def)
  have conn: "conn_ok ?conn" "\<forall>x\<in>set ?conn. \<exists>bs. x = Segment bs" using size by (auto simp: conn_ok_def)
  have "pending ?conn = packet CS2SP_REGISTER sample_register @ block_packets 0 [[0, 0, 0, 0, 7], [1, 0, 0, 0, 9]] @ []"
    by (simp only: pending.simps append_Nil2 append_take_drop_id) (simp only: sample_session_def)
  moreover have "length (pending ?conn) \<le> DEFAULT_RECV_BUFFER_SIZE" using size by simp
  ultimately show ?thesis
    using cs_session[OF sample_register_def _ _ _ _ _ refl _ _ conn _ _, of sample_cs_env sample_hash RsSourceManager_new
        "[[0, 0, 0, 0, 7], [1, 0, 0, 0, 9]]" "[]" "[sample_cs_env, sample_cs_env]" 0 "\<lambda>_. 0" "[]"] size
    unfolding h
    by (auto simp: sample_cs_env_def chars_def sample_hash_def mgr_ok_def RsSourceManager_new_def get_buffer_queue_def clock_window_def simp del: pending.simps append_assoc)
qed

end
