(* ===== verification/Super_Peer.thy ===== *)
theory Super_Peer
  imports Managers Message_Typed Cs_Session
begin

text \<open>
  The process of a super peer, \<open>app/sp/superpeer_server.cpp\<close>: the two listeners, the objects of
  their connections with what each connection has still to deliver, the channels, the connector
  to the tracker with its timers, and the loop of the server.
\<close>

record sp_process =
  pp_source :: RsSourceManager
  pp_np_listener :: RsTcpListener
  pp_np :: "RsNpSpProtocol connections"
  pp_np_streams :: "arrival list list"
  pp_no_receive_counter :: int
  pp_cs_listener :: RsTcpListener
  pp_cs :: "RsCsSpProtocol connections"
  pp_cs_streams :: "arrival list list"
  pp_timer :: "unit RsTimer"
  pp_tracker :: RsSpTrackerProtocol
  pp_clock :: SystemTime

text \<open>\<open>SpNpManager::start_listener\<close> and \<open>SpCsManager::start_listener\<close>: the result of listening is ignored.\<close>

definition np_tcp_start_listener :: "sys_calls \<Rightarrow> RsTcpListener \<Rightarrow> int \<times> RsTcpListener" where
  "np_tcp_start_listener sys tcp_listener = (let (_, tcp_listener) = tcp_start_listen sys tcp_listener in (0, tcp_listener))"

definition cs_tcp_start_listener :: "sys_calls \<Rightarrow> RsTcpListener \<Rightarrow> int \<times> RsTcpListener" where
  "cs_tcp_start_listener sys tcp_listener = (let (_, tcp_listener) = tcp_start_listen sys tcp_listener in (0, tcp_listener))"

abbreviation no_connections :: "'c connections" where
  "no_connections \<equiv> \<lparr>co_heap = [], co_coroutines = [], co_owned = [], co_starting = None\<rparr>"

text \<open>\<open>main\<close>, up to the loop of the server. The result of \<open>rs_st_init\<close> is ignored.\<close>

definition superpeer_main :: "(nat \<Rightarrow> u8) \<Rightarrow> RsThread \<Rightarrow> RsThread \<Rightarrow> sys_calls \<Rightarrow> sys_calls \<Rightarrow> sys_calls \<Rightarrow> sp_process res" where
  "superpeer_main junk th\<^sub>1 th\<^sub>2 sys\<^sub>1 sys\<^sub>2 sys\<^sub>3 =
     (let (_, np_listener) = np_tcp_start_listener sys\<^sub>1 (RsTcpListener_new th\<^sub>1);
          (_, cs_listener) = cs_tcp_start_listener sys\<^sub>2 (RsTcpListener_new th\<^sub>2);
          (_, source) = RsSourceManager_initialize (chars ''68.168.137.118:3333'') RsSourceManager_new
      in bindE (sp_start_connect junk sys\<^sub>3 () RsTimer_new) (\<lambda>(_, timer, tracker).
         Inr \<lparr>pp_source = source, pp_np_listener = np_listener, pp_np = no_connections,
           pp_np_streams = [], pp_no_receive_counter = 0, pp_cs_listener = cs_listener,
           pp_cs = no_connections, pp_cs_streams = [], pp_timer = timer, pp_tracker = tracker,
           pp_clock = SystemTime_new\<rparr>))"

text \<open>
  What happens to the process: a connection is accepted, which will deliver what the event
  says; a listener that waits for the coroutine of its new connection is resumed; the coroutine
  of a connection is resumed, named by the address of its object; the connector to the tracker,
  the timers or the server make a round. A listener that waits accepts nothing.
\<close>

datatype sp_event =
    Np_Accept thread_env "nat \<Rightarrow> u8" "arrival list"
  | Cs_Accept thread_env "nat \<Rightarrow> u8" MD5_Hash_Str "arrival list"
  | Np_Listener_Resumes
  | Cs_Listener_Resumes
  | Np_Conn_Round np_conn_env nat
  | Cs_Conn_Round cs_env nat
  | Tracker_Round spc_env "bytes option"
  | Timer_Round spc_env "(int \<times> int) option"
  | Server_Round "(int \<times> int) option" bool "bytes \<Rightarrow> nat"

definition np_connected :: "thread_env \<Rightarrow> (nat \<Rightarrow> u8) \<Rightarrow> arrival list \<Rightarrow> sp_process \<Rightarrow> (int \<times> sp_process) res" where
  "np_connected te junk stream p =
     (let (ret, conns) = np_handle_tcp_connect te (RsNpSpProtocol_new junk (chars ''np'')) (pp_np p)
      in Inr (ret, p\<lparr>pp_np := conns, pp_np_streams := pp_np_streams p @ [stream]\<rparr>))"

definition cs_connected :: "thread_env \<Rightarrow> (nat \<Rightarrow> u8) \<Rightarrow> MD5_Hash_Str \<Rightarrow> arrival list \<Rightarrow> sp_process \<Rightarrow> (int \<times> sp_process) res" where
  "cs_connected te junk hash stream p =
     (let (ret, conns) = cs_handle_tcp_connect te (RsCsSpProtocol_new junk hash (chars ''cs'')) (pp_cs p)
      in Inr (ret, p\<lparr>pp_cs := conns, pp_cs_streams := pp_cs_streams p @ [stream]\<rparr>))"

fun sp_process_round :: "sp_event \<Rightarrow> sp_process \<Rightarrow> sp_process res option" where
  "sp_process_round (Np_Accept te junk stream) p =
     (if co_starting (pp_np p) \<noteq> None then Some (Inr p)
      else Some (bindE (tcp_loop (np_connected te junk) (Some stream) p) (\<lambda>(_, p). Inr p)))"
| "sp_process_round (Cs_Accept te junk hash stream) p =
     (if co_starting (pp_cs p) \<noteq> None then Some (Inr p)
      else Some (bindE (tcp_loop (cs_connected te junk hash) (Some stream) p) (\<lambda>(_, p). Inr p)))"
| "sp_process_round Np_Listener_Resumes p =
     Some (bindE (start_resumes np_connect_ends (pp_np p)) (\<lambda>conns. Inr (p\<lparr>pp_np := conns\<rparr>)))"
| "sp_process_round Cs_Listener_Resumes p =
     Some (bindE (start_resumes cs_connect_ends (pp_cs p)) (\<lambda>conns. Inr (p\<lparr>pp_cs := conns\<rparr>)))"
| "sp_process_round (Np_Conn_Round env addr) p =
     (if addr \<in> set (co_coroutines (pp_np p)) then
        bindO (np_conn_round env addr (pp_no_receive_counter p) (pp_np p) (pp_source p) (pp_np_streams p ! addr))
          (\<lambda>(counter, conns, source, stream).
          Some (Inr (p\<lparr>pp_no_receive_counter := counter, pp_np := conns, pp_source := source,
            pp_np_streams := (pp_np_streams p)[addr := stream]\<rparr>)))
      else Some (Inr p))"
| "sp_process_round (Cs_Conn_Round env addr) p =
     (if addr \<in> set (co_coroutines (pp_cs p)) then
        bindO (cs_conn_round env addr (pp_cs p) (pp_source p) (pp_cs_streams p ! addr)) (\<lambda>(conns, source, stream).
          Some (Inr (p\<lparr>pp_cs := conns, pp_source := source, pp_cs_streams := (pp_cs_streams p)[addr := stream]\<rparr>)))
      else Some (Inr p))"
| "sp_process_round (Tracker_Round env datagram) p =
     Some (bindE (spc_loop env datagram (pp_source p) (pp_tracker p)) (\<lambda>(_, c). Inr (p\<lparr>pp_tracker := c\<rparr>)))"
| "sp_process_round (Timer_Round env tv) p =
     (let (now, clock) = get_system_time_ms tv (pp_clock p)
      in Some (bindE (check_timeout (\<lambda>_. spc_handle_timeout env (pp_source p)) now (pp_timer p) (pp_tracker p))
           (\<lambda>(timer, c). Inr (p\<lparr>pp_clock := clock, pp_timer := timer, pp_tracker := c\<rparr>))))"
| "sp_process_round (Server_Round tv opened wrote) p =
     Some (bindE (server_round SUPER_PEER tv opened wrote (pp_source p) (pp_clock p)) (\<lambda>(clock, _). Inr (p\<lparr>pp_clock := clock\<rparr>)))"

fun sp_process_rounds :: "sp_event list \<Rightarrow> sp_process \<Rightarrow> sp_process res option" where
  "sp_process_rounds [] p = Some (Inr p)"
| "sp_process_rounds (e # es) p = bindO (sp_process_round e p) (sp_process_rounds es)"

section \<open>Without a channel nothing is sent to a normal peer\<close>

lemma no_channel:
  assumes "sm_source_hashmap mgr = []"
  shows "get_buffer_queue k mgr = None" "source_header k mgr = Inr (ERROR_SOURCE_MGR_NOT_FOUND, None)"
    "dequeue_block k i mgr = Inr (ERROR_SOURCE_MGR_NOT_FOUND, Not_Set)" "get_source_list mgr [] = Inr []"
  using assms by (simp_all add: get_buffer_queue_def source_header_def dequeue_block_def get_source_list_def)

lemma send_blocks_nothing: "sm_source_hashmap mgr = [] \<Longrightarrow> send_blocks env md5 xs mgr s = Inr s"
  by (induction xs) (simp_all add: send_one_block_def no_channel)

lemma get_push_list_nothing: "sm_source_hashmap mgr = [] \<Longrightarrow> get_push_list env msg n mgr s = Inr s' \<Longrightarrow> s' = s"
  by (auto simp: get_push_list_def send_media_type_def no_channel send_push_list_def send_blocks_nothing res_invert
      split: if_splits)

lemma np_conn_loop_nothing:
  assumes "sm_source_hashmap mgr = []" "np_conn_loop env c s mgr conn = Some (Inr (ret, c', s', conn'))"
  shows "nsp_sent s' = nsp_sent s"
  using assms(2) unfolding np_conn_loop_def
  by (auto simp: bindO_Inr Let_def split: if_splits dest!: get_push_list_nothing[OF assms(1)])

lemma loop_class_resumes:
  "thread_resumes (loop_class body) t s =
    (case th_looper t of Created \<Rightarrow> Some (Inr (thread_begins t, s)) | Waits_Can_Run \<Rightarrow> Some (Inr (test_can_run t, s))
     | Between_Rounds \<Rightarrow> thread_round (loop_class body) t s | _ \<Rightarrow> Some (Inr (t, s)))"
proof -
  have "thread_stops (loop_class body) t' s = Some (Inr (t', s))" for t'
    by (simp add: thread_stops_def loop_class_def no_hook_def)
  then show ?thesis by (simp add: thread_resumes_def loop_class_enters split: looper.splits)
qed

lemma np_resumes_nothing:
  assumes "sm_source_hashmap mgr = []"
    and "thread_resumes (RsNpSpProtocol_class env) th (c, s, mgr, conn) = Some (Inr (th', c', s', mgr', conn'))"
  shows "mgr' = mgr \<and> nsp_sent s' = nsp_sent s"
  using assms(2) unfolding RsNpSpProtocol_class_def loop_class_resumes loop_class_round
  by (auto simp: bindO_Inr split: looper.splits dest!: np_conn_loop_nothing[OF assms(1)])

section \<open>What the connector tells the tracker\<close>

text \<open>Packets of two types only: the registration and the question for the super peers.\<close>

definition asks_only :: "RsSpTrackerProtocol \<Rightarrow> bool" where
  "asks_only c \<longleftrightarrow> length (spc_sp_id c) = UUID_LENGTH \<and>
     (\<forall>x\<in>set (spc_sent c). \<exists>content. x = packet SP2TS_REGISTER content \<or> x = packet SP2TS_GET_SP content)"

lemma sent_asks:
  assumes "asks_only c" "pkt = packet SP2TS_REGISTER content \<or> pkt = packet SP2TS_GET_SP content"
    and "spc_write env pkt n c = Inr c'"
  shows "asks_only c'"
  using assms by (auto simp: asks_only_def spc_write_def split: if_splits option.splits prod.splits)

lemma spc_send_sp_list_asks:
  assumes "asks_only c" "spc_send_sp_list env c = Inr c'"
  shows "asks_only c'"
proof -
  have "Sp2TsSpList_wf \<lparr>getsp_uuid = spc_sp_id c\<rparr>" using assms(1) by (simp add: asks_only_def Sp2TsSpList_wf_def)
  from sp2tssplist.pack_packet[OF this] show ?thesis
    using assms(2) sent_asks[OF assms(1) disjI2[OF refl]] by (simp add: spc_send_sp_list_def Let_def)
qed

lemma spc_send_register_asks: "asks_only c \<Longrightarrow> spc_send_register env c = Inr c' \<Longrightarrow> asks_only c'"
  by (auto simp: spc_send_register_sends sent_one_def asks_only_def register_packet_def split: option.splits)

lemma spc_send_res_list_nothing: "sm_source_hashmap mgr = [] \<Longrightarrow> spc_send_res_list env mgr c = Inr c"
  by (simp add: spc_send_res_list_def no_channel)

lemma spc_handle_timeout_asks:
  "sm_source_hashmap mgr = [] \<Longrightarrow> asks_only c \<Longrightarrow> spc_handle_timeout env mgr timerid c = Inr c' \<Longrightarrow> asks_only c'"
  by (auto simp: spc_handle_timeout_def spc_send_res_list_nothing dest: spc_send_register_asks spc_send_sp_list_asks split: if_splits)

lemma spc_get_welcome_asks:
  assumes "asks_only c" "spc_get_welcome msg n c = Inr c'"
  shows "asks_only c'"
proof -
  obtain m s where m: "Ts2SpWelcome_parse (initialize msg n) = Inr (m, s)"
    "c' = c\<lparr>spc_sp_id := welcome_uuid m, spc_register_flag := True\<rparr>"
    using assms(2) by (auto simp: spc_get_welcome_def res_invert)
  then show ?thesis using sp_welcome_exact.parse_sound[OF m(1)] assms(1) by (simp add: asks_only_def Ts2SpWelcome_wf_def)
qed

lemma spc_dispatch_asks:
  assumes "sm_source_hashmap mgr = []" "asks_only c" "spc_dispatch env mgr t msg n c = Inr c'"
  shows "asks_only c'"
  using assms(3) spc_send_register_asks[OF assms(2)] spc_get_welcome_asks[OF assms(2)] assms(2)
  by (simp add: spc_dispatch_def spc_get_sp_list_def spc_get_res_interval_def spc_send_res_list_nothing[OF assms(1)]
      res_invert split: if_splits) blast+

lemma spc_loop_asks:
  assumes "sm_source_hashmap mgr = []" "asks_only c" "spc_loop env datagram mgr c = Inr (ret, c')"
  shows "asks_only c'"
proof -
  have "asks_only (c\<lparr>spc_recv_mem := mem, spc_recv_buf := b\<rparr>)" for mem b using assms(2) by (simp add: asks_only_def)
  from spc_dispatch_asks[OF assms(1) this] assms(2,3) show ?thesis
    by (simp add: spc_loop_def Let_def res_invert split: option.splits if_splits) blast+
qed

lemma signal_timers_keeps:
  assumes "\<And>cb timerid c c'. P c \<Longrightarrow> handle cb timerid c = Inr c' \<Longrightarrow> P c'"
  shows "signal_timers handle now v c = Inr (v', c') \<Longrightarrow> P c \<Longrightarrow> P c'"
  by (induction v arbitrary: v' c) (auto simp: res_invert dest: assms split: if_splits)

lemma check_timeout_asks:
  assumes "sm_source_hashmap mgr = []" "asks_only c"
    and "check_timeout (\<lambda>_. spc_handle_timeout env mgr) now tm c = Inr (tm', c')"
  shows "asks_only c'"
  using assms signal_timers_keeps[of asks_only "\<lambda>_. spc_handle_timeout env mgr"] spc_handle_timeout_asks[OF assms(1)]
  by (auto simp: check_timeout_def res_invert split: if_splits)

abbreviation new_thread :: RsThread where "new_thread \<equiv> RsThread_new False False False"

section \<open>A run without a fault\<close>

definition cs_waits :: "RsThread \<Rightarrow> bool" where
  "cs_waits th \<longleftrightarrow> \<not> th_can_run th \<and> th_loop_flag th \<and> (th_looper th = Created \<or> th_looper th = Waits_Can_Run)"

text \<open>No object of a capture server is left but the one whose coroutine is being started, and that coroutine waits.\<close>

definition cs_gone :: "RsCsSpProtocol connections \<Rightarrow> bool" where
  "cs_gone conns \<longleftrightarrow> (\<forall>addr<length (co_heap conns).
     case co_heap conns ! addr of None \<Rightarrow> True | Some (th, c) \<Rightarrow> co_starting conns = Some addr \<and> cs_waits th) \<and>
     (\<forall>addr\<in>set (co_coroutines conns). addr < length (co_heap conns)) \<and>
     (\<forall>addr. co_starting conns = Some addr \<longrightarrow> addr < length (co_heap conns))"

definition np_silent :: "RsNpSpProtocol connections \<Rightarrow> bool" where
  "np_silent conns \<longleftrightarrow> (\<forall>obj\<in>set (co_heap conns). \<exists>th c. obj = Some (th, c) \<and> nsp_sent c = []) \<and>
     (\<forall>addr\<in>set (co_coroutines conns). addr < length (co_heap conns)) \<and>
     (\<forall>addr. co_starting conns = Some addr \<longrightarrow> addr < length (co_heap conns))"

definition idle_process :: "sp_process \<Rightarrow> bool" where
  "idle_process p \<longleftrightarrow> sm_source_hashmap (pp_source p) = [] \<and> asks_only (pp_tracker p) \<and> np_silent (pp_np p) \<and> cs_gone (pp_cs p)"

text \<open>The memory of \<open>can_run\<close> is false in the new object of a capture server's connection.\<close>

fun starts_waiting :: "sp_event \<Rightarrow> bool" where
  "starts_waiting (Cs_Accept te junk hash stream) = (\<not> te_can_run te)"
| "starts_waiting _ = True"

lemma cs_gone_accept:
  assumes "cs_gone conns" "co_starting conns = None" "\<not> te_can_run te"
  shows "cs_gone (snd (cs_handle_tcp_connect te c conns))"
  using assms
  by (auto simp: cs_gone_def cs_handle_tcp_connect_def start_object_def cs_connect_ends_def cs_waits_def thread_defs
      RsThread_new_def nth_append less_Suc_eq Let_def split: option.splits)

lemma cs_gone_update:
  assumes "cs_gone conns" "co_starting conns = Some addr" "cs_waits th"
  shows "cs_gone (conns\<lparr>co_heap := (co_heap conns)[addr := Some (th, c)]\<rparr>)"
  using assms unfolding cs_gone_def by (force simp: nth_list_update split: option.splits)

lemma cs_gone_ends:
  assumes "cs_gone conns" "co_starting conns = Some addr"
  shows "cs_gone (cs_connect_ends addr conns)"
  using assms unfolding cs_gone_def cs_connect_ends_def by (force simp: nth_list_update split: option.splits)

lemma cs_gone_waits: "cs_gone conns \<Longrightarrow> addr < length (co_heap conns) \<Longrightarrow> co_heap conns ! addr = Some (th, c) \<Longrightarrow>
  co_starting conns = Some addr \<and> cs_waits th"
  by (auto simp: cs_gone_def split: option.splits)

lemma cs_gone_resumes:
  assumes "cs_gone conns" "start_resumes cs_connect_ends conns = Inr conns'"
  shows "cs_gone conns'"
proof (cases "co_starting conns")
  case (Some addr)
  then have addr: "addr < length (co_heap conns)" using assms(1) by (simp add: cs_gone_def)
  obtain th c where th: "co_heap conns ! addr = Some (th, c)"
    "conns' = (let th = starter_resumes th; conns = conns\<lparr>co_heap := (co_heap conns)[addr := Some (th, c)]\<rparr>
       in if th_starter th = Waits_Cid then conns else cs_connect_ends addr conns)"
    using assms(2) Some by (auto simp: start_resumes_def res_invert object_at_def Let_def split: option.splits)
  have "cs_waits th" using cs_gone_waits[OF assms(1) addr th(1)] by simp
  show ?thesis
  proof (cases "th_cid th < 0")
    case True
    then have "cs_waits (starter_resumes th)" using \<open>cs_waits th\<close> by (simp add: starter_resumes_def cs_waits_def)
    then show ?thesis using th(2) True cs_gone_update[OF assms(1) Some] by (simp add: starter_resumes_def)
  next
    case False
    then have "conns' = cs_connect_ends addr conns" using th(2) by (simp add: starter_resumes_def cs_connect_ends_def)
    then show ?thesis using cs_gone_ends[OF assms(1) Some] by simp
  qed
qed (use assms in \<open>simp add: start_resumes_def\<close>)

lemma cs_resumes_waiting:
  assumes "cs_waits th" "thread_resumes (RsCsSpProtocol_class env) th (c, mgr, conn) = Some (Inr (th', c', mgr', conn'))"
  shows "cs_waits th' \<and> mgr' = mgr"
  using assms unfolding RsCsSpProtocol_class_def loop_class_resumes
  by (auto simp: cs_waits_def thread_defs split: if_splits)

lemma cs_gone_round:
  assumes "cs_gone conns" "addr \<in> set (co_coroutines conns)" "cs_conn_round env addr conns mgr conn = Some (Inr (conns', mgr', conn'))"
  shows "cs_gone conns' \<and> mgr' = mgr"
proof -
  obtain th c th' c' where th: "co_heap conns ! addr = Some (th, c)"
    "thread_resumes (RsCsSpProtocol_class env) th (c, mgr, conn) = Some (Inr (th', c', mgr', conn'))"
    "conns' = conns\<lparr>co_heap := (co_heap conns)[addr := Some (th', c')]\<rparr>"
    using assms(3) by (auto simp: cs_conn_round_def object_at_def bindO_Inr split: option.splits)
  have "addr < length (co_heap conns)" using assms(1,2) by (simp add: cs_gone_def)
  from cs_gone_waits[OF assms(1) this th(1)] cs_resumes_waiting[OF _ th(2)] show ?thesis
    using cs_gone_update[OF assms(1)] th(3) by blast
qed

lemma np_silent_accept:
  "np_silent conns \<Longrightarrow> nsp_sent c = [] \<Longrightarrow> np_silent (snd (np_handle_tcp_connect te c conns))"
  by (auto simp: np_silent_def np_handle_tcp_connect_def start_object_def np_connect_ends_def case_prod_unfold Let_def
      split: if_splits)

lemma np_silent_update:
  "np_silent conns \<Longrightarrow> nsp_sent c = [] \<Longrightarrow> np_silent (conns\<lparr>co_heap := (co_heap conns)[addr := Some (th, c)]\<rparr>)"
  by (auto simp: np_silent_def dest!: set_update_subset_insert[THEN subsetD])

lemma np_silent_resumes:
  assumes "np_silent conns" "start_resumes np_connect_ends conns = Inr conns'"
  shows "np_silent conns'"
proof (cases "co_starting conns")
  case (Some addr)
  then have addr: "addr < length (co_heap conns)" using assms(1) by (simp add: np_silent_def)
  then obtain th c where c: "co_heap conns ! addr = Some (th, c)" "nsp_sent c = []"
    using assms(1) unfolding np_silent_def by (metis nth_mem)
  have ends: "np_silent q \<Longrightarrow> np_silent (np_connect_ends a q)" for q a by (simp add: np_silent_def np_connect_ends_def)
  have "conns' = (let th = starter_resumes th; conns = conns\<lparr>co_heap := (co_heap conns)[addr := Some (th, c)]\<rparr>
       in if th_starter th = Waits_Cid then conns else np_connect_ends addr conns)"
    using assms(2) Some c by (simp add: start_resumes_def object_at_def Let_def)
  then show ?thesis using np_silent_update[OF assms(1) c(2)] ends by (simp add: Let_def)
qed (use assms in \<open>simp add: start_resumes_def\<close>)

lemma sp_process_round_idle:
  assumes "sp_process_round e p = Some (Inr p')" "starts_waiting e" "idle_process p"
  shows "idle_process p'"
proof (cases e)
  case (Np_Accept te junk stream)
  have "nsp_sent (RsNpSpProtocol_new junk (chars ''np'')) = []" by (simp add: RsNpSpProtocol_new_def)
  then show ?thesis
    using assms Np_Accept np_silent_accept[of "pp_np p" "RsNpSpProtocol_new junk (chars ''np'')" te]
    by (auto simp: tcp_loop_def np_connected_def idle_process_def case_prod_unfold Let_def split: if_splits)
next
  case (Cs_Accept te junk hash stream)
  then show ?thesis
    using assms cs_gone_accept[of "pp_cs p" te]
    by (auto simp: tcp_loop_def cs_connected_def idle_process_def case_prod_unfold Let_def split: if_splits)
next
  case Np_Listener_Resumes
  then show ?thesis using assms np_silent_resumes by (auto simp: idle_process_def res_invert)
next
  case Cs_Listener_Resumes
  then show ?thesis using assms cs_gone_resumes by (auto simp: idle_process_def res_invert)
next
  case (Np_Conn_Round env addr)
  show ?thesis
  proof (cases "addr \<in> set (co_coroutines (pp_np p))")
    case True
    then have "addr < length (co_heap (pp_np p))" using assms(3) by (simp add: idle_process_def np_silent_def)
    then obtain th c where obj: "co_heap (pp_np p) ! addr = Some (th, c)" "nsp_sent c = []"
      using assms(3) unfolding idle_process_def np_silent_def by (metis nth_mem)
    then obtain th' counter c' mgr' stream' where r:
      "thread_resumes (RsNpSpProtocol_class env) th (pp_no_receive_counter p, c, pp_source p, pp_np_streams p ! addr) =
        Some (Inr (th', counter, c', mgr', stream'))"
      "p' = p\<lparr>pp_no_receive_counter := counter, pp_np := (pp_np p)\<lparr>co_heap := (co_heap (pp_np p))[addr := Some (th', c')]\<rparr>,
        pp_source := mgr', pp_np_streams := (pp_np_streams p)[addr := stream']\<rparr>"
      using assms(1) True Np_Conn_Round by (auto simp: np_conn_round_def object_at_def bindO_Inr)
    then show ?thesis
      using np_resumes_nothing[OF _ r(1)] assms(3) obj(2) np_silent_update by (auto simp: idle_process_def)
  qed (use assms Np_Conn_Round in simp)
next
  case (Cs_Conn_Round env addr)
  then show ?thesis
    using assms by (auto simp: idle_process_def bindO_Inr split: if_splits dest: cs_gone_round)
next
  case (Tracker_Round env datagram)
  then show ?thesis using assms spc_loop_asks by (auto simp: idle_process_def res_invert)
next
  case (Timer_Round env tv)
  then show ?thesis using assms check_timeout_asks by (auto simp: idle_process_def res_invert case_prod_unfold Let_def)
next
  case (Server_Round tv opened wrote)
  then show ?thesis using assms by (auto simp: idle_process_def res_invert)
qed

lemma superpeer_main_idle: "superpeer_main junk th\<^sub>1 th\<^sub>2 sys\<^sub>1 sys\<^sub>2 sys\<^sub>3 = Inr p \<Longrightarrow> idle_process p"
  by (auto simp: superpeer_main_def np_tcp_start_listener_def cs_tcp_start_listener_def RsSourceManager_initialize_def
      RsSourceManager_new_def sp_start_connect_def start_connect_def add_timer_def idle_process_def np_silent_def cs_gone_def asks_only_def
      RsSpTrackerProtocol_new_def case_prod_unfold Let_def split: if_splits)

text \<open>
  C5. Under one hypothesis on memory, stated below, a super peer as \<open>main\<close> sets it up never has
  a channel, whatever connects to it and whatever the tracker sends, in every order of its
  coroutines, the ones that run while a listener sleeps in \<open>start_thread\<close> included, as long as
  nothing faults. The hypothesis: the member \<open>can_run\<close>, which the constructor leaves
  uninitialised, reads false in every new object of a capture server's connection (for normal
  peers it may read anything). Then the object is gone before its coroutine reads anything: of
  all the coroutines of such connections at most the one whose \<open>start_thread\<close> still waits has
  an object, and the next round of any other is a use after free. Until then the objects of the
  normal peers' connections stay alive but nothing is sent to them, and the tracker gets nothing
  but registrations and questions for its list. Without the hypothesis a channel can come
  (\<open>lucky_memory_makes_channel\<close>).
\<close>

theorem superpeer_serves_nothing:
  assumes "superpeer_main junk th\<^sub>1 th\<^sub>2 sys\<^sub>1 sys\<^sub>2 sys\<^sub>3 = Inr p\<^sub>0"
    and "sp_process_rounds events p\<^sub>0 = Some (Inr p)" "\<forall>e\<in>set events. starts_waiting e"
  shows "sm_source_hashmap (pp_source p) = [] \<and>
    (\<forall>obj\<in>set (co_heap (pp_np p)). \<exists>th c. obj = Some (th, c) \<and> nsp_sent c = []) \<and>
    (\<forall>x\<in>set (spc_sent (pp_tracker p)). \<exists>content. x = packet SP2TS_REGISTER content \<or> x = packet SP2TS_GET_SP content) \<and>
    (\<forall>env. \<forall>addr\<in>set (co_coroutines (pp_cs p)). co_starting (pp_cs p) = Some addr \<or>
      sp_process_round (Cs_Conn_Round env addr) p = Some (Inl Use_After_Free))"
proof -
  have "sp_process_rounds es q = Some (Inr q') \<Longrightarrow> \<forall>e\<in>set es. starts_waiting e \<Longrightarrow> idle_process q \<Longrightarrow> idle_process q'" for es q q'
    by (induction es arbitrary: q) (auto simp: bindO_Inr intro: sp_process_round_idle)
  then have idle: "idle_process p" using assms superpeer_main_idle by blast
  have "sp_process_round (Cs_Conn_Round env addr) p = Some (Inl Use_After_Free)"
    if "addr \<in> set (co_coroutines (pp_cs p))" "co_starting (pp_cs p) \<noteq> Some addr" for env addr
  proof -
    have "addr < length (co_heap (pp_cs p))" using idle that(1) by (simp add: idle_process_def cs_gone_def)
    then have "co_heap (pp_cs p) ! addr = None"
      using idle that(2) cs_gone_waits unfolding idle_process_def by (metis option.exhaust prod.exhaust)
    then show ?thesis using that(1) by (simp add: cs_conn_round_def object_at_def)
  qed
  then show ?thesis
    using idle by (auto simp: idle_process_def np_silent_def asks_only_def simp del: sp_process_round.simps)
qed

text \<open>
  Without the hypothesis: memory in which \<open>can_run\<close> reads true lets the coroutine of a capture
  server's connection take the registration while \<open>start_thread\<close> still waits.
\<close>

lemma luck_at_start:
  assumes "pp_cs p = no_connections" "pp_cs_streams p = []" "te_can_run te" "te_created te"
    and "cs_loop env (RsCsSpProtocol_new junk hash (chars ''cs'')) (pp_source p) stream = Some (Inr (ret, cs', mgr', stream'))"
  shows "\<exists>p'. sp_process_rounds [Cs_Accept te junk hash stream, Cs_Conn_Round env 0, Cs_Conn_Round env 0] p = Some (Inr p') \<and>
    pp_source p' = mgr' \<and> co_starting (pp_cs p') = Some 0"
  using assms
  by (simp add: tcp_loop_def cs_connected_def cs_handle_tcp_connect_def start_object_def cs_conn_round_def object_at_def
      RsCsSpProtocol_class_def loop_class_resumes loop_class_round thread_defs RsThread_new_def)

lemma lucky_memory_makes_channel:
  assumes "superpeer_main junk th\<^sub>1 th\<^sub>2 sys\<^sub>1 sys\<^sub>2 sys\<^sub>3 = Inr p\<^sub>0" "te_can_run te" "te_created te"
  shows "\<exists>events p. sp_process_rounds events p\<^sub>0 = Some (Inr p) \<and> Cs_Accept te (\<lambda>_. 0) sample_hash [Segment (packet CS2SP_REGISTER sample_register)] \<in> set events \<and>
    sm_source_hashmap (pp_source p) \<noteq> [] \<and> co_starting (pp_cs p) = Some 0"
proof -
  let ?conn = "[Segment (packet CS2SP_REGISTER sample_register)]"
  have p: "pp_cs p\<^sub>0 = no_connections" "pp_cs_streams p\<^sub>0 = []" "sm_source_hashmap (pp_source p\<^sub>0) = []"
    using assms(1) by (auto simp: superpeer_main_def res_invert RsSourceManager_initialize_def RsSourceManager_new_def case_prod_unfold Let_def split: if_splits)
  then have src: "mgr_ok (pp_source p\<^sub>0)" "get_buffer_queue k (pp_source p\<^sub>0) = None" for k
    by (simp_all add: mgr_ok_def get_buffer_queue_def)
  have len: "length sample_register = 59" by (simp add: sample_register_def register_content_def chars_def)
  then have "conn_ok ?conn" "length (pending ?conn) \<le> DEFAULT_RECV_BUFFER_SIZE" by (auto simp: conn_ok_def packet_def)
  then obtain cs' mgr' conn' q where r: "cs_rounds [sample_cs_env] (RsCsSpProtocol_new (\<lambda>_. 0) sample_hash (chars ''cs'')) (pp_source p\<^sub>0) ?conn = Some (Inr (cs', mgr', conn'))"
    "get_buffer_queue (channel_hash (chars ''abc'') sample_hash) mgr' = Some q"
    using cs_session_runs[OF sample_register_def _ _ _ _ _ refl src, of sample_cs_env sample_hash ?conn "[]" "[]" "[]" 0 "\<lambda>_. 0" "chars ''cs''"]
    by (auto simp: sample_cs_env_def chars_def sample_hash_def)
  then obtain ret where "cs_loop sample_cs_env (RsCsSpProtocol_new (\<lambda>_. 0) sample_hash (chars ''cs'')) (pp_source p\<^sub>0) ?conn = Some (Inr (ret, cs', mgr', conn'))"
    by (auto simp: bindO_Inr)
  from luck_at_start[OF p(1,2) assms(2,3) this] obtain p' where p':
    "sp_process_rounds [Cs_Accept te (\<lambda>_. 0) sample_hash ?conn, Cs_Conn_Round sample_cs_env 0, Cs_Conn_Round sample_cs_env 0] p\<^sub>0 = Some (Inr p')"
    "pp_source p' = mgr'" "co_starting (pp_cs p') = Some 0" by blast
  moreover have "sm_source_hashmap mgr' \<noteq> []" using r(2) by (auto simp: get_buffer_queue_def)
  ultimately show ?thesis by (meson list.set_intros(1))
qed

text \<open>
  A capture server and a normal peer connect, their coroutines begin while the listeners wait,
  the listeners go on, the timers fire; then the capture server's coroutine comes.
\<close>

definition sample_thread_env :: "bool \<Rightarrow> thread_env" where
  "sample_thread_env junk = \<lparr>te_can_run = junk, te_terminated = False, te_disposed = False, te_created = True\<rparr>"

definition sample_env_sp :: spc_env where
  "sample_env_sp = \<lparr>sce_junk = \<lambda>_. 0, sce_write = \<lambda>bs. Wrote (length bs)\<rparr>"

definition sample_events :: "sp_event list" where
  "sample_events = [Cs_Accept (sample_thread_env False) (\<lambda>_. 0) sample_hash [Closed], Cs_Conn_Round sample_cs_env 0,
     Np_Accept (sample_thread_env True) (\<lambda>_. 0) [Closed], Cs_Listener_Resumes,
     Np_Conn_Round \<lparr>ne_tv = None, ne_junk = \<lambda>_. 0, ne_write = \<lambda>_. Write_Failure\<rparr> 0, Np_Listener_Resumes,
     Timer_Round sample_env_sp (Some (1000, 0)), Server_Round (Some (1002, 0)) True length, Timer_Round sample_env_sp None]"

lemma sample_superpeer:
  "\<exists>p\<^sub>0. superpeer_main (\<lambda>_. 0) new_thread new_thread sample_sys sample_sys sample_sys = Inr p\<^sub>0 \<and>
    spc_io (pp_tracker p\<^sub>0) = Some RsSocket_new \<and> \<not> spc_register_flag (pp_tracker p\<^sub>0) \<and>
    spc_sent (pp_tracker p\<^sub>0) = [] \<and> pp_clock p\<^sub>0 = SystemTime_new \<and>
    pp_timer p\<^sub>0 = \<lparr>tm_thread_start_flag = True, tm_last_thread_time = 0,
      tm_vector = [\<lparr>ti_timeout = 1000, ti_timerid = 0, ti_last_signal_time = 0, ti_callback = ()\<rparr>,
        \<lparr>ti_timeout = 50000, ti_timerid = 1, ti_last_signal_time = 0, ti_callback = ()\<rparr>]\<rparr> \<and>
    pp_np p\<^sub>0 = no_connections \<and> pp_cs p\<^sub>0 = no_connections \<and>
    pp_np_streams p\<^sub>0 = [] \<and> pp_cs_streams p\<^sub>0 = [] \<and> sm_source_hashmap (pp_source p\<^sub>0) = []"
  by (simp add: superpeer_main_def np_tcp_start_listener_def cs_tcp_start_listener_def RsSourceManager_initialize_def
      RsSourceManager_new_def sp_start_connect_def start_connect_def add_timer_def sample_sys_def socket_connect_def
      RsSpTrackerProtocol_new_def RsTimer_new_def case_prod_unfold Let_def)

lemma sample_run:
  "\<exists>p\<^sub>0 p. superpeer_main (\<lambda>_. 0) new_thread new_thread sample_sys sample_sys sample_sys = Inr p\<^sub>0 \<and>
    sp_process_rounds sample_events p\<^sub>0 = Some (Inr p) \<and> 0 \<in> set (co_coroutines (pp_cs p)) \<and> co_starting (pp_cs p) = None \<and>
    spc_sent (pp_tracker p) = [register_packet (spc_sp_port (pp_tracker p))]"
proof -
  obtain p\<^sub>0 where main: "superpeer_main (\<lambda>_. 0) new_thread new_thread sample_sys sample_sys sample_sys = Inr p\<^sub>0"
    "spc_io (pp_tracker p\<^sub>0) = Some RsSocket_new" "\<not> spc_register_flag (pp_tracker p\<^sub>0)" "pp_clock p\<^sub>0 = SystemTime_new"
    "pp_timer p\<^sub>0 = \<lparr>tm_thread_start_flag = True, tm_last_thread_time = 0,
      tm_vector = [\<lparr>ti_timeout = 1000, ti_timerid = 0, ti_last_signal_time = 0, ti_callback = ()\<rparr>,
        \<lparr>ti_timeout = 50000, ti_timerid = 1, ti_last_signal_time = 0, ti_callback = ()\<rparr>]\<rparr>"
    "pp_np p\<^sub>0 = no_connections" "pp_cs p\<^sub>0 = no_connections" "spc_sent (pp_tracker p\<^sub>0) = []"
    "pp_np_streams p\<^sub>0 = []" "pp_cs_streams p\<^sub>0 = []" "sm_source_hashmap (pp_source p\<^sub>0) = []"
    using sample_superpeer by blast
  obtain p where "sp_process_rounds sample_events p\<^sub>0 = Some (Inr p)" "0 \<in> set (co_coroutines (pp_cs p))" "co_starting (pp_cs p) = None"
    "spc_sent (pp_tracker p) = [register_packet (spc_sp_port (pp_tracker p))]"
    using main(2-)
    by (simp add: sample_events_def sample_thread_env_def tcp_loop_def np_connected_def cs_connected_def np_handle_tcp_connect_def
        cs_handle_tcp_connect_def start_object_def start_resumes_def cs_connect_ends_def np_connect_ends_def
        np_conn_round_def cs_conn_round_def object_at_def thread_defs RsThread_new_def RsNpSpProtocol_class_def
        RsCsSpProtocol_class_def loop_class_resumes
        get_system_time_ms_def update_system_time_ms_def SystemTime_new_def check_timeout_def server_round_def
        write_source_channel_list_txt_def spc_handle_timeout_def spc_send_register_sends sent_one_def case_prod_unfold Let_def)
  then show ?thesis using main(1) by blast
qed

lemma sample_events_wait: "\<forall>e\<in>set sample_events. starts_waiting e"
  by (simp add: sample_events_def sample_thread_env_def)

theorem superpeer_serves_nothing_witness:
  "\<exists>p\<^sub>0 p. superpeer_main (\<lambda>_. 0) new_thread new_thread sample_sys sample_sys sample_sys = Inr p\<^sub>0 \<and>
    sp_process_rounds sample_events p\<^sub>0 = Some (Inr p) \<and>
    sp_process_round (Cs_Conn_Round sample_cs_env 0) p = Some (Inl Use_After_Free)"
proof -
  obtain p\<^sub>0 p where run: "superpeer_main (\<lambda>_. 0) new_thread new_thread sample_sys sample_sys sample_sys = Inr p\<^sub>0"
    "sp_process_rounds sample_events p\<^sub>0 = Some (Inr p)" "0 \<in> set (co_coroutines (pp_cs p))" "co_starting (pp_cs p) = None"
    using sample_run by blast
  then show ?thesis using superpeer_serves_nothing[OF run(1,2) sample_events_wait] by auto
qed

end
