(* ===== verification/Network.thy ===== *)
theory Network
  imports Super_Peer Tracker_Refine
begin





section \<open>A table without resources\<close>









section \<open>What a normal peer is told\<close>

text \<open>Packets of two types only: the welcome and the message that it is not registered.\<close>

definition told_nothing :: "RsNpTracker \<Rightarrow> bool" where
  "told_nothing t \<longleftrightarrow>
     (\<forall>(to, x)\<in>set (npt_sent t). \<exists>content. x = packet TS2NP_WELCOME content \<or> x = packet TS2NP_MSG content)"


lemma told_nothing_update [simp]:
  "told_nothing (t\<lparr>npt_np_mgr := m\<rparr>) = told_nothing t" "told_nothing (t\<lparr>npt_last_receive_addr := a\<rparr>) = told_nothing t"
  "told_nothing (t\<lparr>npt_sp_mgr := s\<rparr>) = told_nothing t"
  by (simp_all add: told_nothing_def)







section \<open>Every run\<close>











end
