(* ===== verification/Allocations.thy ===== *)
theory Allocations
  imports Message_Base
begin

text \<open>
  Memory from \<open>new\<close> and \<open>delete\<close>. The model's objects are values; this theory adds the account
  of what is allocated: \<open>hp_live\<close> are the addresses in use, each with how it was allocated, and
  a pointer is an address or null. Deleting an address that is not in use is a fault. Deleting
  an array without the brackets, or an object with them, is undefined too, but usual allocators
  free the memory: \<open>hp_mixed\<close> counts it. Only deletes are checked: what is read or written
  through a pointer is a value of the model, whether the memory is still in use or not.
\<close>

datatype alloc = One | Many nat

record heap =
  hp_next :: nat
  hp_live :: "(nat \<times> alloc) list"
  hp_mixed :: nat

definition heap_new :: "alloc \<Rightarrow> heap \<Rightarrow> nat option \<times> heap" where
  "heap_new k h = (Some (hp_next h), h\<lparr>hp_next := Suc (hp_next h), hp_live := hp_live h @ [(hp_next h, k)]\<rparr>)"

definition heap_delete :: "bool \<Rightarrow> nat option \<Rightarrow> heap \<Rightarrow> heap res" where
  "heap_delete array p h =
     (case p of None \<Rightarrow> Inr h
      | Some a \<Rightarrow> (case map_of (hp_live h) a of
            None \<Rightarrow> Inl Use_After_Free
          | Some k \<Rightarrow> Inr (h\<lparr>hp_live := filter (\<lambda>(b, _). b \<noteq> a) (hp_live h),
              hp_mixed := hp_mixed h + (if array = (k \<noteq> One) then 0 else 1)\<rparr>)))"

text \<open>\<open>RsMessage::pack\<close> allocates the packet; neither it nor the destructor frees it.\<close>

definition pack_mem :: "(nat \<Rightarrow> u8) \<Rightarrow> int \<Rightarrow> (streamer \<Rightarrow> streamer res) \<Rightarrow> heap \<Rightarrow> (bytes \<times> int \<times> heap) res" where
  "pack_mem junk reserve_pack_size pack_submsg h =
     (let (buffer, h) = heap_new (Many (nat reserve_pack_size)) h
      in bindE (RsMessage_pack junk reserve_pack_size pack_submsg) (\<lambda>(payload, nb). Inr (payload, nb, h)))"

section \<open>What a function leaves behind\<close>

definition heap_ok :: "heap \<Rightarrow> bool" where
  "heap_ok h \<longleftrightarrow> (\<forall>(a, k)\<in>set (hp_live h). a < hp_next h)"

definition leaves :: "heap \<Rightarrow> alloc list \<Rightarrow> heap \<Rightarrow> bool" where
  "leaves h ks h' \<longleftrightarrow> hp_next h \<le> hp_next h' \<and> hp_mixed h' = hp_mixed h \<and>
     (\<exists>bs. hp_live h' = hp_live h @ bs \<and> map snd bs = ks \<and> (\<forall>(a, k)\<in>set bs. hp_next h \<le> a \<and> a < hp_next h'))"

lemma leaves_refl [simp]: "leaves h [] h"
  by (simp add: leaves_def)

lemma leaves_trans:
  assumes "leaves h ks h'" "leaves h' ks' h''"
  shows "leaves h (ks @ ks') h''"
proof -
  obtain bs bs' where "hp_live h' = hp_live h @ bs" "map snd bs = ks" "\<forall>(a, k)\<in>set bs. hp_next h \<le> a \<and> a < hp_next h'"
    "hp_live h'' = hp_live h' @ bs'" "map snd bs' = ks'" "\<forall>(a, k)\<in>set bs'. hp_next h' \<le> a \<and> a < hp_next h''"
    using assms by (auto simp: leaves_def)
  then show ?thesis
    using assms by (auto simp: leaves_def intro!: exI[of _ "bs @ bs'"])
qed

lemma leaves_new: "leaves h [k] (snd (heap_new k h))"
  by (simp add: leaves_def heap_new_def)

lemma leaves_ok: "heap_ok h \<Longrightarrow> leaves h ks h' \<Longrightarrow> heap_ok h'"
  by (fastforce simp: heap_ok_def leaves_def)

text \<open>An array that is allocated before and freed after something else leaves nothing.\<close>

lemma leaves_temporary:
  assumes "heap_ok h" "heap_new (Many n) h = (p, h\<^sub>1)" "leaves h\<^sub>1 ks h\<^sub>2"
  shows "\<exists>h\<^sub>3. heap_delete True p h\<^sub>2 = Inr h\<^sub>3 \<and> leaves h ks h\<^sub>3"
proof -
  let ?a = "hp_next h"
  obtain bs where bs: "hp_live h\<^sub>2 = hp_live h @ (?a, Many n) # bs" "map snd bs = ks"
    "\<forall>(a, k)\<in>set bs. ?a < a \<and> a < hp_next h\<^sub>2" "Suc ?a \<le> hp_next h\<^sub>2" "hp_mixed h\<^sub>2 = hp_mixed h" "p = Some ?a"
    using assms(2,3) by (auto simp: leaves_def heap_new_def Suc_le_eq)
  have old: "map_of (hp_live h) ?a = None" "filter (\<lambda>(b, _). b \<noteq> ?a) (hp_live h) = hp_live h"
    using assms(1) by (auto simp: heap_ok_def map_of_eq_None_iff filter_id_conv)
  have "filter (\<lambda>(b, _). b \<noteq> ?a) bs = bs" using bs(3) by (auto simp: filter_id_conv)
  then have "heap_delete True p h\<^sub>2 = Inr (h\<^sub>2\<lparr>hp_live := hp_live h @ bs\<rparr>)"
    using old by (simp add: heap_delete_def bs(1,6) map_add_def)
  moreover have "leaves h ks (h\<^sub>2\<lparr>hp_live := hp_live h @ bs\<rparr>)"
    using bs by (auto simp: leaves_def)
  ultimately show ?thesis by blast
qed

section \<open>The functions with and without the heap\<close>

text \<open>
  Two computations that fault alike and whose results are related. What follows a pair of
  related computations is compared for related results.
\<close>

abbreviation alike :: "('a \<Rightarrow> 'b \<Rightarrow> bool) \<Rightarrow> 'a res \<Rightarrow> 'b res \<Rightarrow> bool" where
  "alike R \<equiv> rel_sum (=) R"

abbreviation alikeO :: "('a \<Rightarrow> 'b \<Rightarrow> bool) \<Rightarrow> 'a res option \<Rightarrow> 'b res option \<Rightarrow> bool" where
  "alikeO R \<equiv> rel_option (rel_sum (=) R)"

lemma alike_refl: "(\<And>x. p = Inr x \<Longrightarrow> R x x) \<Longrightarrow> alike R p p"
  by (cases p) auto

lemma alike_bind:
  "alike R m p \<Longrightarrow> (\<And>x y. m = Inr x \<Longrightarrow> p = Inr y \<Longrightarrow> R x y \<Longrightarrow> alike S (f x) (g y)) \<Longrightarrow> alike S (bindE m f) (bindE p g)"
  by (cases m; cases p) auto

lemma alike_bind_same:
  "(\<And>x. p = Inr x \<Longrightarrow> alike S (f x) (g x)) \<Longrightarrow> alike S (bindE p f) (bindE p g)"
  by (cases p) auto

lemma alike_bind_right:
  "(\<exists>x. m = Inr x \<and> alike S (f x) p) \<Longrightarrow> alike S (bindE m f) p"
  by auto

lemma alikeO_bind:
  "alikeO R m p \<Longrightarrow> (\<And>x y. R x y \<Longrightarrow> alikeO S (f x) (g y)) \<Longrightarrow> alikeO S (bindO m f) (bindO p g)"
  by (auto elim!: option.rel_cases rel_sum.cases)

lemma alikeO_bind_same:
  "(\<And>x. p = Some (Inr x) \<Longrightarrow> alikeO S (f x) (g x)) \<Longrightarrow> alikeO S (bindO p f) (bindO p g)"
  by (auto simp: bindO_def split: option.splits sum.splits)

lemma alike_mono: "alike R m p \<Longrightarrow> (\<And>x y. R x y \<Longrightarrow> S x y) \<Longrightarrow> alike S m p"
  by (cases m; cases p) auto

text \<open>A packet is packed as before, and stays allocated.\<close>

definition packed_at :: "heap \<Rightarrow> bytes \<Rightarrow> int \<Rightarrow> heap \<Rightarrow> bool" where
  "packed_at h x nb h' \<longleftrightarrow> leaves h [Many (length x)] h' \<and> (nb = 0 \<longleftrightarrow> length x mod 2 ^ 32 = 0)"

definition stays :: "heap \<Rightarrow> bytes \<times> int \<times> heap \<Rightarrow> bytes \<times> int \<Rightarrow> bool" where
  "stays h = (\<lambda>(x, nb, h') (y, nb'). x = y \<and> nb = nb' \<and> packed_at h x nb h')"

lemma pack_mem_alike:
  assumes "keeps_length submsg"
  shows "alike (stays h) (pack_mem junk r submsg h) (RsMessage_pack junk r submsg)"
proof (cases "RsMessage_pack junk r submsg")
  case (Inr p)
  obtain x nb where p: "p = (x, nb)" by fastforce
  show ?thesis
    using pack_length[OF assms Inr[unfolded p]] leaves_new[of h "Many (nat r)"]
    by (simp add: stays_def packed_at_def pack_mem_def Inr p case_prod_unfold Let_def)
qed (simp add: pack_mem_def case_prod_unfold Let_def)

lemma staysE:
  assumes "stays h x y"
  obtains payload nb h' where "x = (payload, nb, h')" "y = (payload, nb)" "packed_at h payload nb h'"
  using assms by (auto simp: stays_def)

end
