(* ===== verification/Sp_Delivery.thy ===== *)
theory Sp_Delivery
  imports Cs_Session Sp_Np Source_Props
begin

text \<open>
  The way of a block through a super peer: a capture server's session fills the ring of its
  channel, a normal peer's session is answered from it.
\<close>

section \<open>The only channel of a table\<close>

lemma single_entry:
  assumes "map_ordered MD5_lt m" "\<And>k. map_find MD5_lt k m = (if key_equiv MD5_lt k h then Some q else None)"
  shows "\<exists>k. m = [(k, q)]"
proof (cases m)
  case Nil
  have "key_equiv MD5_lt h h" using md5.equiv_key by blast
  then show ?thesis using assms(2)[of h] Nil by simp
next
  case (Cons x rest)
  obtain k v where x: "x = (k, v)" by fastforce
  have self: "key_equiv MD5_lt k' k'" for k' using md5.equiv_key by blast
  show ?thesis
  proof (cases rest)
    case Nil
    then show ?thesis using assms(2)[of k] Cons x self by (auto split: if_splits)
  next
    case (Cons y rest')
    obtain k' v' where y: "y = (k', v')" by fastforce
    have "MD5_lt k k'" using assms(1) \<open>m = x # rest\<close> Cons x y by (auto simp: map_ordered_def)
    then have "map_find MD5_lt k m = Some v" "map_find MD5_lt k' m = Some v'" "\<not> key_equiv MD5_lt k' k"
      using \<open>m = x # rest\<close> Cons x y self by (auto simp: key_equiv_def)
    then show ?thesis using assms(2)[of k] assms(2)[of k'] md5.equiv_key by (auto split: if_splits)
  qed
qed

section \<open>The media type\<close>

definition media_message :: "bytes \<Rightarrow> bytes \<Rightarrow> bytes \<Rightarrow> Sp2SpMediatype" where
  "media_message resource_hash header name = \<lparr>media_resource_md5 = resource_hash, media_block_start_id = 0,
     media_block_num = 0xffffffff, media_type_size = word_of_nat (length header), media_type = header,
     media_program_name_size = 2, media_program_name = take 2 (name @ [0]), media_program_time = 0,
     media_channel_name_size = 2, media_channel_name = take 2 (name @ [0])\<rparr>"

definition media_packet :: "bytes \<Rightarrow> bytes \<Rightarrow> bytes \<Rightarrow> bytes" where
  "media_packet resource_hash header name =
     packet SP2SP_MEDIATYPE (Sp2SpMediatype_content (media_message resource_hash header name))"

lemma write_nbytes_prefix: "nb \<le> length buf \<Longrightarrow> write_nbytes (take nb buf) nb = write_nbytes buf nb"
  by (intro ext) (simp add: write_nbytes_def)

lemma send_media_type_sends:
  assumes "sm_source_hashmap mgr = [(k, q)]" "get_buffer_queue (hash_key env resource_hash) mgr = Some q"
    and "ring_ok N h q" "length h < 2 ^ 31"
    and "bq_media_header q = Some (header, int (length header))" "length header < 2147483000"
    and "take MD5_LEN (md5_hash (bq_source_hash q)) = resource_hash" "length resource_hash = MD5_LEN" "bq_source_name q \<noteq> []"
  shows "\<exists>ret s'. send_media_type env resource_hash mgr s = Inr (ret, s') \<and> nsp_media_type_flag s' \<and>
    nsp_sent s' = nsp_sent s @ [media_packet resource_hash header (bq_source_name q)] \<and>
    nsp_calculator s' = nsp_calculator s \<and> nsp_np_buffer s' = nsp_np_buffer s \<and> nsp_loop_flag s' = nsp_loop_flag s"
proof -
  let ?name = "bq_source_name q @ [0]"
  let ?m = "media_message resource_hash header (bq_source_name q)"
  let ?m' = "?m\<lparr>media_program_name := ?name, media_channel_name := ?name\<rparr>"
  have two: "2 \<le> length ?name" using assms(9) by (cases "bq_source_name q") auto
  have head: "source_header (hash_key env resource_hash) mgr = Inr (ERROR_SUCCESS, Some (header, int (length header)))"
    using assms(2,5) by (simp add: source_header_def get_header_def)
  obtain st where st: "get_source_list mgr [] = Inr [st]" "ss_chnl_hash st = bq_source_hash q" "ss_chnl_name st = bq_source_name q"
    using assms(1) interval_ring_ok[OF assms(3,4)] by (simp add: get_source_list_def queue_status_def)
  have wf: "Sp2SpMediatype_wf ?m"
    using assms(6,8) two by (simp add: Sp2SpMediatype_wf_def media_message_def unat_of_nat take_bit_eq_mod)
  have same: "Sp2SpMediatype_submsg ?m' = Sp2SpMediatype_submsg ?m" "Sp2SpMediatype_reserve ?m' = Sp2SpMediatype_reserve ?m"
    using two by (simp_all add: Sp2SpMediatype_submsg_def Sp2SpMediatype_reserve_def media_message_def write_nbytes_prefix
        del: take_append)
  have m': "?m' = \<lparr>media_resource_md5 = resource_hash, media_block_start_id = 0, media_block_num = 0xffffffff,
      media_type_size = word_of_int (int (length header)), media_type = header,
      media_program_name_size = 2, media_program_name = ?name, media_program_time = 0,
      media_channel_name_size = 2, media_channel_name = ?name\<rparr>"
    by (simp add: media_message_def)
  have pack: "RsMessage_pack junk (Sp2SpMediatype_reserve ?m') (Sp2SpMediatype_submsg ?m') =
      Inr (media_packet resource_hash header (bq_source_name q), Sp2SpMediatype_reserve ?m)" for junk
    unfolding same media_packet_def by (rule sp2sp_mediatype.pack_packet[OF wf])
  have nb: "Sp2SpMediatype_reserve ?m \<noteq> 0" using sp2sp_mediatype.reserve_exact[OF wf] by simp
  show ?thesis
    using head st pack[unfolded m'] nb assms(7)
    by (simp add: send_media_type_def nsp_write_def Let_def split: prod.splits)
qed

section \<open>The rounds of a normal peer's connection\<close>

fun np_conn_rounds :: "np_conn_env list \<Rightarrow> int \<Rightarrow> RsNpSpProtocol \<Rightarrow> RsSourceManager \<Rightarrow> arrival list \<Rightarrow>
    (int \<times> RsNpSpProtocol \<times> arrival list) res option" where
  "np_conn_rounds [] no_receive_counter s mgr conn = Some (Inr (no_receive_counter, s, conn))"
| "np_conn_rounds (env # envs) no_receive_counter s mgr conn =
     bindO (np_conn_loop env no_receive_counter s mgr conn) (\<lambda>(ret, no_receive_counter, s, conn).
     np_conn_rounds envs no_receive_counter s mgr conn)"

definition push_packets :: "Sp2SpPushList list \<Rightarrow> bytes" where
  "push_packets ms = concat (map (\<lambda>m. packet SP2SP_PUSHLIST (Sp2SpPushList_content m)) ms)"

text \<open>A channel that can be served: its ring, its header and its name.\<close>

definition servable :: "bytes \<Rightarrow> nat \<Rightarrow> bytes list \<Rightarrow> bytes \<Rightarrow> RsBufferQueue \<Rightarrow> RsSourceManager \<Rightarrow> bool" where
  "servable resource_hash N h header q mgr \<longleftrightarrow> (\<exists>k. sm_source_hashmap mgr = [(k, q)]) \<and>
     (\<forall>env. get_buffer_queue (hash_key env resource_hash) mgr = Some q) \<and> ring_ok N h q \<and> length h < 2 ^ 31 \<and>
     bq_media_header q = Some (header, int (length header)) \<and> length header < 2147483000 \<and>
     take MD5_LEN (md5_hash (bq_source_hash q)) = resource_hash \<and> length resource_hash = MD5_LEN \<and> bq_source_name q \<noteq> []"

definition answers :: "bytes \<Rightarrow> nat \<Rightarrow> bytes list \<Rightarrow> RsBufferQueue \<Rightarrow> Sp2SpPushList \<Rightarrow> bytes list" where
  "answers resource_hash N h q m = map (response_to resource_hash q) (filter (in_ring N h) (sort (push_block_array m)))"

lemma get_push_list_first:
  assumes "Sp2SpPushList_parse Sp2SpPushList_new (initialize msg n) = Inr (m, s\<^sub>0)" "\<not> nsp_media_type_flag s"
    and "send_media_type env (push_resource_md5 m) mgr s = Inr (ret, s\<^sub>1)" "nsp_media_type_flag s\<^sub>1"
  shows "get_push_list env msg n mgr s = get_push_list env msg n mgr s\<^sub>1"
  using assms by (simp add: get_push_list_def)

lemma get_push_list_answers:
  assumes m: "Sp2SpPushList_wf m" "take (length (Sp2SpPushList_content m)) msg = Sp2SpPushList_content m"
    "push_resource_md5 m = resource_hash"
    and q: "servable resource_hash N h header q mgr"
    and w: "clock_window w (ne_tv env)" "calc_window w (nsp_calculator s)"
  shows "\<exists>s'. get_push_list env msg (int (length (Sp2SpPushList_content m))) mgr s = Inr s' \<and> calc_window w (nsp_calculator s') \<and>
    nsp_sent s' = nsp_sent s @ (if nsp_media_type_flag s then [] else [media_packet resource_hash header (bq_source_name q)]) @
      answers resource_hash N h q m \<and>
    nsp_media_type_flag s' \<and> nsp_np_buffer s' = nsp_np_buffer s \<and> nsp_loop_flag s' = nsp_loop_flag s"
proof -
  obtain k where k: "sm_source_hashmap mgr = [(k, q)]" "\<forall>env. get_buffer_queue (hash_key env resource_hash) mgr = Some q"
    "ring_ok N h q" "length h < 2 ^ 31" using q by (auto simp: servable_def)
  have sends: "\<exists>s'. get_push_list env msg (int (length (Sp2SpPushList_content m))) mgr s\<^sub>1 = Inr s' \<and> calc_window w (nsp_calculator s') \<and>
      nsp_sent s' = nsp_sent s\<^sub>1 @ answers resource_hash N h q m \<and>
      nsp_media_type_flag s' \<and> nsp_np_buffer s' = nsp_np_buffer s\<^sub>1 \<and> nsp_loop_flag s' = nsp_loop_flag s\<^sub>1"
    if "nsp_media_type_flag s\<^sub>1" "calc_window w (nsp_calculator s\<^sub>1)" for s\<^sub>1
    using get_push_list_sends[where P = "calc_window w", OF m(1,2) that(1) _ k(3,4) that(2) update_in_window[OF w(1)], of mgr]
      k(2) m(3) by (simp add: answers_def)
  show ?thesis
  proof (cases "nsp_media_type_flag s")
    case True
    then show ?thesis using sends[OF True w(2)] by simp
  next
    case False
    obtain ret s1 where s1: "send_media_type env resource_hash mgr s = Inr (ret, s1)" "nsp_media_type_flag s1"
      "nsp_sent s1 = nsp_sent s @ [media_packet resource_hash header (bq_source_name q)]"
      "nsp_calculator s1 = nsp_calculator s" "nsp_np_buffer s1 = nsp_np_buffer s" "nsp_loop_flag s1 = nsp_loop_flag s"
      using send_media_type_sends[OF k(1) _ k(3,4)] k(2) q unfolding servable_def by blast
    have "Sp2SpPushList_parse Sp2SpPushList_new (initialize msg (int (length (Sp2SpPushList_content m)))) =
        Inr (m, adv (length (Sp2SpPushList_content m)) (initialize msg (int (length (Sp2SpPushList_content m)))))"
      by (rule sp2sp_pushlist.parse_content[OF m(1), where post = "[]"]) (simp add: m(2))
    then have "get_push_list env msg (int (length (Sp2SpPushList_content m))) mgr s =
        get_push_list env msg (int (length (Sp2SpPushList_content m))) mgr s1"
      using get_push_list_first[OF _ False] s1(1,2) m(3) by blast
    then show ?thesis using sends[of s1] s1 w(2) False by auto
  qed
qed

lemma np_round_answers:
  assumes conn: "rest_fits (nsp_np_buffer s) conn"
    "unread (nsp_np_buffer s) @ pending conn = packet SP2SP_PUSHLIST (Sp2SpPushList_content m) @ rest"
    and m: "Sp2SpPushList_wf m" "push_resource_md5 m = resource_hash"
    and q: "servable resource_hash N h header q mgr"
    and w: "clock_window w (ne_tv env)" "calc_window w (nsp_calculator s)"
  shows "\<exists>s' conn'. np_conn_loop env c s mgr conn = Some (Inr (0, c, s', conn')) \<and> calc_window w (nsp_calculator s') \<and>
    nsp_sent s' = nsp_sent s @ (if nsp_media_type_flag s then [] else [media_packet resource_hash header (bq_source_name q)]) @
      answers resource_hash N h q m \<and>
    nsp_media_type_flag s' \<and> rest_fits (nsp_np_buffer s') conn' \<and> unread (nsp_np_buffer s') @ pending conn' = rest"
proof -
  let ?c = "Sp2SpPushList_content m"
  from next_message_fits[OF conn, of "ne_junk env" "nsp_io_socket s"] obtain p b' io' conn' where
    n: "next_message (ne_junk env) (nsp_np_buffer s) (nsp_io_socket s) conn = Some (Inr (0, (p, 5 + int (length ?c)), b', io', conn'))"
      "peek (rb_mem b') p (Suc (length ?c)) = Inr (msg_code SP2SP_PUSHLIST # ?c)"
      "rest_fits b' conn'" "unread b' @ pending conn' = rest" by blast
  let ?s = "s\<lparr>nsp_np_buffer := b', nsp_io_socket := io'\<rparr>"
  have tag: "peek_char (rb_mem b') p = Inr (msg_code SP2SP_PUSHLIST)"
    using peek_later[OF n(2), of 0 1] by (simp add: peek_char_def)
  have "peek (rb_mem b') (p + 1) (length ?c) = Inr ?c" using peek_later[OF n(2), of 1 "length ?c"] by simp
  then have "take (length ?c) (drop (nat (p + 1)) (rb_mem b')) = ?c" by (auto simp: peek_def res_invert)
  from get_push_list_answers[OF m(1) this m(2) q w(1), of ?s] w(2) n tag show ?thesis
    by (auto simp: np_conn_loop_def Let_def)
qed

lemma np_rounds_answers:
  assumes "rest_fits (nsp_np_buffer s) conn" "unread (nsp_np_buffer s) @ pending conn = push_packets ms @ rest"
    and "\<forall>m\<in>set ms. Sp2SpPushList_wf m \<and> push_resource_md5 m = resource_hash" "servable resource_hash N h header q mgr"
    and "length envs = length ms" "\<forall>env\<in>set envs. clock_window w (ne_tv env)" "calc_window w (nsp_calculator s)"
  shows "\<exists>s' conn'. np_conn_rounds envs c s mgr conn = Some (Inr (c, s', conn')) \<and> unread (nsp_np_buffer s') @ pending conn' = rest \<and>
    nsp_sent s' = nsp_sent s @
      (if ms = [] \<or> nsp_media_type_flag s then [] else [media_packet resource_hash header (bq_source_name q)]) @
      concat (map (answers resource_hash N h q) ms)"
  using assms
proof (induction ms arbitrary: s conn envs)
  case Nil
  then show ?case by (simp add: push_packets_def)
next
  case (Cons m ms)
  obtain env envs' where envs: "envs = env # envs'" "length envs' = length ms" using Cons.prems(5) by (cases envs) auto
  have "unread (nsp_np_buffer s) @ pending conn = packet SP2SP_PUSHLIST (Sp2SpPushList_content m) @ (push_packets ms @ rest)"
    using Cons.prems(2) by (simp add: push_packets_def)
  from np_round_answers[OF Cons.prems(1) this _ _ Cons.prems(4) _ Cons.prems(7), of env c]
  obtain s1 conn1 where r: "np_conn_loop env c s mgr conn = Some (Inr (0, c, s1, conn1))" "calc_window w (nsp_calculator s1)"
    "nsp_sent s1 = nsp_sent s @ (if nsp_media_type_flag s then [] else [media_packet resource_hash header (bq_source_name q)]) @
      answers resource_hash N h q m"
    "nsp_media_type_flag s1" "rest_fits (nsp_np_buffer s1) conn1" "unread (nsp_np_buffer s1) @ pending conn1 = push_packets ms @ rest"
    using Cons.prems(3,6) envs(1) by auto
  from Cons.IH[OF r(5,6) _ Cons.prems(4) envs(2) _ r(2)] Cons.prems(3,6) envs(1)
  obtain s' conn' where "np_conn_rounds envs' c s1 mgr conn1 = Some (Inr (c, s', conn'))" "unread (nsp_np_buffer s') @ pending conn' = rest"
    "nsp_sent s' = nsp_sent s1 @ concat (map (answers resource_hash N h q) ms)"
    using r(4) by auto
  then show ?case using r(1,3) envs(1) by simp
qed

section \<open>From the capture server to the normal peer\<close>

lemma hash_key_channel:
  assumes "length name < 128"
  shows "key_equiv MD5_lt (hash_key env (hex_string (md5_sum name))) (channel_hash name h)"
proof -
  have "md5_hash (hash_key env (hex_string (md5_sum name))) = md5_hash (channel_hash name h)"
    by (simp add: hash_key_def channel_hash_def)
  then show ?thesis by (simp add: md5.equiv_key md5_key_def)
qed

lemma response_block:
  assumes "ring_ok N h q" "in_ring N h i"
  shows "\<exists>tail. response_to resource_hash q i =
      packet SP2SP_RESPONSE (resource_hash @ enc i @ enc (16384 :: u32) @ h ! unat i @ tail) \<and>
    length (h ! unat i @ tail) = MEDIA_BLOCK_SIZE"
proof -
  let ?buf = "mb_buffer (bq_vector q ! (unat i mod length (bq_vector q)))"
  have N: "length (bq_vector q) = N" "0 < N" using assms(1) by (simp_all add: ring_ok_def)
  then have "slot_ok (bq_vector q ! (unat i mod length (bq_vector q)))" using assms(1) by (simp add: ring_ok_def)
  moreover have "take (length (h ! unat i)) ?buf = h ! unat i"
    using assms N by (auto simp: ring_ok_def in_ring_def holds_block_def)
  ultimately show ?thesis
    by (intro exI[of _ "drop (length (h ! unat i)) ?buf"])
      (metis append_take_drop_id response_to_def slot_ok_def)
qed

text \<open>
  C2. The blocks of a channel reach a normal peer. A capture server registers a channel with a
  header at a super peer that has none and sends the blocks 0, 1, ...; then a normal peer
  connects and sends push lists for the digest of the channel's name. No round fails, and what
  is sent to it is exactly the media type with the header, then for each push list in turn,
  in ascending order of the ids, one response per block still in the ring, which carries the
  bytes the capture server sent, padded to 16,384. Each side sends at most 131,072 bytes, cut
  by the network in whatever way. The name has fewer than 128 bytes and, up to the first zero
  in it or in the memory behind it, at least one; a block has from 4 to 16,384 bytes; the times
  of the rounds of either side lie between two multiples of 4,194,304 milliseconds (at a
  multiple, the bitrate divides by zero).
\<close>

theorem blocks_delivered:
  assumes "c = register_content name user_id password block_size file_size bit_rate is_source header"
    and "length name < 128" "length password = MD5_LEN" "length bit_rate = 4"
    and "0 \<in> set (name @ ce_beyond env)" "until_zero (name @ ce_beyond env) \<noteq> []" "length (md5_hash hash\<^sub>0) = MD5_LEN + 1"
    and "sm_source_hashmap mgr = []"
    and "conn_ok conn" "\<forall>x\<in>set conn. \<exists>bs. x = Segment bs" "length (pending conn) \<le> DEFAULT_RECV_BUFFER_SIZE"
    and "pending conn = packet CS2SP_REGISTER c @ block_packets 0 blocks @ rest" "header \<noteq> []"
    and "\<forall>b\<in>set blocks. 4 \<le> length b \<and> length b \<le> MEDIA_BLOCK_SIZE"
    and "length envs = length blocks" "\<forall>e\<in>set envs. clock_window w (ce_tv e)"
    and "conn_ok np_conn" "\<forall>x\<in>set np_conn. \<exists>bs. x = Segment bs" "length (pending np_conn) \<le> DEFAULT_RECV_BUFFER_SIZE"
    and "pending np_conn = push_packets ms @ np_rest" "ms \<noteq> []"
    and "resource_hash = hex_string (md5_sum name)"
    and "\<forall>m\<in>set ms. Sp2SpPushList_wf m \<and> push_resource_md5 m = resource_hash"
    and "length np_envs = length ms" "\<forall>e\<in>set np_envs. clock_window w (ne_tv e)"
  shows "\<exists>cs' mgr' conn' s' np_conn' response.
    cs_rounds (env # envs) (RsCsSpProtocol_new junk hash\<^sub>0 task) mgr conn = Some (Inr (cs', mgr', conn')) \<and>
    np_conn_rounds np_envs count (RsNpSpProtocol_new np_junk np_task) mgr' np_conn = Some (Inr (count, s', np_conn')) \<and>
    nsp_sent s' = media_packet resource_hash header (until_zero (name @ ce_beyond env)) #
      concat (map (\<lambda>m. map response (filter (in_ring MAX_BUFFER_SIZE blocks) (sort (push_block_array m)))) ms) \<and>
    (\<forall>i. in_ring MAX_BUFFER_SIZE blocks i \<longrightarrow> (\<exists>tail. response i =
        packet SP2SP_RESPONSE (resource_hash @ enc i @ enc (16384 :: u32) @ blocks ! unat i @ tail) \<and>
      length (blocks ! unat i @ tail) = MEDIA_BLOCK_SIZE))"
proof -
  let ?h = "channel_hash name hash\<^sub>0" and ?name = "until_zero (name @ ce_beyond env)"
  have empty: "mgr_ok mgr" "get_buffer_queue k mgr = None" for k
    using assms(8) by (simp_all add: mgr_ok_def get_buffer_queue_def)
  obtain cs' mgr' conn' q where cs: "cs_rounds (env # envs) (RsCsSpProtocol_new junk hash\<^sub>0 task) mgr conn = Some (Inr (cs', mgr', conn'))"
    "get_buffer_queue ?h mgr' = Some q" "ring_ok MAX_BUFFER_SIZE blocks q"
    "same_channel (new_channel env ?h ?name header) q" "mgr_ok mgr'"
    "\<forall>k. \<not> key_equiv MD5_lt k ?h \<longrightarrow> get_buffer_queue k mgr' = get_buffer_queue k mgr"
    using cs_session_runs[OF assms(1-5,7) refl empty(1) empty(2) assms(9-12,14-16), of junk task] by blast
  have find: "map_find MD5_lt k (sm_source_hashmap mgr') = (if key_equiv MD5_lt k ?h then Some q else None)" for k
    using cs(2,6) empty(2) md5.find_equiv unfolding get_buffer_queue_def by (cases "key_equiv MD5_lt k ?h") (auto simp: md5.find_equiv)
  have fields: "bq_source_name q = ?name" "bq_source_hash q = ?h" "bq_media_header q = Some (header, int (length header))"
    using cs(4) assms(13) by (simp_all add: same_channel_def new_channel_fields)
  have size: "length c + length (block_packets 0 blocks) \<le> DEFAULT_RECV_BUFFER_SIZE" using assms(11,12) by simp
  have "length blocks \<le> length (block_packets i blocks)" for i by (induction blocks arbitrary: i) (auto intro: le_SucI trans_le_add2)
  from this[of 0] have count: "length blocks < 2 ^ 31" using size by simp
  have serv: "servable resource_hash MAX_BUFFER_SIZE blocks header q mgr'"
    unfolding servable_def
  proof (intro conjI allI)
    show "\<exists>k. sm_source_hashmap mgr' = [(k, q)]" using single_entry[OF _ find] cs(5) by (simp add: mgr_ok_def)
    show "get_buffer_queue (hash_key e resource_hash) mgr' = Some q" for e
      using find hash_key_channel[OF assms(2), of e hash\<^sub>0] by (simp add: get_buffer_queue_def assms(22))
    show "length header < 2147483000" using size by (simp add: assms(1) register_content_def)
    show "take MD5_LEN (md5_hash (bq_source_hash q)) = resource_hash" "length resource_hash = MD5_LEN"
      using length_hex_string[of "md5_sum name"] length_md5_sum[of name] by (simp_all add: fields channel_hash_def assms(22))
  qed (use cs(3) count fields assms(6) in simp_all)
  let ?s = "RsNpSpProtocol_new np_junk np_task"
  have s: "nsp_np_buffer ?s = RsBuffer_new np_junk" "nsp_sent ?s = []" "\<not> nsp_media_type_flag ?s"
    "calc_window w (nsp_calculator ?s)"
    by (simp_all add: RsNpSpProtocol_new_def calc_window_def RsBitrateCalculator_new_def)
  have "rest_fits (nsp_np_buffer ?s) np_conn" "unread (nsp_np_buffer ?s) @ pending np_conn = push_packets ms @ np_rest"
    using assms(17-20) by (simp_all add: rest_fits_def s RsBuffer_new_ok)
  from np_rounds_answers[OF this assms(23) serv assms(24,25) s(4), of count] s(2,3) assms(21) fields(1)
  obtain s' np_conn' where np: "np_conn_rounds np_envs count ?s mgr' np_conn = Some (Inr (count, s', np_conn'))"
    "nsp_sent s' = media_packet resource_hash header ?name # concat (map (answers resource_hash MAX_BUFFER_SIZE blocks q) ms)"
    by auto
  show ?thesis
    using cs(1) np response_block[OF cs(3), where resource_hash = resource_hash] unfolding answers_def by blast
qed

lemma le_bytes_mod_4: "le_bytes 4 n = [word_of_nat (n mod 256), word_of_nat (n div 256 mod 256),
    word_of_nat (n div 256 div 256 mod 256), word_of_nat (n div 256 div 256 div 256 mod 256)]"
proof -
  have "4 = Suc (Suc (Suc (Suc 0)))" by simp
  then show ?thesis by (simp only: le_bytes.simps)
qed

text \<open>
  The channel \<open>abc\<close> with its two blocks, and a peer that asks for the blocks 2, 0 and 1: the
  media type, block 0 and block 1 are sent.
\<close>

abbreviation abc_digest :: bytes where "abc_digest \<equiv> chars ''900150983cd24fb0d6963f7d28e17f72''"

definition sample_np_conn_env :: np_conn_env where
  "sample_np_conn_env = \<lparr>ne_tv = None, ne_junk = \<lambda>_. 0, ne_write = \<lambda>bs. Wrote (length bs)\<rparr>"

theorem blocks_delivered_witness:
  "\<exists>cs' mgr' conn' s' np_conn' tail\<^sub>0 tail\<^sub>1.
    cs_rounds [sample_cs_env, sample_cs_env, sample_cs_env] (RsCsSpProtocol_new (\<lambda>_. 0) sample_hash [])
      RsSourceManager_new [Segment (take 10 sample_session), Segment (drop 10 sample_session)] = Some (Inr (cs', mgr', conn')) \<and>
    np_conn_rounds [sample_np_conn_env] 0 (RsNpSpProtocol_new (\<lambda>_. 0) []) mgr'
      [Segment (push_packets [sample_push\<lparr>push_resource_md5 := abc_digest\<rparr>])] = Some (Inr (0, s', np_conn')) \<and>
    nsp_sent s' = [media_packet abc_digest [1, 2] (chars ''abc''),
      packet SP2SP_RESPONSE (abc_digest @ [0, 0, 0, 0] @ [0, 64, 0, 0] @ [0, 0, 0, 0, 7] @ tail\<^sub>0),
      packet SP2SP_RESPONSE (abc_digest @ [1, 0, 0, 0] @ [0, 64, 0, 0] @ [1, 0, 0, 0, 9] @ tail\<^sub>1)]"
proof -
  let ?conn = "[Segment (take 10 sample_session), Segment (drop 10 sample_session)]"
  let ?m = "sample_push\<lparr>push_resource_md5 := abc_digest\<rparr>" and ?blocks = "[[0, 0, 0, 0, 7], [1, 0, 0, 0, 9]] :: bytes list"
  let ?np_conn = "[Segment (push_packets [?m])]"
  have size: "length sample_session = 100"
    by (simp add: sample_session_def sample_register_def register_content_def chars_def packet_def block_content_def)
  have pend: "pending ?conn = packet CS2SP_REGISTER sample_register @ block_packets 0 ?blocks @ []"
    by (simp only: pending.simps append_Nil2 append_take_drop_id) (simp only: sample_session_def)
  have conn: "conn_ok ?conn" "\<forall>x\<in>set ?conn. \<exists>bs. x = Segment bs" "length (pending ?conn) \<le> DEFAULT_RECV_BUFFER_SIZE"
    using size by (auto simp: conn_ok_def)
  have digest: "abc_digest = hex_string (md5_sum (chars ''abc''))" by (simp add: md5_abc)
  have len: "length abc_digest = 32" by (simp add: chars_def)
  have wf: "\<forall>m\<in>set [?m]. Sp2SpPushList_wf m \<and> push_resource_md5 m = abc_digest"
    using len by (simp add: Sp2SpPushList_wf_def sample_push_def)
  have np_size: "length (push_packets [?m]) = 58"
    using len by (simp add: push_packets_def packet_def Sp2SpPushList_content_def sample_push_def)
  have np_conn: "conn_ok ?np_conn" "\<forall>x\<in>set ?np_conn. \<exists>bs. x = Segment bs" "length (pending ?np_conn) \<le> DEFAULT_RECV_BUFFER_SIZE"
    "pending ?np_conn = push_packets [?m] @ []"
    using np_size by (auto simp: conn_ok_def)
  have name: "until_zero (chars ''abc'' @ ce_beyond sample_cs_env) = chars ''abc''"
    by (simp add: until_zero_def sample_cs_env_def chars_def)
  have ids: "filter (in_ring MAX_BUFFER_SIZE ?blocks) (sort (push_block_array ?m)) = [0, 1]"
    by (simp add: in_ring_def sample_push_def word_le_nat_alt)
  have pre: "length (chars ''abc'') < 128" "length (replicate MD5_LEN (97 :: u8)) = MD5_LEN" "length [0, 0, 0, 0 :: u8] = 4"
    "0 \<in> set (chars ''abc'' @ ce_beyond sample_cs_env)" "until_zero (chars ''abc'' @ ce_beyond sample_cs_env) \<noteq> []"
    "length (md5_hash sample_hash) = MD5_LEN + 1" "sm_source_hashmap RsSourceManager_new = []"
    unfolding name by (simp_all add: sample_cs_env_def chars_def sample_hash_def RsSourceManager_new_def)
  have rest: "[1, 2] \<noteq> ([] :: bytes)" "\<forall>b\<in>set ?blocks. 4 \<le> length b \<and> length b \<le> MEDIA_BLOCK_SIZE"
    "length [sample_cs_env, sample_cs_env] = length ?blocks" "\<forall>e\<in>set [sample_cs_env, sample_cs_env]. clock_window 0 (ce_tv e)"
    "[?m] \<noteq> []" "length [sample_np_conn_env] = length [?m]" "\<forall>e\<in>set [sample_np_conn_env]. clock_window 0 (ne_tv e)"
    by (simp_all add: sample_cs_env_def sample_np_conn_env_def clock_window_def)
  from blocks_delivered[OF sample_register_def pre conn pend rest(1-4) np_conn rest(5) digest wf rest(6,7), of "\<lambda>_. 0" "[]" 0 "\<lambda>_. 0" "[]"]
  obtain cs' mgr' conn' s' np_conn' response where r:
    "cs_rounds [sample_cs_env, sample_cs_env, sample_cs_env] (RsCsSpProtocol_new (\<lambda>_. 0) sample_hash [])
      RsSourceManager_new ?conn = Some (Inr (cs', mgr', conn'))"
    "np_conn_rounds [sample_np_conn_env] 0 (RsNpSpProtocol_new (\<lambda>_. 0) []) mgr' ?np_conn = Some (Inr (0, s', np_conn'))"
    "nsp_sent s' = media_packet abc_digest [1, 2] (until_zero (chars ''abc'' @ ce_beyond sample_cs_env)) #
      concat (map (\<lambda>m. map response (filter (in_ring MAX_BUFFER_SIZE ?blocks) (sort (push_block_array m)))) [?m])"
    "\<forall>i. in_ring MAX_BUFFER_SIZE ?blocks i \<longrightarrow> (\<exists>tail. response i =
      packet SP2SP_RESPONSE (abc_digest @ enc i @ enc (16384 :: u32) @ ?blocks ! unat i @ tail))"
    by blast
  have sent: "nsp_sent s' = media_packet abc_digest [1, 2] (chars ''abc'') # map response [0, 1]"
    using r(3) ids unfolding name by simp
  have enc: "enc (0 :: u32) = [0, 0, 0, 0]" "enc (1 :: u32) = [1, 0, 0, 0]" "enc (16384 :: u32) = [0, 64, 0, 0]"
    using le_bytes_mod_4 by (simp_all add: enc_def)
  have "in_ring MAX_BUFFER_SIZE ?blocks 0" "in_ring MAX_BUFFER_SIZE ?blocks 1" by (simp_all add: in_ring_def)
  then obtain tail\<^sub>0 tail\<^sub>1 where
    "response 0 = packet SP2SP_RESPONSE (abc_digest @ [0, 0, 0, 0] @ [0, 64, 0, 0] @ [0, 0, 0, 0, 7] @ tail\<^sub>0)"
    "response 1 = packet SP2SP_RESPONSE (abc_digest @ [1, 0, 0, 0] @ [0, 64, 0, 0] @ [1, 0, 0, 0, 9] @ tail\<^sub>1)"
    using r(4) unfolding enc[symmetric] by (metis nth_Cons_0 nth_Cons_Suc One_nat_def unat_0 unat_1)
  then show ?thesis using r(1,2) sent by auto
qed

end
