(* ===== verification/Sp_Memory.thy ===== *)
theory Sp_Memory
  imports Allocations Sp_Delivery
begin

text \<open>
  What a super peer allocates for a normal peer: the functions of \<open>Sp_Np\<close> with the heap. A
  message object is destroyed at the end of the function that declares it.
\<close>

text \<open>\<open>~Sp2SpPushList\<close>.\<close>

definition Sp2SpPushList_delete :: "nat option \<Rightarrow> heap \<Rightarrow> heap res" where
  "Sp2SpPushList_delete block_array h = (if block_array \<noteq> None then heap_delete True block_array h else Inr h)"

definition send_media_type_mem :: "np_conn_env \<Rightarrow> bytes \<Rightarrow> RsSourceManager \<Rightarrow> RsNpSpProtocol \<Rightarrow> heap \<Rightarrow>
    (int \<times> RsNpSpProtocol \<times> heap) res" where
  "send_media_type_mem env resource_hash mgr s h =
     bindE (source_header (hash_key env resource_hash) mgr) (\<lambda>(ret, header).
     case header of None \<Rightarrow> Inr (ret, s, h)
     | Some (header_bytes, header_size) \<Rightarrow>
         bindE (get_source_list mgr []) (\<lambda>source_list.
         case find (\<lambda>st. take MD5_LEN (md5_hash (ss_chnl_hash st)) = resource_hash) source_list of
           None \<Rightarrow> Inl Uninitialised
         | Some iter \<Rightarrow>
             let name = ss_chnl_name iter @ [0];
                 m = \<lparr>media_resource_md5 = resource_hash, media_block_start_id = 0, media_block_num = 0xffffffff,
                   media_type_size = word_of_int header_size, media_type = header_bytes,
                   media_program_name_size = 2, media_program_name = name, media_program_time = 0,
                   media_channel_name_size = 2, media_channel_name = name\<rparr>
             in bindE (pack_mem (ne_junk env) (Sp2SpMediatype_reserve m) (Sp2SpMediatype_submsg m) h) (\<lambda>(payload, payload_nb, h).
                let (ret, s) = nsp_write env payload payload_nb s
                in Inr (ret, s\<lparr>nsp_media_type_flag := True\<rparr>, h))))"

definition send_one_block_mem :: "np_conn_env \<Rightarrow> bytes \<Rightarrow> u32 \<Rightarrow> RsSourceManager \<Rightarrow> RsNpSpProtocol \<Rightarrow> heap \<Rightarrow>
    (int \<times> RsNpSpProtocol \<times> heap) res" where
  "send_one_block_mem env resource_hash block_id mgr s h =
     bindE (dequeue_block (hash_key env resource_hash) (sint block_id) mgr) (\<lambda>(ret, found).
     case (found, get_buffer_queue (hash_key env resource_hash) mgr) of
       (Block buf sz, Some q) \<Rightarrow>
         let m = \<lparr>response_resource_md5 = resource_hash, response_block_id = block_id,
               response_block_size = sz, response_block_data = mb_buffer (bq_vector q ! buf)\<rparr>
         in bindE (pack_mem (ne_junk env) (Sp2SpResponse_reserve m) (Sp2SpResponse_submsg m) h) (\<lambda>(payload, payload_nb, h).
            let (_, s) = nsp_write env payload payload_nb s
            in bindE (update_buffersize (ne_tv env) sz (nsp_calculator s)) (\<lambda>(_, calc).
               Inr (ret, s\<lparr>nsp_calculator := calc\<rparr>, h)))
     | _ \<Rightarrow> Inr (ret, s, h))"

fun send_blocks_mem :: "np_conn_env \<Rightarrow> bytes \<Rightarrow> u32 list \<Rightarrow> RsSourceManager \<Rightarrow> RsNpSpProtocol \<Rightarrow> heap \<Rightarrow>
    (RsNpSpProtocol \<times> heap) res" where
  "send_blocks_mem env resource_hash [] mgr s h = Inr (s, h)"
| "send_blocks_mem env resource_hash (i # ids) mgr s h =
     bindE (send_one_block_mem env resource_hash i mgr s h) (\<lambda>(_, s, h). send_blocks_mem env resource_hash ids mgr s h)"

definition send_push_list_mem :: "np_conn_env \<Rightarrow> bytes \<Rightarrow> u8 \<Rightarrow> u32 list \<Rightarrow> RsSourceManager \<Rightarrow> RsNpSpProtocol \<Rightarrow> heap \<Rightarrow>
    (RsNpSpProtocol \<times> heap) res" where
  "send_push_list_mem env resource_hash count array mgr s h =
     (let array = (if count > 1 then sort array else array)
      in send_blocks_mem env resource_hash (take (unat count) array) mgr s h)"

definition get_push_list_mem :: "np_conn_env \<Rightarrow> bytes \<Rightarrow> int \<Rightarrow> RsSourceManager \<Rightarrow> RsNpSpProtocol \<Rightarrow> heap \<Rightarrow>
    (RsNpSpProtocol \<times> heap) res" where
  "get_push_list_mem env msg n mgr s h =
     bindE (Sp2SpPushList_parse Sp2SpPushList_new (initialize msg n)) (\<lambda>(m, _).
     let (block_array, h) = (if push_block_count m \<noteq> 0 then heap_new (Many (unat (push_block_count m))) h else (None, h))
     in bindE (if nsp_media_type_flag s then Inr (0, s, h) else send_media_type_mem env (push_resource_md5 m) mgr s h) (\<lambda>(_, s, h).
        bindE (if push_block_count m \<noteq> 0
               then send_push_list_mem env (push_resource_md5 m) (push_block_count m) (push_block_array m) mgr s h
               else Inr (s, h)) (\<lambda>(s, h).
        bindE (Sp2SpPushList_delete block_array h) (\<lambda>h. Inr (s, h)))))"

definition np_conn_loop_mem :: "np_conn_env \<Rightarrow> int \<Rightarrow> RsNpSpProtocol \<Rightarrow> RsSourceManager \<Rightarrow> arrival list \<Rightarrow> heap \<Rightarrow>
    (int \<times> int \<times> RsNpSpProtocol \<times> arrival list \<times> heap) res option" where
  "np_conn_loop_mem env no_receive_counter s mgr conn h =
     bindO (next_message (ne_junk env) (nsp_np_buffer s) (nsp_io_socket s) conn) (\<lambda>(ret, (temp, msg_size), b, io, conn).
     let s = s\<lparr>nsp_np_buffer := b, nsp_io_socket := io\<rparr>; mem = rb_mem b
     in if ret \<noteq> 0 then
          let no_receive_counter = no_receive_counter + 1
          in if no_receive_counter = 150 then Some (Inr (ret, 0, s\<lparr>nsp_loop_flag := False\<rparr>, conn, h))
             else Some (Inr (ret, no_receive_counter, s, conn, h))
        else
          bindO (Some (peek_char mem temp)) (\<lambda>msg_type.
          bindO (Some (if msg_type = msg_code SP2SP_PUSHLIST
                       then get_push_list_mem env (drop (nat (temp + 1)) mem) (msg_size - 5) mgr s h else Inr (s, h))) (\<lambda>(s, h).
          Some (Inr (0, no_receive_counter, s, conn, h)))))"

fun np_conn_rounds_mem :: "np_conn_env list \<Rightarrow> int \<Rightarrow> RsNpSpProtocol \<Rightarrow> RsSourceManager \<Rightarrow> arrival list \<Rightarrow> heap \<Rightarrow>
    (int \<times> RsNpSpProtocol \<times> arrival list \<times> heap) res option" where
  "np_conn_rounds_mem [] no_receive_counter s mgr conn h = Some (Inr (no_receive_counter, s, conn, h))"
| "np_conn_rounds_mem (env # envs) no_receive_counter s mgr conn h =
     bindO (np_conn_loop_mem env no_receive_counter s mgr conn h) (\<lambda>(ret, no_receive_counter, s, conn, h).
     np_conn_rounds_mem envs no_receive_counter s mgr conn h)"

section \<open>One array per packet\<close>

text \<open>
  From \<open>s\<close> to \<open>s'\<close> packets were packed, and each of them stays allocated. All of them were
  sent, but for one whose length is a multiple of 2^32, which is taken for an empty one.
\<close>

definition goes_out :: "bytes \<Rightarrow> bool" where
  "goes_out x \<longleftrightarrow> length x mod 2 ^ 32 \<noteq> 0"

definition leaks_sent :: "RsNpSpProtocol \<Rightarrow> heap \<Rightarrow> RsNpSpProtocol \<Rightarrow> heap \<Rightarrow> bool" where
  "leaks_sent s h s' h' \<longleftrightarrow>
     (\<exists>xs. nsp_sent s' = nsp_sent s @ filter goes_out xs \<and> leaves h (map (\<lambda>x. Many (length x)) xs) h')"

lemma leaks_sent_refl [simp]: "nsp_sent s' = nsp_sent s \<Longrightarrow> leaks_sent s h s' h"
  by (auto simp: leaks_sent_def intro: exI[of _ "[]"])

lemma leaks_sent_trans: "leaks_sent s h s' h' \<Longrightarrow> leaks_sent s' h' s'' h'' \<Longrightarrow> leaks_sent s h s'' h''"
  unfolding leaks_sent_def by (elim exE conjE, rule exI, rule conjI[rotated], drule (1) leaves_trans, simp flip: map_append) simp

lemma keeps_media: "keeps_length (Sp2SpMediatype_submsg m)"
  unfolding Sp2SpMediatype_submsg_def by (intro keeps_intros)

lemma keeps_response: "keeps_length (Sp2SpResponse_submsg m)"
  unfolding Sp2SpResponse_submsg_def by (intro keeps_intros)

lemma leaks_sent_update [simp]:
  "leaks_sent s h (s'\<lparr>nsp_calculator := c\<rparr>) h' = leaks_sent s h s' h'"
  "leaks_sent s h (s'\<lparr>nsp_media_type_flag := f\<rparr>) h' = leaks_sent s h s' h'"
  "leaks_sent (s\<lparr>nsp_np_buffer := b, nsp_io_socket := io\<rparr>) h s' h' = leaks_sent s h s' h'"
  by (simp_all add: leaks_sent_def)

lemma written_leaks: "packed_at h payload nb h' \<Longrightarrow> leaks_sent s h (snd (nsp_write env payload nb s)) h'"
  unfolding packed_at_def leaks_sent_def nsp_write_def
  by (intro exI[of _ "[payload]"]) (auto simp: goes_out_def case_prod_unfold Let_def)

definition same_send :: "RsNpSpProtocol \<Rightarrow> heap \<Rightarrow> int \<times> RsNpSpProtocol \<times> heap \<Rightarrow> int \<times> RsNpSpProtocol \<Rightarrow> bool" where
  "same_send s h = (\<lambda>(ret, s', h') (ret', t'). ret = ret' \<and> s' = t' \<and> leaks_sent s h s' h')"

lemma send_media_type_alike:
  "alike (same_send s h) (send_media_type_mem env hash mgr s h) (send_media_type env hash mgr s)"
  unfolding send_media_type_mem_def send_media_type_def same_send_def
  by (rule alike_bind_same)
    (auto split: option.split prod.split simp: Let_def case_prod_unfold
      intro!: alike_bind_same alike_bind[OF pack_mem_alike[OF keeps_media]] elim!: staysE simp: written_leaks)

lemma send_one_block_alike:
  "alike (same_send s h) (send_one_block_mem env hash i mgr s h) (send_one_block env hash i mgr s)"
  unfolding send_one_block_mem_def send_one_block_def same_send_def
  by (rule alike_bind_same)
    (auto split: option.split prod.split dequeued.split simp: Let_def case_prod_unfold
      intro!: alike_bind_same alike_bind[OF pack_mem_alike[OF keeps_response]] elim!: staysE simp: written_leaks)

definition same_state :: "RsNpSpProtocol \<Rightarrow> heap \<Rightarrow> RsNpSpProtocol \<times> heap \<Rightarrow> RsNpSpProtocol \<Rightarrow> bool" where
  "same_state s h = (\<lambda>(s', h') t'. s' = t' \<and> leaks_sent s h s' h')"

lemma send_blocks_alike:
  "alike (same_state s h) (send_blocks_mem env hash ids mgr s h) (send_blocks env hash ids mgr s)"
proof (induction ids arbitrary: s h)
  case (Cons i ids)
  show ?case unfolding send_blocks_mem.simps send_blocks.simps
  proof (rule alike_bind[OF send_one_block_alike])
    fix x y
    assume "same_send s h x y"
    then obtain ret s' h' where x: "x = (ret, s', h')" "y = (ret, s')" "leaks_sent s h s' h'"
      by (auto simp: same_send_def)
    show "alike (same_state s h) (case x of (_, s, h) \<Rightarrow> send_blocks_mem env hash ids mgr s h)
        (case y of (_, s) \<Rightarrow> send_blocks env hash ids mgr s)"
      using Cons[of s' h'] by (auto simp: x(1,2) same_state_def intro: leaks_sent_trans[OF x(3)] elim!: alike_mono)
  qed
qed (simp add: same_state_def)

lemma send_push_list_alike:
  "alike (same_state s h) (send_push_list_mem env hash count array mgr s h) (send_push_list env hash count array mgr s)"
  by (simp add: send_push_list_mem_def send_push_list_def Let_def send_blocks_alike)

text \<open>The array of ids is freed when the push list is destroyed.\<close>

lemma leaks_sent_temporary:
  assumes "heap_ok h" "heap_new (Many n) h = (p, h\<^sub>1)" "leaks_sent s h\<^sub>1 s' h\<^sub>2"
  shows "\<exists>h\<^sub>3. Sp2SpPushList_delete p h\<^sub>2 = Inr h\<^sub>3 \<and> leaks_sent s h s' h\<^sub>3"
proof -
  obtain xs where "nsp_sent s' = nsp_sent s @ filter goes_out xs" "leaves h\<^sub>1 (map (\<lambda>x. Many (length x)) xs) h\<^sub>2"
    using assms(3) by (auto simp: leaks_sent_def)
  moreover have "p \<noteq> None" using assms(2) by (auto simp: heap_new_def)
  ultimately show ?thesis
    using leaves_temporary[OF assms(1,2)] unfolding leaks_sent_def Sp2SpPushList_delete_def by metis
qed

lemma get_push_list_alike:
  assumes "heap_ok h"
  shows "alike (same_state s h) (get_push_list_mem env msg n mgr s h) (get_push_list env msg n mgr s)"
  unfolding get_push_list_mem_def get_push_list_def
proof (rule alike_bind_same, clarify)
  fix m st
  obtain p h\<^sub>1 where new: "(if push_block_count m \<noteq> 0 then heap_new (Many (unat (push_block_count m))) h else (None, h)) = (p, h\<^sub>1)"
    by fastforce
  have freed: "\<exists>h\<^sub>3. Sp2SpPushList_delete p h\<^sub>2 = Inr h\<^sub>3 \<and> leaks_sent s h s' h\<^sub>3" if "leaks_sent s h\<^sub>1 s' h\<^sub>2" for s' h\<^sub>2
  proof (cases "push_block_count m = 0")
    case False
    then show ?thesis using new leaks_sent_temporary[OF assms _ that] by simp
  qed (use new that in \<open>simp add: Sp2SpPushList_delete_def\<close>)
  have first: "alike (same_send s h\<^sub>1)
      (if nsp_media_type_flag s then Inr (0, s, h\<^sub>1) else send_media_type_mem env (push_resource_md5 m) mgr s h\<^sub>1)
      (if nsp_media_type_flag s then Inr (0, s) else send_media_type env (push_resource_md5 m) mgr s)"
    using send_media_type_alike by (simp add: same_send_def)
  have second: "alike (same_state s' h')
      (if push_block_count m \<noteq> 0 then send_push_list_mem env (push_resource_md5 m) (push_block_count m) (push_block_array m) mgr s' h'
       else Inr (s', h'))
      (if push_block_count m \<noteq> 0 then send_push_list env (push_resource_md5 m) (push_block_count m) (push_block_array m) mgr s'
       else Inr s')" for s' h'
    using send_push_list_alike by (simp add: same_state_def)
  show "alike (same_state s h)
     (let (block_array, h) = if push_block_count m \<noteq> 0 then heap_new (Many (unat (push_block_count m))) h else (None, h)
      in bindE (if nsp_media_type_flag s then Inr (0, s, h) else send_media_type_mem env (push_resource_md5 m) mgr s h) (\<lambda>(_, s, h).
         bindE (if push_block_count m \<noteq> 0
               then send_push_list_mem env (push_resource_md5 m) (push_block_count m) (push_block_array m) mgr s h
               else Inr (s, h)) (\<lambda>(s, h). bindE (Sp2SpPushList_delete block_array h) (\<lambda>h. Inr (s, h)))))
     (bindE (if nsp_media_type_flag s then Inr (0, s) else send_media_type env (push_resource_md5 m) mgr s) (\<lambda>(_, s).
      if push_block_count m \<noteq> 0 then send_push_list env (push_resource_md5 m) (push_block_count m) (push_block_array m) mgr s
      else Inr s))"
    unfolding new Let_def prod.case
  proof (rule alike_bind[OF first])
    fix x y
    assume "same_send s h\<^sub>1 x y"
    then obtain ret s' h' where x: "x = (ret, s', h')" "y = (ret, s')" "leaks_sent s h\<^sub>1 s' h'" by (auto simp: same_send_def)
    show "alike (same_state s h)
      (case x of (_, s, h) \<Rightarrow> bindE (if push_block_count m \<noteq> 0
               then send_push_list_mem env (push_resource_md5 m) (push_block_count m) (push_block_array m) mgr s h
               else Inr (s, h)) (\<lambda>(s, h). bindE (Sp2SpPushList_delete p h) (\<lambda>h. Inr (s, h))))
      (case y of (_, s) \<Rightarrow> if push_block_count m \<noteq> 0
         then send_push_list env (push_resource_md5 m) (push_block_count m) (push_block_array m) mgr s else Inr s)"
      using second[of s' h'] freed leaks_sent_trans[OF x(3)]
      by (cases rule: rel_sum.cases) (fastforce simp: x(1,2) same_state_def)+
  qed
qed

lemma leaks_sent_ok: "heap_ok h \<Longrightarrow> leaks_sent s h s' h' \<Longrightarrow> heap_ok h'"
  by (auto simp: leaks_sent_def intro: leaves_ok)

lemma np_conn_loop_alike:
  assumes "heap_ok h"
  shows "alikeO (\<lambda>(ret, c, s', conn', h') r. r = (ret, c, s', conn') \<and> leaks_sent s h s' h')
    (np_conn_loop_mem env c s mgr conn h) (np_conn_loop env c s mgr conn)"
  unfolding np_conn_loop_mem_def np_conn_loop_def
proof (rule alikeO_bind_same, clarify)
  fix ret temp msg_size b io conn'
  let ?s = "s\<lparr>nsp_np_buffer := b, nsp_io_socket := io\<rparr>"
  have packet: "alikeO (same_state s h)
      (Some (if t = msg_code SP2SP_PUSHLIST then get_push_list_mem env msg n mgr ?s h else Inr (?s, h)))
      (Some (if t = msg_code SP2SP_PUSHLIST then get_push_list env msg n mgr ?s else Inr ?s))" for t msg n
    using get_push_list_alike[OF assms, of ?s env msg n mgr] by (simp add: same_state_def)
  have after: "alikeO (\<lambda>(ret, c, s', conn', h') r. r = (ret, c, s', conn') \<and> leaks_sent s h s' h')
     (bindO (Some (peek_char mem temp)) (\<lambda>msg_type. bindO (Some (if msg_type = msg_code SP2SP_PUSHLIST
        then get_push_list_mem env (drop (nat (temp + 1)) mem) (msg_size - 5) mgr ?s h else Inr (?s, h))) (\<lambda>(s, h).
        Some (Inr (0, c, s, conn', h)))))
     (bindO (Some (peek_char mem temp)) (\<lambda>msg_type. bindO (Some (if msg_type = msg_code SP2SP_PUSHLIST
        then get_push_list env (drop (nat (temp + 1)) mem) (msg_size - 5) mgr ?s else Inr ?s)) (\<lambda>s.
        Some (Inr (0, c, s, conn')))))" for mem
    by (rule alikeO_bind_same, rule alikeO_bind[OF packet]) (auto simp: same_state_def)
  show "alikeO (\<lambda>(ret, c, s', conn', h') r. r = (ret, c, s', conn') \<and> leaks_sent s h s' h')
      (let s = ?s; mem = rb_mem b in if ret \<noteq> 0 then let no_receive_counter = c + 1
          in if no_receive_counter = 150 then Some (Inr (ret, 0, s\<lparr>nsp_loop_flag := False\<rparr>, conn', h))
             else Some (Inr (ret, no_receive_counter, s, conn', h))
        else bindO (Some (peek_char mem temp)) (\<lambda>msg_type. bindO (Some (if msg_type = msg_code SP2SP_PUSHLIST
        then get_push_list_mem env (drop (nat (temp + 1)) mem) (msg_size - 5) mgr s h else Inr (s, h))) (\<lambda>(s, h).
        Some (Inr (0, c, s, conn', h)))))
      (let s = ?s; mem = rb_mem b in if ret \<noteq> 0 then let no_receive_counter = c + 1
          in if no_receive_counter = 150 then Some (Inr (ret, 0, s\<lparr>nsp_loop_flag := False\<rparr>, conn'))
             else Some (Inr (ret, no_receive_counter, s, conn'))
        else bindO (Some (peek_char mem temp)) (\<lambda>msg_type. bindO (Some (if msg_type = msg_code SP2SP_PUSHLIST
        then get_push_list env (drop (nat (temp + 1)) mem) (msg_size - 5) mgr s else Inr s)) (\<lambda>s.
        Some (Inr (0, c, s, conn')))))"
  proof (cases "ret = 0")
    case True
    show ?thesis unfolding Let_def by (simp only: True simp_thms if_False) (rule after)
  qed (simp add: Let_def)
qed

lemma np_conn_rounds_alike:
  "heap_ok h \<Longrightarrow> alikeO (\<lambda>(c, s', conn', h') r. r = (c, s', conn') \<and> leaks_sent s h s' h')
    (np_conn_rounds_mem envs c s mgr conn h) (np_conn_rounds envs c s mgr conn)"
proof (induction envs arbitrary: c s conn h)
  case (Cons env envs)
  show ?case unfolding np_conn_rounds_mem.simps np_conn_rounds.simps
  proof (rule alikeO_bind[OF np_conn_loop_alike[OF Cons.prems]])
    fix x :: "int \<times> int \<times> RsNpSpProtocol \<times> arrival list \<times> heap" and y :: "int \<times> int \<times> RsNpSpProtocol \<times> arrival list"
    assume "(\<lambda>(ret, c, s', conn', h') r. r = (ret, c, s', conn') \<and> leaks_sent s h s' h') x y"
    then obtain ret c' s' conn' h' where x: "x = (ret, c', s', conn', h')" "y = (ret, c', s', conn')" "leaks_sent s h s' h'"
      by auto
    have "alikeO (\<lambda>(c, s'', conn', h'') r. r = (c, s'', conn') \<and> leaks_sent s' h' s'' h'')
        (np_conn_rounds_mem envs c' s' mgr conn' h') (np_conn_rounds envs c' s' mgr conn')"
      using Cons.IH leaks_sent_ok[OF Cons.prems x(3)] by blast
    then show "alikeO (\<lambda>(c, s', conn', h') r. r = (c, s', conn') \<and> leaks_sent s h s' h')
        (case x of (ret, c, s, conn, h) \<Rightarrow> np_conn_rounds_mem envs c s mgr conn h)
        (case y of (ret, c, s, conn) \<Rightarrow> np_conn_rounds envs c s mgr conn)"
      unfolding x(1,2) prod.case
      by (rule option.rel_mono_strong) (auto elim!: alike_mono intro: leaks_sent_trans[OF x(3)])
  qed
qed simp

text \<open>
  C8. The memory of a connection with a normal peer. With the heap the rounds do what they do
  without it, and no address is deleted twice or out of place. But what they pack is never
  freed: after any number of rounds the memory in use has grown by one array per packet, of
  the packet's length, in the order they were packed; the arrays of ids of the push lists are
  freed. All packets packed were sent, but for one whose length is a multiple of 2^32.
\<close>

theorem serving_leaks:
  assumes "heap_ok h"
  shows "((\<exists>h'. np_conn_rounds_mem envs c s mgr conn h = Some (Inr (c', s', conn', h'))) \<longleftrightarrow>
      np_conn_rounds envs c s mgr conn = Some (Inr (c', s', conn'))) \<and>
    (\<forall>h'. np_conn_rounds_mem envs c s mgr conn h = Some (Inr (c', s', conn', h')) \<longrightarrow>
      (\<exists>packets. nsp_sent s' = nsp_sent s @ filter goes_out packets \<and>
        leaves h (map (\<lambda>x. Many (length x)) packets) h'))"
  using np_conn_rounds_alike[OF assms, of s envs c mgr conn]
  by (cases "np_conn_rounds_mem envs c s mgr conn h"; cases "np_conn_rounds envs c s mgr conn")
    (auto simp: leaks_sent_def elim!: rel_sum.cases)

text \<open>
  A channel with the blocks 1, 2 and 3 in a ring of two slots, and one push list: the media type
  and two responses are sent, and their three arrays are what is left on the heap.
\<close>

theorem serving_leaks_witness:
  "\<exists>mgr s' conn' h' packets. np_conn_rounds_mem [sample_np_conn_env] 0 (RsNpSpProtocol_new (\<lambda>_. 0) []) mgr
      [Segment (push_packets [sample_push])] \<lparr>hp_next = 1, hp_live = [(0, One)], hp_mixed = 0\<rparr> = Some (Inr (0, s', conn', h')) \<and>
    length (nsp_sent s') = 3 \<and> nsp_sent s' = filter goes_out packets \<and>
    map snd (hp_live h') = One # map (\<lambda>x. Many (length x)) packets"
proof -
  let ?md5 = "replicate MD5_LEN 97 :: bytes" and ?h = "\<lparr>hp_next = 1, hp_live = [(0, One)], hp_mixed = 0\<rparr> :: heap"
  let ?s = "RsNpSpProtocol_new (\<lambda>_. 0) []" and ?conn = "[Segment (push_packets [sample_push])]"
  obtain q\<^sub>0 where q\<^sub>0: "ring_ok 2 sample_blocks q\<^sub>0"
    using produce_all_ring_ok[of 2 "[]" sample_queue sample_blocks] ring_ok_fresh[of 2]
    by (auto simp: sample_queue_def sample_blocks_def)
  let ?q = "q\<^sub>0\<lparr>bq_media_header := Some ([1, 2], 2), bq_source_hash := (sample_hash\<lparr>md5_hash := ?md5 @ [0]\<rparr>), bq_source_name := [7]\<rparr>"
  let ?mgr = "RsSourceManager_new\<lparr>sm_source_hashmap := [((sample_hash\<lparr>md5_hash := ?md5 @ [0]\<rparr>), ?q)]\<rparr>"
  have push: "\<forall>m\<in>set [sample_push]. Sp2SpPushList_wf m \<and> push_resource_md5 m = ?md5"
    by (simp add: Sp2SpPushList_wf_def sample_push_def)
  have "ring_ok 2 sample_blocks ?q" using q\<^sub>0 by (simp add: ring_ok_def)
  then have serv: "servable ?md5 2 sample_blocks [1, 2] ?q ?mgr"
    by (simp add: servable_def sample_blocks_def get_buffer_queue_def md5.equiv_key md5_key_def hash_key_def)
  have "length (push_packets [sample_push]) = 58"
    by (simp add: push_packets_def packet_def Sp2SpPushList_content_def sample_push_def)
  then have conn: "rest_fits (nsp_np_buffer ?s) ?conn" "unread (nsp_np_buffer ?s) @ pending ?conn = push_packets [sample_push] @ []"
    by (auto simp: rest_fits_def RsNpSpProtocol_new_def RsBuffer_new_ok conn_ok_def)
  have ids: "filter (in_ring 2 sample_blocks) (sort (push_block_array sample_push)) = [1, 2]"
    by (simp add: in_ring_def sample_blocks_def sample_push_def word_le_nat_alt)
  have env: "length [sample_np_conn_env] = length [sample_push]" "\<forall>e\<in>set [sample_np_conn_env]. clock_window 0 (ne_tv e)"
    "calc_window 0 (nsp_calculator ?s)"
    by (simp_all add: sample_np_conn_env_def clock_window_def RsNpSpProtocol_new_def calc_window_def RsBitrateCalculator_new_def)
  have new: "\<not> nsp_media_type_flag ?s" "nsp_sent ?s = []" by (simp_all add: RsNpSpProtocol_new_def)
  obtain s' conn' where r: "np_conn_rounds [sample_np_conn_env] 0 ?s ?mgr ?conn = Some (Inr (0, s', conn'))" "length (nsp_sent s') = 3"
    using np_rounds_answers[OF conn push serv env, of 0] new by (auto simp: answers_def ids)
  have "heap_ok ?h" by (simp add: heap_ok_def)
  from serving_leaks[OF this, of "[sample_np_conn_env]" 0 ?s ?mgr ?conn 0 s' conn'] r(1)
  obtain h' packets where "np_conn_rounds_mem [sample_np_conn_env] 0 ?s ?mgr ?conn ?h = Some (Inr (0, s', conn', h'))"
    "nsp_sent s' = filter goes_out packets" "leaves ?h (map (\<lambda>x. Many (length x)) packets) h'"
    using new(2) by auto
  then show ?thesis using r(2) by (intro exI[of _ ?mgr]) (auto simp: leaves_def)
qed

end
