(* ===== verification/Ownership.thy ===== *)
theory Ownership
  imports Allocations Std_Map "HOL-Library.Multiset"
begin

text \<open>
  Who owns what is on the heap. A ledger lists the allocations in use; to own some of them is
  to hold a part of the list. The rest of the list is the frame, which an operation keeps.
\<close>

type_synonym cells = "(nat \<times> alloc) multiset"

definition ledger :: "heap \<Rightarrow> nat \<Rightarrow> cells \<Rightarrow> bool" where
  "ledger h mixed M \<longleftrightarrow> heap_ok h \<and> distinct (map fst (hp_live h)) \<and> mset (hp_live h) = M \<and> hp_mixed h = mixed"

text \<open>A pointer that is null or the address of an array of \<open>c\<close> elements.\<close>

definition array_cells :: "nat option \<Rightarrow> nat \<Rightarrow> cells" where
  "array_cells p c = (case p of None \<Rightarrow> {#} | Some a \<Rightarrow> {#(a, Many c)#})"

lemma array_cells_simps [simp]: "array_cells None c = {#}" "array_cells (Some a) c = {#(a, Many c)#}"
  by (simp_all add: array_cells_def)

lemma heap_new_ok: "heap_ok h \<Longrightarrow> heap_new k h = (p, h') \<Longrightarrow> heap_ok h'"
  by (metis leaves_new leaves_ok snd_conv)

lemma ledger_new:
  assumes "ledger h d M" "heap_new k h = (p, h')"
  obtains a where "p = Some a" "ledger h' d (add_mset (a, k) M)"
proof
  have "hp_next h \<notin> fst ` set (hp_live h)" using assms(1) by (fastforce simp: ledger_def heap_ok_def)
  then show "p = Some (hp_next h)" "ledger h' d (add_mset (hp_next h, k) M)"
    using assms heap_new_ok[OF _ assms(2)] by (auto simp: ledger_def heap_new_def)
qed

lemma ledger_delete:
  assumes "ledger h d (add_mset (a, k) M)"
  shows "\<exists>h'. heap_delete array (Some a) h = Inr h' \<and> ledger h' (if array = (k \<noteq> One) then d else Suc d) M"
proof -
  have h: "heap_ok h" "distinct (map fst (hp_live h))" "mset (hp_live h) = add_mset (a, k) M" "hp_mixed h = d"
    using assms by (simp_all add: ledger_def)
  have "(a, k) \<in> set (hp_live h)" using h(3) by (metis set_mset_mset union_single_eq_member)
  then obtain xs ys where s: "hp_live h = xs @ (a, k) # ys" by (meson split_list)
  have new: "a \<notin> fst ` set xs" "a \<notin> fst ` set ys" using h(2) unfolding s by auto
  then have "filter (\<lambda>(b, _). b \<noteq> a) xs = xs" "filter (\<lambda>(b, _). b \<noteq> a) ys = ys"
    by (force simp: filter_id_conv)+
  moreover have "map_of (hp_live h) a = Some k" using h(2) \<open>(a, k) \<in> set (hp_live h)\<close> by simp
  moreover have "mset (xs @ ys) = M" using h(3) unfolding s by simp
  ultimately show ?thesis
    using h by (auto simp: heap_delete_def ledger_def heap_ok_def s)
qed

lemma ledger_delete_array:
  assumes "ledger h d (array_cells p c + M)"
  shows "\<exists>h'. heap_delete True p h = Inr h' \<and> ledger h' d M"
proof (cases p)
  case None
  then show ?thesis using assms by (simp add: heap_delete_def)
next
  case (Some a)
  then show ?thesis using ledger_delete[of h d a "Many c" M True] assms by simp
qed

section \<open>A map of pointers and the map of what they point to\<close>

abbreviation entries :: "('a \<Rightarrow> 'b) \<Rightarrow> ('k, 'a) cmap \<Rightarrow> ('k, 'b) cmap" where
  "entries f m \<equiv> map (map_prod id f) m"

lemma find_entries: "map_find lt k (entries f m) = map_option f (map_find lt k m)"
  by (induction m) auto

lemma insert_entries: "map_insert lt k (f v) (entries f m) = map_prod (entries f) id (map_insert lt k v m)"
  by (induction m) (auto split: prod.split)

lemma assign_entries: "map_assign lt k (f v) (entries f m) = entries f (map_assign lt k v m)"
  by (induction m) auto

lemma erase_entries: "map_erase lt k (entries f m) = entries f (map_erase lt k m)"
  by (induction m) auto

text \<open>What the values of a map own, all together.\<close>

definition map_cells :: "('a \<Rightarrow> cells) \<Rightarrow> ('k, 'a) cmap \<Rightarrow> cells" where
  "map_cells own m = \<Sum>\<^sub># (mset (map (own \<circ> snd) m))"

lemma map_cells_simps [simp]: "map_cells own [] = {#}" "map_cells own ((k, v) # m) = own v + map_cells own m"
  by (simp_all add: map_cells_def)

lemma map_cells_insert:
  assumes "map_find lt k m = None"
  shows "map_cells own (fst (map_insert lt k v m)) = own v + map_cells own m"
  using assms by (induction m) (auto split: if_splits prod.split simp: ac_simps)

lemma map_cells_assign:
  assumes "map_find lt k m = Some w"
  shows "own w + map_cells own (map_assign lt k v m) = own v + map_cells own m"
  using assms by (induction m) (auto split: if_splits simp: ac_simps)

lemma map_cells_erase:
  assumes "map_find lt k m = Some w"
  shows "map_cells own m = own w + map_cells own (map_erase lt k m)"
  using assms by (induction m) (auto split: if_splits simp: ac_simps)

end
