(* ===== verification/Tracker_Memory.thy ===== *)
theory Tracker_Memory
  imports Ownership Sp_Tracker
begin

text \<open>
  What the tracker allocates for super peers: the functions of \<open>Stream_Manager\<close> and
  \<open>Sp_Tracker\<close> with the heap. The table holds pointers to nodes, and a node a pointer to its
  array of hashes; the objects a handler declares are destroyed at its end. Only deletes go
  through the heap: reads and writes of freed memory are not modelled.
\<close>

section \<open>Nodes and the table\<close>

text \<open>A node of the table: its address, the address in \<open>pHash\<close> and its value.\<close>

record node_at =
  at_node :: nat
  at_pHash :: "nat option"
  at_value :: ChannelNode

definition new_pHash_mem :: "u32 \<Rightarrow> heap \<Rightarrow> nat option \<times> heap" where
  "new_pHash_mem c h = (if 0 < c then heap_new (Many (unat c)) h else (None, h))"

definition delete_pHash_mem :: "nat option \<Rightarrow> heap \<Rightarrow> heap res" where
  "delete_pHash_mem p h = (if p \<noteq> None then heap_delete True p h else Inr h)"

text \<open>\<open>operator=\<close> overwrites \<open>pHash\<close>: the result does not depend on the array it held.\<close>

definition ChannelNode_assign_mem :: "int \<Rightarrow> ChannelNode \<Rightarrow> heap \<Rightarrow> (ChannelNode \<times> nat option \<times> heap) res" where
  "ChannelNode_assign_mem now pNode h =
     (let (p, h) = new_pHash_mem (cn_resourceCount pNode) h
      in bindE (ChannelNode_assign now pNode) (\<lambda>n. Inr (n, p, h)))"

definition node_delete :: "node_at \<Rightarrow> heap \<Rightarrow> heap res" where
  "node_delete n h = bindE (delete_pHash_mem (at_pHash n) h) (\<lambda>h. heap_delete False (Some (at_node n)) h)"

definition get_channel_mem :: "int \<Rightarrow> map_str \<Rightarrow> (map_str, node_at) cmap \<Rightarrow> heap \<Rightarrow>
    (ChannelNode option \<times> nat option \<times> heap) res" where
  "get_channel_mem now uuid table h =
     (case map_find map_str_lt uuid table of
        None \<Rightarrow> Inr (None, None, h)
      | Some it \<Rightarrow> bindE (ChannelNode_assign_mem now (at_value it) h) (\<lambda>(n, p, h). Inr (Some n, p, h)))"

text \<open>The local \<open>Node\<close> is destroyed at the end.\<close>

definition insert_channel_mem :: "int \<Rightarrow> map_str \<Rightarrow> ChannelNode \<Rightarrow> (map_str, node_at) cmap \<Rightarrow> heap \<Rightarrow>
    ((map_str, node_at) cmap \<times> heap) res" where
  "insert_channel_mem now uuid chnl table h =
     bindE (get_channel_mem now uuid table h) (\<lambda>(found, node_pHash, h).
     bindE (case found of
         None \<Rightarrow>
           (let (a, h) = heap_new One h
            in bindE (ChannelNode_assign_mem now chnl h) (\<lambda>(n, p, h).
               let pNode = \<lparr>at_node = the a, at_pHash = p, at_value = n\<rparr>;
                   (table', ret) = map_insert map_str_lt uuid pNode table
               in if \<not> ret then bindE (node_delete pNode h) (\<lambda>h. Inr (table, h)) else Inr (table', h)))
       | Some _ \<Rightarrow> (case map_find map_str_lt uuid table of
             None \<Rightarrow> Inr (table, h)
           | Some pNode \<Rightarrow> bindE (ChannelNode_assign_mem now chnl h) (\<lambda>(n, p, h).
               Inr (map_assign map_str_lt uuid (pNode\<lparr>at_pHash := p, at_value := n\<rparr>) table, h))))
       (\<lambda>(table, h). bindE (delete_pHash_mem node_pHash h) (\<lambda>h. Inr (table, h))))"

definition delete_channel_mem :: "map_str \<Rightarrow> (map_str, node_at) cmap \<Rightarrow> heap \<Rightarrow> ((map_str, node_at) cmap \<times> heap) res" where
  "delete_channel_mem uuid table h =
     (case map_find map_str_lt uuid table of
        None \<Rightarrow> Inr (table, h)
      | Some it \<Rightarrow> bindE (node_delete it h) (\<lambda>h. Inr (map_erase map_str_lt uuid table, h)))"

fun check_channels_mem :: "int \<Rightarrow> (map_str, node_at) cmap \<Rightarrow> heap \<Rightarrow> ((map_str, node_at) cmap \<times> heap) res" where
  "check_channels_mem now [] h = Inr ([], h)"
| "check_channels_mem now ((k, n) # m) h =
     (if now - cn_last_recv_report_time (at_value n) > MAX_IDLE_TIME_SEC then
        bindE (node_delete n h) (\<lambda>h. check_channels_mem now m h)
      else bindE (check_channels_mem now m h) (\<lambda>(m, h). Inr ((k, n) # m, h)))"

text \<open>
  The array \<open>sel\<close> of one address is freed as if it were no array. \<open>get_cp_address_others_mem\<close>
  returns the array it fills with its address.
\<close>

definition get_cp_address_of_mem :: "map_str \<Rightarrow> (map_str, node_at) cmap \<Rightarrow> heap \<Rightarrow> (NetAddress option \<times> nat option \<times> heap) res" where
  "get_cp_address_of_mem uuid table h =
     (let (pSPAddr, h) = heap_new (Many 1) h
      in case map_find map_str_lt uuid table of
           None \<Rightarrow> bindE (heap_delete False pSPAddr h) (\<lambda>h. Inr (None, None, h))
         | Some it \<Rightarrow> Inr (Some (cn_spAddress (at_value it)), pSPAddr, h))"

definition get_cp_address_others_mem :: "map_str \<Rightarrow> (map_str, node_at) cmap \<Rightarrow> heap \<Rightarrow>
    (nat \<times> NetAddress list \<times> nat option \<times> heap) res" where
  "get_cp_address_others_mem uuid table h =
     bindE (get_cp_address_of_mem uuid table h) (\<lambda>(sel, sel_p, h).
     let inCount = int (length table) - 1
     in if 0 \<ge> inCount then bindE (heap_delete False sel_p h) (\<lambda>h. Inr (0, [], None, h))
        else let (pSPAddr, h) = heap_new (Many (nat inCount)) h
             in bindE (store_others sel (entries at_value table) 0 (replicate (nat inCount) NetAddress_new)) (\<lambda>(index, arr).
                bindE (heap_delete False sel_p h) (\<lambda>h. Inr (index, arr, pSPAddr, h))))"

section \<open>The connector\<close>

record tracker_mem =
  tm_last_receive_addr :: NetAddress
  tm_table :: "(map_str, node_at) cmap"
  tm_sent :: "(NetAddress \<times> bytes) list"
  tm_heap :: heap

definition sp_send_welcome_mem :: "env \<Rightarrow> map_str \<Rightarrow> tracker_mem \<Rightarrow> tracker_mem res" where
  "sp_send_welcome_mem env uuid t =
     (let welcome_msg = \<lparr>welcome_uuid = take UUID_LENGTH uuid\<rparr>
      in bindE (pack_mem (e_junk env) (Ts2SpWelcome_reserve welcome_msg) (Ts2SpWelcome_submsg welcome_msg) (tm_heap t))
           (\<lambda>(payload, payload_nb, h).
            let t = t\<lparr>tm_heap := h\<rparr>
            in Inr (if payload_nb \<noteq> 0 then t\<lparr>tm_sent := tm_sent t @ [(tm_last_receive_addr t, payload)]\<rparr> else t)))"

definition send_sp_list_mem :: "env \<Rightarrow> map_str \<Rightarrow> tracker_mem \<Rightarrow> tracker_mem res" where
  "send_sp_list_mem env uuid t =
     bindE (get_cp_address_others_mem uuid (tm_table t) (tm_heap t)) (\<lambda>(count, spaddr, p, h).
     if count = 0 then bindE (if p \<noteq> None then heap_delete True p h else Inr h) (\<lambda>h. Inr (t\<lparr>tm_heap := h\<rparr>))
     else
       let sp_list = \<lparr>splist_count = word_of_nat count, splist_addr = spaddr\<rparr>
       in bindE (pack_mem (e_junk env) (Ts2SpSpList_reserve sp_list) (Ts2SpSpList_submsg sp_list) h)
            (\<lambda>(payload, payload_nb, h). if payload_nb \<noteq> 0 then Inl Uninitialised
              else bindE (if p \<noteq> None then heap_delete True p h else Inr h) (\<lambda>h. Inr (t\<lparr>tm_heap := h\<rparr>))))"

definition get_register_mem :: "env \<Rightarrow> bytes \<Rightarrow> int \<Rightarrow> tracker_mem \<Rightarrow> tracker_mem res" where
  "get_register_mem env msg n t =
     bindE (Sp2TsRegister_parse (initialize msg n)) (\<lambda>(m, _).
     bindE (generate_uuid (e_rand env 0) (e_rand env 1) (e_rand env 2) (e_rand env 3)) (\<lambda>uuid.
     let pNode = (ChannelNode_new (e_now env) [])\<lparr>
           cn_userID := register_user_id m,
           cn_pswd := c_strncpy MD5_LEN (register_password m) @ [0],
           cn_servicePort := register_service_port m,
           cn_spAddress := \<lparr>sin_family = 0, sin_port = sin_port (tm_last_receive_addr t),
             s_addr = s_addr (tm_last_receive_addr t)\<rparr>,
           cn_spService := Some 0\<rparr>
     in bindE (insert_channel_mem (e_now env) uuid pNode (tm_table t) (tm_heap t)) (\<lambda>(table, h).
        bindE (sp_send_welcome_mem env uuid (t\<lparr>tm_table := table, tm_heap := h\<rparr>)) (\<lambda>t.
        bindE (delete_pHash_mem None (tm_heap t)) (\<lambda>h. Inr (t\<lparr>tm_heap := h\<rparr>))))))"

definition get_res_list_mem :: "env \<Rightarrow> bytes \<Rightarrow> int \<Rightarrow> tracker_mem \<Rightarrow> tracker_mem res" where
  "get_res_list_mem env msg n t =
     bindE (Sp2TsResList_parse (initialize msg n)) (\<lambda>(m, _).
     let uuid = reslist_uuid m @ [0]; (res_info, h) = heap_new (Many (unat (reslist_count m))) (tm_heap t)
     in bindE (get_channel_mem (e_now env) uuid (tm_table t) h) (\<lambda>(found, p, h).
     bindE (case found of None \<Rightarrow> Inr (p, t\<lparr>tm_heap := h\<rparr>)
     | Some node \<Rightarrow>
         let (p, h) = new_pHash_mem (reslist_count m) h;
             pNode = node\<lparr>cn_last_recv_report_time := e_now env, cn_resourceCount := reslist_count m,
               cn_pHash := map hash_of_info (take (unat (reslist_count m)) (reslist_info m))\<rparr>
         in bindE (insert_channel_mem (e_now env) uuid pNode (tm_table t) h) (\<lambda>(table, h).
            Inr (p, t\<lparr>tm_table := table, tm_heap := h\<rparr>)))
       (\<lambda>(p, t). bindE (delete_pHash_mem p (tm_heap t)) (\<lambda>h.
        bindE (if res_info \<noteq> None then heap_delete True res_info h else Inr h) (\<lambda>h. Inr (t\<lparr>tm_heap := h\<rparr>))))))"

definition get_sp_list_mem :: "env \<Rightarrow> bytes \<Rightarrow> int \<Rightarrow> tracker_mem \<Rightarrow> tracker_mem res" where
  "get_sp_list_mem env msg n t =
     bindE (Sp2TsSpList_parse (initialize msg n)) (\<lambda>(m, _). send_sp_list_mem env (getsp_uuid m @ [0]) t)"

definition get_status_mem :: "env \<Rightarrow> bytes \<Rightarrow> int \<Rightarrow> tracker_mem \<Rightarrow> tracker_mem res" where
  "get_status_mem env msg n t =
     bindE (Sp2TsStatus_parse (initialize msg n)) (\<lambda>(m, _).
     let uuid = status_uuid m @ [0]
     in bindE (get_channel_mem (e_now env) uuid (tm_table t) (tm_heap t)) (\<lambda>(found, p, h).
     bindE (case found of None \<Rightarrow> Inr (t\<lparr>tm_heap := h\<rparr>)
     | Some node \<Rightarrow>
         let pNode = node\<lparr>cn_last_recv_report_time := e_now env,
               cn_resourceCount := status_resource_count m, cn_conNum := status_connection_num m,
               cn_bandwidth := status_bandwidth m, cn_exceedMaxConn := (status_exceed_max_connection m \<noteq> 0)\<rparr>
         in bindE (insert_channel_mem (e_now env) uuid pNode (tm_table t) h) (\<lambda>(table, h).
            Inr (t\<lparr>tm_table := table, tm_heap := h\<rparr>)))
       (\<lambda>t. bindE (delete_pHash_mem p (tm_heap t)) (\<lambda>h. Inr (t\<lparr>tm_heap := h\<rparr>)))))"

definition sp_handle_udp_packet_mem :: "env \<Rightarrow> NetAddress \<Rightarrow> bytes \<Rightarrow> int \<Rightarrow> tracker_mem \<Rightarrow> (int \<times> tracker_mem) res" where
  "sp_handle_udp_packet_mem env fromaddr buf nb_buf t =
     (if nb_buf = 0 then Inr (-1, t)
      else
        let t = t\<lparr>tm_last_receive_addr := fromaddr\<rparr>
        in bindE (guardE Out_Of_Bounds (5 \<le> length buf)) (\<lambda>_.
           let msg_size = sint (dec (take 4 buf) :: u32); msg_type = buf ! 4;
               msg = drop 5 buf; sz = msg_size - 5
           in bindE
             (if msg_type = msg_code SP2TS_REGISTER then get_register_mem env msg sz t
              else if msg_type = msg_code SP2TS_STATUS then get_status_mem env msg sz t
              else if msg_type = msg_code SP2TS_RES_LIST then get_res_list_mem env msg sz t
              else if msg_type = msg_code SP2TS_GET_SP then get_sp_list_mem env msg sz t
              else Inr t)
             (\<lambda>t. Inr (0, t))))"

definition timer_check_mem :: "int \<Rightarrow> tracker_mem \<Rightarrow> tracker_mem res" where
  "timer_check_mem now t =
     bindE (check_channels_mem now (tm_table t) (tm_heap t)) (\<lambda>(table, h). Inr (t\<lparr>tm_table := table, tm_heap := h\<rparr>))"

section \<open>Who owns the memory\<close>

text \<open>
  A node of the table owns itself and its array of hashes, which is null for no hashes; what
  is on the heap besides belongs to someone else, or to nobody: \<open>F\<close>.
\<close>

definition node_cells :: "node_at \<Rightarrow> cells" where
  "node_cells n = add_mset (at_node n, One) (array_cells (at_pHash n) (unat (cn_resourceCount (at_value n))))"

definition owned :: "(map_str, node_at) cmap \<Rightarrow> heap \<Rightarrow> nat \<Rightarrow> cells \<Rightarrow> bool" where
  "owned table h d F \<longleftrightarrow> map_ordered map_str_lt table \<and>
     (\<forall>(k, n)\<in>set table. at_pHash n = None \<longleftrightarrow> cn_resourceCount (at_value n) = 0) \<and>
     ledger h d (map_cells node_cells table + F)"

definition array_of :: "u32 \<Rightarrow> alloc multiset" where
  "array_of c = (if c = 0 then {#} else {#Many (unat c)#})"

definition old_count :: "map_str \<Rightarrow> (map_str, node_at) cmap \<Rightarrow> u32" where
  "old_count uuid table = (case map_find map_str_lt uuid table of None \<Rightarrow> 0 | Some n \<Rightarrow> cn_resourceCount (at_value n))"

abbreviation mgr_of :: "(map_str, node_at) cmap \<Rightarrow> RsTrackerStreamManager" where
  "mgr_of table \<equiv> \<lparr>channel_map = entries at_value table\<rparr>"

lemma array_of_cells: "(p = None \<longleftrightarrow> c = 0) \<Longrightarrow> image_mset snd (array_cells p (unat c)) = array_of c"
  by (cases p) (auto simp: array_of_def)

lemma owned_ledger: "owned table h d F \<Longrightarrow> ledger h d (map_cells node_cells table + F)"
  by (simp add: owned_def)

lemma owned_entry:
  assumes "owned table h d F" "map_find map_str_lt uuid table = Some n"
  shows "at_pHash n = None \<longleftrightarrow> cn_resourceCount (at_value n) = 0"
  using assms map_find_in_set[OF assms(2)] by (auto simp: owned_def)

lemma new_pHash_owned:
  assumes "ledger h d M"
  obtains p h' where "new_pHash_mem c h = (p, h')" "p = None \<longleftrightarrow> c = 0" "ledger h' d (array_cells p (unat c) + M)"
proof (cases "c = 0")
  case True
  then show ?thesis using that[of None h] assms by (simp add: new_pHash_mem_def)
next
  case False
  obtain p h' where new: "heap_new (Many (unat c)) h = (p, h')" by fastforce
  then obtain a where "p = Some a" "ledger h' d (add_mset (a, Many (unat c)) M)" using ledger_new[OF assms new] by blast
  then show ?thesis using that[of p h'] False new by (simp add: new_pHash_mem_def word_gt_0)
qed

lemma delete_pHash_owned:
  "ledger h d (array_cells p c + M) \<Longrightarrow> \<exists>h'. delete_pHash_mem p h = Inr h' \<and> ledger h' d M"
  using ledger_delete_array[of h d p c M] by (auto simp: delete_pHash_mem_def)

lemma node_delete_owned:
  assumes "ledger h d (node_cells n + M)"
  shows "\<exists>h'. node_delete n h = Inr h' \<and> ledger h' d M"
proof -
  have "ledger h d (array_cells (at_pHash n) (unat (cn_resourceCount (at_value n))) + add_mset (at_node n, One) M)"
    using assms by (simp add: node_cells_def)
  from delete_pHash_owned[OF this] obtain h1 where h1: "delete_pHash_mem (at_pHash n) h = Inr h1"
    "ledger h1 d (add_mset (at_node n, One) M)" by blast
  show ?thesis using ledger_delete[OF h1(2), of False] h1(1) by (simp add: node_delete_def)
qed

section \<open>The table with and without the heap\<close>

lemma get_channel_mem_alike:
  assumes "owned table h d F"
  shows "alike (\<lambda>(found, p, h') found'. found = found' \<and> (found = None \<longleftrightarrow> map_find map_str_lt uuid table = None) \<and>
      (p = None \<longleftrightarrow> old_count uuid table = 0) \<and> owned table h' d (array_cells p (unat (old_count uuid table)) + F))
    (get_channel_mem now uuid table h) (get_channel now uuid (mgr_of table))"
proof (cases "map_find map_str_lt uuid table")
  case None
  then show ?thesis using assms by (simp add: get_channel_mem_def get_channel_def find_entries old_count_def)
next
  case (Some n)
  obtain p h' where "new_pHash_mem (cn_resourceCount (at_value n)) h = (p, h')" "p = None \<longleftrightarrow> cn_resourceCount (at_value n) = 0"
    "ledger h' d (array_cells p (unat (cn_resourceCount (at_value n))) + (map_cells node_cells table + F))"
    using new_pHash_owned[OF owned_ledger[OF assms], of "cn_resourceCount (at_value n)"] by blast
  then show ?thesis using assms Some
    by (cases "ChannelNode_assign now (at_value n)")
      (auto simp: get_channel_mem_def get_channel_def find_entries old_count_def ChannelNode_assign_mem_def owned_def ac_simps)
qed

lemma node_assign_count: "ChannelNode_assign now n = Inr n' \<Longrightarrow> cn_resourceCount n' = cn_resourceCount n"
  by (auto simp: ChannelNode_assign_def res_invert)

text \<open>What \<open>insert_channel\<close> loses: the array of the node it assigns to.\<close>

definition inserted :: "(map_str, node_at) cmap \<Rightarrow> map_str \<Rightarrow> nat \<Rightarrow> cells \<Rightarrow>
    (map_str, node_at) cmap \<times> heap \<Rightarrow> RsTrackerStreamManager \<Rightarrow> bool" where
  "inserted table uuid d F = (\<lambda>(table', h') mgr'. mgr' = mgr_of table' \<and>
     (\<exists>L. owned table' h' d (L + F) \<and> image_mset snd L = array_of (old_count uuid table)))"

lemma insert_channel_new:
  assumes "owned table h d F" "map_find map_str_lt uuid table = None"
  shows "alike (inserted table uuid d F) (insert_channel_mem now uuid chnl table h) (insert_channel now uuid chnl (mgr_of table))"
proof -
  obtain q h1 where new: "heap_new One h = (q, h1)" by fastforce
  obtain a where a: "q = Some a" "ledger h1 d (add_mset (a, One) (map_cells node_cells table + F))"
    using ledger_new[OF owned_ledger[OF assms(1)] new] by blast
  obtain p h2 where p: "new_pHash_mem (cn_resourceCount chnl) h1 = (p, h2)" "p = None \<longleftrightarrow> cn_resourceCount chnl = 0"
    "ledger h2 d (array_cells p (unat (cn_resourceCount chnl)) + add_mset (a, One) (map_cells node_cells table + F))"
    using new_pHash_owned[OF a(2), of "cn_resourceCount chnl"] by blast
  show ?thesis
  proof (cases "ChannelNode_assign now chnl")
    case (Inl e)
    then show ?thesis using assms(2) new p(1)
      by (simp add: insert_channel_mem_def insert_channel_def get_channel_mem_def get_channel_def find_entries ChannelNode_assign_mem_def)
  next
    case (Inr n)
    let ?n = "\<lparr>at_node = a, at_pHash = p, at_value = n\<rparr>"
    obtain t where ins: "map_insert map_str_lt uuid ?n table = (t, True)"
      using mapstr.insert_new(1)[OF assms(2), of ?n] by (metis prod.collapse)
    have plain: "map_insert map_str_lt uuid n (entries at_value table) = (entries at_value t, True)"
      using insert_entries[of map_str_lt uuid at_value ?n table] unfolding ins by simp
    have "map_ordered map_str_lt t"
      using assms(1) mapstr.insert_ordered[of table uuid ?n] unfolding ins by (simp add: owned_def)
    moreover have "\<forall>(k, n)\<in>set t. at_pHash n = None \<longleftrightarrow> cn_resourceCount (at_value n) = 0"
      using assms(1) p(2) node_assign_count[OF Inr] map_insert_subset[of map_str_lt uuid ?n table] unfolding ins owned_def by fastforce
    moreover have "ledger h2 d (map_cells node_cells t + F)"
      using p(3) node_assign_count[OF Inr] map_cells_insert[OF assms(2), of node_cells ?n] unfolding ins by (simp add: node_cells_def ac_simps)
    ultimately have "owned t h2 d F" by (simp add: owned_def)
    then show ?thesis using assms(2) new a(1) p(1) Inr ins plain
      by (auto simp: insert_channel_mem_def insert_channel_def get_channel_mem_def get_channel_def find_entries
          ChannelNode_assign_mem_def delete_pHash_mem_def inserted_def old_count_def array_of_def)
  qed
qed

lemma insert_channel_over:
  assumes "owned table h d F" "map_find map_str_lt uuid table = Some m"
  shows "alike (inserted table uuid d F) (insert_channel_mem now uuid chnl table h) (insert_channel now uuid chnl (mgr_of table))"
proof -
  obtain p h1 where p: "new_pHash_mem (cn_resourceCount (at_value m)) h = (p, h1)"
    "ledger h1 d (array_cells p (unat (cn_resourceCount (at_value m))) + (map_cells node_cells table + F))"
    using new_pHash_owned[OF owned_ledger[OF assms(1)], of "cn_resourceCount (at_value m)"] by blast
  obtain q h2 where q: "new_pHash_mem (cn_resourceCount chnl) h1 = (q, h2)" "q = None \<longleftrightarrow> cn_resourceCount chnl = 0"
    "ledger h2 d (array_cells q (unat (cn_resourceCount chnl)) +
      (array_cells p (unat (cn_resourceCount (at_value m))) + (map_cells node_cells table + F)))"
    using new_pHash_owned[OF p(2), of "cn_resourceCount chnl"] by blast
  then obtain h3 where h3: "delete_pHash_mem p h2 = Inr h3"
    "ledger h3 d (array_cells q (unat (cn_resourceCount chnl)) + (map_cells node_cells table + F))"
    using delete_pHash_owned[of h2 d p "unat (cn_resourceCount (at_value m))"
        "array_cells q (unat (cn_resourceCount chnl)) + (map_cells node_cells table + F)"] by (auto simp: ac_simps)
  show ?thesis
  proof (cases "ChannelNode_assign now chnl")
    case (Inl e)
    then show ?thesis using assms(2) p(1) q(1)
      by (cases "ChannelNode_assign now (at_value m)")
        (simp_all add: insert_channel_mem_def insert_channel_def get_channel_mem_def get_channel_def find_entries
          ChannelNode_assign_mem_def get_node_def)
  next
    case (Inr n)
    let ?n = "m\<lparr>at_pHash := q, at_value := n\<rparr>"
    let ?t = "map_assign map_str_lt uuid ?n table" and ?L = "array_cells (at_pHash m) (unat (cn_resourceCount (at_value m)))"
    have "node_cells m + map_cells node_cells ?t = node_cells ?n + map_cells node_cells table"
      by (rule map_cells_assign[OF assms(2)])
    then have cells: "?L + map_cells node_cells ?t =
        array_cells q (unat (cn_resourceCount chnl)) + map_cells node_cells table"
      using node_assign_count[OF Inr] by (simp add: node_cells_def)
    have "map_ordered map_str_lt ?t" using assms(1) by (simp add: owned_def)
    moreover have "\<forall>(k, n)\<in>set ?t. at_pHash n = None \<longleftrightarrow> cn_resourceCount (at_value n) = 0"
      using assms(1) q(2) node_assign_count[OF Inr] map_assign_subset[of map_str_lt uuid ?n table] by (fastforce simp: owned_def)
    moreover have "ledger h3 d (map_cells node_cells ?t + (?L + F))"
      using h3(2) unfolding add.assoc[symmetric] cells[symmetric] by (simp add: ac_simps)
    ultimately have "owned ?t h3 d (?L + F)" by (simp add: owned_def)
    moreover have "image_mset snd ?L = array_of (old_count uuid table)"
      using array_of_cells[OF owned_entry[OF assms]] assms(2) by (simp add: old_count_def)
    moreover have "entries at_value ?t = map_assign map_str_lt uuid n (entries at_value table)"
      using assign_entries[of map_str_lt uuid at_value ?n table] by simp
    ultimately show ?thesis using assms(2) p(1) q(1) h3(1) Inr
      by (cases "ChannelNode_assign now (at_value m)")
        (auto simp: insert_channel_mem_def insert_channel_def get_channel_mem_def get_channel_def find_entries
          ChannelNode_assign_mem_def get_node_def inserted_def)
  qed
qed

lemma insert_channel_mem_alike:
  "owned table h d F \<Longrightarrow>
    alike (inserted table uuid d F) (insert_channel_mem now uuid chnl table h) (insert_channel now uuid chnl (mgr_of table))"
  using insert_channel_new insert_channel_over by (cases "map_find map_str_lt uuid table") blast+

lemma alike_Inr_right:
  "alike (inserted table uuid d F) x y \<Longrightarrow> x = Inr (table', h') \<Longrightarrow> \<exists>L. y = Inr (mgr_of table') \<and>
    owned table' h' d (L + F) \<and> image_mset snd L = array_of (old_count uuid table)"
  by (cases y) (auto simp: inserted_def)

lemma check_channels_mem_alike:
  assumes "owned table h d F"
  shows "\<exists>table' h'. check_channels_mem now table h = Inr (table', h') \<and> owned table' h' d F \<and>
    entries at_value table' = check_channels now (entries at_value table)"
proof -
  have "\<exists>table' h'. check_channels_mem now table h = Inr (table', h') \<and> ledger h' d (map_cells node_cells table' + F) \<and>
      entries at_value table' = check_channels now (entries at_value table) \<and> set table' \<subseteq> set table \<and>
      (map_ordered map_str_lt table \<longrightarrow> map_ordered map_str_lt table')"
    if "ledger h d (map_cells node_cells table + F)" for table h F
    using that
  proof (induction now table h arbitrary: F rule: check_channels_mem.induct)
    case (2 now k n m h)
    show ?case
    proof (cases "now - cn_last_recv_report_time (at_value n) > MAX_IDLE_TIME_SEC")
      case True
      have "ledger h d (node_cells n + (map_cells node_cells m + F))" using 2(3) by (simp add: ac_simps)
      then obtain h1 where h1: "node_delete n h = Inr h1" "ledger h1 d (map_cells node_cells m + F)"
        using node_delete_owned by blast
      show ?thesis using 2(1)[OF True h1] True h1(1) by auto
    next
      case False
      have "ledger h d (map_cells node_cells m + (node_cells n + F))" using 2(3) by (simp add: ac_simps)
      from 2(2)[OF False this] show ?thesis using False by (fastforce simp: ac_simps)
    qed
  qed simp
  from this[OF owned_ledger[OF assms]] obtain table' h' where r: "check_channels_mem now table h = Inr (table', h')"
    "ledger h' d (map_cells node_cells table' + F)" "entries at_value table' = check_channels now (entries at_value table)"
    "set table' \<subseteq> set table" "map_ordered map_str_lt table \<longrightarrow> map_ordered map_str_lt table'" by blast
  then have "owned table' h' d F" using assms by (auto simp: owned_def)
  then show ?thesis using r(1,3) by blast
qed

lemma delete_channel_mem_owned:
  assumes "owned table h d F"
  shows "\<exists>table' h'. delete_channel_mem uuid table h = Inr (table', h') \<and> owned table' h' d F \<and>
    mgr_of table' = delete_channel uuid (mgr_of table)"
proof (cases "map_find map_str_lt uuid table")
  case None
  then show ?thesis using assms by (simp add: delete_channel_mem_def delete_channel_def find_entries)
next
  case (Some n)
  have "ledger h d (node_cells n + (map_cells node_cells (map_erase map_str_lt uuid table) + F))"
    using owned_ledger[OF assms] map_cells_erase[OF Some, of node_cells] by (simp add: ac_simps)
  then obtain h' where "node_delete n h = Inr h'" "ledger h' d (map_cells node_cells (map_erase map_str_lt uuid table) + F)"
    using node_delete_owned by blast
  then show ?thesis
    using assms Some map_erase_ordered[of map_str_lt table uuid] map_erase_subset[of map_str_lt uuid table]
    by (auto simp: delete_channel_mem_def delete_channel_def find_entries erase_entries owned_def)
qed

section \<open>The handlers with and without the heap\<close>

definition without_heap :: "tracker_mem \<Rightarrow> RsSpTracker" where
  "without_heap t = \<lparr>spt_last_receive_addr = tm_last_receive_addr t, spt_mgr = mgr_of (tm_table t), spt_sent = tm_sent t\<rparr>"

text \<open>The same tracker, with the same memory and what was lost.\<close>

definition loses :: "nat \<Rightarrow> cells \<Rightarrow> alloc multiset \<Rightarrow> tracker_mem \<Rightarrow> RsSpTracker \<Rightarrow> bool" where
  "loses d F K t t' \<longleftrightarrow> t' = without_heap t \<and> (\<exists>L. owned (tm_table t) (tm_heap t) d (L + F) \<and> image_mset snd L = K)"

lemma pack_mem_ledger:
  assumes "ledger h d M"
  shows "alike (\<lambda>(x, nb, h') y. y = (x, nb) \<and> (\<exists>a. ledger h' d (add_mset (a, Many (nat r)) M)))
    (pack_mem junk r submsg h) (RsMessage_pack junk r submsg)"
proof -
  obtain p h' where new: "heap_new (Many (nat r)) h = (p, h')" by fastforce
  obtain a where "ledger h' d (add_mset (a, Many (nat r)) M)" using ledger_new[OF assms new] by blast
  then show ?thesis by (cases "RsMessage_pack junk r submsg") (auto simp: pack_mem_def new)
qed

lemma welcome_alike:
  assumes "owned (tm_table t) (tm_heap t) d (L + F)"
  shows "alike (loses d F (add_mset (Many 21) (image_mset snd L))) (sp_send_welcome_mem env uuid t)
    (sp_send_welcome env uuid (without_heap t))"
proof -
  let ?m = "\<lparr>welcome_uuid = take UUID_LENGTH uuid\<rparr>"
  have r: "nat (Ts2SpWelcome_reserve ?m) = 21" by (simp add: Ts2SpWelcome_reserve_def RsMessage_reserve_pack_size_def)
  have frame: "owned (tm_table t) h d (add_mset (a, Many 21) L + F)"
    if "ledger h d (add_mset (a, Many 21) (map_cells node_cells (tm_table t) + (L + F)))" for h a
    using that assms by (simp add: owned_def)
  have after: "loses d F (add_mset (Many 21) (image_mset snd L))
        (if nb \<noteq> 0 then t\<lparr>tm_heap := h, tm_sent := tm_sent (t\<lparr>tm_heap := h\<rparr>) @
          [(tm_last_receive_addr (t\<lparr>tm_heap := h\<rparr>), x)]\<rparr> else t\<lparr>tm_heap := h\<rparr>)
        (sp_send_buffer x nb (without_heap t))"
    if "ledger h d (add_mset (a, Many 21) (map_cells node_cells (tm_table t) + (L + F)))" for x nb h a
    using frame[OF that] by (auto simp: loses_def sp_send_buffer_def without_heap_def intro!: exI[of _ "add_mset (a, Many 21) L"])
  show ?thesis
    unfolding sp_send_welcome_mem_def sp_send_welcome_def Let_def
    by (rule alike_bind[OF pack_mem_ledger[OF owned_ledger[OF assms]]])
      (auto simp: r split del: if_split intro!: after)
qed

lemma owned_change: "owned table h d F \<Longrightarrow> ledger h' d' (map_cells node_cells table + F') \<Longrightarrow> owned table h' d' F'"
  by (simp add: owned_def)

lemma owned_new:
  assumes "owned table h d F" "heap_new k h = (p, h')"
  obtains a where "p = Some a" "owned table h' d (add_mset (a, k) F)"
proof -
  obtain a where "p = Some a" "ledger h' d (add_mset (a, k) (map_cells node_cells table + F))"
    using ledger_new[OF owned_ledger[OF assms(1)] assms(2)] by blast
  then show ?thesis using that[of a] owned_change[OF assms(1)] by simp
qed

lemma owned_new_pHash:
  assumes "owned table h d F"
  obtains p h' where "new_pHash_mem c h = (p, h')" "p = None \<longleftrightarrow> c = 0" "owned table h' d (array_cells p (unat c) + F)"
proof -
  obtain p h' where "new_pHash_mem c h = (p, h')" "p = None \<longleftrightarrow> c = 0"
    "ledger h' d (array_cells p (unat c) + (map_cells node_cells table + F))"
    using new_pHash_owned[OF owned_ledger[OF assms], of c] by blast
  then show ?thesis using that[of p h'] owned_change[OF assms, of h' d "array_cells p (unat c) + F"] by (simp add: ac_simps)
qed

lemma owned_delete:
  assumes "owned table h d (array_cells p c + F)"
  shows "\<exists>h'. heap_delete True p h = Inr h' \<and> owned table h' d F"
    and "\<exists>h'. delete_pHash_mem p h = Inr h' \<and> owned table h' d F"
  using assms ledger_delete_array[of h d p c "map_cells node_cells table + F"]
    delete_pHash_owned[of h d p c "map_cells node_cells table + F"]
  by (auto simp: owned_def ac_simps)

lemma owned_delete_mixed:
  assumes "owned table h d (add_mset (a, Many c) F)"
  shows "\<exists>h'. heap_delete False (Some a) h = Inr h' \<and> owned table h' (Suc d) F"
  using assms ledger_delete[of h d a "Many c" "map_cells node_cells table + F" False] by (auto simp: owned_def)

subsection \<open>Registration\<close>

definition register_loss :: "env \<Rightarrow> tracker_mem \<Rightarrow> alloc multiset" where
  "register_loss env t =
     (case generate_uuid (e_rand env 0) (e_rand env 1) (e_rand env 2) (e_rand env 3) of
        Inl _ \<Rightarrow> {#} | Inr uuid \<Rightarrow> add_mset (Many 21) (array_of (old_count uuid (tm_table t))))"

lemma alike_after: "alike R m p \<Longrightarrow> (\<And>x y. R x y \<Longrightarrow> \<exists>z. f x = Inr z \<and> S z y) \<Longrightarrow> alike S (bindE m f) p"
  by (cases m; cases p) fastforce+

lemma get_register_alike:
  assumes "owned (tm_table t) (tm_heap t) d F"
  shows "alike (loses d F (register_loss env t)) (get_register_mem env msg n t) (get_register env msg n (without_heap t))"
proof -
  have after: "alike (loses d F (add_mset (Many 21) (array_of (old_count uuid (tm_table t)))))
      (bindE (sp_send_welcome_mem env uuid (t\<lparr>tm_table := table, tm_heap := h\<rparr>)) (\<lambda>t.
        bindE (delete_pHash_mem None (tm_heap t)) (\<lambda>h. Inr (t\<lparr>tm_heap := h\<rparr>))))
      (sp_send_welcome env uuid (without_heap t\<lparr>spt_mgr := mgr\<rparr>))"
    if ins: "inserted (tm_table t) uuid d F (table, h) mgr" for uuid table h mgr
  proof -
    obtain L where L: "mgr = mgr_of table" "owned table h d (L + F)" "image_mset snd L = array_of (old_count uuid (tm_table t))"
      using ins by (auto simp: inserted_def)
    let ?t = "t\<lparr>tm_table := table, tm_heap := h\<rparr>"
    have "without_heap t\<lparr>spt_mgr := mgr\<rparr> = without_heap ?t" using L(1) by (simp add: without_heap_def)
    then show ?thesis
      using welcome_alike[of ?t d L F env uuid] L(2,3) by (auto simp: delete_pHash_mem_def intro: alike_after)
  qed
  show ?thesis
    unfolding get_register_mem_def get_register_def
  proof (rule alike_bind_same, clarify, rule alike_bind_same)
    fix m st uuid
    let ?chnl = "(ChannelNode_new (e_now env) [])\<lparr>
           cn_userID := register_user_id m,
           cn_pswd := c_strncpy MD5_LEN (register_password m) @ [0],
           cn_servicePort := register_service_port m,
           cn_spAddress := \<lparr>sin_family = 0, sin_port = sin_port (tm_last_receive_addr t),
             s_addr = s_addr (tm_last_receive_addr t)\<rparr>,
           cn_spService := Some 0\<rparr>"
    assume "generate_uuid (e_rand env 0) (e_rand env 1) (e_rand env 2) (e_rand env 3) = Inr uuid"
    then have loss: "register_loss env t = add_mset (Many 21) (array_of (old_count uuid (tm_table t)))"
      by (simp add: register_loss_def)
    have "alike (loses d F (register_loss env t))
      (bindE (insert_channel_mem (e_now env) uuid ?chnl (tm_table t) (tm_heap t)) (\<lambda>(table, h).
        bindE (sp_send_welcome_mem env uuid (t\<lparr>tm_table := table, tm_heap := h\<rparr>)) (\<lambda>t.
        bindE (delete_pHash_mem None (tm_heap t)) (\<lambda>h. Inr (t\<lparr>tm_heap := h\<rparr>)))))
      (bindE (insert_channel (e_now env) uuid ?chnl (mgr_of (tm_table t))) (\<lambda>mgr.
        sp_send_welcome env uuid (without_heap t\<lparr>spt_mgr := mgr\<rparr>)))"
      unfolding loss by (rule alike_bind[OF insert_channel_mem_alike[OF assms]]) (auto intro!: after)
    then show "alike (loses d F (register_loss env t))
      (let pNode = ?chnl in bindE (insert_channel_mem (e_now env) uuid pNode (tm_table t) (tm_heap t)) (\<lambda>(table, h).
        bindE (sp_send_welcome_mem env uuid (t\<lparr>tm_table := table, tm_heap := h\<rparr>)) (\<lambda>t.
        bindE (delete_pHash_mem None (tm_heap t)) (\<lambda>h. Inr (t\<lparr>tm_heap := h\<rparr>)))))
      (let pNode = (ChannelNode_new (e_now env) [])\<lparr>
           cn_userID := register_user_id m,
           cn_pswd := c_strncpy MD5_LEN (register_password m) @ [0],
           cn_servicePort := register_service_port m,
           cn_spAddress := \<lparr>sin_family = 0, sin_port = sin_port (spt_last_receive_addr (without_heap t)),
             s_addr = s_addr (spt_last_receive_addr (without_heap t))\<rparr>,
           cn_spService := Some 0\<rparr>
       in bindE (insert_channel (e_now env) uuid pNode (spt_mgr (without_heap t))) (\<lambda>mgr.
        sp_send_welcome env uuid (without_heap t\<lparr>spt_mgr := mgr\<rparr>)))"
      by (simp add: Let_def without_heap_def)
  qed
qed

subsection \<open>The list of resources\<close>

text \<open>
  Two arrays as long as the old list: the one \<open>get_channel\<close> made for the copy, which the copy's
  new array replaces, and the one of the node in the table.
\<close>

definition reslist_loss :: "Sp2TsResList \<Rightarrow> tracker_mem \<Rightarrow> alloc multiset" where
  "reslist_loss m t = (let c = old_count (reslist_uuid m @ [0]) (tm_table t) in array_of c + array_of c)"

definition reslist_node :: "env \<Rightarrow> Sp2TsResList \<Rightarrow> ChannelNode \<Rightarrow> ChannelNode" where
  "reslist_node env m node = node\<lparr>cn_last_recv_report_time := e_now env, cn_resourceCount := reslist_count m,
     cn_pHash := map hash_of_info (take (unat (reslist_count m)) (reslist_info m))\<rparr>"

lemma inserted_step:
  assumes "inserted table uuid d F (table', h') mgr'"
  obtains L where "mgr' = mgr_of table'" "owned table' h' d (L + F)" "image_mset snd L = array_of (old_count uuid table)"
  using assms by (auto simp: inserted_def)

lemma reslist_stored:
  assumes "owned (tm_table t) h d (array_cells q (unat c) + F)" "c = old_count uuid (tm_table t)" "q = None \<longleftrightarrow> c = 0"
  shows "alike (\<lambda>(p, t') t''. t'' = without_heap t' \<and> (\<exists>L k. owned (tm_table t') (tm_heap t') d (array_cells p k + (L + F)) \<and>
      image_mset snd L = array_of c + array_of c))
    (let (p, h) = new_pHash_mem k h in bindE (insert_channel_mem now uuid chnl (tm_table t) h) (\<lambda>(table, h).
      Inr (p, t\<lparr>tm_table := table, tm_heap := h\<rparr>)))
    (bindE (insert_channel now uuid chnl (mgr_of (tm_table t))) (\<lambda>mgr. Inr (without_heap t\<lparr>spt_mgr := mgr\<rparr>)))"
proof -
  obtain p h' where p: "new_pHash_mem k h = (p, h')" "owned (tm_table t) h' d (array_cells p (unat k) + (array_cells q (unat c) + F))"
    using owned_new_pHash[OF assms(1), of k] by blast
  have after: "without_heap t\<lparr>spt_mgr := mgr\<rparr> = without_heap (t\<lparr>tm_table := table, tm_heap := h\<rparr>) \<and>
      (\<exists>L k. owned table h d (array_cells p k + (L + F)) \<and> image_mset snd L = array_of c + array_of c)"
    if ins: "inserted (tm_table t) uuid d (array_cells p (unat k) + (array_cells q (unat c) + F)) (table, h) mgr" for table h mgr
  proof -
    obtain L where L: "mgr = mgr_of table" "owned table h d (L + (array_cells p (unat k) + (array_cells q (unat c) + F)))"
      "image_mset snd L = array_of c"
      using inserted_step[OF ins] assms(2) by blast
    have "owned table h d (array_cells p (unat k) + ((L + array_cells q (unat c)) + F))" using L(2) by (simp add: ac_simps)
    moreover have "image_mset snd (L + array_cells q (unat c)) = array_of c + array_of c"
      using L(3) array_of_cells[OF assms(3)] by simp
    ultimately show ?thesis unfolding L(1) by (auto simp: without_heap_def)
  qed
  show ?thesis
    unfolding p(1) Let_def prod.case
    by (rule alike_bind[OF insert_channel_mem_alike[OF p(2)]]) (auto dest!: after, blast)
qed

text \<open>The answer to \<open>get_channel\<close>, and what is destroyed at the end.\<close>

definition reslist_kept :: "Sp2TsResList \<Rightarrow> tracker_mem \<Rightarrow> nat \<Rightarrow> cells \<Rightarrow> nat option \<times> tracker_mem \<Rightarrow> RsSpTracker \<Rightarrow> bool" where
  "reslist_kept m t d F = (\<lambda>(p, t') t''. t'' = without_heap t' \<and>
     (\<exists>L k. owned (tm_table t') (tm_heap t') d (array_cells p k + (L + F)) \<and> image_mset snd L = reslist_loss m t))"

lemma reslist_found:
  fixes m :: Sp2TsResList
  assumes "owned (tm_table t) h d F"
  defines "uuid \<equiv> reslist_uuid m @ [0]"
  shows "alike (reslist_kept m t d F)
      (bindE (get_channel_mem (e_now env) uuid (tm_table t) h) (\<lambda>(found, p, h).
        case found of None \<Rightarrow> Inr (p, t\<lparr>tm_heap := h\<rparr>)
        | Some node \<Rightarrow> let (p, h) = new_pHash_mem (reslist_count m) h
            in bindE (insert_channel_mem (e_now env) uuid (reslist_node env m node) (tm_table t) h) (\<lambda>(table, h).
               Inr (p, t\<lparr>tm_table := table, tm_heap := h\<rparr>))))
      (bindE (get_channel (e_now env) uuid (mgr_of (tm_table t))) (\<lambda>found.
        case found of None \<Rightarrow> send_errormsg (without_heap t)
        | Some node \<Rightarrow> bindE (insert_channel (e_now env) uuid (reslist_node env m node) (mgr_of (tm_table t)))
            (\<lambda>mgr. Inr (without_heap t\<lparr>spt_mgr := mgr\<rparr>))))"
proof (rule alike_bind[OF get_channel_mem_alike[OF assms(1)]], clarify)
  fix f :: "ChannelNode option" and q h'
  let ?c = "old_count uuid (tm_table t)"
  assume f: "f = None \<longleftrightarrow> map_find map_str_lt uuid (tm_table t) = None" "q = None \<longleftrightarrow> ?c = 0"
    "owned (tm_table t) h' d (array_cells q (unat ?c) + F)"
  show "alike (reslist_kept m t d F)
      (case f of None \<Rightarrow> Inr (q, t\<lparr>tm_heap := h'\<rparr>)
        | Some node \<Rightarrow> let (p, h) = new_pHash_mem (reslist_count m) h'
            in bindE (insert_channel_mem (e_now env) uuid (reslist_node env m node) (tm_table t) h) (\<lambda>(table, h).
               Inr (p, t\<lparr>tm_table := table, tm_heap := h\<rparr>)))
      (case f of None \<Rightarrow> send_errormsg (without_heap t)
        | Some node \<Rightarrow> bindE (insert_channel (e_now env) uuid (reslist_node env m node) (mgr_of (tm_table t)))
            (\<lambda>mgr. Inr (without_heap t\<lparr>spt_mgr := mgr\<rparr>)))"
  proof (cases f)
    case None
    then have "?c = 0" "q = None" using f by (simp_all add: old_count_def)
    then show ?thesis using None f(3)
      by (auto simp: reslist_kept_def send_errormsg_def without_heap_def reslist_loss_def array_of_def uuid_def intro!: exI[of _ "{#}"])
  next
    case (Some node)
    show ?thesis unfolding Some option.case reslist_kept_def reslist_loss_def Let_def[of ?c] uuid_def[symmetric]
      by (rule reslist_stored[OF f(3) refl f(2)])
  qed
qed

lemma reslist_destroyed:
  assumes "reslist_kept m t d (array_cells r k + F) (p, t') t''"
  shows "\<exists>z. bindE (delete_pHash_mem p (tm_heap t')) (\<lambda>h. bindE (if r \<noteq> None then heap_delete True r h else Inr h)
      (\<lambda>h. Inr (t'\<lparr>tm_heap := h\<rparr>))) = Inr z \<and> loses d F (reslist_loss m t) z t''"
proof -
  obtain L j where L: "t'' = without_heap t'" "owned (tm_table t') (tm_heap t') d (array_cells p j + (array_cells r k + (L + F)))"
    "image_mset snd L = reslist_loss m t" using assms by (auto simp: reslist_kept_def ac_simps)
  obtain h where h: "delete_pHash_mem p (tm_heap t') = Inr h" "owned (tm_table t') h d (array_cells r k + (L + F))"
    using owned_delete(2)[OF L(2)] by blast
  obtain h' where "heap_delete True r h = Inr h'" "owned (tm_table t') h' d (L + F)" using owned_delete(1)[OF h(2)] by blast
  then show ?thesis using h L(1,3) by (cases r) (auto simp: loses_def without_heap_def heap_delete_def)
qed

lemma mgr_without [simp]: "spt_mgr (without_heap t) = mgr_of (tm_table t)"
  by (simp add: without_heap_def)

lemma get_res_list_nodes:
  "get_res_list env msg n (without_heap t) = bindE (Sp2TsResList_parse (initialize msg n)) (\<lambda>(m, _).
     bindE (get_channel (e_now env) (reslist_uuid m @ [0]) (mgr_of (tm_table t))) (\<lambda>found.
     case found of None \<Rightarrow> send_errormsg (without_heap t)
     | Some node \<Rightarrow> bindE (insert_channel (e_now env) (reslist_uuid m @ [0]) (reslist_node env m node) (mgr_of (tm_table t)))
         (\<lambda>mgr. Inr (without_heap t\<lparr>spt_mgr := mgr\<rparr>))))"
  "get_res_list_mem env msg n t = bindE (Sp2TsResList_parse (initialize msg n)) (\<lambda>(m, _).
     let (res_info, h) = heap_new (Many (unat (reslist_count m))) (tm_heap t)
     in bindE (bindE (get_channel_mem (e_now env) (reslist_uuid m @ [0]) (tm_table t) h) (\<lambda>(found, p, h).
        case found of None \<Rightarrow> Inr (p, t\<lparr>tm_heap := h\<rparr>)
        | Some node \<Rightarrow> let (p, h) = new_pHash_mem (reslist_count m) h
            in bindE (insert_channel_mem (e_now env) (reslist_uuid m @ [0]) (reslist_node env m node) (tm_table t) h)
              (\<lambda>(table, h). Inr (p, t\<lparr>tm_table := table, tm_heap := h\<rparr>))))
       (\<lambda>(p, t). bindE (delete_pHash_mem p (tm_heap t)) (\<lambda>h.
        bindE (if res_info \<noteq> None then heap_delete True res_info h else Inr h) (\<lambda>h. Inr (t\<lparr>tm_heap := h\<rparr>)))))"
  unfolding get_res_list_def get_res_list_mem_def reslist_node_def Let_def mgr_without bindE_assoc
  by (simp_all only: case_prod_unfold)

lemma get_res_list_alike:
  assumes "owned (tm_table t) (tm_heap t) d F"
  shows "alike (\<lambda>t' t''. \<exists>m s. Sp2TsResList_parse (initialize msg n) = Inr (m, s) \<and> loses d F (reslist_loss m t) t' t'')
    (get_res_list_mem env msg n t) (get_res_list env msg n (without_heap t))"
  unfolding get_res_list_nodes
proof (rule alike_bind_same, clarify)
  fix m :: Sp2TsResList and s :: streamer
  assume m: "Sp2TsResList_parse (initialize msg n) = Inr (m, s)"
  obtain r h where r: "heap_new (Many (unat (reslist_count m))) (tm_heap t) = (r, h)" by fastforce
  obtain a where "r = Some a" "owned (tm_table t) h d (add_mset (a, Many (unat (reslist_count m))) F)"
    using owned_new[OF assms r] by blast
  then have F: "owned (tm_table t) h d (array_cells r (unat (reslist_count m)) + F)" by simp
  show "alike (\<lambda>t' t''. \<exists>m s. Sp2TsResList_parse (initialize msg n) = Inr (m, s) \<and> loses d F (reslist_loss m t) t' t'')
     (let (res_info, h) = heap_new (Many (unat (reslist_count m))) (tm_heap t)
     in bindE (bindE (get_channel_mem (e_now env) (reslist_uuid m @ [0]) (tm_table t) h) (\<lambda>(found, p, h).
        case found of None \<Rightarrow> Inr (p, t\<lparr>tm_heap := h\<rparr>)
        | Some node \<Rightarrow> let (p, h) = new_pHash_mem (reslist_count m) h
            in bindE (insert_channel_mem (e_now env) (reslist_uuid m @ [0]) (reslist_node env m node) (tm_table t) h)
              (\<lambda>(table, h). Inr (p, t\<lparr>tm_table := table, tm_heap := h\<rparr>))))
       (\<lambda>(p, t). bindE (delete_pHash_mem p (tm_heap t)) (\<lambda>h.
        bindE (if res_info \<noteq> None then heap_delete True res_info h else Inr h) (\<lambda>h. Inr (t\<lparr>tm_heap := h\<rparr>)))))
     (bindE (get_channel (e_now env) (reslist_uuid m @ [0]) (mgr_of (tm_table t))) (\<lambda>found.
        case found of None \<Rightarrow> send_errormsg (without_heap t)
        | Some node \<Rightarrow> bindE (insert_channel (e_now env) (reslist_uuid m @ [0]) (reslist_node env m node) (mgr_of (tm_table t)))
            (\<lambda>mgr. Inr (without_heap t\<lparr>spt_mgr := mgr\<rparr>))))"
    unfolding r Let_def[of "(r, h)"] prod.case
  proof (rule alike_after[OF reslist_found[OF F]])
    fix x t''
    assume x: "reslist_kept m t d (array_cells r (unat (reslist_count m)) + F) x t''"
    obtain p t' where pt: "x = (p, t')" by fastforce
    show "\<exists>z. (case x of (p, t) \<Rightarrow> bindE (delete_pHash_mem p (tm_heap t)) (\<lambda>h.
        bindE (if r \<noteq> None then heap_delete True r h else Inr h) (\<lambda>h. Inr (t\<lparr>tm_heap := h\<rparr>)))) = Inr z \<and>
      (\<exists>m s. Sp2TsResList_parse (initialize msg n) = Inr (m, s) \<and> loses d F (reslist_loss m t) z t'')"
      using reslist_destroyed[OF x[unfolded pt]] m unfolding pt prod.case by blast
  qed
qed

subsection \<open>The status\<close>

definition status_loss :: "Sp2TsStatus \<Rightarrow> tracker_mem \<Rightarrow> alloc multiset" where
  "status_loss m t = array_of (old_count (status_uuid m @ [0]) (tm_table t))"

definition status_node :: "env \<Rightarrow> Sp2TsStatus \<Rightarrow> ChannelNode \<Rightarrow> ChannelNode" where
  "status_node env m node = node\<lparr>cn_last_recv_report_time := e_now env,
     cn_resourceCount := status_resource_count m, cn_conNum := status_connection_num m,
     cn_bandwidth := status_bandwidth m, cn_exceedMaxConn := (status_exceed_max_connection m \<noteq> 0)\<rparr>"

lemma status_found:
  assumes f: "f = None \<longleftrightarrow> map_find map_str_lt uuid (tm_table t) = None"
    "owned (tm_table t) h d (array_cells q k + F)"
  shows "alike (loses d F (array_of (old_count uuid (tm_table t))))
      (bindE (case f of None \<Rightarrow> Inr (t\<lparr>tm_heap := h\<rparr>)
        | Some node \<Rightarrow> bindE (insert_channel_mem now uuid (g node) (tm_table t) h) (\<lambda>(table, h).
            Inr (t\<lparr>tm_table := table, tm_heap := h\<rparr>)))
       (\<lambda>t. bindE (delete_pHash_mem q (tm_heap t)) (\<lambda>h. Inr (t\<lparr>tm_heap := h\<rparr>))))
      (case f of None \<Rightarrow> send_errormsg (without_heap t)
        | Some node \<Rightarrow> bindE (insert_channel now uuid (g node) (mgr_of (tm_table t)))
            (\<lambda>mgr. Inr (without_heap t\<lparr>spt_mgr := mgr\<rparr>)))"
proof (cases f)
  case None
  obtain h' where "delete_pHash_mem q h = Inr h'" "owned (tm_table t) h' d F" using owned_delete(2)[OF f(2)] by blast
  moreover have "array_of (old_count uuid (tm_table t)) = {#}" using None f(1) by (simp add: old_count_def array_of_def)
  ultimately show ?thesis using None by (simp add: send_errormsg_def loses_def without_heap_def)
next
  case (Some node)
  have after: "\<exists>z. bindE (delete_pHash_mem q h') (\<lambda>h. Inr (t\<lparr>tm_table := table, tm_heap := h\<rparr>)) = Inr z \<and>
      loses d F (array_of (old_count uuid (tm_table t))) z (without_heap t\<lparr>spt_mgr := mgr\<rparr>)"
    if ins: "inserted (tm_table t) uuid d (array_cells q k + F) (table, h') mgr" for table h' mgr
  proof -
    obtain L where L: "mgr = mgr_of table" "owned table h' d (L + (array_cells q k + F))"
      "image_mset snd L = array_of (old_count uuid (tm_table t))" using inserted_step[OF ins] by blast
    then have "owned table h' d (array_cells q k + (L + F))" by (simp add: ac_simps)
    then show ?thesis using owned_delete(2) L(1,3) by (fastforce simp: loses_def without_heap_def)
  qed
  show ?thesis
    unfolding Some option.case bindE_assoc
    by (rule alike_bind[OF insert_channel_mem_alike[OF f(2)]]) (auto dest!: after)
qed

lemma get_status_nodes:
  "get_status env msg n (without_heap t) = bindE (Sp2TsStatus_parse (initialize msg n)) (\<lambda>(m, _).
     bindE (get_channel (e_now env) (status_uuid m @ [0]) (mgr_of (tm_table t))) (\<lambda>found.
     case found of None \<Rightarrow> send_errormsg (without_heap t)
     | Some node \<Rightarrow> bindE (insert_channel (e_now env) (status_uuid m @ [0]) (status_node env m node) (mgr_of (tm_table t)))
         (\<lambda>mgr. Inr (without_heap t\<lparr>spt_mgr := mgr\<rparr>))))"
  "get_status_mem env msg n t = bindE (Sp2TsStatus_parse (initialize msg n)) (\<lambda>(m, _).
     bindE (get_channel_mem (e_now env) (status_uuid m @ [0]) (tm_table t) (tm_heap t)) (\<lambda>(found, p, h).
     bindE (case found of None \<Rightarrow> Inr (t\<lparr>tm_heap := h\<rparr>)
     | Some node \<Rightarrow> bindE (insert_channel_mem (e_now env) (status_uuid m @ [0]) (status_node env m node) (tm_table t) h)
         (\<lambda>(table, h). Inr (t\<lparr>tm_table := table, tm_heap := h\<rparr>)))
       (\<lambda>t. bindE (delete_pHash_mem p (tm_heap t)) (\<lambda>h. Inr (t\<lparr>tm_heap := h\<rparr>)))))"
  unfolding get_status_def get_status_mem_def status_node_def Let_def mgr_without by (rule refl)+

lemma get_status_alike:
  assumes "owned (tm_table t) (tm_heap t) d F"
  shows "alike (\<lambda>t' t''. \<exists>m s. Sp2TsStatus_parse (initialize msg n) = Inr (m, s) \<and> loses d F (status_loss m t) t' t'')
    (get_status_mem env msg n t) (get_status env msg n (without_heap t))"
  unfolding get_status_nodes status_loss_def
  by (rule alike_bind_same, clarify, rule alike_bind[OF get_channel_mem_alike[OF assms]], clarify,
      rule alike_mono, rule status_found) auto

subsection \<open>The list of super peers\<close>

lemma get_cp_address_of_mem_owned:
  assumes "owned table h d F"
  shows "\<exists>p h' c. get_cp_address_of_mem uuid table h = Inr (get_cp_address_of uuid (mgr_of table), p, h') \<and>
    (\<exists>d'. owned table h' d' (array_cells p c + F) \<and> d' = (if p = None then Suc d else d))"
proof -
  obtain q h1 where new: "heap_new (Many 1) h = (q, h1)" by fastforce
  obtain a where a: "q = Some a" "owned table h1 d (add_mset (a, Many 1) F)" using owned_new[OF assms new] by blast
  show ?thesis
    using owned_delete_mixed[OF a(2)] a new
    by (cases "map_find map_str_lt uuid table")
      (fastforce simp: get_cp_address_of_mem_def get_cp_address_of_def find_entries)+
qed

lemma owned_free_sel:
  assumes "owned table h (if p = None then Suc d else d) (array_cells p c + F)"
  shows "\<exists>h'. heap_delete False p h = Inr h' \<and> owned table h' (Suc d) F"
  using assms owned_delete_mixed by (cases p) (auto simp: heap_delete_def)

lemma get_cp_address_others_alike:
  assumes "owned table h d F"
  shows "alike (\<lambda>(n, arr, p, h') r. r = (n, arr) \<and> (\<exists>c. owned table h' (Suc d) (array_cells p c + F)))
    (get_cp_address_others_mem uuid table h) (get_cp_address_others uuid (mgr_of table))"
proof -
  obtain p h1 c where p: "get_cp_address_of_mem uuid table h = Inr (get_cp_address_of uuid (mgr_of table), p, h1)"
    "owned table h1 (if p = None then Suc d else d) (array_cells p c + F)"
    using get_cp_address_of_mem_owned[OF assms] by blast
  let ?n = "int (length table) - 1" and ?sel = "get_cp_address_of uuid (mgr_of table)"
  show ?thesis
  proof (cases "0 \<ge> ?n")
    case True
    then show ?thesis using owned_free_sel[OF p(2)] p(1)
      by (auto simp: get_cp_address_others_mem_def get_cp_address_others_def get_channel_count_def intro: exI[of _ 0])
  next
    case False
    obtain q h2 where new: "heap_new (Many (nat ?n)) h1 = (q, h2)" by fastforce
    obtain a where a: "q = Some a" "owned table h2 (if p = None then Suc d else d) (add_mset (a, Many (nat ?n)) (array_cells p c + F))"
      using owned_new[OF p(2) new] by blast
    have "owned table h2 (if p = None then Suc d else d) (array_cells p c + (array_cells q (nat ?n) + F))"
      using a by (simp add: ac_simps)
    then obtain h3 where h3: "heap_delete False p h2 = Inr h3" "owned table h3 (Suc d) (array_cells q (nat ?n) + F)"
      using owned_free_sel by blast
    have "get_cp_address_others_mem uuid table h =
        bindE (store_others ?sel (entries at_value table) 0 (replicate (nat ?n) NetAddress_new)) (\<lambda>(index, arr).
          bindE (heap_delete False p h2) (\<lambda>h. Inr (index, arr, q, h)))"
      using False by (simp add: get_cp_address_others_mem_def p(1) new)
    moreover have "get_cp_address_others uuid (mgr_of table) =
        store_others ?sel (entries at_value table) 0 (replicate (nat ?n) NetAddress_new)"
      using False by (simp add: get_cp_address_others_def get_channel_count_def)
    ultimately show ?thesis using h3
      by (cases "store_others ?sel (entries at_value table) 0 (replicate (nat ?n) NetAddress_new)") auto
  qed
qed

lemma owned_delete_if:
  "owned table h d (array_cells p c + F) \<Longrightarrow> \<exists>h'. (if p \<noteq> None then heap_delete True p h else Inr h) = Inr h' \<and> owned table h' d F"
  using owned_delete(1)[of table h d p c F] by (cases p) (auto simp: heap_delete_def)

lemma get_sp_list_alike:
  assumes "owned (tm_table t) (tm_heap t) d F"
  shows "alike (loses (Suc d) F {#}) (get_sp_list_mem env msg n t) (get_sp_list env msg n (without_heap t))"
  unfolding get_sp_list_mem_def get_sp_list_def send_sp_list_mem_def send_sp_list_def mgr_without
proof (rule alike_bind_same, clarify, rule alike_bind[OF get_cp_address_others_alike[OF assms]], clarify)
  fix m :: Sp2TsSpList and k arr p h c
  assume o: "owned (tm_table t) h (Suc d) (array_cells p c + F)"
  let ?m = "\<lparr>splist_count = word_of_nat k, splist_addr = arr\<rparr>"
  obtain h' where h': "(if p \<noteq> None then heap_delete True p h else Inr h) = Inr h'" "owned (tm_table t) h' (Suc d) F"
    using owned_delete_if[OF o] by blast
  have "alike (loses (Suc d) F {#})
     (bindE (pack_mem (e_junk env) (Ts2SpSpList_reserve ?m) (Ts2SpSpList_submsg ?m) h) (\<lambda>(payload, payload_nb, h).
        if payload_nb \<noteq> 0 then Inl Uninitialised
        else bindE (if p \<noteq> None then heap_delete True p h else Inr h) (\<lambda>h. Inr (t\<lparr>tm_heap := h\<rparr>))))
     (bindE (RsMessage_pack (e_junk env) (Ts2SpSpList_reserve ?m) (Ts2SpSpList_submsg ?m))
        (\<lambda>(payload, payload_nb). if payload_nb \<noteq> 0 then Inl Uninitialised else Inr (without_heap t)))"
    by (rule alike_bind[OF pack_mem_ledger[OF owned_ledger[OF o]]]) (auto dest: sp_list_written)
  then show "alike (loses (Suc d) F {#})
     (if k = 0 then bindE (if p \<noteq> None then heap_delete True p h else Inr h) (\<lambda>h. Inr (t\<lparr>tm_heap := h\<rparr>))
      else let sp_list = ?m in bindE (pack_mem (e_junk env) (Ts2SpSpList_reserve sp_list) (Ts2SpSpList_submsg sp_list) h)
        (\<lambda>(payload, payload_nb, h). if payload_nb \<noteq> 0 then Inl Uninitialised
          else bindE (if p \<noteq> None then heap_delete True p h else Inr h) (\<lambda>h. Inr (t\<lparr>tm_heap := h\<rparr>))))
     (if k = 0 then Inr (without_heap t)
      else let sp_list = ?m in bindE (RsMessage_pack (e_junk env) (Ts2SpSpList_reserve sp_list) (Ts2SpSpList_submsg sp_list))
        (\<lambda>(payload, payload_nb). if payload_nb \<noteq> 0 then Inl Uninitialised else Inr (without_heap t)))"
    unfolding Let_def using h' by (cases "k = 0") (simp_all only: if_True if_False simp_thms bindE_Inr, simp add: loses_def without_heap_def)
qed

section \<open>Packets, the timer and runs\<close>

text \<open>What a packet makes the tracker lose, and how often an array is freed as an object.\<close>

definition packet_loss :: "env \<Rightarrow> bytes \<Rightarrow> int \<Rightarrow> tracker_mem \<Rightarrow> alloc multiset" where
  "packet_loss env buf nb_buf t =
     (let msg = initialize (drop 5 buf) (sint (dec (take 4 buf) :: u32) - 5)
      in if nb_buf = 0 then {#}
         else if buf ! 4 = msg_code SP2TS_REGISTER then register_loss env t
         else if buf ! 4 = msg_code SP2TS_STATUS then (case Sp2TsStatus_parse msg of Inl _ \<Rightarrow> {#} | Inr (m, _) \<Rightarrow> status_loss m t)
         else if buf ! 4 = msg_code SP2TS_RES_LIST then (case Sp2TsResList_parse msg of Inl _ \<Rightarrow> {#} | Inr (m, _) \<Rightarrow> reslist_loss m t)
         else {#})"

definition packet_mixed :: "bytes \<Rightarrow> int \<Rightarrow> nat" where
  "packet_mixed buf nb_buf = (if nb_buf \<noteq> 0 \<and> buf ! 4 = msg_code SP2TS_GET_SP then 1 else 0)"

lemma dispatch_alike:
  fixes buf :: bytes
  assumes "owned (tm_table t) (tm_heap t) d F" "nb_buf \<noteq> 0"
  defines "msg \<equiv> drop 5 buf" and "n \<equiv> sint (dec (take 4 buf) :: u32) - 5" and "c \<equiv> buf ! 4"
  shows "alike (loses (d + packet_mixed buf nb_buf) F (packet_loss env buf nb_buf t))
      (if c = msg_code SP2TS_REGISTER then get_register_mem env msg n t
       else if c = msg_code SP2TS_STATUS then get_status_mem env msg n t
       else if c = msg_code SP2TS_RES_LIST then get_res_list_mem env msg n t
       else if c = msg_code SP2TS_GET_SP then get_sp_list_mem env msg n t else Inr t)
      (if c = msg_code SP2TS_REGISTER then get_register env msg n (without_heap t)
       else if c = msg_code SP2TS_STATUS then get_status env msg n (without_heap t)
       else if c = msg_code SP2TS_RES_LIST then get_res_list env msg n (without_heap t)
       else if c = msg_code SP2TS_GET_SP then get_sp_list env msg n (without_heap t) else Inr (without_heap t))"
proof -
  note K = packet_loss_def packet_mixed_def Let_def msg_code_inj msg_def[symmetric] n_def[symmetric] c_def[symmetric]
  consider "c = msg_code SP2TS_REGISTER" | "c = msg_code SP2TS_STATUS" | "c = msg_code SP2TS_RES_LIST" |
    "c = msg_code SP2TS_GET_SP" | "c \<notin> msg_code ` {SP2TS_REGISTER, SP2TS_STATUS, SP2TS_RES_LIST, SP2TS_GET_SP}" by blast
  then show ?thesis
  proof cases
    case 1
    then show ?thesis using get_register_alike[OF assms(1), of env msg n] assms(2) by (simp add: K)
  next
    case 2
    then show ?thesis using assms(2) by (simp add: K) (rule alike_mono[OF get_status_alike[OF assms(1), of msg n env]], auto)
  next
    case 3
    then show ?thesis using assms(2) by (simp add: K) (rule alike_mono[OF get_res_list_alike[OF assms(1), of msg n env]], auto)
  next
    case 4
    then show ?thesis using get_sp_list_alike[OF assms(1), of env msg n] assms(2) by (simp add: K)
  next
    case 5
    then show ?thesis using assms(1,2) by (auto simp: K loses_def intro!: exI[of _ "{#}"])
  qed
qed

lemma packet_alike:
  assumes "owned (tm_table t) (tm_heap t) d F"
  shows "alike (\<lambda>(ret, t') (ret', t''). ret = ret' \<and> loses (d + packet_mixed buf nb_buf) F (packet_loss env buf nb_buf t) t' t'')
    (sp_handle_udp_packet_mem env fromaddr buf nb_buf t) (sp_handle_udp_packet env fromaddr buf nb_buf (without_heap t))"
proof (cases "nb_buf = 0")
  case True
  then show ?thesis using assms
    by (auto simp: sp_handle_udp_packet_mem_def sp_handle_udp_packet_def packet_loss_def packet_mixed_def loses_def intro!: exI[of _ "{#}"])
next
  case False
  let ?t = "t\<lparr>tm_last_receive_addr := fromaddr\<rparr>"
  have same: "without_heap t\<lparr>spt_last_receive_addr := fromaddr\<rparr> = without_heap ?t" by (simp add: without_heap_def)
  have loss: "packet_loss env buf nb_buf ?t = packet_loss env buf nb_buf t"
    by (simp add: packet_loss_def register_loss_def status_loss_def reslist_loss_def Let_def split: sum.split)
  have o: "owned (tm_table ?t) (tm_heap ?t) d F" using assms by simp
  show ?thesis
    unfolding sp_handle_udp_packet_mem_def sp_handle_udp_packet_def Let_def same if_not_P[OF False]
    by (rule alike_bind_same, rule alike_bind[OF dispatch_alike[OF o False]]) (simp add: loss)
qed

text \<open>Packets and ticks of the timer, one after the other.\<close>

datatype tracker_event = Arrives env NetAddress bytes int | Ticks int

fun sp_events :: "tracker_event list \<Rightarrow> RsSpTracker \<Rightarrow> RsSpTracker res" where
  "sp_events [] t = Inr t"
| "sp_events (Arrives env fromaddr buf nb_buf # es) t =
     bindE (sp_handle_udp_packet env fromaddr buf nb_buf t) (\<lambda>(_, t). sp_events es t)"
| "sp_events (Ticks now # es) t = sp_events es (t\<lparr>spt_mgr := timer_check now (spt_mgr t)\<rparr>)"

fun sp_events_mem :: "tracker_event list \<Rightarrow> tracker_mem \<Rightarrow> tracker_mem res" where
  "sp_events_mem [] t = Inr t"
| "sp_events_mem (Arrives env fromaddr buf nb_buf # es) t =
     bindE (sp_handle_udp_packet_mem env fromaddr buf nb_buf t) (\<lambda>(_, t). sp_events_mem es t)"
| "sp_events_mem (Ticks now # es) t = bindE (timer_check_mem now t) (sp_events_mem es)"

fun events_loss :: "tracker_event list \<Rightarrow> tracker_mem \<Rightarrow> alloc multiset" where
  "events_loss [] t = {#}"
| "events_loss (Arrives env fromaddr buf nb_buf # es) t =
     packet_loss env buf nb_buf t + (case sp_handle_udp_packet_mem env fromaddr buf nb_buf t of
       Inl _ \<Rightarrow> {#} | Inr (_, t) \<Rightarrow> events_loss es t)"
| "events_loss (Ticks now # es) t = (case timer_check_mem now t of Inl _ \<Rightarrow> {#} | Inr t \<Rightarrow> events_loss es t)"

fun events_mixed :: "tracker_event list \<Rightarrow> nat" where
  "events_mixed [] = 0"
| "events_mixed (Arrives env fromaddr buf nb_buf # es) = packet_mixed buf nb_buf + events_mixed es"
| "events_mixed (Ticks now # es) = events_mixed es"

lemma loses_trans:
  "loses d' (L + F) K' t t' \<Longrightarrow> image_mset snd L = K \<Longrightarrow> loses d' F (K + K') t t'"
  unfolding loses_def by (metis (no_types) add.assoc add.commute image_mset_union)

lemma timer_alike:
  assumes "owned (tm_table t) (tm_heap t) d F"
  shows "\<exists>t'. timer_check_mem now t = Inr t' \<and> owned (tm_table t') (tm_heap t') d F \<and>
    without_heap t' = without_heap t\<lparr>spt_mgr := timer_check now (spt_mgr (without_heap t))\<rparr>"
  using check_channels_mem_alike[OF assms, of now] by (auto simp: timer_check_mem_def timer_check_def without_heap_def)

lemma events_alike:
  "owned (tm_table t) (tm_heap t) d F \<Longrightarrow> alike (loses (d + events_mixed es) F (events_loss es t))
    (sp_events_mem es t) (sp_events es (without_heap t))"
proof (induction es t arbitrary: d F rule: sp_events_mem.induct)
  case (1 t)
  then show ?case by (auto simp: loses_def intro!: exI[of _ "{#}"])
next
  case (2 env fromaddr buf nb_buf es t)
  show ?case unfolding sp_events_mem.simps sp_events.simps
  proof (rule alike_bind[OF packet_alike[OF 2(2)]], clarify)
    fix ret t' t''
    assume mem: "sp_handle_udp_packet_mem env fromaddr buf nb_buf t = Inr (ret, t')"
      and "loses (d + packet_mixed buf nb_buf) F (packet_loss env buf nb_buf t) t' t''"
    then obtain L where L: "t'' = without_heap t'" "owned (tm_table t') (tm_heap t') (d + packet_mixed buf nb_buf) (L + F)"
      "image_mset snd L = packet_loss env buf nb_buf t" by (auto simp: loses_def)
    show "alike (loses (d + events_mixed (Arrives env fromaddr buf nb_buf # es)) F
        (events_loss (Arrives env fromaddr buf nb_buf # es) t)) (sp_events_mem es t') (sp_events es t'')"
      unfolding L(1) by (rule alike_mono[OF 2(1)[OF mem refl L(2)]]) (use mem L(3) in \<open>auto simp: add.assoc intro: loses_trans\<close>)
  qed
next
  case (3 now es t)
  obtain t' where "timer_check_mem now t = Inr t'" "owned (tm_table t') (tm_heap t') d F"
    "without_heap t' = without_heap t\<lparr>spt_mgr := timer_check now (spt_mgr (without_heap t))\<rparr>"
    using timer_alike[OF 3(2)] by blast
  then show ?case using 3(1)[of t' d F] by simp
qed

section \<open>The properties of the memory\<close>

definition tracker_mem_new :: "NetAddress \<Rightarrow> tracker_mem" where
  "tracker_mem_new junk = \<lparr>tm_last_receive_addr = junk, tm_table = [], tm_sent = [],
     tm_heap = \<lparr>hp_next = 0, hp_live = [], hp_mixed = 0\<rparr>\<rparr>"

lemma tracker_mem_new_owned: "owned (tm_table (tracker_mem_new junk)) (tm_heap (tracker_mem_new junk)) 0 {#}"
  by (simp add: tracker_mem_new_def owned_def ledger_def heap_ok_def)

text \<open>
  C7. The memory of the tracker's side for super peers. Whatever packets arrive and whenever
  the timer fires, the run with the heap does what the run without it does: no node and no
  array is freed twice (the heap checks what is deleted; reads and writes of memory that has
  been freed are not modelled). What is on the heap afterwards is what the
  nodes of the table own, a node and its array each, and what was lost, and nothing else:
  \<open>events_loss\<close>, the answer to each registration and the arrays that assignments to a node
  overwrote. Each question for the list of super peers frees one array as if it were an object.
\<close>

theorem tracker_memory:
  "((\<exists>t. sp_events_mem es (tracker_mem_new junk) = Inr t \<and> without_heap t = s) \<longleftrightarrow>
      sp_events es (RsSpTracker_new junk) = Inr s) \<and>
   (\<forall>t. sp_events_mem es (tracker_mem_new junk) = Inr t \<longrightarrow>
      (\<exists>lost. mset (hp_live (tm_heap t)) = map_cells node_cells (tm_table t) + lost \<and>
        distinct (map fst (hp_live (tm_heap t))) \<and> image_mset snd lost = events_loss es (tracker_mem_new junk) \<and>
        hp_mixed (tm_heap t) = events_mixed es))"
proof -
  have "without_heap (tracker_mem_new junk) = RsSpTracker_new junk"
    by (simp add: without_heap_def tracker_mem_new_def RsSpTracker_new_def RsTrackerStreamManager_new_def)
  then have "alike (loses (events_mixed es) {#} (events_loss es (tracker_mem_new junk)))
      (sp_events_mem es (tracker_mem_new junk)) (sp_events es (RsSpTracker_new junk))"
    using events_alike[OF tracker_mem_new_owned, of es junk] by simp
  then show ?thesis
    by (cases rule: rel_sum.cases) (auto simp: loses_def owned_def ledger_def)
qed

text \<open>A registration: its answer is lost.\<close>

theorem tracker_memory_witness:
  "\<exists>t lost. sp_events_mem [Arrives sample_env NetAddress_new
        (packet SP2TS_REGISTER (Sp2TsRegister_content Sp2TsRegister_new) @ [0]) 43] (tracker_mem_new NetAddress_new) = Inr t \<and>
    mset (hp_live (tm_heap t)) = map_cells node_cells (tm_table t) + lost \<and> image_mset snd lost = {#Many 21#} \<and>
    hp_mixed (tm_heap t) = 0"
proof -
  let ?buf = "packet SP2TS_REGISTER (Sp2TsRegister_content Sp2TsRegister_new) @ [0]"
  let ?es = "[Arrives sample_env NetAddress_new ?buf 43]"
  obtain s where s: "sp_handle_udp_packet sample_env NetAddress_new ?buf 43 (RsSpTracker_new NetAddress_new) = Inr (0, s)"
    using sp_registration[of Sp2TsRegister_new "RsSpTracker_new NetAddress_new" 43 sample_env NetAddress_new "[0]"]
    by (auto simp: Sp2TsRegister_wf_def Sp2TsRegister_new_def RsSpTracker_new_def RsTrackerStreamManager_new_def table_ok_def sample_env_def)
  obtain uuid where "generate_uuid (e_rand sample_env 0) (e_rand sample_env 1) (e_rand sample_env 2) (e_rand sample_env 3) = Inr uuid"
    by (simp add: generate_uuid_iff sample_env_def)
  then have "packet_loss sample_env ?buf 43 (tracker_mem_new NetAddress_new) = {#Many 21#}"
    unfolding packet_loss_def Let_def packet_head by (simp add: register_loss_def old_count_def tracker_mem_new_def array_of_def)
  moreover have "packet_mixed ?buf 43 = 0" unfolding packet_mixed_def packet_head by simp
  moreover have "sp_events ?es (RsSpTracker_new NetAddress_new) = Inr s" by (simp only: sp_events.simps s bindE_Inr prod.case)
  ultimately show ?thesis
    using tracker_memory[of ?es NetAddress_new s] by (auto split: sum.splits)
qed

lemma old_count_registered:
  "old_count uuid table = (case registered uuid (mgr_of table) of None \<Rightarrow> 0 | Some n \<Rightarrow> cn_resourceCount n)"
  by (simp add: old_count_def registered_def find_entries split: option.split)

text \<open>A super peer's announcements, one after the other.\<close>

definition announcements :: "NetAddress \<Rightarrow> bytes \<Rightarrow> (env \<times> Sp2TsResList) list \<Rightarrow> tracker_event list" where
  "announcements fromaddr rest xs =
     map (\<lambda>(env, m). Arrives env fromaddr (packet SP2TS_RES_LIST (Sp2TsResList_content m) @ rest)
       (int (length (packet SP2TS_RES_LIST (Sp2TsResList_content m))))) xs"

lemma announcement_mem:
  assumes "Sp2TsResList_wf m" "owned (tm_table t) (tm_heap t) d F" "table_ok (mgr_of (tm_table t))"
    and "registered (reslist_uuid m @ [0]) (mgr_of (tm_table t)) = Some n"
  defines "buf \<equiv> packet SP2TS_RES_LIST (Sp2TsResList_content m)"
  obtains t' L where "sp_handle_udp_packet_mem env fromaddr (buf @ rest) (int (length buf)) t = Inr (0, t')"
    "owned (tm_table t') (tm_heap t') d (L + F)" "table_ok (mgr_of (tm_table t'))"
    "image_mset snd L = array_of (cn_resourceCount n) + array_of (cn_resourceCount n)"
    "registered (reslist_uuid m @ [0]) (mgr_of (tm_table t')) = Some (announced (e_now env) m n)"
proof -
  let ?nb = "int (length buf)"
  have nb: "?nb \<noteq> 0" by (simp add: buf_def packet_def)
  have len: "5 + int (length (Sp2TsResList_content m)) < 2 ^ 31"
    using assms(1) uint_less_nat[of "reslist_count m" 53687090]
    unfolding length_Sp2TsResList_content[OF assms(1)] by (simp add: Sp2TsResList_wf_def)
  obtain mgr where mgr: "sp_handle_udp_packet env fromaddr (buf @ rest) ?nb (without_heap t) =
      Inr (0, without_heap t\<lparr>spt_last_receive_addr := fromaddr, spt_mgr := mgr\<rparr>)" "table_ok mgr"
    "registered (reslist_uuid m @ [0]) mgr = Some (announced (e_now env) m n)"
    using sp_resource_list[OF assms(1) _ nb, of "without_heap t" env fromaddr rest] assms(3,4) unfolding buf_def by auto
  have parse: "Sp2TsResList_parse (initialize (Sp2TsResList_content m @ rest) (int (length (Sp2TsResList_content m)))) =
      Inr (m, adv (length (Sp2TsResList_content m)) (initialize (Sp2TsResList_content m @ rest) (int (length (Sp2TsResList_content m)))))"
    using sp2ts_res_list.parse_content[OF assms(1), where post = "[]"] by simp
  have mixed: "packet_mixed (buf @ rest) ?nb = 0"
    unfolding packet_mixed_def buf_def packet_head msg_code_inj by simp
  have loss: "packet_loss env (buf @ rest) ?nb t = array_of (cn_resourceCount n) + array_of (cn_resourceCount n)"
    unfolding packet_loss_def Let_def buf_def packet_head packet_size[OF len] msg_code_inj if_not_P[OF nb[unfolded buf_def]]
    using parse assms(4) by (simp add: reslist_loss_def old_count_registered Let_def)
  have "alike (\<lambda>(ret, t') (ret', t''). ret = ret' \<and> loses d F (array_of (cn_resourceCount n) + array_of (cn_resourceCount n)) t' t'')
      (sp_handle_udp_packet_mem env fromaddr (buf @ rest) ?nb t) (sp_handle_udp_packet env fromaddr (buf @ rest) ?nb (without_heap t))"
    using packet_alike[OF assms(2), of "buf @ rest" ?nb env fromaddr] by (simp add: mixed loss)
  then obtain t' where t': "sp_handle_udp_packet_mem env fromaddr (buf @ rest) ?nb t = Inr (0, t')"
    "loses d F (array_of (cn_resourceCount n) + array_of (cn_resourceCount n)) t'
      (without_heap t\<lparr>spt_last_receive_addr := fromaddr, spt_mgr := mgr\<rparr>)"
    unfolding mgr(1) by (auto elim: rel_sum.cases)
  then have "mgr_of (tm_table t') = mgr" by (auto simp: loses_def without_heap_def)
  then show ?thesis using that t' mgr(2,3) by (auto simp: loses_def)
qed

text \<open>
  C9. Each announcement of a registered super peer makes the tracker lose two arrays of hashes
  as long as the list the super peer announced before: after any number of announcements,
  these are on the heap besides what was there before, and no node of the table owns them.
\<close>

theorem announcements_leak:
  assumes "\<forall>(env, m)\<in>set xs. Sp2TsResList_wf m \<and> reslist_uuid m = u"
    and "owned (tm_table t) (tm_heap t) d F" "table_ok (mgr_of (tm_table t))"
    and "registered (u @ [0]) (mgr_of (tm_table t)) = Some n"
  shows "\<exists>t' lost. sp_events_mem (announcements fromaddr rest xs) t = Inr t' \<and>
    owned (tm_table t') (tm_heap t') d (lost + F) \<and>
    image_mset snd lost = (\<Sum>c\<leftarrow>butlast (cn_resourceCount n # map (reslist_count \<circ> snd) xs). array_of c + array_of c)"
  using assms
proof (induction xs arbitrary: t F n)
  case Nil
  then show ?case by (auto simp: announcements_def intro!: exI[of _ "{#}"])
next
  case (Cons x xs)
  obtain env m where x: "x = (env, m)" "Sp2TsResList_wf m" "reslist_uuid m = u" using Cons.prems(1) by (cases x) auto
  obtain t1 L where t1: "sp_handle_udp_packet_mem env fromaddr (packet SP2TS_RES_LIST (Sp2TsResList_content m) @ rest)
      (int (length (packet SP2TS_RES_LIST (Sp2TsResList_content m)))) t = Inr (0, t1)"
    "owned (tm_table t1) (tm_heap t1) d (L + F)" "table_ok (mgr_of (tm_table t1))"
    "image_mset snd L = array_of (cn_resourceCount n) + array_of (cn_resourceCount n)"
    "registered (u @ [0]) (mgr_of (tm_table t1)) = Some (announced (e_now env) m n)"
    using announcement_mem[OF x(2) Cons.prems(2,3), of n env fromaddr rest] Cons.prems(4) x(3) by metis
  have count: "cn_resourceCount (announced (e_now env) m n) = reslist_count m" by (simp add: announced_def)
  have "\<forall>(env, m)\<in>set xs. Sp2TsResList_wf m \<and> reslist_uuid m = u" using Cons.prems(1) by simp
  from Cons.IH[OF this t1(2,3,5)] obtain t' lost where "sp_events_mem (announcements fromaddr rest xs) t1 = Inr t'"
    "owned (tm_table t') (tm_heap t') d (lost + (L + F))"
    "image_mset snd lost = (\<Sum>c\<leftarrow>butlast (reslist_count m # map (reslist_count \<circ> snd) xs). array_of c + array_of c)"
    unfolding count by blast
  then show ?case using t1(1,4) x(1)
    by (intro exI[of _ t'] exI[of _ "lost + L"]) (simp add: announcements_def ac_simps comp_def)
qed

text \<open>Two announcements of one resource by a super peer that has announced one: four arrays are lost.\<close>

definition sample_announcement :: Sp2TsResList where
  "sample_announcement = \<lparr>reslist_uuid = replicate UUID_LENGTH 65, reslist_count = 1,
     reslist_info = [\<lparr>res_md5 = replicate MD5_LEN 97, res_block_interval = \<lparr>bi_start = 0, bi_size = 5\<rparr>\<rparr>]\<rparr>"

definition sample_tracker_mem :: tracker_mem where
  "sample_tracker_mem = \<lparr>tm_last_receive_addr = NetAddress_new,
     tm_table = [(replicate UUID_LENGTH 65 @ [0], \<lparr>at_node = 0, at_pHash = Some 1, at_value = sample_node\<rparr>)], tm_sent = [],
     tm_heap = \<lparr>hp_next = 2, hp_live = [(0, One), (1, Many 1)], hp_mixed = 0\<rparr>\<rparr>"

theorem announcements_leak_witness:
  "\<exists>t' lost. sp_events_mem (announcements NetAddress_new [0] [(sample_env, sample_announcement), (sample_env, sample_announcement)])
      sample_tracker_mem = Inr t' \<and> owned (tm_table t') (tm_heap t') 0 (lost + {#}) \<and>
    image_mset snd lost = {#Many 1, Many 1, Many 1, Many 1#}"
proof -
  let ?xs = "[(sample_env, sample_announcement), (sample_env, sample_announcement)]"
  have wf: "\<forall>(env, m)\<in>set ?xs. Sp2TsResList_wf m \<and> reslist_uuid m = replicate UUID_LENGTH 65"
    by (simp add: Sp2TsResList_wf_def sample_announcement_def)
  have own: "owned (tm_table sample_tracker_mem) (tm_heap sample_tracker_mem) 0 {#}"
    by (simp add: owned_def ledger_def heap_ok_def node_cells_def sample_tracker_mem_def sample_node_def)
  have ok: "table_ok (mgr_of (tm_table sample_tracker_mem))"
    using sample_node_ok by (simp add: table_ok_def sample_tracker_mem_def)
  have reg: "registered (replicate UUID_LENGTH 65 @ [0]) (mgr_of (tm_table sample_tracker_mem)) = Some sample_node"
    by (simp add: registered_def sample_tracker_mem_def)
  have "(\<Sum>c\<leftarrow>butlast (cn_resourceCount sample_node # map (reslist_count \<circ> snd) ?xs). array_of c + array_of c) =
      {#Many 1, Many 1, Many 1, Many 1#}"
    by (simp add: sample_node_def sample_announcement_def array_of_def)
  with announcements_leak[OF wf own ok reg, of NetAddress_new "[0]"] show ?thesis by simp
qed

end
