(* ===== verification/Async_Logger.thy ===== *)
theory Async_Logger
  imports C_String
begin

text \<open>
  \<open>core/logger.h\<close> and \<open>core/async_logger.h\<close>, \<open>.cpp\<close>: the ids of threads and the log. What
  the system returns (the time and its calendar form, the process id, \<open>errno\<close>, opened files)
  is an argument, and so is the message \<open>vsnprintf\<close> makes of its format, \<open>None\<close> if it fails.
\<close>

section \<open>The ids of the threads\<close>

record 'tid RsThreadContext =
  tc_cache :: "'tid \<rightharpoonup> int"
  tc_next :: int

definition RsThreadContext_new :: "'tid RsThreadContext" where
  "RsThreadContext_new = \<lparr>tc_cache = Map.empty, tc_next = 100\<rparr>"

definition generate_id :: "'tid \<Rightarrow> 'tid RsThreadContext \<Rightarrow> int \<times> 'tid RsThreadContext" where
  "generate_id self c = (let gid = tc_next c in (gid, c\<lparr>tc_next := gid + 1, tc_cache := (tc_cache c)(self \<mapsto> gid)\<rparr>))"

text \<open>\<open>operator[]\<close> of a map inserts 0 for a key it does not have.\<close>

definition get_id :: "'tid \<Rightarrow> 'tid RsThreadContext \<Rightarrow> int \<times> 'tid RsThreadContext" where
  "get_id self c =
     (case tc_cache c self of Some i \<Rightarrow> (i, c) | None \<Rightarrow> (0, c\<lparr>tc_cache := (tc_cache c)(self \<mapsto> 0)\<rparr>))"

definition set_id :: "'tid \<Rightarrow> int \<Rightarrow> 'tid RsThreadContext \<Rightarrow> int \<times> 'tid RsThreadContext" where
  "set_id self v c =
     (case tc_cache c self of None \<Rightarrow> 0 | Some i \<Rightarrow> i, c\<lparr>tc_cache := (tc_cache c)(self \<mapsto> v)\<rparr>)"

lemma set_get_id: "fst (get_id self (snd (set_id self' v c))) = (if self = self' then v else fst (get_id self c))"
  by (simp add: get_id_def set_id_def split: option.splits)

lemma generate_get_id: "generate_id self c = (gid, c') \<Longrightarrow> fst (get_id self c') = gid \<and> tc_next c < tc_next c'"
  by (auto simp: generate_id_def get_id_def Let_def)

section \<open>The log\<close>

datatype LogLevel = Verbose | Info | Trace | Warn | Error | Disabled

fun level_code :: "LogLevel \<Rightarrow> int" where
  "level_code Verbose = 0"
| "level_code Info = 1"
| "level_code Trace = 2"
| "level_code Warn = 3"
| "level_code Error = 4"
| "level_code Disabled = 5"

fun level_name :: "LogLevel \<Rightarrow> bytes" where
  "level_name Verbose = chars ''verb''"
| "level_name Info = chars ''info''"
| "level_name Trace = chars ''trace''"
| "level_name Warn = chars ''warn''"
| "level_name Error = chars ''error''"
| "level_name Disabled = chars ''unknow''"

abbreviation LOG_MAX_SIZE :: nat where "LOG_MAX_SIZE \<equiv> 4096"
abbreviation LOG_TAIL :: u8 where "LOG_TAIL \<equiv> 10"
abbreviation LOG_TAIL_SIZE :: nat where "LOG_TAIL_SIZE \<equiv> 1"
abbreviation MAX_PATH :: nat where "MAX_PATH \<equiv> 255"

record calendar =
  tm_year :: int
  tm_mon :: int
  tm_mday :: int
  tm_hour :: int
  tm_min :: int
  tm_sec :: int

text \<open>\<open>lo_open_append\<close> and \<open>lo_open_create\<close> return a descriptor; \<open>lo_enoent\<close>: why the first failed.\<close>

record log_env =
  lo_tv :: "(int \<times> int) option"
  lo_gmtime :: "int \<Rightarrow> calendar option"
  lo_localtime :: "int \<Rightarrow> calendar option"
  lo_pid :: int
  lo_errno :: int
  lo_open_append :: "bytes \<Rightarrow> int"
  lo_enoent :: bool
  lo_open_create :: "bytes \<Rightarrow> int"

text \<open>\<open>lg_console\<close> and \<open>lg_file\<close> collect what was printed and written to the log file.\<close>

record RsAsyncLogger =
  lg_log_level :: int
  lg_log_data :: bytes
  lg_fd :: int
  lg_log_to_file_tank :: bool
  lg_utc :: bool
  lg_console :: bytes
  lg_file :: bytes

definition RsAsyncLogger_new :: "(nat \<Rightarrow> u8) \<Rightarrow> RsAsyncLogger" where
  "RsAsyncLogger_new junk = \<lparr>lg_log_level = 0, lg_log_data = map junk [0..<LOG_MAX_SIZE], lg_fd = -1,
     lg_log_to_file_tank = True, lg_utc = False, lg_console = [], lg_file = []\<rparr>"

text \<open>\<open>snprintf\<close> of the text \<open>s\<close> to the offset \<open>p\<close> of a buffer, with room for \<open>n\<close> bytes there.\<close>

definition snprintf_at :: "nat \<Rightarrow> nat \<Rightarrow> bytes \<Rightarrow> bytes \<Rightarrow> bytes res" where
  "snprintf_at p n s buf =
     (let out = (if n = 0 then [] else take (n - 1) s @ [0])
      in bindE (guardE Out_Of_Bounds (p + length out \<le> length buf)) (\<lambda>_.
         Inr (take p buf @ out @ drop (p + length out) buf)))"

definition stamp :: "calendar \<Rightarrow> int \<Rightarrow> bytes" where
  "stamp tm usec = format_d (1900 + tm_year tm) @ [45] @ format_0d 2 (1 + tm_mon tm) @ [45] @ format_0d 2 (tm_mday tm) @ [32] @
     format_0d 2 (tm_hour tm) @ [58] @ format_0d 2 (tm_min tm) @ [58] @ format_0d 2 (tm_sec tm) @ [46] @ format_0d 3 (usec div 1000)"

definition bracket :: "bytes \<Rightarrow> bytes" where
  "bracket s = [91] @ s @ [93]"

text \<open>The text of the four formats.\<close>

definition header_text :: "log_env \<Rightarrow> bool \<Rightarrow> bytes option \<Rightarrow> int \<Rightarrow> bytes \<Rightarrow> calendar \<Rightarrow> int \<Rightarrow> bytes" where
  "header_text env err tag context_id name tm usec =
     bracket (stamp tm usec) @ bracket name @ (case tag of None \<Rightarrow> [] | Some t \<Rightarrow> bracket t) @
     bracket (format_d (lo_pid env)) @ bracket (format_d context_id) @
     (if err then bracket (format_d (lo_errno env)) else []) @ [32]"

text \<open>\<open>None\<close>: it returned false.\<close>

definition generate_header :: "log_env \<Rightarrow> bool \<Rightarrow> bytes option \<Rightarrow> int \<Rightarrow> bytes \<Rightarrow> RsAsyncLogger \<Rightarrow> (nat option \<times> RsAsyncLogger) res" where
  "generate_header env err tag context_id name l =
     (case lo_tv env of None \<Rightarrow> Inr (None, l)
      | Some (tv_sec, tv_usec) \<Rightarrow>
          (case (if lg_utc l then lo_gmtime env tv_sec else lo_localtime env tv_sec) of
             None \<Rightarrow> Inr (None, l)
           | Some tm \<Rightarrow>
               let t = header_text env err tag context_id name tm tv_usec
               in bindE (snprintf_at 0 LOG_MAX_SIZE t (lg_log_data l)) (\<lambda>data.
                  Inr (Some (min (LOG_MAX_SIZE - 1) (length t)), l\<lparr>lg_log_data := data\<rparr>))))"

definition open_log_file :: "log_env \<Rightarrow> RsAsyncLogger \<Rightarrow> RsAsyncLogger" where
  "open_log_file env l =
     (case lo_tv env of None \<Rightarrow> l
      | Some (tv_sec, tv_usec) \<Rightarrow>
          (case lo_localtime env tv_sec of None \<Rightarrow> l
           | Some tm \<Rightarrow>
               let filename = take (MAX_PATH - 1) (chars ''log-'' @ format_d (1900 + tm_year tm) @ [45] @ format_0d 2 (1 + tm_mon tm) @ [45] @
                     format_0d 2 (tm_mday tm) @ [45] @ format_0d 2 (tm_hour tm) @ [45] @ format_0d 2 (tm_min tm) @ [45] @
                     format_0d 2 (tm_sec tm) @ [46] @ format_0d 3 (tv_usec div 1000));
                   fd = lo_open_append env filename
               in if fd = -1 \<and> lo_enoent env then l\<lparr>lg_fd := lo_open_create env filename\<rparr> else l\<lparr>lg_fd := fd\<rparr>))"

definition write_log :: "log_env \<Rightarrow> nat \<Rightarrow> LogLevel \<Rightarrow> RsAsyncLogger \<Rightarrow> RsAsyncLogger res" where
  "write_log env n level l =
     (let n = min (LOG_MAX_SIZE - 1 - LOG_TAIL_SIZE) n
      in bindE (guardE Out_Of_Bounds (n < length (lg_log_data l))) (\<lambda>_.
         let l = l\<lparr>lg_log_data := (lg_log_data l)[n := LOG_TAIL]\<rparr>; n = n + 1; line = take n (lg_log_data l)
         in if \<not> lg_log_to_file_tank l then
              let s = until_zero line
              in Inr (l\<lparr>lg_console := lg_console l @
                (if level_code level \<le> level_code Trace then s
                 else if level = Warn then [27] @ chars ''[33m'' @ s @ [27] @ chars ''[0m''
                 else [27] @ chars ''[31m'' @ s @ [27] @ chars ''[0m'')\<rparr>)
            else
              let l = (if lg_fd l < 0 then open_log_file env l else l)
              in Inr (if lg_fd l > 0 then l\<lparr>lg_file := lg_file l @ line\<rparr> else l)))"

text \<open>The sum of the header's size and the result of \<open>vsnprintf\<close>, which may be -1, is never negative.\<close>

definition log_message :: "log_env \<Rightarrow> LogLevel \<Rightarrow> bytes option \<Rightarrow> int \<Rightarrow> bytes option \<Rightarrow> RsAsyncLogger \<Rightarrow> RsAsyncLogger res" where
  "log_message env level tag context_id message l =
     (if lg_log_level l > level_code level then Inr l
      else
        bindE (generate_header env False tag context_id (level_name level) l) (\<lambda>(header_size, l).
        case header_size of None \<Rightarrow> Inr l
        | Some n \<Rightarrow>
            (case message of
               None \<Rightarrow> write_log env (n - 1) level l
             | Some m \<Rightarrow>
                 bindE (snprintf_at n (LOG_MAX_SIZE - n) m (lg_log_data l)) (\<lambda>data.
                 write_log env (n + length m) level (l\<lparr>lg_log_data := data\<rparr>)))))"

section \<open>A line of the log\<close>

lemma length_snprintf_at: "snprintf_at p n s buf = Inr buf' \<Longrightarrow> length buf' = length buf"
  by (auto simp: snprintf_at_def Let_def res_invert split: if_splits)

lemma snprintf_at_fits:
  assumes "p + n = length buf" "0 < n"
  shows "\<exists>buf'. snprintf_at p n s buf = Inr buf' \<and> length buf' = length buf \<and>
    (\<forall>k \<le> p + min (n - 1) (length s). take k buf' = take k (take p buf @ s))"
proof -
  let ?buf = "take p buf @ (take (n - 1) s @ [0]) @ drop (p + length (take (n - 1) s @ [0])) buf"
  have "snprintf_at p n s buf = Inr ?buf" using assms by (auto simp: snprintf_at_def Let_def)
  moreover have "take k ?buf = take k (take p buf @ s)" if "k \<le> p + min (n - 1) (length s)" for k
    using that assms by (cases "length s \<le> n - 1") auto
  moreover have "length ?buf = length buf" using assms by auto
  ultimately show ?thesis by blast
qed

text \<open>
  A line is the header, the message and a newline, cut to 4,094 characters before the newline;
  the buffer is never left, however long the message is.
\<close>

lemma log_line:
  assumes "length (lg_log_data l) = LOG_MAX_SIZE" "lg_log_level l \<le> level_code level" "lg_log_to_file_tank l" "lg_fd l > 0"
    and "lo_tv env = Some (sec, usec)" "(if lg_utc l then lo_gmtime env sec else lo_localtime env sec) = Some tm"
  shows "\<exists>l'. log_message env level tag context_id (Some message) l = Inr l' \<and> length (lg_log_data l') = LOG_MAX_SIZE \<and>
    lg_file l' = lg_file l @
      take 4094 (header_text env False tag context_id (level_name level) tm usec @ message) @ [LOG_TAIL]"
proof -
  let ?t = "header_text env False tag context_id (level_name level) tm usec"
  let ?n = "min (LOG_MAX_SIZE - 1) (length ?t)"
  obtain b1 where b1: "snprintf_at 0 LOG_MAX_SIZE ?t (lg_log_data l) = Inr b1" "length b1 = LOG_MAX_SIZE"
    "\<forall>k\<le>?n. take k b1 = take k ?t"
    using snprintf_at_fits[of 0 LOG_MAX_SIZE "lg_log_data l" ?t] assms(1) by auto
  have n: "?n \<le> 4095" "?n + (LOG_MAX_SIZE - ?n) = length b1" "0 < LOG_MAX_SIZE - ?n" using b1(2) by auto
  obtain b2 where b2: "snprintf_at ?n (LOG_MAX_SIZE - ?n) message b1 = Inr b2" "length b2 = LOG_MAX_SIZE"
    "\<forall>k\<le>?n + min (LOG_MAX_SIZE - ?n - 1) (length message). take k b2 = take k (take ?n b1 @ message)"
    using snprintf_at_fits[OF n(2,3), of message] b1(2) by auto
  let ?m = "min 4094 (?n + length message)"
  have "?m \<le> ?n + min (LOG_MAX_SIZE - ?n - 1) (length message)" by auto
  then have "take ?m b2 = take ?m (take ?n ?t @ message)" using b2(3) b1(3) by simp
  also have "\<dots> = take 4094 (?t @ message)" by (cases "length ?t \<le> 4095") (auto simp: min_def)
  finally have line: "take (Suc ?m) (b2[?m := LOG_TAIL]) = take 4094 (?t @ message) @ [LOG_TAIL]"
    using b2(2) by (subst take_Suc_conv_app_nth) simp_all
  have header: "generate_header env False tag context_id (level_name level) l = Inr (Some ?n, l\<lparr>lg_log_data := b1\<rparr>)"
    using assms(5,6) b1(1) by (simp add: generate_header_def Let_def)
  have "log_message env level tag context_id (Some message) l = write_log env (?n + length message) level (l\<lparr>lg_log_data := b2\<rparr>)"
    using header assms(2) b2(1) by (simp add: log_message_def)
  also have "\<dots> = Inr (l\<lparr>lg_log_data := b2[?m := LOG_TAIL], lg_file := lg_file l @ take (Suc ?m) (b2[?m := LOG_TAIL])\<rparr>)"
    using assms(3,4) b2(2) by (simp add: write_log_def Let_def)
  finally show ?thesis using line b2(2) by simp
qed

section \<open>The log of the process\<close>

text \<open>The two pointers of \<open>async_logger.cpp\<close>; \<open>delete\<close> leaves a pointer as it is.\<close>

datatype 'a pointer = Null | Dangling | To 'a

record 'tid log_system =
  ls_log :: "RsAsyncLogger pointer"
  ls_context :: "'tid RsThreadContext pointer"

definition log_system_unset :: "'tid log_system" where
  "log_system_unset = \<lparr>ls_log = Null, ls_context = Null\<rparr>"

fun deref :: "'a pointer \<Rightarrow> 'a res" where
  "deref Null = Inl Null_Pointer"
| "deref Dangling = Inl Use_After_Free"
| "deref (To x) = Inr x"

fun delete_at :: "'a pointer \<Rightarrow> 'a pointer res" where
  "delete_at Null = Inr Null"
| "delete_at Dangling = Inl Use_After_Free"
| "delete_at (To x) = Inr Dangling"

definition init_log_system :: "(nat \<Rightarrow> u8) \<Rightarrow> 'tid log_system \<Rightarrow> 'tid log_system" where
  "init_log_system junk ls = ls\<lparr>ls_log := To (RsAsyncLogger_new junk), ls_context := To RsThreadContext_new\<rparr>"

definition deinit_log_system :: "'tid log_system \<Rightarrow> 'tid log_system res" where
  "deinit_log_system ls =
     bindE (delete_at (ls_log ls)) (\<lambda>p.
     bindE (delete_at (ls_context ls)) (\<lambda>q. Inr (ls\<lparr>ls_log := p, ls_context := q\<rparr>)))"

text \<open>The macros \<open>RSLOGV\<close> to \<open>RSLOGE\<close> of \<open>logger.h\<close>, which differ in the level.\<close>

definition RSLOG :: "log_env \<Rightarrow> 'tid \<Rightarrow> LogLevel \<Rightarrow> bytes option \<Rightarrow> 'tid log_system \<Rightarrow> 'tid log_system res" where
  "RSLOG env self level message ls =
     bindE (deref (ls_context ls)) (\<lambda>c.
     let (context_id, c) = get_id self c; ls = ls\<lparr>ls_context := To c\<rparr>
     in bindE (deref (ls_log ls)) (\<lambda>l.
        bindE (log_message env level None context_id message l) (\<lambda>l. Inr (ls\<lparr>ls_log := To l\<rparr>))))"

lemma log_after_deinit:
  "RSLOG env self level message log_system_unset = Inl Null_Pointer"
  "deinit_log_system (init_log_system junk ls) = Inr ls' \<Longrightarrow> RSLOG env self level message ls' = Inl Use_After_Free"
  "deinit_log_system (init_log_system junk ls) = Inr ls' \<Longrightarrow> deinit_log_system ls' = Inl Use_After_Free"
  by (auto simp: RSLOG_def log_system_unset_def init_log_system_def deinit_log_system_def)

end
